(* ===== verification/Py_Prelude.thy ===== *)
theory Py_Prelude
  imports Main
begin

unbundle bit_operations_syntax

text \<open>
  Prelude of the development: Python exceptions, the state-and-exception computations in
  which the methods of pyuring are written, the integer conversions of the Python code
  (\<open>& 0xFFFFFFFF\<close>) and of ctypes (conversion of an unbounded Python int to a C integer
  type), the Linux \<open>errno\<close> numbers the code names, and generic lemmas.
\<close>

named_theorems py_defs \<open>definitions of the state-and-exception combinators\<close>
named_theorems wrap_simps \<open>facts on conversions of integers to a C width\<close>

subsection \<open>Exceptions\<close>

text \<open>
  The object raised by the native layer (\<open>native/errors.py\<close>): its numeric \<open>errno\<close> and
  the fields the class stores.  The message is a function of these fields
  (theory \<open>Uring_Errors\<close>).
\<close>

record uring_error =
  ue_errno :: int
  ue_operation :: string
  ue_detail :: "string option"
  ue_filename :: "string option"
  ue_offset :: "int option"
  ue_length :: "int option"

datatype exn =
    UringError uring_error
  | OSError int
  | ValueError string
  | TypeError string
  | RuntimeError string
  | ArgumentError
  | BufferError string
  | AssertionError
  | ZeroDivisionError
  | CancelledError
  | OtherException nat

text \<open>Messages quote the words they name.\<close>

abbreviation quoted :: "string \<Rightarrow> string" where "quoted s \<equiv> [CHR 0x27] @ s @ [CHR 0x27]"

subsection \<open>Linux errno numbers\<close>

abbreviation "EPERM \<equiv> (1::int)"
abbreviation "ENOENT \<equiv> (2::int)"
abbreviation "EIO \<equiv> (5::int)"
abbreviation "EAGAIN \<equiv> (11::int)"
abbreviation "ENOMEM \<equiv> (12::int)"
abbreviation "EACCES \<equiv> (13::int)"
abbreviation "ENODEV \<equiv> (19::int)"
abbreviation "EINVAL \<equiv> (22::int)"
abbreviation "ENOSYS \<equiv> (38::int)"
abbreviation "ETIME \<equiv> (62::int)"
abbreviation "EOPNOTSUPP \<equiv> (95::int)"
abbreviation "ECANCELED \<equiv> (125::int)"

subsection \<open>State-and-exception computations\<close>

text \<open>
  A method takes the state and returns either an exception (\<open>Inl\<close>) or a value (\<open>Inr\<close>),
  together with the state it leaves, also when it raises.
\<close>

type_synonym ('s, 'a) py = "'s \<Rightarrow> (exn + 'a) \<times> 's"

definition py_return :: "'a \<Rightarrow> ('s, 'a) py" where
  [py_defs]: "py_return x = (\<lambda>s. (Inr x, s))"

definition py_raise :: "exn \<Rightarrow> ('s, 'a) py" where
  [py_defs]: "py_raise e = (\<lambda>s. (Inl e, s))"

definition py_bind :: "('s, 'a) py \<Rightarrow> ('a \<Rightarrow> ('s, 'b) py) \<Rightarrow> ('s, 'b) py" where
  [py_defs]: "py_bind m k = (\<lambda>s. case m s of (Inl e, s') \<Rightarrow> (Inl e, s') | (Inr x, s') \<Rightarrow> k x s')"

text \<open>\<open>try: m except C as e: h(e)\<close>, where \<open>c\<close> tells which exceptions the clause catches.\<close>

definition py_catch :: "(exn \<Rightarrow> bool) \<Rightarrow> ('s, 'a) py \<Rightarrow> (exn \<Rightarrow> ('s, 'a) py) \<Rightarrow> ('s, 'a) py" where
  [py_defs]: "py_catch c m h = (\<lambda>s. case m s of
     (Inl e, s') \<Rightarrow> if c e then h e s' else (Inl e, s') | (Inr x, s') \<Rightarrow> (Inr x, s'))"

definition py_modify :: "('s \<Rightarrow> 's) \<Rightarrow> ('s, unit) py" where
  [py_defs]: "py_modify f = (\<lambda>s. (Inr (), f s))"

text \<open>A pure computation that may raise, used inside a method.\<close>

definition py_lift :: "exn + 'a \<Rightarrow> ('s, 'a) py" where
  [py_defs]: "py_lift r = (case r of Inl e \<Rightarrow> py_raise e | Inr x \<Rightarrow> py_return x)"

definition py_map :: "('a \<Rightarrow> 'b) \<Rightarrow> ('s, 'a) py \<Rightarrow> ('s, 'b) py" where
  [py_defs]: "py_map f m = py_bind m (\<lambda>x. py_return (f x))"

lemma py_bind_return [simp]: "py_bind (py_return x) k = k x"
  by (simp add: py_defs)

lemma py_bind_raise [simp]: "py_bind (py_raise e) k = py_raise e"
  by (simp add: py_defs)

lemma py_bind_assoc: "py_bind (py_bind m f) g = py_bind m (\<lambda>x. py_bind (f x) g)"
  by (auto simp: py_defs fun_eq_iff split: prod.split sum.split)

lemma py_raise_apply: "py_raise e s = (Inl e, s)"
  by (simp add: py_raise_def)

lemma py_return_apply: "py_return x s = (Inr x, s)"
  by (simp add: py_return_def)

lemma py_bind_eq:
  "py_bind m k s = (case fst (m s) of Inl e \<Rightarrow> (Inl e, snd (m s)) | Inr x \<Rightarrow> k x (snd (m s)))"
  by (simp add: py_bind_def split_beta)

lemma py_lift_Inl [simp]: "py_lift (Inl e) = py_raise e"
  by (simp add: py_lift_def)

lemma py_lift_Inr [simp]: "py_lift (Inr x) = py_return x"
  by (simp add: py_lift_def)

subsection \<open>Sums as results\<close>

definition sum_bind :: "'e + 'a \<Rightarrow> ('a \<Rightarrow> 'e + 'b) \<Rightarrow> 'e + 'b" where
  "sum_bind r k = (case r of Inl e \<Rightarrow> Inl e | Inr x \<Rightarrow> k x)"

lemma sum_bind_simps [simp]:
  "sum_bind (Inl e) k = Inl e"
  "sum_bind (Inr x) k = k x"
  by (simp_all add: sum_bind_def)

lemma sum_bind_Inr_iff: "sum_bind r k = Inr y \<longleftrightarrow> (\<exists>x. r = Inr x \<and> k x = Inr y)"
  by (cases r) auto

subsection \<open>Integer conversions\<close>

text \<open>
  \<open>int(x) & 0xFFFFFFFF\<close> and \<open>int(x) & 0xFFFFFFFFFFFFFFFF\<close> of the Python source, on
  Python's unbounded integers.
\<close>

definition mask32 :: "int \<Rightarrow> int" where
  "mask32 n = n AND 0xFFFFFFFF"

definition mask64 :: "int \<Rightarrow> int" where
  "mask64 n = n AND 0xFFFFFFFFFFFFFFFF"

lemma mask32_eq: "mask32 n = take_bit 32 n"
  by (simp add: mask32_def take_bit_eq_mask mask_eq_exp_minus_1)

lemma mask64_eq: "mask64 n = take_bit 64 n"
  by (simp add: mask64_def take_bit_eq_mask mask_eq_exp_minus_1)

lemma take_bit_range [wrap_simps]:
  "0 \<le> take_bit k (n::int)" "take_bit k (n::int) < 2 ^ k"
  by simp_all

lemma take_bit_id [wrap_simps]: "0 \<le> n \<Longrightarrow> n < 2 ^ k \<Longrightarrow> take_bit k (n::int) = n"
  by (simp add: take_bit_int_eq_self_iff)

lemma signed_take_bit_id [wrap_simps]:
  "- (2 ^ k) \<le> n \<Longrightarrow> n < 2 ^ k \<Longrightarrow> signed_take_bit k (n::int) = n"
  by (simp add: signed_take_bit_int_eq_self_iff)

lemma signed_take_bit_range [wrap_simps]:
  "- (2 ^ k) \<le> signed_take_bit k (n::int)" "signed_take_bit k (n::int) < 2 ^ k"
  by (simp_all add: signed_take_bit_int_greater_eq_minus_exp signed_take_bit_int_less_exp)

lemma signed_take_bit_63_large:
  assumes "2 ^ 63 \<le> n" "n < 2 ^ 64" shows "signed_take_bit 63 (n::int) = n - 2 ^ 64"
proof -
  have "take_bit 64 (n + 2 ^ 63) = (n + 2 ^ 63) mod 2 ^ 64" by (rule take_bit_eq_mod)
  also have "\<dots> = (n + 2 ^ 63 - 2 ^ 64) mod 2 ^ 64" by (rule mod_pos_geq [THEN trans]) (use assms in auto)
  also have "\<dots> = n + 2 ^ 63 - 2 ^ 64" using assms by (intro mod_pos_pos_trivial) auto
  finally show ?thesis by (simp add: signed_take_bit_eq_take_bit_shift)
qed

lemma mask32_range: "0 \<le> mask32 n" "mask32 n < 2 ^ 32"
  using take_bit_range(2) [of 32 n] by (simp_all add: mask32_eq)

lemma mask64_range: "0 \<le> mask64 n" "mask64 n < 2 ^ 64"
  using take_bit_range(2) [of 64 n] by (simp_all add: mask64_eq)

lemma take_bit_le_self: "0 \<le> (n::int) \<Longrightarrow> take_bit k n \<le> n"
  by (simp add: take_bit_int_less_eq_self_iff)

subsection \<open>Lists\<close>

lemma map_of_remove1_distinct:
  "distinct (map f xs) \<Longrightarrow> x \<in> set (remove1 y xs) \<Longrightarrow> y \<in> set xs \<Longrightarrow> f x \<noteq> f y"
  by (induction xs) (auto simp: image_iff split: if_splits)

lemma distinct_map_remove1: "distinct (map f xs) \<Longrightarrow> distinct (map f (remove1 y xs))"
  using set_remove1_subset [of y] by (induction xs) (auto simp: image_iff)

end
