(* ===== verification/Uring_Errors.thy ===== *)
theory Uring_Errors
  imports Py_Prelude
begin

unbundle bit_operations_syntax

text \<open>
  \<open>pyuring/native/errors.py\<close>: the exception \<open>UringError\<close> and the check
  \<open>_raise_for_neg_errno\<close> that every wrapper applies to the result of a native call.
  \<open>os.strerror\<close> and \<open>repr\<close> of a string belong to the platform and are arguments of the
  message function.
\<close>

subsection \<open>The exception object\<close>

(* pyuring/native/errors.py:29-61 UringError.__init__ *)
definition UringError_init ::
  "int \<Rightarrow> string \<Rightarrow> string option \<Rightarrow> string option \<Rightarrow> int option \<Rightarrow> int option \<Rightarrow> uring_error" where
  "UringError_init errnum operation detail filename offset len =
     \<lparr> ue_errno = (if errnum > 0 then errnum else EINVAL),
       ue_operation = operation,
       ue_detail = detail,
       ue_filename = filename,
       ue_offset = offset,
       ue_length = len \<rparr>"

fun digits_of_nat :: "nat \<Rightarrow> string" where
  "digits_of_nat n =
     (if n < 10 then [char_of (48 + n)] else digits_of_nat (n div 10) @ [char_of (48 + n mod 10)])"

declare digits_of_nat.simps [simp del]

definition str_of_int :: "int \<Rightarrow> string" where
  "str_of_int i = (if i < 0 then ''-'' @ digits_of_nat (nat (- i)) else digits_of_nat (nat i))"

fun join_with :: "string \<Rightarrow> string list \<Rightarrow> string" where
  "join_with sep [] = []"
| "join_with sep [x] = x"
| "join_with sep (x # y # xs) = x @ sep @ join_with sep (y # xs)"

definition opt_bit :: "string \<Rightarrow> ('a \<Rightarrow> string) \<Rightarrow> 'a option \<Rightarrow> string list" where
  "opt_bit key shw v = (case v of None \<Rightarrow> [] | Some x \<Rightarrow> [key @ ''='' @ shw x])"

(* pyuring/native/errors.py:44-61 UringError.__init__ (message) *)
definition UringError_message ::
  "(int \<Rightarrow> string) \<Rightarrow> (string \<Rightarrow> string) \<Rightarrow> uring_error \<Rightarrow> string" where
  "UringError_message strerror repr e =
     (let base = strerror (ue_errno e);
          msg = ue_operation e @ '': '' @ base;
          bits = opt_bit ''path'' repr (ue_filename e)
               @ opt_bit ''offset'' str_of_int (ue_offset e)
               @ opt_bit ''length'' str_of_int (ue_length e);
          msg = (if bits \<noteq> [] then msg @ '' ('' @ join_with '', '' bits @ '')'' else msg)
      in case ue_detail e of
           None \<Rightarrow> msg
         | Some d \<Rightarrow> if d = [] then msg else msg @ [CHR 0x0A] @ d)"

subsection \<open>The check of a native result\<close>

(* pyuring/native/errors.py:64-76 _raise_for_neg_errno *)
definition raise_for_neg_errno ::
  "int \<Rightarrow> string \<Rightarrow> string option \<Rightarrow> int option \<Rightarrow> int option \<Rightarrow> exn + unit" where
  "raise_for_neg_errno ret operation filename offset len =
     (if ret \<ge> 0 then Inr ()
      else Inl (UringError (UringError_init (- ret) operation None filename offset len)))"

text \<open>\<open>_raise_for_neg_errno(ret, operation)\<close> without the keyword arguments.\<close>

abbreviation check_ret :: "int \<Rightarrow> string \<Rightarrow> exn + unit" where
  "check_ret ret operation \<equiv> raise_for_neg_errno ret operation None None None"

text \<open>\<open>UringError(errnum, operation, detail=...)\<close>.\<close>

definition uring_error_detail :: "int \<Rightarrow> string \<Rightarrow> string \<Rightarrow> exn" where
  "uring_error_detail errnum operation detail =
     UringError (UringError_init errnum operation (Some detail) None None None)"

definition is_uring_error :: "exn \<Rightarrow> bool" where
  "is_uring_error e = (case e of UringError _ \<Rightarrow> True | _ \<Rightarrow> False)"

subsection \<open>Facts\<close>

lemma UringError_init_sel [simp]:
  "ue_operation (UringError_init n op d f off len) = op"
  "ue_detail (UringError_init n op d f off len) = d"
  "ue_filename (UringError_init n op d f off len) = f"
  "ue_offset (UringError_init n op d f off len) = off"
  "ue_length (UringError_init n op d f off len) = len"
  "ue_errno (UringError_init n op d f off len) = (if n > 0 then n else EINVAL)"
  by (simp_all add: UringError_init_def)

lemma UringError_errno_positive: "0 < ue_errno (UringError_init n op d f off len)"
  by simp

lemma raise_for_neg_nonneg [simp]: "ret \<ge> 0 \<Longrightarrow> raise_for_neg_errno ret op f off len = Inr ()"
  by (simp add: raise_for_neg_errno_def)

lemma raise_for_neg_neg:
  "ret < 0 \<Longrightarrow> raise_for_neg_errno ret op f off len
     = Inl (UringError \<lparr> ue_errno = - ret, ue_operation = op, ue_detail = None,
                         ue_filename = f, ue_offset = off, ue_length = len \<rparr>)"
  by (simp add: raise_for_neg_errno_def UringError_init_def)

lemma raise_for_neg_cases:
  obtains (ok) "ret \<ge> 0" "raise_for_neg_errno ret op f off len = Inr ()"
  | (err) e where "ret < 0" "raise_for_neg_errno ret op f off len = Inl (UringError e)"
      "ue_errno e = - ret" "ue_operation e = op"
proof (cases "ret \<ge> 0")
  case True
  then show thesis by (intro ok) simp_all
next
  case False
  then show thesis by (intro err [OF _ raise_for_neg_neg]) simp_all
qed

lemma digits_of_nat_nonempty: "digits_of_nat n \<noteq> []"
  by (subst digits_of_nat.simps) simp

text \<open>
  Reading the decimal digits back: the number printed in an error message determines the
  offset or length it stands for.
\<close>

definition nat_of_digits :: "string \<Rightarrow> nat" where
  "nat_of_digits s = foldl (\<lambda>acc c. 10 * acc + (of_char c - 48)) 0 s"

lemma nat_of_digits_of_nat: "nat_of_digits (digits_of_nat n) = n"
proof (induction n rule: digits_of_nat.induct)
  case (1 n)
  show ?case
  proof (cases "n < 10")
    case True
    then show ?thesis by (simp add: digits_of_nat.simps [of n] nat_of_digits_def)
  next
    case False
    then show ?thesis
      using 1 by (simp add: digits_of_nat.simps [of n] nat_of_digits_def)
  qed
qed

lemma digits_of_nat_inject: "digits_of_nat m = digits_of_nat n \<longleftrightarrow> m = n"
  by (metis nat_of_digits_of_nat)

lemma UringError_message_prefix:
  "take (length (ue_operation e)) (UringError_message strerror repr e) = ue_operation e"
  by (simp add: UringError_message_def Let_def split: option.split)

end
