(* ===== verification/Native_Abi.thy ===== *)
theory Native_Abi
  imports Uring_Errors
begin

unbundle bit_operations_syntax

named_theorems abi_defs \<open>the declared functions and their C signatures\<close>

text \<open>
  The boundary between Python and \<open>liburingwrap.so\<close>: the ctypes types and structures the
  code declares, the conversion ctypes makes of each Python argument, the \<open>argtypes\<close> and
  \<open>restype\<close> declarations of the constructors (as data, in the order of the source) and the
  signatures of the C functions they stand for.
\<close>

subsection \<open>ctypes types and Python arguments\<close>

datatype ptype =
    P_int | P_uint | P_uint32 | P_uint64
  | P_IOVec | P_KernelTimespec | P_OpenHow | P_EpollEvent | P_FutexWaitv

datatype ctype =
    C_int | C_uint | C_longlong | C_int64 | C_uint64 | C_size_t
  | C_char_p | C_void_p | POINTER ptype
  | C_buffer_size_cb | C_progress_cb

type_synonym binding = "string \<times> ctype list \<times> ctype option"

text \<open>
  A Python object with the buffer interface, as far as the wrappers look at it: \<open>bytes\<close>,
  \<open>bytearray\<close>, \<open>mmap\<close> or another exporter (a \<open>memoryview\<close>, an \<open>array\<close>), its identity,
  \<open>len(b)\<close> and the \<open>nbytes\<close>, \<open>readonly\<close> and \<open>contiguous\<close> attributes of \<open>memoryview(b)\<close>.
\<close>

datatype bufkind = Bytes | Bytearray | Mmap | OtherBuffer

record pybuf =
  b_kind :: bufkind
  b_id :: nat
  b_len :: nat
  b_nbytes :: nat
  b_readonly :: bool
  b_contiguous :: bool

definition pybuf_ok :: "pybuf \<Rightarrow> bool" where
  "pybuf_ok b \<longleftrightarrow> b_len b \<le> b_nbytes b
     \<and> (b_kind b = Bytes \<longrightarrow> b_readonly b \<and> b_contiguous b \<and> b_len b = b_nbytes b)
     \<and> (b_kind b = Bytearray \<longrightarrow> \<not> b_readonly b \<and> b_contiguous b \<and> b_len b = b_nbytes b)"

text \<open>
  The memory a pointer argument designates: memory shared with a Python object
  (\<open>from_buffer\<close>), a private copy of the first bytes of an object (\<open>from_buffer_copy\<close>,
  \<open>create_string_buffer(data)\<close>), a zeroed ctypes array, an array or structure built by the
  wrapper, or a plain address whose extent the wrapper does not know.
\<close>

datatype cmem =
    Shared nat nat
  | Copied nat nat
  | Zeroed nat
  | IntArr "int list"
  | LongArr "int list"
  | IovArr "(cmem \<times> nat) list"
  | Timespec int int
  | UIntRef int
  | IntRef
  | U64Ref
  | StructRef ptype nat
  | RawAddr int

fun mem_size :: "cmem \<Rightarrow> nat option" where
  "mem_size (Shared _ n) = Some n"
| "mem_size (Copied _ n) = Some n"
| "mem_size (Zeroed n) = Some n"
| "mem_size (IntArr xs) = Some (4 * length xs)"
| "mem_size (LongArr xs) = Some (8 * length xs)"
| "mem_size (IovArr xs) = Some (16 * length xs)"
| "mem_size (Timespec _ _) = Some 16"
| "mem_size (UIntRef _) = Some 4"
| "mem_size IntRef = Some 4"
| "mem_size U64Ref = Some 8"
| "mem_size (StructRef P_OpenHow n) = Some (24 * n)"
| "mem_size (StructRef P_EpollEvent n) = Some (16 * n)"
| "mem_size (StructRef P_FutexWaitv n) = Some (24 * n)"
| "mem_size (StructRef _ n) = None"
| "mem_size (RawAddr _) = None"

text \<open>The pointer types an array or structure object is accepted for.\<close>

fun points_to :: "cmem \<Rightarrow> ptype \<Rightarrow> bool" where
  "points_to (IntArr _) t = (t = P_int)"
| "points_to (IovArr _) t = (t = P_IOVec)"
| "points_to (Timespec _ _) t = (t = P_KernelTimespec)"
| "points_to (UIntRef _) t = (t = P_uint)"
| "points_to IntRef t = (t = P_int)"
| "points_to U64Ref t = (t = P_uint64)"
| "points_to (StructRef s _) t = (t = s)"
| "points_to _ t = False"

text \<open>An argument as Python passes it, and as the C function receives it.\<close>

datatype pyval = PInt int | PU64 int | PStr string | PMem cmem | PNone

datatype cval = CInt int | CStr string | CMem cmem | CNull

fun wrap_int :: "ctype \<Rightarrow> int \<Rightarrow> int option" where
  "wrap_int C_int n = Some (signed_take_bit 31 n)"
| "wrap_int C_uint n = Some (take_bit 32 n)"
| "wrap_int C_longlong n = Some (signed_take_bit 63 n)"
| "wrap_int C_int64 n = Some (signed_take_bit 63 n)"
| "wrap_int C_uint64 n = Some (take_bit 64 n)"
| "wrap_int C_size_t n = Some (take_bit 64 n)"
| "wrap_int _ n = None"

text \<open>
  ctypes' \<open>from_param\<close>: an int is reduced to the width of the declared type (no overflow
  check), \<open>c_void_p\<close> takes an address, \<open>None\<close>, bytes or any ctypes array, \<open>c_char_p\<close> takes
  bytes, \<open>None\<close> or an array of \<open>c_char\<close>, \<open>POINTER(T)\<close> takes \<open>None\<close> or an array of or a
  reference to \<open>T\<close>.  \<open>None\<close> stands for \<open>ctypes.ArgumentError\<close>.
\<close>

definition char_array :: "cmem \<Rightarrow> bool" where
  "char_array m = (case m of Shared _ _ \<Rightarrow> True | Copied _ _ \<Rightarrow> True | Zeroed _ \<Rightarrow> True | _ \<Rightarrow> False)"

fun from_param :: "ctype \<Rightarrow> pyval \<Rightarrow> cval option" where
  "from_param C_void_p (PInt n) = Some (if take_bit 64 n = 0 then CNull else CInt (take_bit 64 n))"
| "from_param C_void_p (PStr s) = Some (CStr s)"
| "from_param C_void_p (PMem m) = Some (CMem m)"
| "from_param C_void_p PNone = Some CNull"
| "from_param C_char_p (PStr s) = Some (CStr s)"
| "from_param C_char_p (PMem m) = (if char_array m then Some (CMem m) else None)"
| "from_param C_char_p PNone = Some CNull"
| "from_param (POINTER t) (PMem m) = (if points_to m t then Some (CMem m) else None)"
| "from_param (POINTER t) PNone = Some CNull"
| "from_param C_uint64 (PU64 n) = Some (CInt (take_bit 64 n))"
| "from_param t (PInt n) = map_option CInt (wrap_int t n)"
| "from_param t v = None"

text \<open>
  A call with fewer arguments than \<open>argtypes\<close> is a \<open>TypeError\<close>; one that does not convert
  is an \<open>ArgumentError\<close>; further arguments would be passed as variadic ones, which no
  wrapper does.
\<close>

fun convert_args :: "ctype list \<Rightarrow> pyval list \<Rightarrow> exn + cval list" where
  "convert_args [] [] = Inr []"
| "convert_args (t # ts) [] = Inl (TypeError ''this function takes more arguments'')"
| "convert_args [] (v # vs) = Inl (TypeError ''too many arguments'')"
| "convert_args (t # ts) (v # vs) =
     (case from_param t v of
        None \<Rightarrow> Inl ArgumentError
      | Some c \<Rightarrow> sum_bind (convert_args ts vs) (\<lambda>cs. Inr (c # cs)))"

definition accepts :: "ctype list \<Rightarrow> pyval list \<Rightarrow> bool" where
  "accepts ts vs = list_all2 (\<lambda>t v. from_param t v \<noteq> None) ts vs"

lemma convert_args_accepts:
  "accepts ts vs \<Longrightarrow> \<exists>cs. convert_args ts vs = Inr cs \<and> length cs = length vs"
  unfolding accepts_def
  by (induction ts vs rule: list_all2_induct) auto

lemma convert_args_Inr_accepts: "convert_args ts vs = Inr cs \<Longrightarrow> accepts ts vs"
  unfolding accepts_def
  by (induction ts vs arbitrary: cs rule: convert_args.induct)
     (auto split: option.splits simp: sum_bind_Inr_iff)

subsection \<open>ctypes constructors the wrappers use\<close>

text \<open>
  \<open>(c_char * n).from_buffer(b)\<close>, with the checks of CPython in their order, and
  \<open>(c_char * n)()\<close> / \<open>create_string_buffer(n)\<close>, which refuse a negative length.
\<close>

definition from_buffer :: "pybuf \<Rightarrow> nat \<Rightarrow> exn + cmem" where
  "from_buffer b n =
     (if b_readonly b then Inl (TypeError ''underlying buffer is not writable'')
      else if \<not> b_contiguous b then Inl (TypeError ''underlying buffer is not C contiguous'')
      else if b_nbytes b < n then Inl (ValueError ''Buffer size too small'')
      else Inr (Shared (b_id b) n))"

definition zeroed_buffer :: "int \<Rightarrow> exn + cmem" where
  "zeroed_buffer n =
     (if n < 0 then Inl (ValueError ''Array length must be >= 0'') else Inr (Zeroed (nat n)))"

text \<open>
  \<open>(c_char * len(b)).from_buffer_copy(b)\<close> copies the first \<open>len(b)\<close> bytes of a contiguous buffer
  (which has at least as many); \<open>create_string_buffer(b, len(b))\<close> copies \<open>bytes\<close> and takes no other
  buffer object.
\<close>

definition from_buffer_copy :: "pybuf \<Rightarrow> exn + cmem" where
  "from_buffer_copy b =
     (if \<not> b_contiguous b then Inl (BufferError ''memoryview: underlying buffer is not C-contiguous'')
      else Inr (Copied (b_id b) (b_len b)))"

definition create_string_buffer :: "pybuf \<Rightarrow> exn + cmem" where
  "create_string_buffer b =
     (if b_kind b = Bytes then Inr (Copied (b_id b) (b_len b))
      else Inl (TypeError ''create_string_buffer: neither bytes nor int''))"

lemma from_buffer_Inr: "from_buffer b n = Inr m \<Longrightarrow> m = Shared (b_id b) n \<and> n \<le> b_nbytes b"
  by (auto simp: from_buffer_def split: if_splits)

lemma from_buffer_bytearray:
  "b_kind b = Bytearray \<Longrightarrow> pybuf_ok b \<Longrightarrow> from_buffer b (b_len b) = Inr (Shared (b_id b) (b_len b))"
  by (simp add: from_buffer_def pybuf_ok_def)

subsection \<open>Structure layouts\<close>

text \<open>
  \<open>native/structs.py\<close>: a \<open>Structure\<close> lays its fields out with natural alignment (every
  field here is 4 or 8 bytes wide and aligned to its size).
\<close>

definition align_up :: "nat \<Rightarrow> nat \<Rightarrow> nat" where
  "align_up off a = (off + a - 1) div a * a"

fun field_offsets :: "nat \<Rightarrow> (string \<times> nat) list \<Rightarrow> (string \<times> nat) list" where
  "field_offsets off [] = []"
| "field_offsets off ((f, sz) # fs) =
     (let o' = align_up off sz in (f, o') # field_offsets (o' + sz) fs)"

definition struct_size :: "(string \<times> nat) list \<Rightarrow> nat" where
  "struct_size fs =
     (let al = foldr max (map snd fs) 1
      in align_up (foldl (\<lambda>off (f, sz). align_up off sz + sz) 0 fs) al)"

(* pyuring/native/structs.py:7-8 KernelTimespec *)
definition KernelTimespec_fields :: "(string \<times> nat) list" where
  "KernelTimespec_fields = [(''tv_sec'', 8), (''tv_nsec'', 8)]"

(* pyuring/native/structs.py:11-14 OpenHow *)
definition OpenHow_fields :: "(string \<times> nat) list" where
  "OpenHow_fields = [(''flags'', 8), (''mode'', 8), (''resolve'', 8)]"

(* pyuring/native/structs.py:17-24 EpollEvent *)
definition EpollEvent_fields :: "(string \<times> nat) list" where
  "EpollEvent_fields = [(''events'', 4), (''_pad'', 4), (''data'', 8)]"

(* pyuring/native/structs.py:27-35 FutexWaitv *)
definition FutexWaitv_fields :: "(string \<times> nat) list" where
  "FutexWaitv_fields = [(''val'', 8), (''uaddr'', 8), (''flags'', 4), (''_reserved'', 4)]"

(* pyuring/native/structs.py:38-39 _IOVec *)
definition IOVec_fields :: "(string \<times> nat) list" where
  "IOVec_fields = [(''iov_base'', 8), (''iov_len'', 8)]"

text \<open>The sizes \<open>mem_size\<close> gives to arrays of these structures.\<close>

lemma struct_array_sizes:
  "mem_size (StructRef P_OpenHow n) = Some (struct_size OpenHow_fields * n)"
  "mem_size (StructRef P_EpollEvent n) = Some (struct_size EpollEvent_fields * n)"
  "mem_size (StructRef P_FutexWaitv n) = Some (struct_size FutexWaitv_fields * n)"
  by (simp_all add: struct_size_def align_up_def OpenHow_fields_def EpollEvent_fields_def
      FutexWaitv_fields_def)

text \<open>
  The layout of a packed structure (\<open>struct epoll_event\<close> is declared packed in the
  x86-64 kernel ABI): fields without padding.
\<close>

fun packed_offsets :: "nat \<Rightarrow> (string \<times> nat) list \<Rightarrow> (string \<times> nat) list" where
  "packed_offsets off [] = []"
| "packed_offsets off ((f, sz) # fs) = (f, off) # packed_offsets (off + sz) fs"

subsection \<open>Declarations of the Python side\<close>

text \<open>
  One constant per function object of the loaded library: its name with the \<open>argtypes\<close> and
  \<open>restype\<close> the code assigns to it.
\<close>

(* pyuring/native/uring_ctx.py:61-62 UringCtx.__init__ *)
definition uring_create :: binding where
  [abi_defs]: "uring_create = (''uring_create'', [C_uint], Some C_void_p)"

(* pyuring/native/uring_ctx.py:64-65 UringCtx.__init__ *)
definition uring_create_ex :: binding where
  [abi_defs]: "uring_create_ex = (''uring_create_ex'', [C_uint, C_uint, C_int, C_uint], Some C_void_p)"

(* pyuring/native/uring_ctx.py:67-68 UringCtx.__init__ *)
definition uring_destroy :: binding where
  [abi_defs]: "uring_destroy = (''uring_destroy'', [C_void_p], None)"

(* pyuring/native/uring_ctx.py:70-71 UringCtx.__init__ *)
definition uring_ring_fd :: binding where
  [abi_defs]: "uring_ring_fd = (''uring_ring_fd'', [C_void_p], Some C_int)"

(* pyuring/native/uring_ctx.py:73-74 UringCtx.__init__ *)
definition uring_register_files :: binding where
  [abi_defs]: "uring_register_files = (''uring_register_files'', [C_void_p, POINTER P_int, C_uint], Some C_int)"

(* pyuring/native/uring_ctx.py:75-76 UringCtx.__init__ *)
definition uring_unregister_files :: binding where
  [abi_defs]: "uring_unregister_files = (''uring_unregister_files'', [C_void_p], Some C_int)"

(* pyuring/native/uring_ctx.py:78-79 UringCtx.__init__ *)
definition uring_register_buffers :: binding where
  [abi_defs]: "uring_register_buffers = (''uring_register_buffers'', [C_void_p, POINTER P_IOVec, C_uint], Some C_int)"

(* pyuring/native/uring_ctx.py:80-81 UringCtx.__init__ *)
definition uring_unregister_buffers :: binding where
  [abi_defs]: "uring_unregister_buffers = (''uring_unregister_buffers'', [C_void_p], Some C_int)"

(* pyuring/native/uring_ctx.py:83-84 UringCtx.__init__ *)
definition uring_read_fixed_sync :: binding where
  [abi_defs]: "uring_read_fixed_sync = (''uring_read_fixed_sync'', [C_void_p, C_uint, C_void_p, C_uint, C_longlong, C_uint], Some C_int)"

(* pyuring/native/uring_ctx.py:85-86 UringCtx.__init__ *)
definition uring_write_fixed_sync :: binding where
  [abi_defs]: "uring_write_fixed_sync = (''uring_write_fixed_sync'', [C_void_p, C_uint, C_void_p, C_uint, C_longlong, C_uint], Some C_int)"

(* pyuring/native/uring_ctx.py:88-89 UringCtx.__init__ *)
definition uring_probe_opcode_supported :: binding where
  [abi_defs]: "uring_probe_opcode_supported = (''uring_probe_opcode_supported'', [C_void_p, C_int], Some C_int)"

(* pyuring/native/uring_ctx.py:90-91 UringCtx.__init__ *)
definition uring_probe_supported_mask :: binding where
  [abi_defs]: "uring_probe_supported_mask = (''uring_probe_supported_mask'', [C_void_p, C_void_p, C_uint], Some C_int)"

(* pyuring/native/uring_ctx.py:92-93 UringCtx.__init__ *)
definition uring_probe_last_op :: binding where
  [abi_defs]: "uring_probe_last_op = (''uring_probe_last_op'', [C_void_p], Some C_int)"

(* pyuring/native/uring_ctx.py:95-96 UringCtx.__init__ *)
definition uring_nop_sync :: binding where
  [abi_defs]: "uring_nop_sync = (''uring_nop_sync'', [C_void_p], Some C_int)"

(* pyuring/native/uring_ctx.py:98-99 UringCtx.__init__ *)
definition uring_readv_sync :: binding where
  [abi_defs]: "uring_readv_sync = (''uring_readv_sync'', [C_void_p, C_int, POINTER P_IOVec, C_uint, C_longlong], Some C_int)"

definition core_bindings :: "binding list" where
  "core_bindings = [
    uring_create, uring_create_ex, uring_destroy, uring_ring_fd,
    uring_register_files, uring_unregister_files, uring_register_buffers, uring_unregister_buffers,
    uring_read_fixed_sync, uring_write_fixed_sync, uring_probe_opcode_supported, uring_probe_supported_mask,
    uring_probe_last_op, uring_nop_sync, uring_readv_sync]"

(* pyuring/native/uring_ctx.py:100-101 UringCtx.__init__ *)
definition uring_writev_sync :: binding where
  [abi_defs]: "uring_writev_sync = (''uring_writev_sync'', [C_void_p, C_int, POINTER P_IOVec, C_uint, C_longlong], Some C_int)"

(* pyuring/native/uring_ctx.py:102-103 UringCtx.__init__ *)
definition uring_openat_sync :: binding where
  [abi_defs]: "uring_openat_sync = (''uring_openat_sync'', [C_void_p, C_int, C_char_p, C_int, C_uint], Some C_int)"

(* pyuring/native/uring_ctx.py:104-105 UringCtx.__init__ *)
definition uring_close_sync :: binding where
  [abi_defs]: "uring_close_sync = (''uring_close_sync'', [C_void_p, C_int], Some C_int)"

(* pyuring/native/uring_ctx.py:106-107 UringCtx.__init__ *)
definition uring_fsync_sync :: binding where
  [abi_defs]: "uring_fsync_sync = (''uring_fsync_sync'', [C_void_p, C_int, C_uint], Some C_int)"

(* pyuring/native/uring_ctx.py:108-109 UringCtx.__init__ *)
definition uring_fallocate_sync :: binding where
  [abi_defs]: "uring_fallocate_sync = (''uring_fallocate_sync'', [C_void_p, C_int, C_int, C_uint64, C_uint64], Some C_int)"

(* pyuring/native/uring_ctx.py:110-111 UringCtx.__init__ *)
definition uring_statx_sync :: binding where
  [abi_defs]: "uring_statx_sync = (''uring_statx_sync'', [C_void_p, C_int, C_char_p, C_int, C_uint, C_void_p], Some C_int)"

(* pyuring/native/uring_ctx.py:112-113 UringCtx.__init__ *)
definition uring_statx_stx_size :: binding where
  [abi_defs]: "uring_statx_stx_size = (''uring_statx_stx_size'', [C_void_p], Some C_uint64)"

(* pyuring/native/uring_ctx.py:114-115 UringCtx.__init__ *)
definition uring_renameat_sync :: binding where
  [abi_defs]: "uring_renameat_sync = (''uring_renameat_sync'', [C_void_p, C_int, C_char_p, C_int, C_char_p, C_uint], Some C_int)"

(* pyuring/native/uring_ctx.py:116-117 UringCtx.__init__ *)
definition uring_unlinkat_sync :: binding where
  [abi_defs]: "uring_unlinkat_sync = (''uring_unlinkat_sync'', [C_void_p, C_int, C_char_p, C_int], Some C_int)"

(* pyuring/native/uring_ctx.py:118-119 UringCtx.__init__ *)
definition uring_mkdirat_sync :: binding where
  [abi_defs]: "uring_mkdirat_sync = (''uring_mkdirat_sync'', [C_void_p, C_int, C_char_p, C_uint], Some C_int)"

(* pyuring/native/uring_ctx.py:120-121 UringCtx.__init__ *)
definition uring_send_sync :: binding where
  [abi_defs]: "uring_send_sync = (''uring_send_sync'', [C_void_p, C_int, C_void_p, C_size_t, C_uint], Some C_int)"

(* pyuring/native/uring_ctx.py:122-123 UringCtx.__init__ *)
definition uring_recv_sync :: binding where
  [abi_defs]: "uring_recv_sync = (''uring_recv_sync'', [C_void_p, C_int, C_void_p, C_size_t, C_uint], Some C_int)"

(* pyuring/native/uring_ctx.py:124-125 UringCtx.__init__ *)
definition uring_accept_sync :: binding where
  [abi_defs]: "uring_accept_sync = (''uring_accept_sync'', [C_void_p, C_int, C_void_p, POINTER P_uint, C_int], Some C_int)"

(* pyuring/native/uring_ctx.py:126-127 UringCtx.__init__ *)
definition uring_connect_sync :: binding where
  [abi_defs]: "uring_connect_sync = (''uring_connect_sync'', [C_void_p, C_int, C_void_p, C_uint], Some C_int)"

(* pyuring/native/uring_ctx.py:128-129 UringCtx.__init__ *)
definition uring_shutdown_sync :: binding where
  [abi_defs]: "uring_shutdown_sync = (''uring_shutdown_sync'', [C_void_p, C_int, C_int], Some C_int)"

(* pyuring/native/uring_ctx.py:130-131 UringCtx.__init__ *)
definition uring_splice_sync :: binding where
  [abi_defs]: "uring_splice_sync = (''uring_splice_sync'', [C_void_p, C_int, C_int64, C_int, C_int64, C_uint, C_uint], Some C_int)"

(* pyuring/native/uring_ctx.py:133-134 UringCtx.__init__ *)
definition uring_tee_sync :: binding where
  [abi_defs]: "uring_tee_sync = (''uring_tee_sync'', [C_void_p, C_int, C_int, C_uint, C_uint], Some C_int)"

(* pyuring/native/uring_ctx.py:135-136 UringCtx.__init__ *)
definition uring_poll_add_sync :: binding where
  [abi_defs]: "uring_poll_add_sync = (''uring_poll_add_sync'', [C_void_p, C_int, C_uint, C_uint64], Some C_int)"

(* pyuring/native/uring_ctx.py:137-138 UringCtx.__init__ *)
definition uring_poll_remove_sync :: binding where
  [abi_defs]: "uring_poll_remove_sync = (''uring_poll_remove_sync'', [C_void_p, C_uint64], Some C_int)"

(* pyuring/native/uring_ctx.py:139-140 UringCtx.__init__ *)
definition uring_symlinkat_sync :: binding where
  [abi_defs]: "uring_symlinkat_sync = (''uring_symlinkat_sync'', [C_void_p, C_char_p, C_int, C_char_p], Some C_int)"

(* pyuring/native/uring_ctx.py:141-142 UringCtx.__init__ *)
definition uring_linkat_sync :: binding where
  [abi_defs]: "uring_linkat_sync = (''uring_linkat_sync'', [C_void_p, C_int, C_char_p, C_int, C_char_p, C_int], Some C_int)"

(* pyuring/native/uring_ctx.py:143-144 UringCtx.__init__ *)
definition uring_sync_file_range_sync :: binding where
  [abi_defs]: "uring_sync_file_range_sync = (''uring_sync_file_range_sync'', [C_void_p, C_int, C_uint, C_uint64, C_int], Some C_int)"

(* pyuring/native/uring_ctx.py:145-146 UringCtx.__init__ *)
definition uring_fadvise_sync :: binding where
  [abi_defs]: "uring_fadvise_sync = (''uring_fadvise_sync'', [C_void_p, C_int, C_uint64, C_uint, C_int], Some C_int)"

(* pyuring/native/uring_ctx.py:147-148 UringCtx.__init__ *)
definition uring_madvise_sync :: binding where
  [abi_defs]: "uring_madvise_sync = (''uring_madvise_sync'', [C_void_p, C_void_p, C_uint, C_int], Some C_int)"

(* pyuring/native/uring_ctx.py:149-150 UringCtx.__init__ *)
definition uring_async_cancel_fd_sync :: binding where
  [abi_defs]: "uring_async_cancel_fd_sync = (''uring_async_cancel_fd_sync'', [C_void_p, C_int, C_uint], Some C_int)"

(* pyuring/native/uring_ctx.py:152-153 UringCtx.__init__ *)
definition uring_sendmsg_iov_sync :: binding where
  [abi_defs]: "uring_sendmsg_iov_sync = (''uring_sendmsg_iov_sync'', [C_void_p, C_int, POINTER P_IOVec, C_uint, C_uint], Some C_int)"

(* pyuring/native/uring_ctx.py:154-155 UringCtx.__init__ *)
definition uring_recvmsg_iov_sync :: binding where
  [abi_defs]: "uring_recvmsg_iov_sync = (''uring_recvmsg_iov_sync'', [C_void_p, C_int, POINTER P_IOVec, C_uint, C_uint], Some C_int)"

(* pyuring/native/uring_ctx.py:156-157 UringCtx.__init__ *)
definition uring_socket_sync :: binding where
  [abi_defs]: "uring_socket_sync = (''uring_socket_sync'', [C_void_p, C_int, C_int, C_int, C_uint], Some C_int)"

(* pyuring/native/uring_ctx.py:158-159 UringCtx.__init__ *)
definition uring_pipe_sync :: binding where
  [abi_defs]: "uring_pipe_sync = (''uring_pipe_sync'', [C_void_p, POINTER P_int, C_int], Some C_int)"

(* pyuring/native/uring_ctx.py:160-161 UringCtx.__init__ *)
definition uring_bind_sync :: binding where
  [abi_defs]: "uring_bind_sync = (''uring_bind_sync'', [C_void_p, C_int, C_void_p, C_uint], Some C_int)"

(* pyuring/native/uring_ctx.py:162-163 UringCtx.__init__ *)
definition uring_listen_sync :: binding where
  [abi_defs]: "uring_listen_sync = (''uring_listen_sync'', [C_void_p, C_int, C_int], Some C_int)"

(* pyuring/native/uring_ctx.py:164-165 UringCtx.__init__ *)
definition uring_openat2_sync :: binding where
  [abi_defs]: "uring_openat2_sync = (''uring_openat2_sync'', [C_void_p, C_int, C_char_p, POINTER P_OpenHow], Some C_int)"

(* pyuring/native/uring_ctx.py:166-167 UringCtx.__init__ *)
definition uring_link_timeout_sync :: binding where
  [abi_defs]: "uring_link_timeout_sync = (''uring_link_timeout_sync'', [C_void_p, POINTER P_KernelTimespec, C_uint], Some C_int)"

(* pyuring/native/uring_ctx.py:168-169 UringCtx.__init__ *)
definition uring_getxattr_sync :: binding where
  [abi_defs]: "uring_getxattr_sync = (''uring_getxattr_sync'', [C_void_p, C_char_p, C_void_p, C_char_p, C_uint], Some C_int)"

(* pyuring/native/uring_ctx.py:170-171 UringCtx.__init__ *)
definition uring_setxattr_sync :: binding where
  [abi_defs]: "uring_setxattr_sync = (''uring_setxattr_sync'', [C_void_p, C_char_p, C_char_p, C_char_p, C_int, C_uint], Some C_int)"

(* pyuring/native/uring_ctx.py:172-173 UringCtx.__init__ *)
definition uring_fgetxattr_sync :: binding where
  [abi_defs]: "uring_fgetxattr_sync = (''uring_fgetxattr_sync'', [C_void_p, C_int, C_char_p, C_void_p, C_uint], Some C_int)"

(* pyuring/native/uring_ctx.py:174-175 UringCtx.__init__ *)
definition uring_fsetxattr_sync :: binding where
  [abi_defs]: "uring_fsetxattr_sync = (''uring_fsetxattr_sync'', [C_void_p, C_int, C_char_p, C_char_p, C_int, C_uint], Some C_int)"

(* pyuring/native/uring_ctx.py:176-177 UringCtx.__init__ *)
definition uring_epoll_ctl_sync :: binding where
  [abi_defs]: "uring_epoll_ctl_sync = (''uring_epoll_ctl_sync'', [C_void_p, C_int, C_int, C_int, POINTER P_EpollEvent], Some C_int)"

(* pyuring/native/uring_ctx.py:178-179 UringCtx.__init__ *)
definition uring_provide_buffers_sync :: binding where
  [abi_defs]: "uring_provide_buffers_sync = (''uring_provide_buffers_sync'', [C_void_p, C_void_p, C_int, C_int, C_int, C_int], Some C_int)"

(* pyuring/native/uring_ctx.py:180-181 UringCtx.__init__ *)
definition uring_remove_buffers_sync :: binding where
  [abi_defs]: "uring_remove_buffers_sync = (''uring_remove_buffers_sync'', [C_void_p, C_int, C_int], Some C_int)"

(* pyuring/native/uring_ctx.py:182-183 UringCtx.__init__ *)
definition uring_msg_ring_sync :: binding where
  [abi_defs]: "uring_msg_ring_sync = (''uring_msg_ring_sync'', [C_void_p, C_int, C_uint, C_uint64, C_uint], Some C_int)"

(* pyuring/native/uring_ctx.py:184-185 UringCtx.__init__ *)
definition uring_ftruncate_sync :: binding where
  [abi_defs]: "uring_ftruncate_sync = (''uring_ftruncate_sync'', [C_void_p, C_int, C_int64], Some C_int)"

definition sync_bindings_1 :: "binding list" where
  "sync_bindings_1 = [
    uring_writev_sync, uring_openat_sync, uring_close_sync, uring_fsync_sync,
    uring_fallocate_sync, uring_statx_sync, uring_statx_stx_size, uring_renameat_sync,
    uring_unlinkat_sync, uring_mkdirat_sync, uring_send_sync, uring_recv_sync,
    uring_accept_sync, uring_connect_sync, uring_shutdown_sync, uring_splice_sync,
    uring_tee_sync, uring_poll_add_sync, uring_poll_remove_sync, uring_symlinkat_sync,
    uring_linkat_sync, uring_sync_file_range_sync, uring_fadvise_sync, uring_madvise_sync,
    uring_async_cancel_fd_sync, uring_sendmsg_iov_sync, uring_recvmsg_iov_sync, uring_socket_sync,
    uring_pipe_sync, uring_bind_sync, uring_listen_sync, uring_openat2_sync,
    uring_link_timeout_sync, uring_getxattr_sync, uring_setxattr_sync, uring_fgetxattr_sync,
    uring_fsetxattr_sync, uring_epoll_ctl_sync, uring_provide_buffers_sync, uring_remove_buffers_sync,
    uring_msg_ring_sync, uring_ftruncate_sync]"

(* pyuring/native/uring_ctx.py:187-188 UringCtx.__init__ *)
definition uring_nop128_sync :: binding where
  [abi_defs]: "uring_nop128_sync = (''uring_nop128_sync'', [C_void_p], Some C_int)"

(* pyuring/native/uring_ctx.py:189-190 UringCtx.__init__ *)
definition uring_poll_update_sync :: binding where
  [abi_defs]: "uring_poll_update_sync = (''uring_poll_update_sync'', [C_void_p, C_uint64, C_uint64, C_uint, C_uint], Some C_int)"

(* pyuring/native/uring_ctx.py:191-192 UringCtx.__init__ *)
definition uring_timeout_update_sync :: binding where
  [abi_defs]: "uring_timeout_update_sync = (''uring_timeout_update_sync'', [C_void_p, POINTER P_KernelTimespec, C_uint64, C_uint], Some C_int)"

(* pyuring/native/uring_ctx.py:193-194 UringCtx.__init__ *)
definition uring_recv_multishot_sync :: binding where
  [abi_defs]: "uring_recv_multishot_sync = (''uring_recv_multishot_sync'', [C_void_p, C_int, C_void_p, C_size_t, C_int], Some C_int)"

(* pyuring/native/uring_ctx.py:195-196 UringCtx.__init__ *)
definition uring_send_zc_sync :: binding where
  [abi_defs]: "uring_send_zc_sync = (''uring_send_zc_sync'', [C_void_p, C_int, C_void_p, C_size_t, C_int, C_uint], Some C_int)"

(* pyuring/native/uring_ctx.py:197-198 UringCtx.__init__ *)
definition uring_send_zc_fixed_sync :: binding where
  [abi_defs]: "uring_send_zc_fixed_sync = (''uring_send_zc_fixed_sync'', [C_void_p, C_int, C_void_p, C_size_t, C_int, C_uint, C_uint], Some C_int)"

(* pyuring/native/uring_ctx.py:199-200 UringCtx.__init__ *)
definition uring_sendmsg_zc_iov_sync :: binding where
  [abi_defs]: "uring_sendmsg_zc_iov_sync = (''uring_sendmsg_zc_iov_sync'', [C_void_p, C_int, POINTER P_IOVec, C_uint, C_uint], Some C_int)"

(* pyuring/native/uring_ctx.py:201-202 UringCtx.__init__ *)
definition uring_sendmsg_zc_fixed_iov_sync :: binding where
  [abi_defs]: "uring_sendmsg_zc_fixed_iov_sync = (''uring_sendmsg_zc_fixed_iov_sync'', [C_void_p, C_int, POINTER P_IOVec, C_uint, C_uint, C_uint], Some C_int)"

(* pyuring/native/uring_ctx.py:203-204 UringCtx.__init__ *)
definition uring_recv_zc_sync :: binding where
  [abi_defs]: "uring_recv_zc_sync = (''uring_recv_zc_sync'', [C_void_p, C_int, C_void_p, C_uint, C_uint, C_uint], Some C_int)"

(* pyuring/native/uring_ctx.py:205-206 UringCtx.__init__ *)
definition uring_recvmsg_multishot_iov_sync :: binding where
  [abi_defs]: "uring_recvmsg_multishot_iov_sync = (''uring_recvmsg_multishot_iov_sync'', [C_void_p, C_int, POINTER P_IOVec, C_uint, C_uint], Some C_int)"

(* pyuring/native/uring_ctx.py:207-208 UringCtx.__init__ *)
definition uring_epoll_wait_sync :: binding where
  [abi_defs]: "uring_epoll_wait_sync = (''uring_epoll_wait_sync'', [C_void_p, C_int, POINTER P_EpollEvent, C_int, C_uint], Some C_int)"

(* pyuring/native/uring_ctx.py:209-210 UringCtx.__init__ *)
definition uring_waitid_sync :: binding where
  [abi_defs]: "uring_waitid_sync = (''uring_waitid_sync'', [C_void_p, C_int, C_int, C_void_p, C_int, C_uint], Some C_int)"

(* pyuring/native/uring_ctx.py:211-212 UringCtx.__init__ *)
definition uring_futex_wake_sync :: binding where
  [abi_defs]: "uring_futex_wake_sync = (''uring_futex_wake_sync'', [C_void_p, POINTER P_uint32, C_uint64, C_uint64, C_uint, C_uint], Some C_int)"

(* pyuring/native/uring_ctx.py:213-214 UringCtx.__init__ *)
definition uring_futex_wait_sync :: binding where
  [abi_defs]: "uring_futex_wait_sync = (''uring_futex_wait_sync'', [C_void_p, POINTER P_uint32, C_uint64, C_uint64, C_uint, C_uint], Some C_int)"

(* pyuring/native/uring_ctx.py:215-216 UringCtx.__init__ *)
definition uring_futex_waitv_sync :: binding where
  [abi_defs]: "uring_futex_waitv_sync = (''uring_futex_waitv_sync'', [C_void_p, POINTER P_FutexWaitv, C_uint, C_uint], Some C_int)"

(* pyuring/native/uring_ctx.py:217-218 UringCtx.__init__ *)
definition uring_uring_cmd_sync :: binding where
  [abi_defs]: "uring_uring_cmd_sync = (''uring_uring_cmd_sync'', [C_void_p, C_int, C_int], Some C_int)"

(* pyuring/native/uring_ctx.py:219-220 UringCtx.__init__ *)
definition uring_uring_cmd128_sync :: binding where
  [abi_defs]: "uring_uring_cmd128_sync = (''uring_uring_cmd128_sync'', [C_void_p, C_int, C_int], Some C_int)"

(* pyuring/native/uring_ctx.py:221-222 UringCtx.__init__ *)
definition uring_cmd_sock_sync :: binding where
  [abi_defs]: "uring_cmd_sock_sync = (''uring_cmd_sock_sync'', [C_void_p, C_int, C_int, C_int, C_int, C_void_p, C_int], Some C_int)"

(* pyuring/native/uring_ctx.py:223-224 UringCtx.__init__ *)
definition uring_cmd_getsockname_sync :: binding where
  [abi_defs]: "uring_cmd_getsockname_sync = (''uring_cmd_getsockname_sync'', [C_void_p, C_int, C_void_p, POINTER P_uint, C_int], Some C_int)"

(* pyuring/native/uring_ctx.py:225-226 UringCtx.__init__ *)
definition uring_fixed_fd_install_sync :: binding where
  [abi_defs]: "uring_fixed_fd_install_sync = (''uring_fixed_fd_install_sync'', [C_void_p, C_int, C_uint], Some C_int)"

(* pyuring/native/uring_ctx.py:227-228 UringCtx.__init__ *)
definition uring_socket_direct_sync :: binding where
  [abi_defs]: "uring_socket_direct_sync = (''uring_socket_direct_sync'', [C_void_p, C_int, C_int, C_int, C_uint, C_uint], Some C_int)"

(* pyuring/native/uring_ctx.py:229-230 UringCtx.__init__ *)
definition uring_socket_direct_alloc_sync :: binding where
  [abi_defs]: "uring_socket_direct_alloc_sync = (''uring_socket_direct_alloc_sync'', [C_void_p, C_int, C_int, C_int, C_uint], Some C_int)"

(* pyuring/native/uring_ctx.py:231-232 UringCtx.__init__ *)
definition uring_pipe_direct_sync :: binding where
  [abi_defs]: "uring_pipe_direct_sync = (''uring_pipe_direct_sync'', [C_void_p, POINTER P_int, C_int, C_uint], Some C_int)"

(* pyuring/native/uring_ctx.py:233-234 UringCtx.__init__ *)
definition uring_msg_ring_fd_sync :: binding where
  [abi_defs]: "uring_msg_ring_fd_sync = (''uring_msg_ring_fd_sync'', [C_void_p, C_int, C_int, C_int, C_uint64, C_uint], Some C_int)"

(* pyuring/native/uring_ctx.py:235-236 UringCtx.__init__ *)
definition uring_msg_ring_fd_alloc_sync :: binding where
  [abi_defs]: "uring_msg_ring_fd_alloc_sync = (''uring_msg_ring_fd_alloc_sync'', [C_void_p, C_int, C_int, C_uint64, C_uint], Some C_int)"

(* pyuring/native/uring_ctx.py:237-238 UringCtx.__init__ *)
definition uring_msg_ring_cqe_flags_sync :: binding where
  [abi_defs]: "uring_msg_ring_cqe_flags_sync = (''uring_msg_ring_cqe_flags_sync'', [C_void_p, C_int, C_uint, C_uint64, C_uint, C_uint], Some C_int)"

(* pyuring/native/uring_ctx.py:239-240 UringCtx.__init__ *)
definition uring_files_update_sync :: binding where
  [abi_defs]: "uring_files_update_sync = (''uring_files_update_sync'', [C_void_p, POINTER P_int, C_uint, C_int], Some C_int)"

(* pyuring/native/uring_ctx.py:241-242 UringCtx.__init__ *)
definition uring_send_bundle_sync :: binding where
  [abi_defs]: "uring_send_bundle_sync = (''uring_send_bundle_sync'', [C_void_p, C_int, C_size_t, C_int], Some C_int)"

(* pyuring/native/uring_ctx.py:243-244 UringCtx.__init__ *)
definition uring_readv_fixed_sync :: binding where
  [abi_defs]: "uring_readv_fixed_sync = (''uring_readv_fixed_sync'', [C_void_p, C_int, POINTER P_IOVec, C_uint, C_uint64, C_int, C_int], Some C_int)"

(* pyuring/native/uring_ctx.py:245-246 UringCtx.__init__ *)
definition uring_writev_fixed_sync :: binding where
  [abi_defs]: "uring_writev_fixed_sync = (''uring_writev_fixed_sync'', [C_void_p, C_int, POINTER P_IOVec, C_uint, C_uint64, C_int, C_int], Some C_int)"

(* pyuring/native/uring_ctx.py:247-248 UringCtx.__init__ *)
definition uring_sendto_sync :: binding where
  [abi_defs]: "uring_sendto_sync = (''uring_sendto_sync'', [C_void_p, C_int, C_void_p, C_size_t, C_int, C_void_p, C_uint], Some C_int)"

definition sync_bindings_2 :: "binding list" where
  "sync_bindings_2 = [
    uring_nop128_sync, uring_poll_update_sync, uring_timeout_update_sync, uring_recv_multishot_sync,
    uring_send_zc_sync, uring_send_zc_fixed_sync, uring_sendmsg_zc_iov_sync, uring_sendmsg_zc_fixed_iov_sync,
    uring_recv_zc_sync, uring_recvmsg_multishot_iov_sync, uring_epoll_wait_sync, uring_waitid_sync,
    uring_futex_wake_sync, uring_futex_wait_sync, uring_futex_waitv_sync, uring_uring_cmd_sync,
    uring_uring_cmd128_sync, uring_cmd_sock_sync, uring_cmd_getsockname_sync, uring_fixed_fd_install_sync,
    uring_socket_direct_sync, uring_socket_direct_alloc_sync, uring_pipe_direct_sync, uring_msg_ring_fd_sync,
    uring_msg_ring_fd_alloc_sync, uring_msg_ring_cqe_flags_sync, uring_files_update_sync, uring_send_bundle_sync,
    uring_readv_fixed_sync, uring_writev_fixed_sync, uring_sendto_sync]"

(* pyuring/native/uring_ctx.py:250-251 UringCtx.__init__ *)
definition uring_timeout_sync :: binding where
  [abi_defs]: "uring_timeout_sync = (''uring_timeout_sync'', [C_void_p, POINTER P_KernelTimespec, C_uint, C_uint, C_uint64], Some C_int)"

(* pyuring/native/uring_ctx.py:252-253 UringCtx.__init__ *)
definition uring_timeout_remove_sync :: binding where
  [abi_defs]: "uring_timeout_remove_sync = (''uring_timeout_remove_sync'', [C_void_p, C_uint64, C_uint], Some C_int)"

(* pyuring/native/uring_ctx.py:254-255 UringCtx.__init__ *)
definition uring_async_cancel_sync :: binding where
  [abi_defs]: "uring_async_cancel_sync = (''uring_async_cancel_sync'', [C_void_p, C_uint64, C_uint], Some C_int)"

(* pyuring/native/uring_ctx.py:256-257 UringCtx.__init__ *)
definition uring_link_read_write_sync :: binding where
  [abi_defs]: "uring_link_read_write_sync = (''uring_link_read_write_sync'', [C_void_p, C_int, C_void_p, C_uint, C_longlong, C_int, C_longlong], Some C_int)"

(* pyuring/native/uring_ctx.py:258-259 UringCtx.__init__ *)
definition uring_timeout_arm_remove_pair_sync :: binding where
  [abi_defs]: "uring_timeout_arm_remove_pair_sync = (''uring_timeout_arm_remove_pair_sync'', [C_void_p, C_int64, C_int64, C_uint64], Some C_int)"

(* pyuring/native/uring_ctx.py:261-262 UringCtx.__init__ *)
definition uring_read_sync :: binding where
  [abi_defs]: "uring_read_sync = (''uring_read_sync'', [C_void_p, C_int, C_void_p, C_uint, C_longlong], Some C_int)"

(* pyuring/native/uring_ctx.py:264-265 UringCtx.__init__ *)
definition uring_write_sync :: binding where
  [abi_defs]: "uring_write_sync = (''uring_write_sync'', [C_void_p, C_int, C_void_p, C_uint, C_longlong], Some C_int)"

(* pyuring/native/uring_ctx.py:267-268 UringCtx.__init__ *)
definition uring_read_batch_sync :: binding where
  [abi_defs]: "uring_read_batch_sync = (''uring_read_batch_sync'', [C_void_p, C_int, C_void_p, C_uint, C_uint, C_longlong], Some C_int)"

(* pyuring/native/uring_ctx.py:270-271 UringCtx.__init__ *)
definition uring_read_offsets_sync :: binding where
  [abi_defs]: "uring_read_offsets_sync = (''uring_read_offsets_sync'', [C_void_p, C_int, C_void_p, C_uint, C_void_p, C_uint], Some C_int)"

(* pyuring/native/uring_ctx.py:273-274 UringCtx.__init__ *)
definition uring_copy_path :: binding where
  [abi_defs]: "uring_copy_path = (''uring_copy_path'', [C_char_p, C_char_p, C_uint, C_uint], Some C_longlong)"

definition sync_bindings_3 :: "binding list" where
  "sync_bindings_3 = [
    uring_timeout_sync, uring_timeout_remove_sync, uring_async_cancel_sync, uring_link_read_write_sync,
    uring_timeout_arm_remove_pair_sync, uring_read_sync, uring_write_sync, uring_read_batch_sync,
    uring_read_offsets_sync, uring_copy_path]"

(* pyuring/native/uring_ctx.py:277-278 UringCtx.__init__ *)
definition uring_read_async :: binding where
  [abi_defs]: "uring_read_async = (''uring_read_async'', [C_void_p, C_int, C_void_p, C_uint, C_longlong, C_uint64], Some C_longlong)"

(* pyuring/native/uring_ctx.py:280-281 UringCtx.__init__ *)
definition uring_write_async :: binding where
  [abi_defs]: "uring_write_async = (''uring_write_async'', [C_void_p, C_int, C_void_p, C_uint, C_longlong, C_uint64], Some C_longlong)"

(* pyuring/native/uring_ctx.py:283-284 UringCtx.__init__ *)
definition uring_multishot_accept_submit :: binding where
  [abi_defs]: "uring_multishot_accept_submit = (''uring_multishot_accept_submit'', [C_void_p, C_int, C_int, C_uint64], Some C_longlong)"

(* pyuring/native/uring_ctx.py:285-286 UringCtx.__init__ *)
definition uring_recv_multishot_buf_group_submit :: binding where
  [abi_defs]: "uring_recv_multishot_buf_group_submit = (''uring_recv_multishot_buf_group_submit'', [C_void_p, C_int, C_uint, C_int, C_uint64], Some C_longlong)"

(* pyuring/native/uring_ctx.py:287-288 UringCtx.__init__ *)
definition uring_splice_submit :: binding where
  [abi_defs]: "uring_splice_submit = (''uring_splice_submit'', [C_void_p, C_int, C_longlong, C_int, C_longlong, C_uint, C_uint, C_uint64], Some C_longlong)"

(* pyuring/native/uring_ctx.py:290-291 UringCtx.__init__ *)
definition uring_wait_completion :: binding where
  [abi_defs]: "uring_wait_completion = (''uring_wait_completion'', [C_void_p, POINTER P_uint64, POINTER P_int], Some C_int)"

(* pyuring/native/uring_ctx.py:293-294 UringCtx.__init__ *)
definition uring_peek_completion :: binding where
  [abi_defs]: "uring_peek_completion = (''uring_peek_completion'', [C_void_p, POINTER P_uint64, POINTER P_int], Some C_int)"

(* pyuring/native/uring_ctx.py:296-297 UringCtx.__init__ *)
definition uring_submit :: binding where
  [abi_defs]: "uring_submit = (''uring_submit'', [C_void_p], Some C_int)"

(* pyuring/native/uring_ctx.py:299-300 UringCtx.__init__ *)
definition uring_submit_and_wait :: binding where
  [abi_defs]: "uring_submit_and_wait = (''uring_submit_and_wait'', [C_void_p, C_uint], Some C_int)"

definition async_bindings :: "binding list" where
  "async_bindings = [
    uring_read_async, uring_write_async, uring_multishot_accept_submit, uring_recv_multishot_buf_group_submit,
    uring_splice_submit, uring_wait_completion, uring_peek_completion, uring_submit,
    uring_submit_and_wait]"

(* pyuring/native/uring_ctx.py:303-304 UringCtx.__init__ *)
definition uring_buffer_pool_create :: binding where
  [abi_defs]: "uring_buffer_pool_create = (''uring_buffer_pool_create'', [C_uint, C_uint], Some C_void_p)"

(* pyuring/native/uring_ctx.py:306-307 UringCtx.__init__ *)
definition uring_buffer_pool_destroy :: binding where
  [abi_defs]: "uring_buffer_pool_destroy = (''uring_buffer_pool_destroy'', [C_void_p], None)"

(* pyuring/native/uring_ctx.py:309-310 UringCtx.__init__ *)
definition uring_buffer_pool_resize :: binding where
  [abi_defs]: "uring_buffer_pool_resize = (''uring_buffer_pool_resize'', [C_void_p, C_uint, C_uint], Some C_int)"

(* pyuring/native/uring_ctx.py:312-313 UringCtx.__init__ *)
definition uring_buffer_pool_get :: binding where
  [abi_defs]: "uring_buffer_pool_get = (''uring_buffer_pool_get'', [C_void_p, C_uint, POINTER P_uint], Some C_void_p)"

(* pyuring/native/uring_ctx.py:315-316 UringCtx.__init__ *)
definition uring_buffer_pool_set_size :: binding where
  [abi_defs]: "uring_buffer_pool_set_size = (''uring_buffer_pool_set_size'', [C_void_p, C_uint, C_uint], Some C_int)"

definition pool_bindings :: "binding list" where
  "pool_bindings = [
    uring_buffer_pool_create, uring_buffer_pool_destroy, uring_buffer_pool_resize, uring_buffer_pool_get,
    uring_buffer_pool_set_size]"

(* pyuring/native/c_api.py:100-105 c_api *)
definition uring_copy_path_dynamic :: binding where
  [abi_defs]: "uring_copy_path_dynamic = (''uring_copy_path_dynamic'', [C_char_p, C_char_p, C_uint, C_uint, C_buffer_size_cb, C_void_p, C_int, C_progress_cb, C_void_p], Some C_longlong)"

(* pyuring/native/c_api.py:136-137 c_api *)
definition uring_write_newfile :: binding where
  [abi_defs]: "uring_write_newfile = (''uring_write_newfile'', [C_char_p, C_uint, C_uint, C_uint, C_int, C_int], Some C_longlong)"

(* pyuring/native/c_api.py:214-219 c_api *)
definition uring_write_newfile_dynamic :: binding where
  [abi_defs]: "uring_write_newfile_dynamic = (''uring_write_newfile_dynamic'', [C_char_p, C_uint, C_uint, C_uint, C_int, C_int, C_buffer_size_cb, C_void_p, C_progress_cb, C_void_p], Some C_longlong)"

(* pyuring/native/c_api.py:251-252 c_api *)
definition uring_write_manyfiles :: binding where
  [abi_defs]: "uring_write_manyfiles = (''uring_write_manyfiles'', [C_char_p, C_uint, C_uint, C_uint, C_uint, C_int], Some C_longlong)"

definition c_api_bindings :: "binding list" where
  "c_api_bindings = [
    uring_copy_path_dynamic, uring_write_newfile, uring_write_newfile_dynamic, uring_write_manyfiles]"


subsection \<open>Signatures of the C side\<close>

text \<open>
  The signatures in \<open>csrc/uring_wrap.c\<close> (\<open>const\<close> dropped), listed in the order of the
  Python declarations.
\<close>

datatype cdecl =
    D_int | D_unsigned | D_uint32_t | D_longlong | D_int64_t | D_uint64_t | D_size_t | D_socklen_t
  | D_void | D_ptr string | D_buffer_size_callback_t | D_pipeline_progress_callback_t

definition core_signatures :: "(string \<times> cdecl list \<times> cdecl) list" where
  [abi_defs]: "core_signatures = [
    (''uring_create'', [D_unsigned], D_ptr ''uring_ctx''),
    (''uring_create_ex'', [D_unsigned, D_unsigned, D_int, D_unsigned], D_ptr ''uring_ctx''),
    (''uring_destroy'', [D_ptr ''uring_ctx''], D_void),
    (''uring_ring_fd'', [D_ptr ''uring_ctx''], D_int),
    (''uring_register_files'', [D_ptr ''uring_ctx'', D_ptr ''int'', D_unsigned], D_int),
    (''uring_unregister_files'', [D_ptr ''uring_ctx''], D_int),
    (''uring_register_buffers'', [D_ptr ''uring_ctx'', D_ptr ''struct iovec'', D_unsigned], D_int),
    (''uring_unregister_buffers'', [D_ptr ''uring_ctx''], D_int),
    (''uring_read_fixed_sync'', [D_ptr ''uring_ctx'', D_unsigned, D_ptr ''void'', D_unsigned, D_longlong, D_unsigned], D_int),
    (''uring_write_fixed_sync'', [D_ptr ''uring_ctx'', D_unsigned, D_ptr ''void'', D_unsigned, D_longlong, D_unsigned], D_int),
    (''uring_probe_opcode_supported'', [D_ptr ''uring_ctx'', D_int], D_int),
    (''uring_probe_supported_mask'', [D_ptr ''uring_ctx'', D_ptr ''unsigned char'', D_unsigned], D_int),
    (''uring_probe_last_op'', [D_ptr ''uring_ctx''], D_int),
    (''uring_nop_sync'', [D_ptr ''uring_ctx''], D_int),
    (''uring_readv_sync'', [D_ptr ''uring_ctx'', D_int, D_ptr ''struct iovec'', D_unsigned, D_longlong], D_int)]"

definition sync_signatures_1 :: "(string \<times> cdecl list \<times> cdecl) list" where
  [abi_defs]: "sync_signatures_1 = [
    (''uring_writev_sync'', [D_ptr ''uring_ctx'', D_int, D_ptr ''struct iovec'', D_unsigned, D_longlong], D_int),
    (''uring_openat_sync'', [D_ptr ''uring_ctx'', D_int, D_ptr ''char'', D_int, D_unsigned], D_int),
    (''uring_close_sync'', [D_ptr ''uring_ctx'', D_int], D_int),
    (''uring_fsync_sync'', [D_ptr ''uring_ctx'', D_int, D_unsigned], D_int),
    (''uring_fallocate_sync'', [D_ptr ''uring_ctx'', D_int, D_int, D_uint64_t, D_uint64_t], D_int),
    (''uring_statx_sync'', [D_ptr ''uring_ctx'', D_int, D_ptr ''char'', D_int, D_unsigned, D_ptr ''struct statx''], D_int),
    (''uring_statx_stx_size'', [D_ptr ''struct statx''], D_uint64_t),
    (''uring_renameat_sync'', [D_ptr ''uring_ctx'', D_int, D_ptr ''char'', D_int, D_ptr ''char'', D_unsigned], D_int),
    (''uring_unlinkat_sync'', [D_ptr ''uring_ctx'', D_int, D_ptr ''char'', D_int], D_int),
    (''uring_mkdirat_sync'', [D_ptr ''uring_ctx'', D_int, D_ptr ''char'', D_unsigned], D_int),
    (''uring_send_sync'', [D_ptr ''uring_ctx'', D_int, D_ptr ''void'', D_size_t, D_unsigned], D_int),
    (''uring_recv_sync'', [D_ptr ''uring_ctx'', D_int, D_ptr ''void'', D_size_t, D_unsigned], D_int),
    (''uring_accept_sync'', [D_ptr ''uring_ctx'', D_int, D_ptr ''struct sockaddr'', D_ptr ''socklen_t'', D_int], D_int),
    (''uring_connect_sync'', [D_ptr ''uring_ctx'', D_int, D_ptr ''struct sockaddr'', D_socklen_t], D_int),
    (''uring_shutdown_sync'', [D_ptr ''uring_ctx'', D_int, D_int], D_int),
    (''uring_splice_sync'', [D_ptr ''uring_ctx'', D_int, D_int64_t, D_int, D_int64_t, D_unsigned, D_unsigned], D_int),
    (''uring_tee_sync'', [D_ptr ''uring_ctx'', D_int, D_int, D_unsigned, D_unsigned], D_int),
    (''uring_poll_add_sync'', [D_ptr ''uring_ctx'', D_int, D_unsigned, D_uint64_t], D_int),
    (''uring_poll_remove_sync'', [D_ptr ''uring_ctx'', D_uint64_t], D_int),
    (''uring_symlinkat_sync'', [D_ptr ''uring_ctx'', D_ptr ''char'', D_int, D_ptr ''char''], D_int),
    (''uring_linkat_sync'', [D_ptr ''uring_ctx'', D_int, D_ptr ''char'', D_int, D_ptr ''char'', D_int], D_int),
    (''uring_sync_file_range_sync'', [D_ptr ''uring_ctx'', D_int, D_unsigned, D_uint64_t, D_int], D_int),
    (''uring_fadvise_sync'', [D_ptr ''uring_ctx'', D_int, D_uint64_t, D_unsigned, D_int], D_int),
    (''uring_madvise_sync'', [D_ptr ''uring_ctx'', D_ptr ''void'', D_unsigned, D_int], D_int),
    (''uring_async_cancel_fd_sync'', [D_ptr ''uring_ctx'', D_int, D_unsigned], D_int),
    (''uring_sendmsg_iov_sync'', [D_ptr ''uring_ctx'', D_int, D_ptr ''struct iovec'', D_unsigned, D_unsigned], D_int),
    (''uring_recvmsg_iov_sync'', [D_ptr ''uring_ctx'', D_int, D_ptr ''struct iovec'', D_unsigned, D_unsigned], D_int),
    (''uring_socket_sync'', [D_ptr ''uring_ctx'', D_int, D_int, D_int, D_unsigned], D_int),
    (''uring_pipe_sync'', [D_ptr ''uring_ctx'', D_ptr ''int'', D_int], D_int),
    (''uring_bind_sync'', [D_ptr ''uring_ctx'', D_int, D_ptr ''struct sockaddr'', D_socklen_t], D_int),
    (''uring_listen_sync'', [D_ptr ''uring_ctx'', D_int, D_int], D_int),
    (''uring_openat2_sync'', [D_ptr ''uring_ctx'', D_int, D_ptr ''char'', D_ptr ''struct open_how''], D_int),
    (''uring_link_timeout_sync'', [D_ptr ''uring_ctx'', D_ptr ''struct __kernel_timespec'', D_unsigned], D_int),
    (''uring_getxattr_sync'', [D_ptr ''uring_ctx'', D_ptr ''char'', D_ptr ''char'', D_ptr ''char'', D_unsigned], D_int),
    (''uring_setxattr_sync'', [D_ptr ''uring_ctx'', D_ptr ''char'', D_ptr ''char'', D_ptr ''char'', D_int, D_unsigned], D_int),
    (''uring_fgetxattr_sync'', [D_ptr ''uring_ctx'', D_int, D_ptr ''char'', D_ptr ''char'', D_unsigned], D_int),
    (''uring_fsetxattr_sync'', [D_ptr ''uring_ctx'', D_int, D_ptr ''char'', D_ptr ''char'', D_int, D_unsigned], D_int),
    (''uring_epoll_ctl_sync'', [D_ptr ''uring_ctx'', D_int, D_int, D_int, D_ptr ''struct epoll_event''], D_int),
    (''uring_provide_buffers_sync'', [D_ptr ''uring_ctx'', D_ptr ''void'', D_int, D_int, D_int, D_int], D_int),
    (''uring_remove_buffers_sync'', [D_ptr ''uring_ctx'', D_int, D_int], D_int),
    (''uring_msg_ring_sync'', [D_ptr ''uring_ctx'', D_int, D_unsigned, D_uint64_t, D_unsigned], D_int),
    (''uring_ftruncate_sync'', [D_ptr ''uring_ctx'', D_int, D_longlong], D_int)]"

definition sync_signatures_2 :: "(string \<times> cdecl list \<times> cdecl) list" where
  [abi_defs]: "sync_signatures_2 = [
    (''uring_nop128_sync'', [D_ptr ''uring_ctx''], D_int),
    (''uring_poll_update_sync'', [D_ptr ''uring_ctx'', D_uint64_t, D_uint64_t, D_unsigned, D_unsigned], D_int),
    (''uring_timeout_update_sync'', [D_ptr ''uring_ctx'', D_ptr ''struct __kernel_timespec'', D_uint64_t, D_unsigned], D_int),
    (''uring_recv_multishot_sync'', [D_ptr ''uring_ctx'', D_int, D_ptr ''void'', D_size_t, D_int], D_int),
    (''uring_send_zc_sync'', [D_ptr ''uring_ctx'', D_int, D_ptr ''void'', D_size_t, D_int, D_unsigned], D_int),
    (''uring_send_zc_fixed_sync'', [D_ptr ''uring_ctx'', D_int, D_ptr ''void'', D_size_t, D_int, D_unsigned, D_unsigned], D_int),
    (''uring_sendmsg_zc_iov_sync'', [D_ptr ''uring_ctx'', D_int, D_ptr ''struct iovec'', D_unsigned, D_unsigned], D_int),
    (''uring_sendmsg_zc_fixed_iov_sync'', [D_ptr ''uring_ctx'', D_int, D_ptr ''struct iovec'', D_unsigned, D_unsigned, D_unsigned], D_int),
    (''uring_recv_zc_sync'', [D_ptr ''uring_ctx'', D_int, D_ptr ''void'', D_unsigned, D_unsigned, D_unsigned], D_int),
    (''uring_recvmsg_multishot_iov_sync'', [D_ptr ''uring_ctx'', D_int, D_ptr ''struct iovec'', D_unsigned, D_unsigned], D_int),
    (''uring_epoll_wait_sync'', [D_ptr ''uring_ctx'', D_int, D_ptr ''struct epoll_event'', D_int, D_unsigned], D_int),
    (''uring_waitid_sync'', [D_ptr ''uring_ctx'', D_int, D_int, D_ptr ''siginfo_t'', D_int, D_unsigned], D_int),
    (''uring_futex_wake_sync'', [D_ptr ''uring_ctx'', D_ptr ''uint32_t'', D_uint64_t, D_uint64_t, D_uint32_t, D_unsigned], D_int),
    (''uring_futex_wait_sync'', [D_ptr ''uring_ctx'', D_ptr ''uint32_t'', D_uint64_t, D_uint64_t, D_uint32_t, D_unsigned], D_int),
    (''uring_futex_waitv_sync'', [D_ptr ''uring_ctx'', D_ptr ''struct futex_waitv'', D_uint32_t, D_unsigned], D_int),
    (''uring_uring_cmd_sync'', [D_ptr ''uring_ctx'', D_int, D_int], D_int),
    (''uring_uring_cmd128_sync'', [D_ptr ''uring_ctx'', D_int, D_int], D_int),
    (''uring_cmd_sock_sync'', [D_ptr ''uring_ctx'', D_int, D_int, D_int, D_int, D_ptr ''void'', D_int], D_int),
    (''uring_cmd_getsockname_sync'', [D_ptr ''uring_ctx'', D_int, D_ptr ''struct sockaddr'', D_ptr ''socklen_t'', D_int], D_int),
    (''uring_fixed_fd_install_sync'', [D_ptr ''uring_ctx'', D_int, D_unsigned], D_int),
    (''uring_socket_direct_sync'', [D_ptr ''uring_ctx'', D_int, D_int, D_int, D_unsigned, D_unsigned], D_int),
    (''uring_socket_direct_alloc_sync'', [D_ptr ''uring_ctx'', D_int, D_int, D_int, D_unsigned], D_int),
    (''uring_pipe_direct_sync'', [D_ptr ''uring_ctx'', D_ptr ''int'', D_int, D_unsigned], D_int),
    (''uring_msg_ring_fd_sync'', [D_ptr ''uring_ctx'', D_int, D_int, D_int, D_uint64_t, D_unsigned], D_int),
    (''uring_msg_ring_fd_alloc_sync'', [D_ptr ''uring_ctx'', D_int, D_int, D_uint64_t, D_unsigned], D_int),
    (''uring_msg_ring_cqe_flags_sync'', [D_ptr ''uring_ctx'', D_int, D_unsigned, D_uint64_t, D_unsigned, D_unsigned], D_int),
    (''uring_files_update_sync'', [D_ptr ''uring_ctx'', D_ptr ''int'', D_unsigned, D_int], D_int),
    (''uring_send_bundle_sync'', [D_ptr ''uring_ctx'', D_int, D_size_t, D_int], D_int),
    (''uring_readv_fixed_sync'', [D_ptr ''uring_ctx'', D_int, D_ptr ''struct iovec'', D_unsigned, D_uint64_t, D_int, D_int], D_int),
    (''uring_writev_fixed_sync'', [D_ptr ''uring_ctx'', D_int, D_ptr ''struct iovec'', D_unsigned, D_uint64_t, D_int, D_int], D_int),
    (''uring_sendto_sync'', [D_ptr ''uring_ctx'', D_int, D_ptr ''void'', D_size_t, D_int, D_ptr ''struct sockaddr'', D_socklen_t], D_int)]"

definition sync_signatures_3 :: "(string \<times> cdecl list \<times> cdecl) list" where
  [abi_defs]: "sync_signatures_3 = [
    (''uring_timeout_sync'', [D_ptr ''uring_ctx'', D_ptr ''struct __kernel_timespec'', D_unsigned, D_unsigned, D_uint64_t], D_int),
    (''uring_timeout_remove_sync'', [D_ptr ''uring_ctx'', D_uint64_t, D_unsigned], D_int),
    (''uring_async_cancel_sync'', [D_ptr ''uring_ctx'', D_uint64_t, D_unsigned], D_int),
    (''uring_link_read_write_sync'', [D_ptr ''uring_ctx'', D_int, D_ptr ''void'', D_unsigned, D_longlong, D_int, D_longlong], D_int),
    (''uring_timeout_arm_remove_pair_sync'', [D_ptr ''uring_ctx'', D_int64_t, D_int64_t, D_uint64_t], D_int),
    (''uring_read_sync'', [D_ptr ''uring_ctx'', D_int, D_ptr ''void'', D_unsigned, D_longlong], D_int),
    (''uring_write_sync'', [D_ptr ''uring_ctx'', D_int, D_ptr ''void'', D_unsigned, D_longlong], D_int),
    (''uring_read_batch_sync'', [D_ptr ''uring_ctx'', D_int, D_ptr ''void'', D_unsigned, D_unsigned, D_longlong], D_int),
    (''uring_read_offsets_sync'', [D_ptr ''uring_ctx'', D_int, D_ptr ''void'', D_unsigned, D_ptr ''long long'', D_unsigned], D_int),
    (''uring_copy_path'', [D_ptr ''char'', D_ptr ''char'', D_unsigned, D_unsigned], D_longlong)]"

definition async_signatures :: "(string \<times> cdecl list \<times> cdecl) list" where
  [abi_defs]: "async_signatures = [
    (''uring_read_async'', [D_ptr ''uring_ctx'', D_int, D_ptr ''void'', D_unsigned, D_longlong, D_uint64_t], D_longlong),
    (''uring_write_async'', [D_ptr ''uring_ctx'', D_int, D_ptr ''void'', D_unsigned, D_longlong, D_uint64_t], D_longlong),
    (''uring_multishot_accept_submit'', [D_ptr ''uring_ctx'', D_int, D_int, D_uint64_t], D_longlong),
    (''uring_recv_multishot_buf_group_submit'', [D_ptr ''uring_ctx'', D_int, D_unsigned, D_int, D_uint64_t], D_longlong),
    (''uring_splice_submit'', [D_ptr ''uring_ctx'', D_int, D_int64_t, D_int, D_int64_t, D_unsigned, D_unsigned, D_uint64_t], D_longlong),
    (''uring_wait_completion'', [D_ptr ''uring_ctx'', D_ptr ''uint64_t'', D_ptr ''int''], D_int),
    (''uring_peek_completion'', [D_ptr ''uring_ctx'', D_ptr ''uint64_t'', D_ptr ''int''], D_int),
    (''uring_submit'', [D_ptr ''uring_ctx''], D_int),
    (''uring_submit_and_wait'', [D_ptr ''uring_ctx'', D_unsigned], D_int)]"

definition pool_signatures :: "(string \<times> cdecl list \<times> cdecl) list" where
  [abi_defs]: "pool_signatures = [
    (''uring_buffer_pool_create'', [D_unsigned, D_unsigned], D_ptr ''uring_buffer_pool''),
    (''uring_buffer_pool_destroy'', [D_ptr ''uring_buffer_pool''], D_void),
    (''uring_buffer_pool_resize'', [D_ptr ''uring_buffer_pool'', D_unsigned, D_unsigned], D_int),
    (''uring_buffer_pool_get'', [D_ptr ''uring_buffer_pool'', D_unsigned, D_ptr ''unsigned''], D_ptr ''void''),
    (''uring_buffer_pool_set_size'', [D_ptr ''uring_buffer_pool'', D_unsigned, D_unsigned], D_int)]"

definition c_api_signatures :: "(string \<times> cdecl list \<times> cdecl) list" where
  [abi_defs]: "c_api_signatures = [
    (''uring_copy_path_dynamic'', [D_ptr ''char'', D_ptr ''char'', D_unsigned, D_unsigned, D_buffer_size_callback_t, D_ptr ''void'', D_int, D_pipeline_progress_callback_t, D_ptr ''void''], D_longlong),
    (''uring_write_newfile'', [D_ptr ''char'', D_unsigned, D_unsigned, D_unsigned, D_int, D_int], D_longlong),
    (''uring_write_newfile_dynamic'', [D_ptr ''char'', D_unsigned, D_unsigned, D_unsigned, D_int, D_int, D_buffer_size_callback_t, D_ptr ''void'', D_pipeline_progress_callback_t, D_ptr ''void''], D_longlong),
    (''uring_write_manyfiles'', [D_ptr ''char'', D_unsigned, D_unsigned, D_unsigned, D_unsigned, D_int], D_longlong)]"


subsection \<open>The declared functions\<close>

definition ctx_bindings :: "binding list" where
  "ctx_bindings = core_bindings @ sync_bindings_1 @ sync_bindings_2 @ sync_bindings_3
     @ async_bindings @ pool_bindings"

definition all_bindings :: "binding list" where
  "all_bindings = ctx_bindings @ c_api_bindings"

definition c_signatures :: "(string \<times> cdecl list \<times> cdecl) list" where
  "c_signatures = core_signatures @ sync_signatures_1 @ sync_signatures_2 @ sync_signatures_3
     @ async_signatures @ pool_signatures @ c_api_signatures"

text \<open>
  The value ctypes hands back: the C return value at the declared width; a function
  without \<open>restype\<close> gives \<open>None\<close>, shown here as 0.
\<close>

definition convert_ret :: "ctype option \<Rightarrow> int \<Rightarrow> int" where
  "convert_ret t r = (case t of
       None \<Rightarrow> 0
     | Some C_void_p \<Rightarrow> take_bit 64 r
     | Some c \<Rightarrow> (case wrap_int c r of None \<Rightarrow> r | Some r' \<Rightarrow> r'))"

subsection \<open>Agreement of the two sides\<close>

text \<open>
  Two declarations agree when the value has the same size and signedness on LP64 Linux and
  pointers point to the same kind of object.
\<close>

fun abi_compatible :: "ctype \<Rightarrow> cdecl \<Rightarrow> bool" where
  "abi_compatible C_int d = (d = D_int)"
| "abi_compatible C_uint d = (d = D_unsigned \<or> d = D_uint32_t \<or> d = D_socklen_t)"
| "abi_compatible C_longlong d = (d = D_longlong \<or> d = D_int64_t)"
| "abi_compatible C_int64 d = (d = D_longlong \<or> d = D_int64_t)"
| "abi_compatible C_uint64 d = (d = D_uint64_t)"
| "abi_compatible C_size_t d = (d = D_size_t)"
| "abi_compatible C_char_p d = (d = D_ptr ''char'')"
| "abi_compatible C_void_p d = (case d of D_ptr _ \<Rightarrow> True | _ \<Rightarrow> False)"
| "abi_compatible (POINTER P_int) d = (d = D_ptr ''int'')"
| "abi_compatible (POINTER P_uint) d = (d = D_ptr ''unsigned'' \<or> d = D_ptr ''socklen_t'')"
| "abi_compatible (POINTER P_uint32) d = (d = D_ptr ''uint32_t'')"
| "abi_compatible (POINTER P_uint64) d = (d = D_ptr ''uint64_t'')"
| "abi_compatible (POINTER P_IOVec) d = (d = D_ptr ''struct iovec'')"
| "abi_compatible (POINTER P_KernelTimespec) d = (d = D_ptr ''struct __kernel_timespec'')"
| "abi_compatible (POINTER P_OpenHow) d = (d = D_ptr ''struct open_how'')"
| "abi_compatible (POINTER P_EpollEvent) d = (d = D_ptr ''struct epoll_event'')"
| "abi_compatible (POINTER P_FutexWaitv) d = (d = D_ptr ''struct futex_waitv'')"
| "abi_compatible C_buffer_size_cb d = (d = D_buffer_size_callback_t)"
| "abi_compatible C_progress_cb d = (d = D_pipeline_progress_callback_t)"

definition result_compatible :: "ctype option \<Rightarrow> cdecl \<Rightarrow> bool" where
  "result_compatible r d = (case r of None \<Rightarrow> d = D_void | Some t \<Rightarrow> abi_compatible t d)"

definition binding_agrees :: "binding \<Rightarrow> string \<times> cdecl list \<times> cdecl \<Rightarrow> bool" where
  "binding_agrees b c = (case b of (f, args, res) \<Rightarrow> case c of (g, dargs, dres) \<Rightarrow>
     f = g \<and> list_all2 abi_compatible args dargs \<and> result_compatible res dres)"

end
