(* ===== verification/Uapi_Constants.thy ===== *)
theory Uapi_Constants
  imports Py_Prelude "HOL-Library.Char_ord" "HOL-Library.List_Lexorder"
begin

unbundle bit_operations_syntax

text \<open>
  \<open>pyuring/native/constants.py\<close> (the Linux UAPI integers, in the order of the module) and
  \<open>pyuring/ring_presets.py\<close> (flag presets for the ring constructor).  A constant is the
  value its name has in the module's global dictionary, so the module is an association
  list from names to values.
\<close>

subsection \<open>The tables\<close>

(* pyuring/native/constants.py:5-25 IORING_SETUP_* *)
definition setup_flag_constants :: "(string \<times> int) list" where
  "setup_flag_constants = [
    (''IORING_SETUP_IOPOLL'', 2 ^ 0),
    (''IORING_SETUP_SQPOLL'', 2 ^ 1),
    (''IORING_SETUP_SQ_AFF'', 2 ^ 2),
    (''IORING_SETUP_CQSIZE'', 2 ^ 3),
    (''IORING_SETUP_CLAMP'', 2 ^ 4),
    (''IORING_SETUP_ATTACH_WQ'', 2 ^ 5),
    (''IORING_SETUP_R_DISABLED'', 2 ^ 6),
    (''IORING_SETUP_SUBMIT_ALL'', 2 ^ 7),
    (''IORING_SETUP_COOP_TASKRUN'', 2 ^ 8),
    (''IORING_SETUP_TASKRUN_FLAG'', 2 ^ 9),
    (''IORING_SETUP_SQE128'', 2 ^ 10),
    (''IORING_SETUP_CQE32'', 2 ^ 11),
    (''IORING_SETUP_SINGLE_ISSUER'', 2 ^ 12),
    (''IORING_SETUP_DEFER_TASKRUN'', 2 ^ 13),
    (''IORING_SETUP_NO_MMAP'', 2 ^ 14),
    (''IORING_SETUP_REGISTERED_FD_ONLY'', 2 ^ 15),
    (''IORING_SETUP_NO_SQARRAY'', 2 ^ 16),
    (''IORING_SETUP_HYBRID_IOPOLL'', 2 ^ 17),
    (''IORING_SETUP_CQE_MIXED'', 2 ^ 18),
    (''IORING_SETUP_SQE_MIXED'', 2 ^ 19),
    (''IORING_SETUP_SQ_REWIND'', 2 ^ 20)]"

(* pyuring/native/constants.py:28-34 IOSQE_* *)
definition sqe_flag_constants :: "(string \<times> int) list" where
  "sqe_flag_constants = [
    (''IOSQE_FIXED_FILE'', 2 ^ 0),
    (''IOSQE_IO_DRAIN'', 2 ^ 1),
    (''IOSQE_IO_LINK'', 2 ^ 2),
    (''IOSQE_IO_HARDLINK'', 2 ^ 3),
    (''IOSQE_ASYNC'', 2 ^ 4),
    (''IOSQE_BUFFER_SELECT'', 2 ^ 5),
    (''IOSQE_CQE_SKIP_SUCCESS'', 2 ^ 6)]"

(* pyuring/native/constants.py:37-102 enum io_uring_op *)
definition opcode_constants :: "(string \<times> int) list" where
  "opcode_constants = [
    (''IORING_OP_NOP'', 0),
    (''IORING_OP_READV'', 1),
    (''IORING_OP_WRITEV'', 2),
    (''IORING_OP_FSYNC'', 3),
    (''IORING_OP_READ_FIXED'', 4),
    (''IORING_OP_WRITE_FIXED'', 5),
    (''IORING_OP_POLL_ADD'', 6),
    (''IORING_OP_POLL_REMOVE'', 7),
    (''IORING_OP_SYNC_FILE_RANGE'', 8),
    (''IORING_OP_SENDMSG'', 9),
    (''IORING_OP_RECVMSG'', 10),
    (''IORING_OP_TIMEOUT'', 11),
    (''IORING_OP_TIMEOUT_REMOVE'', 12),
    (''IORING_OP_ACCEPT'', 13),
    (''IORING_OP_ASYNC_CANCEL'', 14),
    (''IORING_OP_LINK_TIMEOUT'', 15),
    (''IORING_OP_CONNECT'', 16),
    (''IORING_OP_FALLOCATE'', 17),
    (''IORING_OP_OPENAT'', 18),
    (''IORING_OP_CLOSE'', 19),
    (''IORING_OP_FILES_UPDATE'', 20),
    (''IORING_OP_STATX'', 21),
    (''IORING_OP_READ'', 22),
    (''IORING_OP_WRITE'', 23),
    (''IORING_OP_FADVISE'', 24),
    (''IORING_OP_MADVISE'', 25),
    (''IORING_OP_SEND'', 26),
    (''IORING_OP_RECV'', 27),
    (''IORING_OP_OPENAT2'', 28),
    (''IORING_OP_EPOLL_CTL'', 29),
    (''IORING_OP_SPLICE'', 30),
    (''IORING_OP_PROVIDE_BUFFERS'', 31),
    (''IORING_OP_REMOVE_BUFFERS'', 32),
    (''IORING_OP_TEE'', 33),
    (''IORING_OP_SHUTDOWN'', 34),
    (''IORING_OP_RENAMEAT'', 35),
    (''IORING_OP_UNLINKAT'', 36),
    (''IORING_OP_MKDIRAT'', 37),
    (''IORING_OP_SYMLINKAT'', 38),
    (''IORING_OP_LINKAT'', 39),
    (''IORING_OP_MSG_RING'', 40),
    (''IORING_OP_FSETXATTR'', 41),
    (''IORING_OP_SETXATTR'', 42),
    (''IORING_OP_FGETXATTR'', 43),
    (''IORING_OP_GETXATTR'', 44),
    (''IORING_OP_SOCKET'', 45),
    (''IORING_OP_URING_CMD'', 46),
    (''IORING_OP_SEND_ZC'', 47),
    (''IORING_OP_SENDMSG_ZC'', 48),
    (''IORING_OP_READ_MULTISHOT'', 49),
    (''IORING_OP_WAITID'', 50),
    (''IORING_OP_FUTEX_WAIT'', 51),
    (''IORING_OP_FUTEX_WAKE'', 52),
    (''IORING_OP_FUTEX_WAITV'', 53),
    (''IORING_OP_FIXED_FD_INSTALL'', 54),
    (''IORING_OP_FTRUNCATE'', 55),
    (''IORING_OP_BIND'', 56),
    (''IORING_OP_LISTEN'', 57),
    (''IORING_OP_RECV_ZC'', 58),
    (''IORING_OP_EPOLL_WAIT'', 59),
    (''IORING_OP_READV_FIXED'', 60),
    (''IORING_OP_WRITEV_FIXED'', 61),
    (''IORING_OP_PIPE'', 62),
    (''IORING_OP_NOP128'', 63),
    (''IORING_OP_URING_CMD128'', 64),
    (''IORING_OP_LAST'', 65)]"

(* pyuring/native/constants.py:105-119 IORING_MSG_*, AT_*, STATX_*, FALLOC_FL_*, SPLICE_F_* *)
definition file_constants :: "(string \<times> int) list" where
  "file_constants = [
    (''IORING_MSG_DATA'', 0),
    (''IORING_MSG_SEND_FD'', 1),
    (''AT_FDCWD'', - 100),
    (''AT_REMOVEDIR'', 0x200),
    (''AT_SYMLINK_NOFOLLOW'', 0x100),
    (''IORING_FSYNC_DATASYNC'', 2 ^ 0),
    (''STATX_BASIC_STATS'', 0x000007FF),
    (''FALLOC_FL_KEEP_SIZE'', 0x01),
    (''FALLOC_FL_ZERO_RANGE'', 0x10),
    (''SPLICE_F_MOVE'', 0x01),
    (''SPLICE_F_FD_IN_FIXED'', 2 ^ 31),
    (''IORING_FILE_INDEX_ALLOC'', 0xFFFFFFFF)]"

(* pyuring/native/constants.py:121-162 IORING_TIMEOUT_*, IORING_POLL_*, IORING_ASYNC_CANCEL_*, IORING_RECV*, IORING_ACCEPT_* *)
definition op_flag_constants :: "(string \<times> int) list" where
  "op_flag_constants = [
    (''IORING_TIMEOUT_ABS'', 2 ^ 0),
    (''IORING_TIMEOUT_UPDATE'', 2 ^ 1),
    (''IORING_TIMEOUT_BOOTTIME'', 2 ^ 2),
    (''IORING_TIMEOUT_REALTIME'', 2 ^ 3),
    (''IORING_LINK_TIMEOUT_UPDATE'', 2 ^ 4),
    (''IORING_TIMEOUT_ETIME_SUCCESS'', 2 ^ 5),
    (''IORING_TIMEOUT_MULTISHOT'', 2 ^ 6),
    (''IORING_TIMEOUT_CLOCK_MASK'', 12),
    (''IORING_TIMEOUT_UPDATE_MASK'', 18),
    (''IORING_POLL_ADD_MULTI'', 2 ^ 0),
    (''IORING_POLL_UPDATE_EVENTS'', 2 ^ 1),
    (''IORING_POLL_UPDATE_USER_DATA'', 2 ^ 2),
    (''IORING_POLL_ADD_LEVEL'', 2 ^ 3),
    (''IORING_ASYNC_CANCEL_ALL'', 2 ^ 0),
    (''IORING_ASYNC_CANCEL_FD'', 2 ^ 1),
    (''IORING_ASYNC_CANCEL_ANY'', 2 ^ 2),
    (''IORING_ASYNC_CANCEL_FD_FIXED'', 2 ^ 3),
    (''IORING_ASYNC_CANCEL_USERDATA'', 2 ^ 4),
    (''IORING_ASYNC_CANCEL_OP'', 2 ^ 5),
    (''IORING_RECVSEND_POLL_FIRST'', 2 ^ 0),
    (''IORING_RECV_MULTISHOT'', 2 ^ 1),
    (''IORING_RECVSEND_FIXED_BUF'', 2 ^ 2),
    (''IORING_SEND_ZC_REPORT_USAGE'', 2 ^ 3),
    (''IORING_RECVSEND_BUNDLE'', 2 ^ 4),
    (''IORING_SEND_VECTORIZED'', 2 ^ 5),
    (''IORING_NOTIF_USAGE_ZC_COPIED'', 2 ^ 31),
    (''IORING_ACCEPT_MULTISHOT'', 2 ^ 0),
    (''IORING_ACCEPT_DONTWAIT'', 2 ^ 1),
    (''IORING_ACCEPT_POLL_FIRST'', 2 ^ 2),
    (''IORING_MSG_RING_CQE_SKIP'', 2 ^ 0),
    (''IORING_MSG_RING_FLAGS_PASS'', 2 ^ 1),
    (''IORING_FIXED_FD_NO_CLOEXEC'', 2 ^ 0),
    (''IORING_NOP_INJECT_RESULT'', 2 ^ 0),
    (''IORING_NOP_CQE32'', 2 ^ 5)]"

(* pyuring/native/constants.py:164-197 IORING_CQE_F_*, IORING_SQ_*, IORING_ENTER_*, IORING_OFF_* *)
definition ring_constants :: "(string \<times> int) list" where
  "ring_constants = [
    (''IORING_CQE_F_BUFFER'', 2 ^ 0),
    (''IORING_CQE_F_MORE'', 2 ^ 1),
    (''IORING_CQE_F_SOCK_NONEMPTY'', 2 ^ 2),
    (''IORING_CQE_F_NOTIF'', 2 ^ 3),
    (''IORING_CQE_F_BUF_MORE'', 2 ^ 4),
    (''IORING_CQE_F_SKIP'', 2 ^ 5),
    (''IORING_CQE_F_32'', 2 ^ 15),
    (''IORING_CQE_BUFFER_SHIFT'', 16),
    (''IORING_SQ_NEED_WAKEUP'', 2 ^ 0),
    (''IORING_SQ_CQ_OVERFLOW'', 2 ^ 1),
    (''IORING_SQ_TASKRUN'', 2 ^ 2),
    (''IORING_CQ_EVENTFD_DISABLED'', 2 ^ 0),
    (''IORING_ENTER_GETEVENTS'', 2 ^ 0),
    (''IORING_ENTER_SQ_WAKEUP'', 2 ^ 1),
    (''IORING_ENTER_SQ_WAIT'', 2 ^ 2),
    (''IORING_ENTER_EXT_ARG'', 2 ^ 3),
    (''IORING_ENTER_REGISTERED_RING'', 2 ^ 4),
    (''IORING_ENTER_ABS_TIMER'', 2 ^ 5),
    (''IORING_ENTER_EXT_ARG_REG'', 2 ^ 6),
    (''IORING_ENTER_NO_IOWAIT'', 2 ^ 7),
    (''IORING_URING_CMD_FIXED'', 2 ^ 0),
    (''IORING_OFF_SQ_RING'', 0),
    (''IORING_OFF_CQ_RING'', 0x8000000),
    (''IORING_OFF_SQES'', 0x10000000),
    (''IORING_OFF_PBUF_RING'', 0x80000000),
    (''IORING_OFF_PBUF_SHIFT'', 16),
    (''IORING_OFF_MMAP_MASK'', 0xF8000000),
    (''IORING_RW_ATTR_FLAG_PI'', 2 ^ 0)]"

(* pyuring/native/constants.py:200-228 SYNC_FILE_RANGE_*, POSIX_FADV_*, MADV_*, SOCKET_URING_OP_*, SIGINFO_T_SIZE *)
definition advice_constants :: "(string \<times> int) list" where
  "advice_constants = [
    (''SYNC_FILE_RANGE_WAIT_BEFORE'', 1),
    (''SYNC_FILE_RANGE_WRITE'', 2),
    (''SYNC_FILE_RANGE_WAIT_AFTER'', 4),
    (''POSIX_FADV_NORMAL'', 0),
    (''POSIX_FADV_RANDOM'', 1),
    (''POSIX_FADV_SEQUENTIAL'', 2),
    (''POSIX_FADV_WILLNEED'', 3),
    (''POSIX_FADV_DONTNEED'', 4),
    (''POSIX_FADV_NOREUSE'', 5),
    (''MADV_NORMAL'', 0),
    (''MADV_RANDOM'', 1),
    (''MADV_SEQUENTIAL'', 2),
    (''MADV_WILLNEED'', 3),
    (''MADV_DONTNEED'', 4),
    (''SOCKET_URING_OP_SIOCINQ'', 0),
    (''SOCKET_URING_OP_SIOCOUTQ'', 1),
    (''SOCKET_URING_OP_GETSOCKOPT'', 2),
    (''SOCKET_URING_OP_SETSOCKOPT'', 3),
    (''SOCKET_URING_OP_TX_TIMESTAMP'', 4),
    (''SOCKET_URING_OP_GETSOCKNAME'', 5),
    (''SIGINFO_T_SIZE'', 128)]"

definition module_constants :: "(string \<times> int) list" where
  "module_constants = setup_flag_constants @ sqe_flag_constants @ opcode_constants
     @ file_constants @ op_flag_constants @ ring_constants @ advice_constants"

(* pyuring/native/constants.py:231-242 _UAPI_PREFIXES *)
definition UAPI_PREFIXES :: "string list" where
  "UAPI_PREFIXES = [''IORING_'', ''IOSQE_'', ''AT_'', ''SPLICE_F_'', ''FALLOC_FL_'', ''STATX_'',
     ''SYNC_FILE_RANGE_'', ''POSIX_FADV_'', ''MADV_'', ''SOCKET_URING_'']"

definition startswith :: "string \<Rightarrow> string \<Rightarrow> bool" where
  "startswith s p = (take (length p) s = p)"

(* pyuring/native/constants.py:243-249 UAPI_CONSTANT_NAMES *)
definition UAPI_CONSTANT_NAMES :: "string list" where
  "UAPI_CONSTANT_NAMES =
     sort (filter (\<lambda>name. list_ex (startswith name) UAPI_PREFIXES) (map fst module_constants))"

subsection \<open>The constants other modules import\<close>

(* pyuring/native/constants.py:6-6 IORING_SETUP_SQPOLL *)
definition IORING_SETUP_SQPOLL :: int where "IORING_SETUP_SQPOLL = 2 ^ 1"
(* pyuring/native/constants.py:17-17 IORING_SETUP_SINGLE_ISSUER *)
definition IORING_SETUP_SINGLE_ISSUER :: int where "IORING_SETUP_SINGLE_ISSUER = 2 ^ 12"
(* pyuring/native/constants.py:18-18 IORING_SETUP_DEFER_TASKRUN *)
definition IORING_SETUP_DEFER_TASKRUN :: int where "IORING_SETUP_DEFER_TASKRUN = 2 ^ 13"
(* pyuring/native/constants.py:112-112 IORING_FSYNC_DATASYNC *)
definition IORING_FSYNC_DATASYNC :: int where "IORING_FSYNC_DATASYNC = 2 ^ 0"
(* pyuring/native/constants.py:119-119 IORING_FILE_INDEX_ALLOC *)
definition IORING_FILE_INDEX_ALLOC :: int where "IORING_FILE_INDEX_ALLOC = 0xFFFFFFFF"
(* pyuring/native/constants.py:109-109 AT_FDCWD *)
definition AT_FDCWD :: int where "AT_FDCWD = - 100"
(* pyuring/native/constants.py:228-228 SIGINFO_T_SIZE *)
definition SIGINFO_T_SIZE :: nat where "SIGINFO_T_SIZE = 128"

lemma imported_constants:
  "map_of module_constants ''IORING_SETUP_SQPOLL'' = Some IORING_SETUP_SQPOLL"
  "map_of module_constants ''IORING_SETUP_SINGLE_ISSUER'' = Some IORING_SETUP_SINGLE_ISSUER"
  "map_of module_constants ''IORING_SETUP_DEFER_TASKRUN'' = Some IORING_SETUP_DEFER_TASKRUN"
  "map_of module_constants ''IORING_FSYNC_DATASYNC'' = Some IORING_FSYNC_DATASYNC"
  "map_of module_constants ''IORING_FILE_INDEX_ALLOC'' = Some IORING_FILE_INDEX_ALLOC"
  "map_of module_constants ''AT_FDCWD'' = Some AT_FDCWD"
  "map_of module_constants ''SIGINFO_T_SIZE'' = Some (int SIGINFO_T_SIZE)"
  by code_simp+

subsection \<open>Ring presets\<close>

text \<open>
  The keyword dictionaries of \<open>ring_presets.py\<close>; a key that is absent leaves the
  constructor's default.
\<close>

record ring_kwargs =
  kw_setup_flags :: int
  kw_sq_thread_idle :: "int option"
  kw_sq_thread_cpu :: "int option"

(* pyuring/ring_presets.py:20-22 sqpoll_setup_flags *)
definition sqpoll_setup_flags :: int where
  "sqpoll_setup_flags = IORING_SETUP_SQPOLL"

(* pyuring/ring_presets.py:25-27 defer_taskrun_setup_flags *)
definition defer_taskrun_setup_flags :: int where
  "defer_taskrun_setup_flags = IORING_SETUP_SINGLE_ISSUER OR IORING_SETUP_DEFER_TASKRUN"

(* pyuring/ring_presets.py:30-45 sqpoll_kwargs *)
definition sqpoll_kwargs :: "int \<Rightarrow> int \<Rightarrow> int \<Rightarrow> ring_kwargs" where
  "sqpoll_kwargs sq_thread_idle sq_thread_cpu extra_setup_flags =
     \<lparr> kw_setup_flags = IORING_SETUP_SQPOLL OR extra_setup_flags,
       kw_sq_thread_idle = Some sq_thread_idle,
       kw_sq_thread_cpu = Some sq_thread_cpu \<rparr>"

(* pyuring/ring_presets.py:48-50 defer_taskrun_kwargs *)
definition defer_taskrun_kwargs :: "int \<Rightarrow> ring_kwargs" where
  "defer_taskrun_kwargs extra_setup_flags =
     \<lparr> kw_setup_flags = defer_taskrun_setup_flags OR extra_setup_flags,
       kw_sq_thread_idle = None,
       kw_sq_thread_cpu = None \<rparr>"

subsection \<open>Facts\<close>

lemma setup_flags_are_bits: "map snd setup_flag_constants = map (\<lambda>i. 2 ^ i) [0..<21]"
  by code_simp

lemma sqe_flags_are_bits: "map snd sqe_flag_constants = map (\<lambda>i. 2 ^ i) [0..<7]"
  by code_simp

lemma opcode_values: "map snd opcode_constants = map int [0..<66]"
  by code_simp

text \<open>
  Distinct setup flags are distinct single bits, so a flag word determines the set of flags
  it was built from.
\<close>

lemma bit_pow2: "bit ((2::int) ^ i) k \<longleftrightarrow> i = k"
  by (auto simp: bit_exp_iff)

lemma sqpoll_bit: "bit IORING_SETUP_SQPOLL k \<longleftrightarrow> k = 1"
  by (simp only: IORING_SETUP_SQPOLL_def bit_pow2) auto

lemma defer_taskrun_bit: "bit defer_taskrun_setup_flags k \<longleftrightarrow> k = 12 \<or> k = 13"
  by (simp only: defer_taskrun_setup_flags_def IORING_SETUP_SINGLE_ISSUER_def
      IORING_SETUP_DEFER_TASKRUN_def bit_or_iff bit_pow2) auto

lemma exported_filter:
  "filter (\<lambda>name. \<not> list_ex (startswith name) UAPI_PREFIXES) (map fst module_constants)
     = [''SIGINFO_T_SIZE'']"
  by code_simp

end
