(* ===== verification/Ctx_Core.thy ===== *)
theory Ctx_Core
  imports Native_Abi Uapi_Constants
begin

unbundle bit_operations_syntax

text \<open>
  The core of \<open>pyuring/native/uring_ctx.py\<close>: the state of a \<open>UringCtx\<close>, its construction
  (\<open>__init__\<close>, \<open>with_sqpoll\<close>, \<open>with_defer_taskrun\<close>), the guard every method starts
  with (\<open>_ensure_open\<close>, \<open>_ring\<close>), the call of a declared native function and \<open>close\<close>.
  The native library acts on a world of its own (type \<open>'w\<close>): the rings, the kernel, memory and
  files.  What it does is the argument \<open>native\<close> of the environment, so every statement here
  holds for any behaviour of the C side.
\<close>

subsection \<open>State and environment\<close>

text \<open>
  What keeps memory alive: a reference to the Python object itself, or the ctypes array
  made from it (which also holds the object's buffer export).
\<close>

datatype keep = KObj nat | KView cmem

record uctx =
  u_ctx :: "int option"
  u_owner_thread_id :: "int option"
  u_buffer_keepalive :: "keep list"
  u_async_io_keepalive :: "int \<rightharpoonup> keep"

text \<open>
  The result of a native call: the C return value, what it left in its output parameter or
  output buffer (as integers), and C's \<open>errno\<close>.
\<close>

record reply =
  rp_ret :: int
  rp_out :: "int list"
  rp_errno :: int

record 'w env =
  native :: "string \<Rightarrow> cval list \<Rightarrow> 'w \<Rightarrow> reply \<times> 'w"
  thread_ident :: int
  ct_errno :: int

type_synonym ('w, 'a) meth = "(uctx \<times> 'w, 'a) py"

definition truthy :: "int option \<Rightarrow> bool" where
  "truthy h = (case h of None \<Rightarrow> False | Some n \<Rightarrow> n \<noteq> 0)"

lemma truthy_simps [simp]: "\<not> truthy None" "truthy (Some n) \<longleftrightarrow> n \<noteq> 0"
  by (simp_all add: truthy_def)

subsection \<open>Native calls\<close>

definition invoke_native ::
  "'w env \<Rightarrow> binding \<Rightarrow> pyval list \<Rightarrow> 'w \<Rightarrow> (exn + reply) \<times> 'w" where
  "invoke_native E b args w =
     (case b of (f, argtypes, restype) \<Rightarrow>
       case convert_args argtypes args of
         Inl e \<Rightarrow> (Inl e, w)
       | Inr cargs \<Rightarrow>
           (case native E f cargs w of (r, w') \<Rightarrow>
              (Inr (r\<lparr>rp_ret := convert_ret restype (rp_ret r)\<rparr>), w')))"

definition call_native :: "'w env \<Rightarrow> binding \<Rightarrow> pyval list \<Rightarrow> ('w, reply) meth" where
  "call_native E b args = (\<lambda>(self, w).
     case invoke_native E b args w of (res, w') \<Rightarrow> (res, (self, w')))"

text \<open>
  \<open>ctypes.get_errno()\<close> after a call: ctypes swaps its private copy with C's \<open>errno\<close> only
  around functions of a library loaded with \<open>use_errno=True\<close>.
\<close>

definition get_errno_after :: "bool \<Rightarrow> 'w env \<Rightarrow> reply \<Rightarrow> int" where
  "get_errno_after use_errno E r = (if use_errno then rp_errno r else ct_errno E)"

text \<open>Both \<open>ctypes.CDLL(lib_path)\<close> calls of the package leave \<open>use_errno\<close> at its default.\<close>

definition CDLL_use_errno :: bool where "CDLL_use_errno = False"

subsection \<open>Construction\<close>

(* pyuring/capabilities.py:14-14 IO_URING_KERNEL_DOC *)
definition IO_URING_KERNEL_DOC :: string where
  "IO_URING_KERNEL_DOC = ''https://www.kernel.org/doc/html/latest/io_uring/index.html''"

(* pyuring/capabilities.py:15-15 LIBURING_PROJECT *)
definition LIBURING_PROJECT :: string where
  "LIBURING_PROJECT = ''https://github.com/axboe/liburing''"

abbreviation newline :: string where "newline \<equiv> [CHR 0x0A]"

(* pyuring/native/uring_ctx.py:327-334 UringCtx.__init__ *)
definition create_failed_detail :: "int \<Rightarrow> string" where
  "create_failed_detail setup_flags =
     ''io_uring_queue_init_params failed (NULL return). ''
       @ ''Common causes: io_uring disabled (seccomp, container policy), ''
       @ ''unsupported IORING_SETUP_* combination for this kernel, or resource limits.'' @ newline
       @ ''Documentation: '' @ IO_URING_KERNEL_DOC @ newline
       @ ''liburing: '' @ LIBURING_PROJECT @ newline
       @ ''setup_flags='' @ str_of_int (mask32 setup_flags)
       @ '' (see IORING_SETUP_* in pyuring).''"

(* pyuring/native/uring_ctx.py:318-337 UringCtx.__init__ *)
definition UringCtx_init ::
  "'w env \<Rightarrow> int \<Rightarrow> int \<Rightarrow> int \<Rightarrow> int \<Rightarrow> bool \<Rightarrow> 'w \<Rightarrow> (exn + uctx) \<times> 'w" where
  "UringCtx_init E entries setup_flags sq_thread_cpu sq_thread_idle single_thread_check w =
     (case invoke_native E uring_create_ex
             [PInt entries, PInt (mask32 setup_flags), PInt sq_thread_cpu,
              PInt (mask32 sq_thread_idle)] w of
        (Inl e, w') \<Rightarrow> (Inl e, w')
      | (Inr r, w') \<Rightarrow>
          if rp_ret r = 0 then
            (let err = get_errno_after CDLL_use_errno E r;
                 err = (if err = 0 then EOPNOTSUPP else err)
             in (Inl (uring_error_detail err ''uring_create_ex'' (create_failed_detail setup_flags)), w'))
          else
            (Inr \<lparr> u_ctx = Some (rp_ret r),
                   u_owner_thread_id = (if single_thread_check then Some (thread_ident E) else None),
                   u_buffer_keepalive = [],
                   u_async_io_keepalive = Map.empty \<rparr>, w'))"

(* pyuring/native/uring_ctx.py:339-364 UringCtx.with_sqpoll *)
definition UringCtx_with_sqpoll ::
  "'w env \<Rightarrow> int \<Rightarrow> int \<Rightarrow> int \<Rightarrow> bool \<Rightarrow> 'w \<Rightarrow> (exn + uctx) \<times> 'w" where
  "UringCtx_with_sqpoll E entries sq_thread_idle sq_thread_cpu single_thread_check =
     UringCtx_init E entries IORING_SETUP_SQPOLL sq_thread_cpu sq_thread_idle single_thread_check"

(* pyuring/native/uring_ctx.py:366-385 UringCtx.with_defer_taskrun *)
definition UringCtx_with_defer_taskrun ::
  "'w env \<Rightarrow> int \<Rightarrow> bool \<Rightarrow> 'w \<Rightarrow> (exn + uctx) \<times> 'w" where
  "UringCtx_with_defer_taskrun E entries single_thread_check =
     UringCtx_init E entries (IORING_SETUP_SINGLE_ISSUER OR IORING_SETUP_DEFER_TASKRUN)
       (- 1) 0 single_thread_check"

subsection \<open>The guard\<close>

definition closed_detail :: string where
  "closed_detail = ''This UringCtx is closed; create a new instance or avoid using it after close().''"

definition thread_detail :: string where
  "thread_detail = ''UringCtx must be used from the thread that created it ''
     @ ''(construct with single_thread_check=False only if you serialize access yourself).''"

(* pyuring/native/uring_ctx.py:387-401 UringCtx._ensure_open *)
definition UringCtx_ensure_open :: "'w env \<Rightarrow> ('w, unit) meth" where
  "UringCtx_ensure_open E = (\<lambda>(self, w).
     if \<not> truthy (u_ctx self)
     then (Inl (uring_error_detail EINVAL ''UringCtx'' closed_detail), (self, w))
     else case u_owner_thread_id self of
       Some tid \<Rightarrow>
         if thread_ident E \<noteq> tid
         then (Inl (uring_error_detail EINVAL ''UringCtx'' thread_detail), (self, w))
         else (Inr (), (self, w))
     | None \<Rightarrow> (Inr (), (self, w)))"

(* pyuring/native/uring_ctx.py:403-406 UringCtx._ring *)
definition UringCtx_ring :: "'w env \<Rightarrow> ('w, int) meth" where
  "UringCtx_ring E = py_bind (UringCtx_ensure_open E)
     (\<lambda>_. \<lambda>(self, w). (Inr (the (u_ctx self)), (self, w)))"

text \<open>
  \<open>self._lib.f(self._ring(), ...)\<close>: the guard is the first argument, so it runs before the
  call.  The three shapes most methods have: return \<open>None\<close>, return \<open>int(ret)\<close>, or go on
  with the reply.
\<close>

definition ring_call ::
  "'w env \<Rightarrow> binding \<Rightarrow> pyval list \<Rightarrow> (reply \<Rightarrow> ('w, 'a) meth) \<Rightarrow> ('w, 'a) meth" where
  "ring_call E b args k =
     py_bind (UringCtx_ring E) (\<lambda>h. py_bind (call_native E b (PInt h # args)) k)"

definition sync_call ::
  "'w env \<Rightarrow> binding \<Rightarrow> pyval list \<Rightarrow> (reply \<Rightarrow> ('w, 'a) meth) \<Rightarrow> ('w, 'a) meth" where
  "sync_call E b args k =
     ring_call E b args (\<lambda>r. py_bind (py_lift (check_ret (rp_ret r) (fst b))) (\<lambda>_. k r))"

definition sync_none :: "'w env \<Rightarrow> binding \<Rightarrow> pyval list \<Rightarrow> ('w, unit) meth" where
  "sync_none E b args = sync_call E b args (\<lambda>_. py_return ())"

definition sync_int :: "'w env \<Rightarrow> binding \<Rightarrow> pyval list \<Rightarrow> ('w, int) meth" where
  "sync_int E b args = sync_call E b args (\<lambda>r. py_return (rp_ret r))"

subsection \<open>Closing\<close>

(* pyuring/native/uring_ctx.py:1408-1416 UringCtx.close *)
definition UringCtx_close :: "'w env \<Rightarrow> ('w, unit) meth" where
  "UringCtx_close E = (\<lambda>(self, w).
     let self = self\<lparr>u_buffer_keepalive := [], u_async_io_keepalive := Map.empty\<rparr>
     in if truthy (u_ctx self)
        then (case invoke_native E uring_destroy [PInt (the (u_ctx self))] w of
                (Inl e, w') \<Rightarrow> (Inl e, (self, w'))
              | (Inr _, w') \<Rightarrow>
                  (Inr (), (self\<lparr>u_ctx := None, u_owner_thread_id := None\<rparr>, w')))
        else (Inr (), (self\<lparr>u_owner_thread_id := None\<rparr>, w)))"

(* pyuring/native/uring_ctx.py:1418-1420 UringCtx.__enter__ *)
definition UringCtx_enter :: "'w env \<Rightarrow> ('w, unit) meth" where
  "UringCtx_enter E = UringCtx_ensure_open E"

(* pyuring/native/uring_ctx.py:1422-1423 UringCtx.__exit__ *)
definition UringCtx_exit :: "'w env \<Rightarrow> ('w, unit) meth" where
  "UringCtx_exit E = UringCtx_close E"

(* pyuring/native/uring_ctx.py:1425-1434 UringCtx.__del__ *)
definition UringCtx_del_warns :: "bool \<Rightarrow> uctx \<Rightarrow> bool" where
  "UringCtx_del_warns is_finalizing self \<longleftrightarrow> \<not> is_finalizing \<and> u_ctx self \<noteq> None"

(* pyuring/native/uring_ctx.py:1436-1441 UringCtx.ring_fd *)
definition UringCtx_ring_fd :: "'w env \<Rightarrow> ('w, int) meth" where
  "UringCtx_ring_fd E = sync_int E uring_ring_fd []"

subsection \<open>When the guard lets a call through\<close>

definition usable :: "'w env \<Rightarrow> uctx \<Rightarrow> bool" where
  "usable E self \<longleftrightarrow> truthy (u_ctx self)
     \<and> (case u_owner_thread_id self of None \<Rightarrow> True | Some tid \<Rightarrow> thread_ident E = tid)"

definition guard_error :: "'w env \<Rightarrow> uctx \<Rightarrow> exn" where
  "guard_error E self = uring_error_detail EINVAL ''UringCtx''
     (if truthy (u_ctx self) then thread_detail else closed_detail)"

lemma ensure_open_eq:
  "UringCtx_ensure_open E (self, w) =
     ((if usable E self then Inr () else Inl (guard_error E self)), (self, w))"
  by (auto simp: UringCtx_ensure_open_def usable_def guard_error_def split: option.split)

lemma ring_eq:
  "UringCtx_ring E (self, w) =
     ((if usable E self then Inr (the (u_ctx self)) else Inl (guard_error E self)), (self, w))"
  by (simp add: UringCtx_ring_def py_bind_def ensure_open_eq)

lemma ring_call_eq:
  "ring_call E b args k (self, w) =
     (if usable E self
      then (case invoke_native E b (PInt (the (u_ctx self)) # args) w of
              (Inl e, w') \<Rightarrow> (Inl e, (self, w'))
            | (Inr r, w') \<Rightarrow> k r (self, w'))
      else (Inl (guard_error E self), (self, w)))"
  by (auto simp: ring_call_def py_bind_def ring_eq call_native_def split: prod.split sum.split)

lemma sync_call_eq:
  "sync_call E b args k (self, w) =
     (if usable E self
      then (case invoke_native E b (PInt (the (u_ctx self)) # args) w of
              (Inl e, w') \<Rightarrow> (Inl e, (self, w'))
            | (Inr r, w') \<Rightarrow>
                (case check_ret (rp_ret r) (fst b) of
                   Inl e \<Rightarrow> (Inl e, (self, w'))
                 | Inr _ \<Rightarrow> k r (self, w')))
      else (Inl (guard_error E self), (self, w)))"
  by (auto simp: sync_call_def ring_call_eq py_bind_def py_lift_def py_raise_def py_return_def
      split: prod.split sum.split)

text \<open>
  A native pointer is never 0 when the object is open, and a closed object has no owner:
  the representation invariant of the class.
\<close>

definition uctx_inv :: "uctx \<Rightarrow> bool" where
  "uctx_inv self \<longleftrightarrow> (u_ctx self \<noteq> Some 0)
     \<and> (u_ctx self = None \<longrightarrow> u_owner_thread_id self = None
          \<and> u_async_io_keepalive self = Map.empty)"

lemma invoke_native_cases:
  assumes "invoke_native E (f, ts, rt) args w = (res, w')"
  obtains (bad) e where "convert_args ts args = Inl e" "res = Inl e" "w' = w"
  | (ok) cargs r where "convert_args ts args = Inr cargs" "native E f cargs w = (r, w')"
      "res = Inr (r\<lparr>rp_ret := convert_ret rt (rp_ret r)\<rparr>)"
  using assms by (auto simp: invoke_native_def split: sum.splits prod.splits)

lemma UringCtx_init_inv:
  "UringCtx_init E n fl cpu idle chk w = (Inr self, w') \<Longrightarrow> uctx_inv self"
  by (auto simp: UringCtx_init_def uctx_inv_def Let_def split: sum.splits prod.splits if_splits)

lemma UringCtx_close_closed:
  "uctx_inv self \<Longrightarrow> UringCtx_close E (self, w) = (Inr (), (self', w'))
     \<Longrightarrow> u_ctx self' = None \<and> uctx_inv self'"
  by (auto simp: UringCtx_close_def uctx_inv_def Let_def truthy_def
      split: sum.splits prod.splits if_splits option.splits)

lemma destroy_accepts: "convert_args [C_void_p] [PInt h] \<noteq> Inl e"
  by simp

lemma UringCtx_close_never_raises: "fst (UringCtx_close E s) = Inr ()"
  by (auto simp: UringCtx_close_def Let_def invoke_native_def uring_destroy_def
      split: prod.splits sum.splits)

end
