(* ===== verification/Ctx_Sync.thy ===== *)
theory Ctx_Sync
  imports Ctx_Core
begin

unbundle bit_operations_syntax

text \<open>
  The synchronous methods of \<open>UringCtx\<close> (\<open>pyuring/native/uring_ctx.py\<close>, lines 408 to 1406
  and 1443 to 1485).  Each one checks its arguments, builds the C arguments, runs the guard and
  the native call, checks the result and converts it.  Arguments the source passes through
  \<open>int\<close> are integers here; paths and attribute names are the encoded strings.
\<close>

named_theorems method_defs \<open>definitions of the UringCtx methods\<close>

subsection \<open>Shared pieces\<close>

fun collect :: "('a \<Rightarrow> exn + 'b) \<Rightarrow> 'a list \<Rightarrow> exn + 'b list" where
  "collect f [] = Inr []"
| "collect f (x # xs) = sum_bind (f x) (\<lambda>y. sum_bind (collect f xs) (\<lambda>ys. Inr (y # ys)))"

lemma collect_Inr: "collect f xs = Inr ys \<Longrightarrow> list_all2 (\<lambda>x y. f x = Inr y) xs ys"
  by (induction xs arbitrary: ys) (auto simp: sum_bind_Inr_iff)

lemma collect_Inr_length: "collect f xs = Inr ys \<Longrightarrow> length ys = length xs"
  by (drule collect_Inr) (simp add: list_all2_lengthD)

text \<open>A result check that carries the path, offset or length of the operation.\<close>

definition sync_call_info ::
  "'w env \<Rightarrow> binding \<Rightarrow> pyval list \<Rightarrow> string option \<Rightarrow> int option \<Rightarrow> int option
     \<Rightarrow> (reply \<Rightarrow> ('w, 'a) meth) \<Rightarrow> ('w, 'a) meth" where
  "sync_call_info E b args f off len k =
     ring_call E b args
       (\<lambda>r. py_bind (py_lift (raise_for_neg_errno (rp_ret r) (fst b) f off len)) (\<lambda>_. k r))"

lemma sync_call_is_info: "sync_call E b args k = sync_call_info E b args None None None k"
  by (simp add: sync_call_def sync_call_info_def)

text \<open>The bytes of an \<open>n\<close>-byte output buffer after the call.\<close>

definition raw_after :: "nat \<Rightarrow> reply \<Rightarrow> int list" where
  "raw_after n r = take n (rp_out r @ replicate n 0)"

lemma length_raw_after [simp]: "length (raw_after n r) = n"
  by (simp add: raw_after_def)

text \<open>
  The three loops that turn a list of parts into an array of \<open>struct iovec\<close>:
  scatter (\<open>readv\<close>, \<open>recvmsg\<close>), gather (\<open>writev\<close>, \<open>sendmsg\<close>) and registration.
\<close>

definition writable_part :: "pybuf \<Rightarrow> exn + (cmem \<times> nat)" where
  "writable_part p =
     (if b_readonly p then Inl (TypeError ''each part must be writable'')
      else sum_bind (from_buffer p (b_nbytes p)) (\<lambda>arr. Inr (arr, b_nbytes p)))"

definition gather_part :: "pybuf \<Rightarrow> exn + (cmem \<times> nat)" where
  "gather_part p =
     (if b_kind p = Bytes then Inr (Copied (b_id p) (b_len p), b_len p)
      else if \<not> b_contiguous p then Inl (ValueError ''each part must be contiguous'')
      else sum_bind (from_buffer p (b_len p)) (\<lambda>arr. Inr (arr, b_len p)))"

definition register_part :: "pybuf \<Rightarrow> exn + (cmem \<times> nat)" where
  "register_part p =
     (if b_kind p = Bytes then Inl (TypeError ''buffers must be mutable (e.g. bytearray), not bytes'')
      else if b_readonly p then Inl (TypeError ''buffer must be writable'')
      else if \<not> b_contiguous p then Inl (ValueError ''buffer must be contiguous'')
      else sum_bind (from_buffer p (b_nbytes p)) (\<lambda>arr. Inr (arr, b_nbytes p)))"

definition with_parts ::
  "(pybuf \<Rightarrow> exn + (cmem \<times> nat)) \<Rightarrow> string \<Rightarrow> pybuf list
     \<Rightarrow> ((cmem \<times> nat) list \<Rightarrow> ('w, 'a) meth) \<Rightarrow> ('w, 'a) meth" where
  "with_parts part msg parts k =
     (if parts = [] then py_raise (ValueError msg)
      else case collect part parts of
             Inl e \<Rightarrow> py_raise e
           | Inr iov \<Rightarrow> k iov)"

definition with_buffer :: "exn + cmem \<Rightarrow> (cmem \<Rightarrow> ('w, 'a) meth) \<Rightarrow> ('w, 'a) meth" where
  "with_buffer m k = (case m of Inl e \<Rightarrow> py_raise e | Inr arr \<Rightarrow> k arr)"

abbreviation PLen :: "'a list \<Rightarrow> pyval" where "PLen xs \<equiv> PInt (int (length xs))"
abbreviation PNat :: "nat \<Rightarrow> pyval" where "PNat n \<equiv> PInt (int n)"

text \<open>\<open>(c_int * n)(...)\<close> and the fields of a \<open>KernelTimespec\<close> store at their width.\<close>

definition c_int_array :: "int list \<Rightarrow> cmem" where
  "c_int_array fds = IntArr (map (signed_take_bit 31) fds)"

definition kernel_timespec :: "int \<Rightarrow> int \<Rightarrow> cmem" where
  "kernel_timespec sec nsec = Timespec (signed_take_bit 63 sec) (signed_take_bit 63 nsec)"

text \<open>
  \<open>ctypes.memmove(buf, addr, len(addr))\<close> into a fresh array of \<open>max(len(addr), addr_len)\<close>
  bytes; \<open>memmove\<close> takes \<open>bytes\<close> but no other buffer object.
\<close>

definition sockaddr_buffer :: "pybuf \<Rightarrow> int \<Rightarrow> exn + cmem" where
  "sockaddr_buffer addr addr_len =
     (if b_kind addr = Bytes then Inr (Copied (b_id addr) (nat (max (int (b_len addr)) addr_len)))
      else Inl ArgumentError)"

subsection \<open>Registration, fixed buffers and probing\<close>

(* pyuring/native/uring_ctx.py:408-415 UringCtx.register_files *)
definition UringCtx_register_files :: "'w env \<Rightarrow> int list \<Rightarrow> ('w, unit) meth" where
  [method_defs]: "UringCtx_register_files E fds =
     (if fds = [] then py_raise (ValueError ''fds must be non-empty'')
      else sync_none E uring_register_files [PMem (c_int_array fds), PLen fds])"

(* pyuring/native/uring_ctx.py:417-419 UringCtx.unregister_files *)
definition UringCtx_unregister_files :: "'w env \<Rightarrow> ('w, unit) meth" where
  [method_defs]: "UringCtx_unregister_files E = sync_none E uring_unregister_files []"

(* pyuring/native/uring_ctx.py:421-446 UringCtx.register_buffers *)
definition UringCtx_register_buffers :: "'w env \<Rightarrow> pybuf list \<Rightarrow> ('w, unit) meth" where
  [method_defs]: "UringCtx_register_buffers E buffers =
     with_parts register_part ''buffers must be non-empty'' buffers (\<lambda>iov.
       sync_call E uring_register_buffers [PMem (IovArr iov), PLen buffers] (\<lambda>_ (self, w).
         (Inr (), (self\<lparr>u_buffer_keepalive := map (KView \<circ> fst) iov\<rparr>, w))))"

(* pyuring/native/uring_ctx.py:448-451 UringCtx.unregister_buffers *)
definition UringCtx_unregister_buffers :: "'w env \<Rightarrow> ('w, unit) meth" where
  [method_defs]: "UringCtx_unregister_buffers E =
     sync_call E uring_unregister_buffers [] (\<lambda>_ (self, w).
       (Inr (), (self\<lparr>u_buffer_keepalive := []\<rparr>, w)))"

(* pyuring/native/uring_ctx.py:453-460 UringCtx.read_fixed *)
definition UringCtx_read_fixed ::
  "'w env \<Rightarrow> int \<Rightarrow> pybuf \<Rightarrow> int \<Rightarrow> int \<Rightarrow> ('w, int) meth" where
  [method_defs]: "UringCtx_read_fixed E file_index buf offset buf_index =
     with_buffer (from_buffer buf (b_len buf)) (\<lambda>arr.
       sync_int E uring_read_fixed_sync
         [PInt file_index, PMem arr, PNat (b_len buf), PInt offset, PInt buf_index])"

(* pyuring/native/uring_ctx.py:462-469 UringCtx.write_fixed *)
definition UringCtx_write_fixed ::
  "'w env \<Rightarrow> int \<Rightarrow> pybuf \<Rightarrow> int \<Rightarrow> int \<Rightarrow> ('w, int) meth" where
  [method_defs]: "UringCtx_write_fixed E file_index data offset buf_index =
     with_buffer (from_buffer data (b_len data)) (\<lambda>arr.
       sync_int E uring_write_fixed_sync
         [PInt file_index, PMem arr, PNat (b_len data), PInt offset, PInt buf_index])"

(* pyuring/native/uring_ctx.py:471-476 UringCtx.probe_opcode_supported *)
definition UringCtx_probe_opcode_supported :: "'w env \<Rightarrow> int \<Rightarrow> ('w, bool) meth" where
  [method_defs]: "UringCtx_probe_opcode_supported E opcode =
     sync_call E uring_probe_opcode_supported [PInt opcode] (\<lambda>r. py_return (rp_ret r \<noteq> 0))"

(* pyuring/native/uring_ctx.py:478-482 UringCtx.probe_last_op *)
definition UringCtx_probe_last_op :: "'w env \<Rightarrow> ('w, int) meth" where
  [method_defs]: "UringCtx_probe_last_op E = sync_int E uring_probe_last_op []"

(* pyuring/native/uring_ctx.py:484-492 UringCtx.probe_supported_mask *)
definition UringCtx_probe_supported_mask :: "'w env \<Rightarrow> ('w, int list) meth" where
  [method_defs]: "UringCtx_probe_supported_mask E =
     py_bind (UringCtx_probe_last_op E) (\<lambda>lo.
       let n = lo + 1 in
       with_buffer (zeroed_buffer n) (\<lambda>buf.
         sync_call E uring_probe_supported_mask [PMem buf, PInt n] (\<lambda>r.
           py_return (raw_after (nat n) r))))"

(* pyuring/native/uring_ctx.py:494-497 UringCtx.nop *)
definition UringCtx_nop :: "'w env \<Rightarrow> ('w, unit) meth" where
  [method_defs]: "UringCtx_nop E = sync_none E uring_nop_sync []"

subsection \<open>Vectored I/O and the file system\<close>

(* pyuring/native/uring_ctx.py:501-518 UringCtx.readv *)
definition UringCtx_readv :: "'w env \<Rightarrow> int \<Rightarrow> pybuf list \<Rightarrow> int \<Rightarrow> ('w, int) meth" where
  [method_defs]: "UringCtx_readv E fd parts offset =
     with_parts writable_part ''parts must be non-empty'' parts (\<lambda>iov.
       sync_int E uring_readv_sync [PInt fd, PMem (IovArr iov), PLen parts, PInt offset])"

(* pyuring/native/uring_ctx.py:520-541 UringCtx.writev *)
definition UringCtx_writev :: "'w env \<Rightarrow> int \<Rightarrow> pybuf list \<Rightarrow> int \<Rightarrow> ('w, int) meth" where
  [method_defs]: "UringCtx_writev E fd parts offset =
     with_parts gather_part ''parts must be non-empty'' parts (\<lambda>iov.
       sync_int E uring_writev_sync [PInt fd, PMem (IovArr iov), PLen parts, PInt offset])"

(* pyuring/native/uring_ctx.py:543-547 UringCtx.openat *)
definition UringCtx_openat :: "'w env \<Rightarrow> string \<Rightarrow> int \<Rightarrow> int \<Rightarrow> int \<Rightarrow> ('w, int) meth" where
  [method_defs]: "UringCtx_openat E path flags mode dir_fd =
     sync_call_info E uring_openat_sync
       [PInt dir_fd, PStr path, PInt flags, PInt (mask32 mode)] (Some path) None None
       (\<lambda>r. py_return (rp_ret r))"

(* pyuring/native/uring_ctx.py:549-552 UringCtx.close_fd *)
definition UringCtx_close_fd :: "'w env \<Rightarrow> int \<Rightarrow> ('w, unit) meth" where
  [method_defs]: "UringCtx_close_fd E fd = sync_none E uring_close_sync [PInt fd]"

(* pyuring/native/uring_ctx.py:554-558 UringCtx.fsync_fd *)
definition UringCtx_fsync_fd :: "'w env \<Rightarrow> int \<Rightarrow> bool \<Rightarrow> ('w, unit) meth" where
  [method_defs]: "UringCtx_fsync_fd E fd datasync =
     sync_none E uring_fsync_sync [PInt fd, PInt (if datasync then IORING_FSYNC_DATASYNC else 0)]"

(* pyuring/native/uring_ctx.py:560-563 UringCtx.fallocate_fd *)
definition UringCtx_fallocate_fd :: "'w env \<Rightarrow> int \<Rightarrow> int \<Rightarrow> int \<Rightarrow> int \<Rightarrow> ('w, unit) meth" where
  [method_defs]: "UringCtx_fallocate_fd E fd mode offset len =
     sync_none E uring_fallocate_sync [PInt fd, PInt mode, PInt offset, PInt len]"

text \<open>
  \<open>statx\<close> reads the size out of the result buffer with a second native call, which takes no
  ring.
\<close>

(* pyuring/native/uring_ctx.py:565-579 UringCtx.statx *)
definition UringCtx_statx :: "'w env \<Rightarrow> string \<Rightarrow> int \<Rightarrow> int \<Rightarrow> int \<Rightarrow> ('w, int) meth" where
  [method_defs]: "UringCtx_statx E path dir_fd flags stx_mask =
     sync_call E uring_statx_sync
       [PInt dir_fd, PStr path, PInt flags, PInt (mask32 stx_mask), PMem (Zeroed 512)] (\<lambda>_.
       py_bind (call_native E uring_statx_stx_size [PMem (Zeroed 512)]) (\<lambda>r.
         py_return (rp_ret r)))"

(* pyuring/native/uring_ctx.py:581-585 UringCtx.renameat *)
definition UringCtx_renameat ::
  "'w env \<Rightarrow> string \<Rightarrow> string \<Rightarrow> int \<Rightarrow> int \<Rightarrow> int \<Rightarrow> ('w, unit) meth" where
  [method_defs]: "UringCtx_renameat E old_path new_path old_dir_fd new_dir_fd flags =
     sync_none E uring_renameat_sync
       [PInt old_dir_fd, PStr old_path, PInt new_dir_fd, PStr new_path, PInt (mask32 flags)]"

(* pyuring/native/uring_ctx.py:587-589 UringCtx.unlinkat *)
definition UringCtx_unlinkat :: "'w env \<Rightarrow> string \<Rightarrow> int \<Rightarrow> int \<Rightarrow> ('w, unit) meth" where
  [method_defs]: "UringCtx_unlinkat E path dir_fd flags =
     sync_none E uring_unlinkat_sync [PInt dir_fd, PStr path, PInt flags]"

(* pyuring/native/uring_ctx.py:591-593 UringCtx.mkdirat *)
definition UringCtx_mkdirat :: "'w env \<Rightarrow> string \<Rightarrow> int \<Rightarrow> int \<Rightarrow> ('w, unit) meth" where
  [method_defs]: "UringCtx_mkdirat E path mode dir_fd =
     sync_none E uring_mkdirat_sync [PInt dir_fd, PStr path, PInt (mask32 mode)]"

(* pyuring/native/uring_ctx.py:728-731 UringCtx.symlinkat *)
definition UringCtx_symlinkat :: "'w env \<Rightarrow> string \<Rightarrow> string \<Rightarrow> int \<Rightarrow> ('w, unit) meth" where
  [method_defs]: "UringCtx_symlinkat E target link_path new_dir_fd =
     sync_none E uring_symlinkat_sync [PStr target, PInt new_dir_fd, PStr link_path]"

(* pyuring/native/uring_ctx.py:733-751 UringCtx.linkat *)
definition UringCtx_linkat ::
  "'w env \<Rightarrow> string \<Rightarrow> string \<Rightarrow> int \<Rightarrow> int \<Rightarrow> int \<Rightarrow> ('w, unit) meth" where
  [method_defs]: "UringCtx_linkat E old_path new_path old_dir_fd new_dir_fd flags =
     sync_none E uring_linkat_sync
       [PInt old_dir_fd, PStr old_path, PInt new_dir_fd, PStr new_path, PInt flags]"

(* pyuring/native/uring_ctx.py:753-762 UringCtx.sync_file_range *)
definition UringCtx_sync_file_range ::
  "'w env \<Rightarrow> int \<Rightarrow> int \<Rightarrow> int \<Rightarrow> int \<Rightarrow> ('w, unit) meth" where
  [method_defs]: "UringCtx_sync_file_range E fd len offset flags =
     sync_none E uring_sync_file_range_sync
       [PInt fd, PInt (mask32 len), PInt (mask64 offset), PInt flags]"

(* pyuring/native/uring_ctx.py:764-773 UringCtx.fadvise *)
definition UringCtx_fadvise :: "'w env \<Rightarrow> int \<Rightarrow> int \<Rightarrow> int \<Rightarrow> int \<Rightarrow> ('w, unit) meth" where
  [method_defs]: "UringCtx_fadvise E fd offset len advice =
     sync_none E uring_fadvise_sync
       [PInt fd, PInt (mask64 offset), PInt (mask32 len), PInt advice]"

(* pyuring/native/uring_ctx.py:775-791 UringCtx.madvise *)
definition UringCtx_madvise :: "'w env \<Rightarrow> pybuf \<Rightarrow> int \<Rightarrow> ('w, unit) meth" where
  [method_defs]: "UringCtx_madvise E buf advice =
     (if b_kind buf \<noteq> Mmap \<and> b_readonly buf
      then py_raise (TypeError ''madvise buffer must be writable'')
      else if b_kind buf \<noteq> Mmap \<and> \<not> b_contiguous buf
      then py_raise (ValueError ''buffer must be contiguous'')
      else with_buffer (from_buffer buf (b_len buf)) (\<lambda>arr.
             sync_none E uring_madvise_sync [PMem arr, PNat (b_len buf), PInt advice]))"

(* pyuring/native/uring_ctx.py:867-871 UringCtx.openat2 *)
definition UringCtx_openat2 :: "'w env \<Rightarrow> string \<Rightarrow> int \<Rightarrow> ('w, int) meth" where
  [method_defs]: "UringCtx_openat2 E path dir_fd =
     sync_int E uring_openat2_sync [PInt dir_fd, PStr path, PMem (StructRef P_OpenHow 1)]"

(* pyuring/native/uring_ctx.py:881-888 UringCtx.getxattr *)
definition UringCtx_getxattr :: "'w env \<Rightarrow> string \<Rightarrow> string \<Rightarrow> pybuf \<Rightarrow> ('w, int) meth" where
  [method_defs]: "UringCtx_getxattr E path name val =
     with_buffer (from_buffer val (b_len val)) (\<lambda>arr.
       sync_int E uring_getxattr_sync [PStr name, PMem arr, PStr path, PNat (b_len val)])"

(* pyuring/native/uring_ctx.py:890-896 UringCtx.setxattr *)
definition UringCtx_setxattr ::
  "'w env \<Rightarrow> string \<Rightarrow> string \<Rightarrow> pybuf \<Rightarrow> int \<Rightarrow> ('w, unit) meth" where
  [method_defs]: "UringCtx_setxattr E path name val flags =
     with_buffer (from_buffer_copy val) (\<lambda>buf.
       sync_none E uring_setxattr_sync
         [PStr name, PMem buf, PStr path, PInt flags, PNat (b_len val)])"

(* pyuring/native/uring_ctx.py:898-903 UringCtx.fgetxattr *)
definition UringCtx_fgetxattr :: "'w env \<Rightarrow> int \<Rightarrow> string \<Rightarrow> pybuf \<Rightarrow> ('w, int) meth" where
  [method_defs]: "UringCtx_fgetxattr E fd name val =
     with_buffer (from_buffer val (b_len val)) (\<lambda>arr.
       sync_int E uring_fgetxattr_sync [PInt fd, PStr name, PMem arr, PNat (b_len val)])"

(* pyuring/native/uring_ctx.py:905-911 UringCtx.fsetxattr *)
definition UringCtx_fsetxattr ::
  "'w env \<Rightarrow> int \<Rightarrow> string \<Rightarrow> pybuf \<Rightarrow> int \<Rightarrow> ('w, unit) meth" where
  [method_defs]: "UringCtx_fsetxattr E fd name val flags =
     with_buffer (from_buffer_copy val) (\<lambda>buf.
       sync_none E uring_fsetxattr_sync
         [PInt fd, PStr name, PMem buf, PInt flags, PNat (b_len val)])"

(* pyuring/native/uring_ctx.py:949-952 UringCtx.ftruncate *)
definition UringCtx_ftruncate :: "'w env \<Rightarrow> int \<Rightarrow> int \<Rightarrow> ('w, unit) meth" where
  [method_defs]: "UringCtx_ftruncate E fd len =
     sync_none E uring_ftruncate_sync [PInt fd, PInt len]"

(* pyuring/native/uring_ctx.py:1258-1265 UringCtx.files_update *)
definition UringCtx_files_update :: "'w env \<Rightarrow> int list \<Rightarrow> int \<Rightarrow> ('w, unit) meth" where
  [method_defs]: "UringCtx_files_update E fds offset =
     (if fds = [] then py_raise (ValueError ''fds must be non-empty'')
      else sync_none E uring_files_update_sync [PMem (c_int_array fds), PLen fds, PInt offset])"

(* pyuring/native/uring_ctx.py:1273-1305 UringCtx.readv_fixed *)
definition UringCtx_readv_fixed ::
  "'w env \<Rightarrow> int \<Rightarrow> pybuf list \<Rightarrow> int \<Rightarrow> int \<Rightarrow> int \<Rightarrow> ('w, int) meth" where
  [method_defs]: "UringCtx_readv_fixed E fd parts offset rw_flags buf_index =
     with_parts writable_part ''parts must be non-empty'' parts (\<lambda>iov.
       sync_int E uring_readv_fixed_sync
         [PInt fd, PMem (IovArr iov), PLen parts, PInt (mask64 offset), PInt rw_flags, PInt buf_index])"

(* pyuring/native/uring_ctx.py:1307-1343 UringCtx.writev_fixed *)
definition UringCtx_writev_fixed ::
  "'w env \<Rightarrow> int \<Rightarrow> pybuf list \<Rightarrow> int \<Rightarrow> int \<Rightarrow> int \<Rightarrow> ('w, int) meth" where
  [method_defs]: "UringCtx_writev_fixed E fd parts offset rw_flags buf_index =
     with_parts gather_part ''parts must be non-empty'' parts (\<lambda>iov.
       sync_int E uring_writev_fixed_sync
         [PInt fd, PMem (IovArr iov), PLen parts, PInt (mask64 offset), PInt rw_flags, PInt buf_index])"

(* pyuring/native/uring_ctx.py:1392-1399 UringCtx.link_read_write *)
definition UringCtx_link_read_write ::
  "'w env \<Rightarrow> int \<Rightarrow> pybuf \<Rightarrow> int \<Rightarrow> int \<Rightarrow> int \<Rightarrow> ('w, int) meth" where
  [method_defs]: "UringCtx_link_read_write E fd_in buf offset_in fd_out offset_out =
     with_buffer (from_buffer buf (b_len buf)) (\<lambda>arr.
       sync_int E uring_link_read_write_sync
         [PInt fd_in, PMem arr, PNat (b_len buf), PInt offset_in, PInt fd_out, PInt offset_out])"

subsection \<open>Plain reads and writes\<close>

(* pyuring/native/uring_ctx.py:1443-1448 UringCtx.read *)
definition UringCtx_read :: "'w env \<Rightarrow> int \<Rightarrow> int \<Rightarrow> int \<Rightarrow> ('w, int list) meth" where
  [method_defs]: "UringCtx_read E fd len offset =
     with_buffer (zeroed_buffer len) (\<lambda>buf.
       sync_call_info E uring_read_sync [PInt fd, PMem buf, PInt len, PInt offset]
         None (Some offset) (Some len)
         (\<lambda>r. py_return (take (nat (rp_ret r)) (raw_after (nat len) r))))"

(* pyuring/native/uring_ctx.py:1450-1456 UringCtx.write *)
definition UringCtx_write :: "'w env \<Rightarrow> int \<Rightarrow> pybuf \<Rightarrow> int \<Rightarrow> ('w, int) meth" where
  [method_defs]: "UringCtx_write E fd data offset =
     with_buffer (create_string_buffer data) (\<lambda>buf.
       sync_call_info E uring_write_sync
         [PInt fd, PMem buf, PNat (b_len data), PInt offset]
         None (Some offset) (Some (int (b_len data)))
         (\<lambda>r. py_return (rp_ret r)))"

(* pyuring/native/uring_ctx.py:1458-1464 UringCtx.read_batch *)
definition UringCtx_read_batch :: "'w env \<Rightarrow> int \<Rightarrow> int \<Rightarrow> int \<Rightarrow> int \<Rightarrow> ('w, int list) meth" where
  [method_defs]: "UringCtx_read_batch E fd block_size blocks offset =
     (let total_len = block_size * blocks in
      with_buffer (zeroed_buffer total_len) (\<lambda>buf.
        sync_call E uring_read_batch_sync
          [PInt fd, PMem buf, PInt block_size, PInt blocks, PInt offset]
          (\<lambda>r. py_return (take (nat (rp_ret r)) (raw_after (nat total_len) r)))))"

(* pyuring/native/uring_ctx.py:1466-1485 UringCtx.read_offsets *)
definition UringCtx_read_offsets ::
  "'w env \<Rightarrow> int \<Rightarrow> int \<Rightarrow> int list \<Rightarrow> bool \<Rightarrow> ('w, int list) meth" where
  [method_defs]: "UringCtx_read_offsets E fd block_size offsets offset_bytes =
     (let blocks = int (length offsets);
          total_len = block_size * blocks;
          off_arr = LongArr (map (signed_take_bit 63)
            (if offset_bytes then offsets else map (\<lambda>o'. o' * block_size) offsets)) in
      with_buffer (zeroed_buffer total_len) (\<lambda>buf.
        sync_call E uring_read_offsets_sync
          [PInt fd, PMem buf, PInt block_size, PMem off_arr, PInt blocks]
          (\<lambda>r. py_return (take (nat (rp_ret r)) (raw_after (nat total_len) r)))))"

end
