(* ===== verification/Ctx_Net.thy ===== *)
theory Ctx_Net
  imports Ctx_Sync
begin

unbundle bit_operations_syntax

text \<open>
  The synchronous methods of \<open>UringCtx\<close> (\<open>pyuring/native/uring_ctx.py\<close>) for sockets, pipes,
  polling, timeouts, provided buffers, ring messages, epoll, futexes and pass-through commands.
  The conventions are those of theory \<open>Ctx_Sync\<close>.
\<close>

subsection \<open>Sockets\<close>

(* pyuring/native/uring_ctx.py:595-602 UringCtx.send *)
definition UringCtx_send :: "'w env \<Rightarrow> int \<Rightarrow> pybuf \<Rightarrow> int \<Rightarrow> ('w, int) meth" where
  [method_defs]: "UringCtx_send E fd data flags =
     with_buffer (from_buffer_copy data) (\<lambda>buf.
       sync_int E uring_send_sync [PInt fd, PMem buf, PNat (b_len data), PInt (mask32 flags)])"

(* pyuring/native/uring_ctx.py:604-609 UringCtx.recv *)
definition UringCtx_recv :: "'w env \<Rightarrow> int \<Rightarrow> pybuf \<Rightarrow> int \<Rightarrow> ('w, int) meth" where
  [method_defs]: "UringCtx_recv E fd buf flags =
     with_buffer (from_buffer buf (b_len buf)) (\<lambda>arr.
       sync_int E uring_recv_sync [PInt fd, PMem arr, PNat (b_len buf), PInt (mask32 flags)])"

text \<open>
  The output of \<open>accept\<close>: the address length the call left in \<open>alen\<close> (128 when it wrote
  nothing), then the bytes of the address.
\<close>

definition accept_addr :: "reply \<Rightarrow> int list" where
  "accept_addr r = (case rp_out r of
       [] \<Rightarrow> replicate 128 0
     | alen # bs \<Rightarrow> take (nat (mask32 alen)) (take 128 (bs @ replicate 128 0)))"

(* pyuring/native/uring_ctx.py:611-619 UringCtx.accept *)
definition UringCtx_accept :: "'w env \<Rightarrow> int \<Rightarrow> int \<Rightarrow> ('w, int \<times> int list) meth" where
  [method_defs]: "UringCtx_accept E fd flags =
     sync_call E uring_accept_sync [PInt fd, PMem (Zeroed 128), PMem (UIntRef 128), PInt flags]
       (\<lambda>r. py_return (rp_ret r, accept_addr r))"

(* pyuring/native/uring_ctx.py:621-626 UringCtx.connect *)
definition UringCtx_connect :: "'w env \<Rightarrow> int \<Rightarrow> pybuf \<Rightarrow> int \<Rightarrow> ('w, unit) meth" where
  [method_defs]: "UringCtx_connect E fd addr addr_len =
     with_buffer (sockaddr_buffer addr addr_len) (\<lambda>buf.
       sync_none E uring_connect_sync [PInt fd, PMem buf, PInt addr_len])"

(* pyuring/native/uring_ctx.py:628-631 UringCtx.shutdown *)
definition UringCtx_shutdown :: "'w env \<Rightarrow> int \<Rightarrow> int \<Rightarrow> ('w, unit) meth" where
  [method_defs]: "UringCtx_shutdown E fd how = sync_none E uring_shutdown_sync [PInt fd, PInt how]"

(* pyuring/native/uring_ctx.py:798-819 UringCtx.sendmsg_iov *)
definition UringCtx_sendmsg_iov :: "'w env \<Rightarrow> int \<Rightarrow> pybuf list \<Rightarrow> int \<Rightarrow> ('w, int) meth" where
  [method_defs]: "UringCtx_sendmsg_iov E fd parts flags =
     with_parts gather_part ''parts must be non-empty'' parts (\<lambda>iov.
       sync_int E uring_sendmsg_iov_sync
         [PInt fd, PMem (IovArr iov), PLen parts, PInt (mask32 flags)])"

(* pyuring/native/uring_ctx.py:821-838 UringCtx.recvmsg_iov *)
definition UringCtx_recvmsg_iov :: "'w env \<Rightarrow> int \<Rightarrow> pybuf list \<Rightarrow> int \<Rightarrow> ('w, int) meth" where
  [method_defs]: "UringCtx_recvmsg_iov E fd parts flags =
     with_parts writable_part ''parts must be non-empty'' parts (\<lambda>iov.
       sync_int E uring_recvmsg_iov_sync
         [PInt fd, PMem (IovArr iov), PLen parts, PInt (mask32 flags)])"

(* pyuring/native/uring_ctx.py:840-846 UringCtx.socket *)
definition UringCtx_socket :: "'w env \<Rightarrow> int \<Rightarrow> int \<Rightarrow> int \<Rightarrow> int \<Rightarrow> ('w, int) meth" where
  [method_defs]: "UringCtx_socket E domain typ protocol flags =
     sync_int E uring_socket_sync [PInt domain, PInt typ, PInt protocol, PInt (mask32 flags)]"

(* pyuring/native/uring_ctx.py:855-860 UringCtx.bind *)
definition UringCtx_bind :: "'w env \<Rightarrow> int \<Rightarrow> pybuf \<Rightarrow> int \<Rightarrow> ('w, unit) meth" where
  [method_defs]: "UringCtx_bind E fd addr addr_len =
     with_buffer (sockaddr_buffer addr addr_len) (\<lambda>buf.
       sync_none E uring_bind_sync [PInt fd, PMem buf, PInt addr_len])"

(* pyuring/native/uring_ctx.py:862-865 UringCtx.listen *)
definition UringCtx_listen :: "'w env \<Rightarrow> int \<Rightarrow> int \<Rightarrow> ('w, unit) meth" where
  [method_defs]: "UringCtx_listen E fd backlog =
     sync_none E uring_listen_sync [PInt fd, PInt backlog]"

(* pyuring/native/uring_ctx.py:983-990 UringCtx.recv_multishot *)
definition UringCtx_recv_multishot :: "'w env \<Rightarrow> int \<Rightarrow> pybuf \<Rightarrow> int \<Rightarrow> ('w, int) meth" where
  [method_defs]: "UringCtx_recv_multishot E fd buf msg_flags =
     with_buffer (from_buffer buf (b_len buf)) (\<lambda>arr.
       sync_int E uring_recv_multishot_sync
         [PInt fd, PMem arr, PNat (b_len buf), PInt msg_flags])"

(* pyuring/native/uring_ctx.py:992-999 UringCtx.send_zc *)
definition UringCtx_send_zc :: "'w env \<Rightarrow> int \<Rightarrow> pybuf \<Rightarrow> int \<Rightarrow> int \<Rightarrow> ('w, int) meth" where
  [method_defs]: "UringCtx_send_zc E fd data msg_flags zc_flags =
     with_buffer (from_buffer_copy data) (\<lambda>buf.
       sync_int E uring_send_zc_sync
         [PInt fd, PMem buf, PNat (b_len data), PInt msg_flags, PInt (mask32 zc_flags)])"

(* pyuring/native/uring_ctx.py:1001-1015 UringCtx.send_zc_fixed *)
definition UringCtx_send_zc_fixed ::
  "'w env \<Rightarrow> int \<Rightarrow> pybuf \<Rightarrow> int \<Rightarrow> int \<Rightarrow> int \<Rightarrow> ('w, int) meth" where
  [method_defs]: "UringCtx_send_zc_fixed E fd data msg_flags zc_flags buf_index =
     with_buffer (from_buffer data (b_nbytes data)) (\<lambda>arr.
       sync_int E uring_send_zc_fixed_sync
         [PInt fd, PMem arr, PNat (b_nbytes data), PInt msg_flags, PInt (mask32 zc_flags),
          PInt (mask32 buf_index)])"

(* pyuring/native/uring_ctx.py:1017-1038 UringCtx.sendmsg_zc_iov *)
definition UringCtx_sendmsg_zc_iov :: "'w env \<Rightarrow> int \<Rightarrow> pybuf list \<Rightarrow> int \<Rightarrow> ('w, int) meth" where
  [method_defs]: "UringCtx_sendmsg_zc_iov E fd parts flags =
     with_parts gather_part ''parts must be non-empty'' parts (\<lambda>iov.
       sync_int E uring_sendmsg_zc_iov_sync
         [PInt fd, PMem (IovArr iov), PLen parts, PInt (mask32 flags)])"

(* pyuring/native/uring_ctx.py:1040-1063 UringCtx.sendmsg_zc_fixed_iov *)
definition UringCtx_sendmsg_zc_fixed_iov ::
  "'w env \<Rightarrow> int \<Rightarrow> pybuf list \<Rightarrow> int \<Rightarrow> int \<Rightarrow> ('w, int) meth" where
  [method_defs]: "UringCtx_sendmsg_zc_fixed_iov E fd parts flags buf_index =
     with_parts gather_part ''parts must be non-empty'' parts (\<lambda>iov.
       sync_int E uring_sendmsg_zc_fixed_iov_sync
         [PInt fd, PMem (IovArr iov), PLen parts, PInt (mask32 flags), PInt (mask32 buf_index)])"

(* pyuring/native/uring_ctx.py:1065-1077 UringCtx.recv_zc *)
definition UringCtx_recv_zc :: "'w env \<Rightarrow> int \<Rightarrow> pybuf \<Rightarrow> int \<Rightarrow> int \<Rightarrow> ('w, int) meth" where
  [method_defs]: "UringCtx_recv_zc E fd buf msg_flags ioprio_zc =
     with_buffer (from_buffer buf (b_len buf)) (\<lambda>arr.
       sync_int E uring_recv_zc_sync
         [PInt fd, PMem arr, PNat (b_len buf), PInt (mask32 msg_flags), PInt (mask32 ioprio_zc)])"

(* pyuring/native/uring_ctx.py:1079-1096 UringCtx.recvmsg_multishot_iov *)
definition UringCtx_recvmsg_multishot_iov ::
  "'w env \<Rightarrow> int \<Rightarrow> pybuf list \<Rightarrow> int \<Rightarrow> ('w, int) meth" where
  [method_defs]: "UringCtx_recvmsg_multishot_iov E fd parts flags =
     with_parts writable_part ''parts must be non-empty'' parts (\<lambda>iov.
       sync_int E uring_recvmsg_multishot_iov_sync
         [PInt fd, PMem (IovArr iov), PLen parts, PInt (mask32 flags)])"

(* pyuring/native/uring_ctx.py:1267-1271 UringCtx.send_bundle *)
definition UringCtx_send_bundle :: "'w env \<Rightarrow> int \<Rightarrow> int \<Rightarrow> int \<Rightarrow> ('w, int) meth" where
  [method_defs]: "UringCtx_send_bundle E fd len msg_flags =
     sync_int E uring_send_bundle_sync [PInt fd, PInt len, PInt msg_flags]"

(* pyuring/native/uring_ctx.py:1345-1360 UringCtx.sendto *)
definition UringCtx_sendto ::
  "'w env \<Rightarrow> int \<Rightarrow> pybuf \<Rightarrow> int \<Rightarrow> pybuf \<Rightarrow> int \<Rightarrow> ('w, int) meth" where
  [method_defs]: "UringCtx_sendto E fd data msg_flags addr addr_len =
     with_buffer (from_buffer_copy data) (\<lambda>buf.
       with_buffer (sockaddr_buffer addr addr_len) (\<lambda>abuf.
         sync_int E uring_sendto_sync
           [PInt fd, PMem buf, PNat (b_len data), PInt msg_flags, PMem abuf, PInt addr_len]))"

(* pyuring/native/uring_ctx.py:1204-1210 UringCtx.socket_direct *)
definition UringCtx_socket_direct ::
  "'w env \<Rightarrow> int \<Rightarrow> int \<Rightarrow> int \<Rightarrow> int \<Rightarrow> int \<Rightarrow> ('w, int) meth" where
  [method_defs]: "UringCtx_socket_direct E domain typ protocol file_index flags =
     sync_int E uring_socket_direct_sync
       [PInt domain, PInt typ, PInt protocol, PInt (mask32 file_index), PInt (mask32 flags)]"

(* pyuring/native/uring_ctx.py:1212-1218 UringCtx.socket_direct_alloc *)
definition UringCtx_socket_direct_alloc ::
  "'w env \<Rightarrow> int \<Rightarrow> int \<Rightarrow> int \<Rightarrow> int \<Rightarrow> ('w, int) meth" where
  [method_defs]: "UringCtx_socket_direct_alloc E domain typ protocol flags =
     sync_int E uring_socket_direct_alloc_sync
       [PInt domain, PInt typ, PInt protocol, PInt (mask32 flags)]"

subsection \<open>Pipes and splicing\<close>

definition fd_pair :: "reply \<Rightarrow> int \<times> int" where
  "fd_pair r = (let fds = raw_after 2 r in (fds ! 0, fds ! 1))"

(* pyuring/native/uring_ctx.py:633-653 UringCtx.splice *)
definition UringCtx_splice ::
  "'w env \<Rightarrow> int \<Rightarrow> int \<Rightarrow> int \<Rightarrow> int \<Rightarrow> int \<Rightarrow> int \<Rightarrow> ('w, int) meth" where
  [method_defs]: "UringCtx_splice E fd_in off_in fd_out off_out nbytes flags =
     sync_int E uring_splice_sync
       [PInt fd_in, PInt off_in, PInt fd_out, PInt off_out, PInt (mask32 nbytes), PInt (mask32 flags)]"

(* pyuring/native/uring_ctx.py:707-713 UringCtx.tee *)
definition UringCtx_tee :: "'w env \<Rightarrow> int \<Rightarrow> int \<Rightarrow> int \<Rightarrow> int \<Rightarrow> ('w, int) meth" where
  [method_defs]: "UringCtx_tee E fd_in fd_out nbytes flags =
     sync_int E uring_tee_sync
       [PInt fd_in, PInt fd_out, PInt (mask32 nbytes), PInt (mask32 flags)]"

(* pyuring/native/uring_ctx.py:848-853 UringCtx.pipe *)
definition UringCtx_pipe :: "'w env \<Rightarrow> int \<Rightarrow> ('w, int \<times> int) meth" where
  [method_defs]: "UringCtx_pipe E pipe_flags =
     sync_call E uring_pipe_sync [PMem (IntArr [0, 0]), PInt pipe_flags]
       (\<lambda>r. py_return (fd_pair r))"

(* pyuring/native/uring_ctx.py:1220-1225 UringCtx.pipe_direct *)
definition UringCtx_pipe_direct :: "'w env \<Rightarrow> int \<Rightarrow> int \<Rightarrow> ('w, int \<times> int) meth" where
  [method_defs]: "UringCtx_pipe_direct E pipe_flags file_index =
     sync_call E uring_pipe_direct_sync
       [PMem (IntArr [0, 0]), PInt pipe_flags, PInt (mask32 file_index)]
       (\<lambda>r. py_return (fd_pair r))"

subsection \<open>Polling, cancellation and timeouts\<close>

(* pyuring/native/uring_ctx.py:715-721 UringCtx.poll_add *)
definition UringCtx_poll_add :: "'w env \<Rightarrow> int \<Rightarrow> int \<Rightarrow> int \<Rightarrow> ('w, int) meth" where
  [method_defs]: "UringCtx_poll_add E fd poll_mask user_data =
     sync_int E uring_poll_add_sync [PInt fd, PInt (mask32 poll_mask), PInt (mask64 user_data)]"

(* pyuring/native/uring_ctx.py:723-726 UringCtx.poll_remove *)
definition UringCtx_poll_remove :: "'w env \<Rightarrow> int \<Rightarrow> ('w, unit) meth" where
  [method_defs]: "UringCtx_poll_remove E target_user_data =
     sync_none E uring_poll_remove_sync [PInt (mask64 target_user_data)]"

(* pyuring/native/uring_ctx.py:793-796 UringCtx.async_cancel_fd *)
definition UringCtx_async_cancel_fd :: "'w env \<Rightarrow> int \<Rightarrow> int \<Rightarrow> ('w, unit) meth" where
  [method_defs]: "UringCtx_async_cancel_fd E fd flags =
     sync_none E uring_async_cancel_fd_sync [PInt fd, PInt (mask32 flags)]"

(* pyuring/native/uring_ctx.py:873-879 UringCtx.link_timeout *)
definition UringCtx_link_timeout :: "'w env \<Rightarrow> int \<Rightarrow> int \<Rightarrow> int \<Rightarrow> ('w, unit) meth" where
  [method_defs]: "UringCtx_link_timeout E sec nsec flags =
     sync_none E uring_link_timeout_sync [PMem (kernel_timespec sec nsec), PInt (mask32 flags)]"

(* pyuring/native/uring_ctx.py:959-968 UringCtx.poll_update *)
definition UringCtx_poll_update ::
  "'w env \<Rightarrow> int \<Rightarrow> int \<Rightarrow> int \<Rightarrow> int \<Rightarrow> ('w, unit) meth" where
  [method_defs]: "UringCtx_poll_update E old_user_data new_user_data poll_mask flags =
     sync_none E uring_poll_update_sync
       [PInt (mask64 old_user_data), PInt (mask64 new_user_data), PInt (mask32 poll_mask),
        PInt (mask32 flags)]"

(* pyuring/native/uring_ctx.py:970-981 UringCtx.timeout_update *)
definition UringCtx_timeout_update ::
  "'w env \<Rightarrow> int \<Rightarrow> int \<Rightarrow> int \<Rightarrow> int \<Rightarrow> ('w, unit) meth" where
  [method_defs]: "UringCtx_timeout_update E target_user_data sec nsec flags =
     sync_none E uring_timeout_update_sync
       [PMem (kernel_timespec sec nsec), PInt (mask64 target_user_data), PInt (mask32 flags)]"

text \<open>
  \<open>timeout\<close> has a result check of its own: the kernel reports an expired timer as
  \<open>-ETIME\<close>, which is not an error here.
\<close>

(* pyuring/native/uring_ctx.py:1362-1376 UringCtx.timeout *)
definition UringCtx_timeout ::
  "'w env \<Rightarrow> int \<Rightarrow> int \<Rightarrow> int \<Rightarrow> int \<Rightarrow> int \<Rightarrow> ('w, unit) meth" where
  [method_defs]: "UringCtx_timeout E sec nsec count timeout_flags user_data =
     ring_call E uring_timeout_sync
       [PMem (kernel_timespec sec nsec), PInt (mask32 count), PInt (mask32 timeout_flags),
        PInt (mask64 user_data)]
       (\<lambda>r. if rp_ret r < 0 \<and> rp_ret r \<noteq> - 62
            then py_lift (check_ret (rp_ret r) ''uring_timeout_sync'')
            else py_return ())"

(* pyuring/native/uring_ctx.py:1378-1383 UringCtx.timeout_remove *)
definition UringCtx_timeout_remove :: "'w env \<Rightarrow> int \<Rightarrow> int \<Rightarrow> ('w, unit) meth" where
  [method_defs]: "UringCtx_timeout_remove E target_user_data flags =
     sync_none E uring_timeout_remove_sync [PInt (mask64 target_user_data), PInt (mask32 flags)]"

(* pyuring/native/uring_ctx.py:1385-1390 UringCtx.async_cancel *)
definition UringCtx_async_cancel :: "'w env \<Rightarrow> int \<Rightarrow> int \<Rightarrow> ('w, unit) meth" where
  [method_defs]: "UringCtx_async_cancel E user_data flags =
     sync_none E uring_async_cancel_sync [PInt (mask64 user_data), PInt (mask32 flags)]"

(* pyuring/native/uring_ctx.py:1401-1406 UringCtx.timeout_arm_remove_pair *)
definition UringCtx_timeout_arm_remove_pair ::
  "'w env \<Rightarrow> int \<Rightarrow> int \<Rightarrow> int \<Rightarrow> ('w, unit) meth" where
  [method_defs]: "UringCtx_timeout_arm_remove_pair E sec nsec user_data =
     sync_none E uring_timeout_arm_remove_pair_sync [PInt sec, PInt nsec, PInt (mask64 user_data)]"

end
