(* ===== verification/Ctx_Misc.thy ===== *)
theory Ctx_Misc
  imports Ctx_Net
begin

unbundle bit_operations_syntax

text \<open>
  The remaining synchronous methods of \<open>UringCtx\<close> (\<open>pyuring/native/uring_ctx.py\<close>):
  provided buffers, ring messages, epoll, \<open>waitid\<close>, futexes and pass-through commands.
  The conventions are those of theory \<open>Ctx_Sync\<close>.
\<close>

subsection \<open>Provided buffers and ring messages\<close>

text \<open>
  The array made over the caller's buffer is kept before the guard and the call run, so it
  stays in the list also when they fail.
\<close>

(* pyuring/native/uring_ctx.py:922-935 UringCtx.provide_buffers *)
definition UringCtx_provide_buffers ::
  "'w env \<Rightarrow> pybuf \<Rightarrow> int \<Rightarrow> int \<Rightarrow> int \<Rightarrow> int \<Rightarrow> ('w, unit) meth" where
  [method_defs]: "UringCtx_provide_buffers E buf buf_len_each nr bgid bid =
     (let need = buf_len_each * nr in
      if int (b_nbytes buf) < need
      then py_raise (ValueError ''buffer too small for nr buffers of buf_len_each'')
      else if b_readonly buf then py_raise (TypeError ''buffer must be writable'')
      else if need < 0 then py_raise (ValueError ''Array length must be >= 0'')
      else with_buffer (from_buffer buf (nat need)) (\<lambda>arr. \<lambda>(self, w).
        sync_none E uring_provide_buffers_sync
          [PMem arr, PInt buf_len_each, PInt nr, PInt bgid, PInt bid]
          (self\<lparr>u_buffer_keepalive := u_buffer_keepalive self @ [KView arr]\<rparr>, w)))"

(* pyuring/native/uring_ctx.py:937-940 UringCtx.remove_buffers *)
definition UringCtx_remove_buffers :: "'w env \<Rightarrow> int \<Rightarrow> int \<Rightarrow> ('w, unit) meth" where
  [method_defs]: "UringCtx_remove_buffers E nr bgid =
     sync_none E uring_remove_buffers_sync [PInt nr, PInt bgid]"

(* pyuring/native/uring_ctx.py:942-947 UringCtx.msg_ring *)
definition UringCtx_msg_ring :: "'w env \<Rightarrow> int \<Rightarrow> int \<Rightarrow> int \<Rightarrow> int \<Rightarrow> ('w, unit) meth" where
  [method_defs]: "UringCtx_msg_ring E fd len_val data flags =
     sync_none E uring_msg_ring_sync
       [PInt fd, PInt (mask32 len_val), PInt (mask64 data), PInt (mask32 flags)]"

(* pyuring/native/uring_ctx.py:1227-1237 UringCtx.msg_ring_fd *)
definition UringCtx_msg_ring_fd ::
  "'w env \<Rightarrow> int \<Rightarrow> int \<Rightarrow> int \<Rightarrow> int \<Rightarrow> int \<Rightarrow> ('w, unit) meth" where
  [method_defs]: "UringCtx_msg_ring_fd E fd source_fd target_fd data flags =
     sync_none E uring_msg_ring_fd_sync
       [PInt fd, PInt source_fd, PInt target_fd, PInt (mask64 data), PInt (mask32 flags)]"

(* pyuring/native/uring_ctx.py:1239-1244 UringCtx.msg_ring_fd_alloc *)
definition UringCtx_msg_ring_fd_alloc ::
  "'w env \<Rightarrow> int \<Rightarrow> int \<Rightarrow> int \<Rightarrow> int \<Rightarrow> ('w, unit) meth" where
  [method_defs]: "UringCtx_msg_ring_fd_alloc E fd source_fd data flags =
     sync_none E uring_msg_ring_fd_alloc_sync
       [PInt fd, PInt source_fd, PInt (mask64 data), PInt (mask32 flags)]"

(* pyuring/native/uring_ctx.py:1246-1256 UringCtx.msg_ring_cqe_flags *)
definition UringCtx_msg_ring_cqe_flags ::
  "'w env \<Rightarrow> int \<Rightarrow> int \<Rightarrow> int \<Rightarrow> int \<Rightarrow> int \<Rightarrow> ('w, unit) meth" where
  [method_defs]: "UringCtx_msg_ring_cqe_flags E fd len_val data flags cqe_flags =
     sync_none E uring_msg_ring_cqe_flags_sync
       [PInt fd, PInt (mask32 len_val), PInt (mask64 data), PInt (mask32 flags),
        PInt (mask32 cqe_flags)]"

(* pyuring/native/uring_ctx.py:954-957 UringCtx.nop128 *)
definition UringCtx_nop128 :: "'w env \<Rightarrow> ('w, unit) meth" where
  [method_defs]: "UringCtx_nop128 E = sync_none E uring_nop128_sync []"

(* pyuring/native/uring_ctx.py:1198-1202 UringCtx.fixed_fd_install *)
definition UringCtx_fixed_fd_install :: "'w env \<Rightarrow> int \<Rightarrow> int \<Rightarrow> ('w, int) meth" where
  [method_defs]: "UringCtx_fixed_fd_install E fd install_flags =
     sync_int E uring_fixed_fd_install_sync [PInt fd, PInt (mask32 install_flags)]"

subsection \<open>Epoll and waitid\<close>

(* pyuring/native/uring_ctx.py:913-920 UringCtx.epoll_ctl *)
definition UringCtx_epoll_ctl ::
  "'w env \<Rightarrow> int \<Rightarrow> int \<Rightarrow> int \<Rightarrow> bool \<Rightarrow> ('w, unit) meth" where
  [method_defs]: "UringCtx_epoll_ctl E epfd fd op has_event =
     sync_none E uring_epoll_ctl_sync
       [PInt epfd, PInt fd, PInt op,
        (if has_event then PMem (StructRef P_EpollEvent 1) else PNone)]"

text \<open>The events are one integer each in the output of the call.\<close>

(* pyuring/native/uring_ctx.py:1098-1107 UringCtx.epoll_wait *)
definition UringCtx_epoll_wait ::
  "'w env \<Rightarrow> int \<Rightarrow> int \<Rightarrow> int \<Rightarrow> ('w, int \<times> int list) meth" where
  [method_defs]: "UringCtx_epoll_wait E epfd maxevents flags =
     (let n = maxevents in
      if n \<le> 0 then py_raise (ValueError ''maxevents must be positive'')
      else sync_call E uring_epoll_wait_sync
             [PInt epfd, PMem (StructRef P_EpollEvent (nat n)), PInt n, PInt (mask32 flags)]
             (\<lambda>r. let k = (if rp_ret r \<ge> 0 then min (rp_ret r) n else 0)
                  in py_return (rp_ret r, take (nat k) (raw_after (nat n) r))))"

definition waitid_short :: string where
  "waitid_short = ''info must be at least '' @ str_of_int (int SIGINFO_T_SIZE) @ '' bytes''"

(* pyuring/native/uring_ctx.py:1109-1120 UringCtx.waitid *)
definition UringCtx_waitid ::
  "'w env \<Rightarrow> int \<Rightarrow> int \<Rightarrow> int \<Rightarrow> int \<Rightarrow> pybuf option \<Rightarrow> ('w, int) meth" where
  [method_defs]: "UringCtx_waitid E idtype pid options flags info =
     (case info of
        None \<Rightarrow> sync_int E uring_waitid_sync
                  [PInt idtype, PInt pid, PNone, PInt options, PInt (mask32 flags)]
      | Some b \<Rightarrow>
          if b_len b < SIGINFO_T_SIZE then py_raise (ValueError waitid_short)
          else with_buffer (from_buffer b (b_len b)) (\<lambda>arr.
                 sync_int E uring_waitid_sync
                   [PInt idtype, PInt pid, PMem arr, PInt options, PInt (mask32 flags)]))"

subsection \<open>Futexes\<close>

text \<open>
  \<open>futex_wake\<close> and \<open>futex_wait\<close> take \<open>ctypes.byref(w[0])\<close> of an array of \<open>c_uint32\<close>.
  Indexing an array of a simple ctypes type gives a Python int, and \<open>byref\<close> of an int is
  a \<open>TypeError\<close>: the arguments are evaluated from the left, so the guard of \<open>_ring\<close> comes
  first and the native call is not reached.
\<close>

definition byref_int_error :: exn where
  "byref_int_error = TypeError
     (''byref() argument must be a ctypes instance, not '' @ [CHR 0x27] @ ''int'' @ [CHR 0x27])"

(* pyuring/native/uring_ctx.py:1122-1134 UringCtx.futex_wake *)
definition UringCtx_futex_wake ::
  "'w env \<Rightarrow> pybuf \<Rightarrow> int \<Rightarrow> int \<Rightarrow> int \<Rightarrow> int \<Rightarrow> ('w, int) meth" where
  [method_defs]: "UringCtx_futex_wake E uaddr val fmask futex_flags flags =
     with_buffer (from_buffer uaddr 4) (\<lambda>_.
       py_bind (UringCtx_ring E) (\<lambda>_. py_raise byref_int_error))"

(* pyuring/native/uring_ctx.py:1136-1148 UringCtx.futex_wait *)
definition UringCtx_futex_wait ::
  "'w env \<Rightarrow> pybuf \<Rightarrow> int \<Rightarrow> int \<Rightarrow> int \<Rightarrow> int \<Rightarrow> ('w, int) meth" where
  [method_defs]: "UringCtx_futex_wait E uaddr val fmask futex_flags flags =
     with_buffer (from_buffer uaddr 4) (\<lambda>_.
       py_bind (UringCtx_ring E) (\<lambda>_. py_raise byref_int_error))"

(* pyuring/native/uring_ctx.py:1150-1160 UringCtx.futex_waitv *)
definition UringCtx_futex_waitv :: "'w env \<Rightarrow> nat \<Rightarrow> int \<Rightarrow> ('w, int) meth" where
  [method_defs]: "UringCtx_futex_waitv E n flags =
     (if n = 0 then py_raise (ValueError ''entries must be non-empty'')
      else sync_int E uring_futex_waitv_sync
             [PMem (StructRef P_FutexWaitv n), PNat n, PInt (mask32 flags)])"

subsection \<open>Pass-through commands\<close>

(* pyuring/native/uring_ctx.py:1162-1166 UringCtx.uring_cmd *)
definition UringCtx_uring_cmd :: "'w env \<Rightarrow> int \<Rightarrow> int \<Rightarrow> ('w, int) meth" where
  [method_defs]: "UringCtx_uring_cmd E cmd_op fd =
     sync_int E uring_uring_cmd_sync [PInt cmd_op, PInt fd]"

(* pyuring/native/uring_ctx.py:1168-1172 UringCtx.uring_cmd128 *)
definition UringCtx_uring_cmd128 :: "'w env \<Rightarrow> int \<Rightarrow> int \<Rightarrow> ('w, int) meth" where
  [method_defs]: "UringCtx_uring_cmd128 E cmd_op fd =
     sync_int E uring_uring_cmd128_sync [PInt cmd_op, PInt fd]"

text \<open>The bytes are copied and the length is the caller's, not the length of the bytes.\<close>

(* pyuring/native/uring_ctx.py:1174-1186 UringCtx.cmd_sock *)
definition UringCtx_cmd_sock ::
  "'w env \<Rightarrow> int \<Rightarrow> int \<Rightarrow> int \<Rightarrow> int \<Rightarrow> pybuf option \<Rightarrow> int \<Rightarrow> ('w, int) meth" where
  [method_defs]: "UringCtx_cmd_sock E cmd_op fd level optname optval optlen =
     (let call = (\<lambda>ov ol. sync_int E uring_cmd_sock_sync
             [PInt cmd_op, PInt fd, PInt level, PInt optname, ov, PInt ol])
      in case optval of
           None \<Rightarrow> call PNone 0
         | Some b \<Rightarrow> if optlen \<le> 0 then call PNone 0
                     else with_buffer (from_buffer_copy b) (\<lambda>buf. call (PMem buf) optlen))"

(* pyuring/native/uring_ctx.py:1188-1196 UringCtx.cmd_getsockname *)
definition UringCtx_cmd_getsockname :: "'w env \<Rightarrow> int \<Rightarrow> pybuf \<Rightarrow> int \<Rightarrow> ('w, int) meth" where
  [method_defs]: "UringCtx_cmd_getsockname E fd addr peer =
     with_buffer (from_buffer addr (b_len addr)) (\<lambda>arr.
       sync_int E uring_cmd_getsockname_sync
         [PInt fd, PMem arr, PMem (UIntRef (int (b_len addr))), PInt peer])"

end
