(* ===== verification/Ctx_Async.thy ===== *)
theory Ctx_Async
  imports Ctx_Misc
begin

unbundle bit_operations_syntax

text \<open>
  The asynchronous half of \<open>UringCtx\<close> (\<open>pyuring/native/uring_ctx.py\<close>): submission without
  waiting, the table that keeps the buffers of submitted operations alive, and the reaping of
  completions.
\<close>

subsection \<open>The table of pinned buffers\<close>

definition tag_in_use :: "int \<Rightarrow> string" where
  "tag_in_use user_data = ''user_data='' @ str_of_int user_data
     @ '' is already in use by an in-flight read_async/write_async; ''
     @ ''use a unique tag until the completion is consumed.''"

(* pyuring/native/uring_ctx.py:1491-1498 UringCtx._track_async_io_buffer *)
definition UringCtx_track_async_io_buffer :: "int \<Rightarrow> keep \<Rightarrow> ('w, unit) meth" where
  "UringCtx_track_async_io_buffer user_data keepalive = (\<lambda>(self, w).
     if u_async_io_keepalive self user_data \<noteq> None
     then (Inl (ValueError (tag_in_use user_data)), (self, w))
     else (Inr (), (self\<lparr>u_async_io_keepalive :=
                       (u_async_io_keepalive self)(user_data \<mapsto> keepalive)\<rparr>, w)))"

(* pyuring/native/uring_ctx.py:1500-1501 UringCtx._completion_release_async_io_buffer *)
definition UringCtx_completion_release_async_io_buffer :: "int \<Rightarrow> ('w, unit) meth" where
  "UringCtx_completion_release_async_io_buffer user_data = (\<lambda>(self, w).
     (Inr (), (self\<lparr>u_async_io_keepalive := (u_async_io_keepalive self)(user_data := None)\<rparr>, w)))"

subsection \<open>Submission\<close>

text \<open>
  What \<open>read_async\<close> takes: an object with a buffer, a pair of an address and a size
  (\<open>BufferPool.get_ptr\<close>), or anything else.  The pointer variants take an address or such
  a pair, whose size then replaces the argument \<open>buf_len\<close>.
\<close>

datatype async_buf = Buf pybuf | PtrPair int int | NotABuffer

datatype ptr_arg = Addr int | AddrSize int int

fun ptr_and_len :: "ptr_arg \<Rightarrow> int \<Rightarrow> int \<times> int" where
  "ptr_and_len (Addr p) buf_len = (p, buf_len)"
| "ptr_and_len (AddrSize p n) buf_len = (p, n)"

text \<open>The call both pairs of methods share: submit, check, and go on with the result.\<close>

definition submit_rw ::
  "'w env \<Rightarrow> binding \<Rightarrow> int \<Rightarrow> pyval \<Rightarrow> int \<Rightarrow> int \<Rightarrow> int \<Rightarrow> ('w, unit) meth \<Rightarrow> ('w, int) meth" where
  "submit_rw E b fd ptr len offset user_data k =
     sync_call_info E b [PInt fd, ptr, PInt len, PInt offset, PInt user_data]
       None (Some offset) (Some len) (\<lambda>r. py_bind k (\<lambda>_. py_return (rp_ret r)))"

(* pyuring/native/uring_ctx.py:1539-1560 UringCtx.read_async_ptr *)
definition UringCtx_read_async_ptr ::
  "'w env \<Rightarrow> int \<Rightarrow> ptr_arg \<Rightarrow> int \<Rightarrow> int \<Rightarrow> int \<Rightarrow> ('w, int) meth" where
  [method_defs]: "UringCtx_read_async_ptr E fd buf_ptr buf_len offset user_data =
     (case ptr_and_len buf_ptr buf_len of (p, n) \<Rightarrow>
        submit_rw E uring_read_async fd (PInt p) n offset user_data (py_return ()))"

text \<open>
  \<open>read_async\<close> into \<open>bytes\<close> makes a \<open>bytearray\<close> of its own and reads into that; a
  \<open>bytearray\<close> is read into in place.  The object is pinned after the operation has been
  submitted.
\<close>

(* pyuring/native/uring_ctx.py:1503-1537 UringCtx.read_async *)
definition UringCtx_read_async ::
  "'w env \<Rightarrow> int \<Rightarrow> async_buf \<Rightarrow> int \<Rightarrow> int \<Rightarrow> ('w, int) meth" where
  [method_defs]: "UringCtx_read_async E fd buf offset user_data =
     (case buf of
        PtrPair p n \<Rightarrow> UringCtx_read_async_ptr E fd (Addr p) n offset user_data
      | NotABuffer \<Rightarrow> py_raise (TypeError ''buf must be bytes, bytearray, or tuple (ptr, size)'')
      | Buf b \<Rightarrow>
          if b_kind b = Bytes then
            submit_rw E uring_read_async fd (PMem (Copied (b_id b) (b_len b))) (int (b_len b))
              offset user_data
              (UringCtx_track_async_io_buffer user_data (KView (Copied (b_id b) (b_len b))))
          else if b_kind b = Bytearray then
            with_buffer (from_buffer b (b_len b)) (\<lambda>arr.
              submit_rw E uring_read_async fd (PMem arr) (int (b_len b)) offset user_data
                (UringCtx_track_async_io_buffer user_data (KObj (b_id b))))
          else py_raise (TypeError ''buf must be bytes, bytearray, or tuple (ptr, size)''))"

(* pyuring/native/uring_ctx.py:1589-1610 UringCtx.write_async_ptr *)
definition UringCtx_write_async_ptr ::
  "'w env \<Rightarrow> int \<Rightarrow> ptr_arg \<Rightarrow> int \<Rightarrow> int \<Rightarrow> int \<Rightarrow> ('w, int) meth" where
  [method_defs]: "UringCtx_write_async_ptr E fd buf_ptr buf_len offset user_data =
     (case ptr_and_len buf_ptr buf_len of (p, n) \<Rightarrow>
        submit_rw E uring_write_async fd (PInt p) n offset user_data (py_return ()))"

text \<open>\<open>ctypes.c_char_p(data)\<close> points into the \<open>bytes\<close> object itself.\<close>

(* pyuring/native/uring_ctx.py:1562-1587 UringCtx.write_async *)
definition UringCtx_write_async ::
  "'w env \<Rightarrow> int \<Rightarrow> pybuf \<Rightarrow> int \<Rightarrow> int \<Rightarrow> ('w, int) meth" where
  [method_defs]: "UringCtx_write_async E fd data offset user_data =
     (if b_kind data \<noteq> Bytes \<and> b_kind data \<noteq> Bytearray
      then py_raise (TypeError ''data must be bytes or bytearray'')
      else with_buffer
        (if b_kind data = Bytes then Inr (Shared (b_id data) (b_len data))
         else from_buffer data (b_len data)) (\<lambda>arr.
          submit_rw E uring_write_async fd (PMem arr) (int (b_len data)) offset user_data
            (UringCtx_track_async_io_buffer user_data (KObj (b_id data)))))"

(* pyuring/native/uring_ctx.py:655-680 UringCtx.splice_submit *)
definition UringCtx_splice_submit ::
  "'w env \<Rightarrow> int \<Rightarrow> int \<Rightarrow> int \<Rightarrow> int \<Rightarrow> int \<Rightarrow> int \<Rightarrow> int \<Rightarrow> ('w, int) meth" where
  [method_defs]: "UringCtx_splice_submit E fd_in off_in fd_out off_out nbytes splice_flags user_data =
     sync_int E uring_splice_submit
       [PInt fd_in, PInt off_in, PInt fd_out, PInt off_out, PInt (mask32 nbytes),
        PInt (mask32 splice_flags), PU64 (mask64 user_data)]"

(* pyuring/native/uring_ctx.py:682-688 UringCtx.multishot_accept_submit *)
definition UringCtx_multishot_accept_submit :: "'w env \<Rightarrow> int \<Rightarrow> int \<Rightarrow> int \<Rightarrow> ('w, int) meth" where
  [method_defs]: "UringCtx_multishot_accept_submit E fd flags user_data =
     sync_int E uring_multishot_accept_submit [PInt fd, PInt flags, PU64 (mask64 user_data)]"

(* pyuring/native/uring_ctx.py:690-705 UringCtx.recv_multishot_buffer_group_submit *)
definition UringCtx_recv_multishot_buffer_group_submit ::
  "'w env \<Rightarrow> int \<Rightarrow> int \<Rightarrow> int \<Rightarrow> int \<Rightarrow> ('w, int) meth" where
  [method_defs]: "UringCtx_recv_multishot_buffer_group_submit E fd bgid msg_flags user_data =
     sync_int E uring_recv_multishot_buf_group_submit
       [PInt fd, PInt (mask32 bgid), PInt msg_flags, PU64 (mask64 user_data)]"

subsection \<open>Completions\<close>

text \<open>
  \<open>c_uint64()\<close> and \<open>c_int()\<close> after the call; both are 0 when the call left them alone.
\<close>

definition completion_out :: "reply \<Rightarrow> int \<times> int" where
  "completion_out r = (case rp_out r of
       [ud, res] \<Rightarrow> (take_bit 64 ud, signed_take_bit 31 res)
     | _ \<Rightarrow> (0, 0))"

(* pyuring/native/uring_ctx.py:1612-1630 UringCtx.wait_completion *)
definition UringCtx_wait_completion :: "'w env \<Rightarrow> ('w, int \<times> int) meth" where
  [method_defs]: "UringCtx_wait_completion E =
     sync_call E uring_wait_completion [PMem U64Ref, PMem IntRef] (\<lambda>r.
       py_bind (UringCtx_completion_release_async_io_buffer (fst (completion_out r)))
         (\<lambda>_. py_return (completion_out r)))"

(* pyuring/native/uring_ctx.py:1632-1652 UringCtx.peek_completion *)
definition UringCtx_peek_completion :: "'w env \<Rightarrow> ('w, (int \<times> int) option) meth" where
  [method_defs]: "UringCtx_peek_completion E =
     ring_call E uring_peek_completion [PMem U64Ref, PMem IntRef] (\<lambda>r.
       if rp_ret r = 0 then py_return None
       else py_bind (py_lift (check_ret (rp_ret r) ''uring_peek_completion'')) (\<lambda>_.
         py_bind (UringCtx_completion_release_async_io_buffer (fst (completion_out r)))
           (\<lambda>_. py_return (Some (completion_out r)))))"

(* pyuring/native/uring_ctx.py:1654-1666 UringCtx.submit *)
definition UringCtx_submit :: "'w env \<Rightarrow> ('w, int) meth" where
  [method_defs]: "UringCtx_submit E = sync_int E uring_submit []"

(* pyuring/native/uring_ctx.py:1668-1683 UringCtx.submit_and_wait *)
definition UringCtx_submit_and_wait :: "'w env \<Rightarrow> int \<Rightarrow> ('w, int) meth" where
  [method_defs]: "UringCtx_submit_and_wait E wait_nr =
     sync_int E uring_submit_and_wait [PInt wait_nr]"

end
