(* ===== verification/Async_Ring.thy ===== *)
theory Async_Ring
  imports Ctx_Async "HOL-Library.Multiset"
begin

unbundle bit_operations_syntax

text \<open>
  The C functions behind the asynchronous methods (\<open>csrc/uring_wrap.c\<close>, lines 407 to 516 and
  2063 to 2116), over a record of the liburing functions they call; the documented behaviour
  of liburing as a predicate on that record; and the reachable states of one \<open>UringCtx\<close>
  together with its ring, with the invariant that every operation in flight on Python memory
  has that memory pinned.
\<close>

subsection \<open>liburing\<close>

datatype sqe_kind = K_read | K_write | K_splice | K_accept_multi | K_recv_multi
  | K_prep string "cval list"

record sqe =
  sqe_kind :: sqe_kind
  sqe_fd :: int
  sqe_buf :: cval
  sqe_len :: int
  sqe_off :: int
  sqe_extra :: "int list"
  sqe_ud :: int

record cqe =
  cqe_user_data :: int
  cqe_res :: int

text \<open>
  \<open>K_prep\<close> is any other operation: the \<open>io_uring_prep_\<close> function that fills the entry, with the
  arguments it is given.  \<open>lu_set_sqe\<close> stores what the \<open>io_uring_prep_\<close> functions and the assignment to
  \<open>sqe->user_data\<close> write into the slot that \<open>io_uring_get_sqe\<close> handed out.
\<close>

record 'k liburing =
  lu_get_sqe :: "'k \<Rightarrow> nat option \<times> 'k"
  lu_set_sqe :: "nat \<Rightarrow> sqe \<Rightarrow> 'k \<Rightarrow> 'k"
  lu_submit :: "'k \<Rightarrow> int \<times> 'k"
  lu_submit_and_wait :: "int \<Rightarrow> 'k \<Rightarrow> int \<times> 'k"
  lu_wait_cqe :: "'k \<Rightarrow> int \<times> cqe \<times> 'k"
  lu_peek_cqe :: "'k \<Rightarrow> int \<times> cqe option \<times> 'k"
  lu_cqe_seen :: "cqe \<Rightarrow> 'k \<Rightarrow> 'k"

subsection \<open>The C functions\<close>

definition submit_one_c :: "'k liburing \<Rightarrow> cval \<Rightarrow> sqe \<Rightarrow> 'k \<Rightarrow> int \<times> 'k" where
  "submit_one_c L ctx q k =
     (if ctx = CNull then (- EINVAL, k)
      else case lu_get_sqe L k of
        (None, k) \<Rightarrow> (- EAGAIN, k)
      | (Some i, k) \<Rightarrow>
          (case lu_submit L (lu_set_sqe L i q k) of (ret, k) \<Rightarrow>
             if ret < 0 then (ret, k) else (signed_take_bit 63 (sqe_ud q), k)))"

fun cint :: "cval \<Rightarrow> int" where
  "cint (CInt n) = n"
| "cint _ = 0"

(* csrc/uring_wrap.c:410-429 uring_read_async *)
definition uring_read_async_c ::
  "'k liburing \<Rightarrow> cval \<Rightarrow> cval \<Rightarrow> cval \<Rightarrow> cval \<Rightarrow> cval \<Rightarrow> cval \<Rightarrow> 'k \<Rightarrow> int \<times> 'k" where
  "uring_read_async_c L ctx fd buf len offset user_data =
     submit_one_c L ctx \<lparr>sqe_kind = K_read, sqe_fd = cint fd, sqe_buf = buf, sqe_len = cint len,
       sqe_off = cint offset, sqe_extra = [], sqe_ud = cint user_data\<rparr>"

(* csrc/uring_wrap.c:433-451 uring_write_async *)
definition uring_write_async_c ::
  "'k liburing \<Rightarrow> cval \<Rightarrow> cval \<Rightarrow> cval \<Rightarrow> cval \<Rightarrow> cval \<Rightarrow> cval \<Rightarrow> 'k \<Rightarrow> int \<times> 'k" where
  "uring_write_async_c L ctx fd buf len offset user_data =
     submit_one_c L ctx \<lparr>sqe_kind = K_write, sqe_fd = cint fd, sqe_buf = buf, sqe_len = cint len,
       sqe_off = cint offset, sqe_extra = [], sqe_ud = cint user_data\<rparr>"

(* csrc/uring_wrap.c:2064-2078 uring_multishot_accept_submit *)
definition uring_multishot_accept_submit_c ::
  "'k liburing \<Rightarrow> cval \<Rightarrow> cval \<Rightarrow> cval \<Rightarrow> cval \<Rightarrow> 'k \<Rightarrow> int \<times> 'k" where
  "uring_multishot_accept_submit_c L ctx fd flags user_data =
     submit_one_c L ctx \<lparr>sqe_kind = K_accept_multi, sqe_fd = cint fd, sqe_buf = CNull, sqe_len = 0,
       sqe_off = 0, sqe_extra = [cint flags], sqe_ud = cint user_data\<rparr>"

(* csrc/uring_wrap.c:2081-2097 uring_recv_multishot_buf_group_submit *)
definition uring_recv_multishot_buf_group_submit_c ::
  "'k liburing \<Rightarrow> cval \<Rightarrow> cval \<Rightarrow> cval \<Rightarrow> cval \<Rightarrow> cval \<Rightarrow> 'k \<Rightarrow> int \<times> 'k" where
  "uring_recv_multishot_buf_group_submit_c L ctx fd bgid msg_flags user_data =
     submit_one_c L ctx \<lparr>sqe_kind = K_recv_multi, sqe_fd = cint fd, sqe_buf = CNull, sqe_len = 0,
       sqe_off = 0, sqe_extra = [cint msg_flags, signed_take_bit 31 (cint bgid)], sqe_ud = cint user_data\<rparr>"

(* csrc/uring_wrap.c:2100-2116 uring_splice_submit *)
definition uring_splice_submit_c ::
  "'k liburing \<Rightarrow> cval \<Rightarrow> cval \<Rightarrow> cval \<Rightarrow> cval \<Rightarrow> cval \<Rightarrow> cval \<Rightarrow> cval \<Rightarrow> cval \<Rightarrow> 'k \<Rightarrow> int \<times> 'k"
  where
  "uring_splice_submit_c L ctx fd_in off_in fd_out off_out nbytes flags user_data =
     submit_one_c L ctx \<lparr>sqe_kind = K_splice, sqe_fd = cint fd_out, sqe_buf = CNull,
       sqe_len = cint nbytes, sqe_off = cint off_out,
       sqe_extra = [cint fd_in, cint off_in, cint flags], sqe_ud = cint user_data\<rparr>"

text \<open>The two output parameters are the list of the reply; it is empty when they stay unset.\<close>

(* csrc/uring_wrap.c:457-471 uring_wait_completion *)
definition uring_wait_completion_c ::
  "'k liburing \<Rightarrow> cval \<Rightarrow> cval \<Rightarrow> cval \<Rightarrow> 'k \<Rightarrow> (int \<times> int list) \<times> 'k" where
  "uring_wait_completion_c L ctx user_data result k =
     (if ctx = CNull \<or> user_data = CNull \<or> result = CNull then ((- EINVAL, []), k)
      else case lu_wait_cqe L k of (ret, cqe, k) \<Rightarrow>
        if ret < 0 then ((ret, []), k)
        else ((0, [cqe_user_data cqe, cqe_res cqe]), lu_cqe_seen L cqe k))"

(* csrc/uring_wrap.c:476-498 uring_peek_completion *)
definition uring_peek_completion_c ::
  "'k liburing \<Rightarrow> cval \<Rightarrow> cval \<Rightarrow> cval \<Rightarrow> 'k \<Rightarrow> (int \<times> int list) \<times> 'k" where
  "uring_peek_completion_c L ctx user_data result k =
     (if ctx = CNull \<or> user_data = CNull \<or> result = CNull then ((- EINVAL, []), k)
      else case lu_peek_cqe L k of (ret, cqe, k) \<Rightarrow>
        if ret < 0 then (if ret = - EAGAIN then ((0, []), k) else ((ret, []), k))
        else case cqe of
          None \<Rightarrow> ((0, []), k)
        | Some cqe \<Rightarrow> ((1, [cqe_user_data cqe, cqe_res cqe]), lu_cqe_seen L cqe k))"

(* csrc/uring_wrap.c:502-507 uring_submit *)
definition uring_submit_c :: "'k liburing \<Rightarrow> cval \<Rightarrow> 'k \<Rightarrow> int \<times> 'k" where
  "uring_submit_c L ctx k = (if ctx = CNull then (- EINVAL, k) else lu_submit L k)"

(* csrc/uring_wrap.c:511-516 uring_submit_and_wait *)
definition uring_submit_and_wait_c :: "'k liburing \<Rightarrow> cval \<Rightarrow> cval \<Rightarrow> 'k \<Rightarrow> int \<times> 'k" where
  "uring_submit_and_wait_c L ctx wait_nr k =
     (if ctx = CNull then (- EINVAL, k) else lu_submit_and_wait L (cint wait_nr) k)"

text \<open>The asynchronous part of the native library as the environment of the Python side.\<close>

definition reply_of :: "int \<times> 'k \<Rightarrow> reply \<times> 'k" where
  "reply_of rk = (\<lparr>rp_ret = fst rk, rp_out = [], rp_errno = 0\<rparr>, snd rk)"

definition reply_out :: "(int \<times> int list) \<times> 'k \<Rightarrow> reply \<times> 'k" where
  "reply_out rk = (\<lparr>rp_ret = fst (fst rk), rp_out = snd (fst rk), rp_errno = 0\<rparr>, snd rk)"

definition async_native ::
  "'k liburing \<Rightarrow> (string \<Rightarrow> cval list \<Rightarrow> 'k \<Rightarrow> reply \<times> 'k)
     \<Rightarrow> string \<Rightarrow> cval list \<Rightarrow> 'k \<Rightarrow> reply \<times> 'k" where
  "async_native L other f args k =
     (if f = ''uring_read_async'' then reply_of
        (uring_read_async_c L (args!0) (args!1) (args!2) (args!3) (args!4) (args!5) k)
      else if f = ''uring_write_async'' then reply_of
        (uring_write_async_c L (args!0) (args!1) (args!2) (args!3) (args!4) (args!5) k)
      else if f = ''uring_splice_submit'' then reply_of
        (uring_splice_submit_c L (args!0) (args!1) (args!2) (args!3) (args!4) (args!5) (args!6)
          (args!7) k)
      else if f = ''uring_multishot_accept_submit'' then reply_of
        (uring_multishot_accept_submit_c L (args!0) (args!1) (args!2) (args!3) k)
      else if f = ''uring_recv_multishot_buf_group_submit'' then reply_of
        (uring_recv_multishot_buf_group_submit_c L (args!0) (args!1) (args!2) (args!3) (args!4) k)
      else if f = ''uring_wait_completion'' then reply_out
        (uring_wait_completion_c L (args!0) (args!1) (args!2) k)
      else if f = ''uring_peek_completion'' then reply_out
        (uring_peek_completion_c L (args!0) (args!1) (args!2) k)
      else if f = ''uring_submit'' then reply_of (uring_submit_c L (args!0) k)
      else if f = ''uring_submit_and_wait'' then reply_of
        (uring_submit_and_wait_c L (args!0) (args!1) k)
      else other f args k)"

definition async_env ::
  "'k liburing \<Rightarrow> (string \<Rightarrow> cval list \<Rightarrow> 'k \<Rightarrow> reply \<times> 'k) \<Rightarrow> int \<Rightarrow> 'k env" where
  "async_env L other tid = \<lparr>native = async_native L other, thread_ident = tid, ct_errno = 0\<rparr>"

subsection \<open>What liburing promises\<close>

text \<open>
  \<open>live\<close> gives the operations that have been prepared and whose last completion has not been
  reaped, queued ones included; a multishot receive and a zero-copy send (its result and the notice
  that the memory is free) post several.  Preparing adds one, submission changes nothing, and a
  completion carries the tag of a live operation, which ends unless it is multishot.  The
  results are C \<open>int\<close>s.
\<close>

definition c_int_range :: "int \<Rightarrow> bool" where
  "c_int_range r \<longleftrightarrow> - (2 ^ 31) \<le> r \<and> r < 2 ^ 31"

definition several_cqes :: "string list" where
  "several_cqes = [''io_uring_prep_recv_multishot'', ''io_uring_prep_recvmsg_multishot'',
     ''io_uring_prep_send_zc'', ''io_uring_prep_send_zc_fixed'', ''io_uring_prep_sendmsg_zc'',
     ''io_uring_prep_sendmsg_zc_fixed'', ''io_uring_prep_rw'']"

definition multishot :: "sqe \<Rightarrow> bool" where
  "multishot q \<longleftrightarrow> sqe_kind q = K_accept_multi \<or> sqe_kind q = K_recv_multi
     \<or> (case sqe_kind q of K_prep f args \<Rightarrow> f \<in> set several_cqes | _ \<Rightarrow> False)"

definition reaps :: "sqe multiset \<Rightarrow> cqe \<Rightarrow> sqe multiset \<Rightarrow> bool" where
  "reaps M c M' \<longleftrightarrow> (\<exists>q. q \<in># M \<and> sqe_ud q = cqe_user_data c
      \<and> (M' = M - {#q#} \<or> (multishot q \<and> M' = M)))"

definition liburing_ok :: "'k liburing \<Rightarrow> ('k \<Rightarrow> sqe multiset) \<Rightarrow> bool" where
  "liburing_ok L live \<longleftrightarrow>
     (\<forall>k k'. lu_get_sqe L k = (None, k') \<longrightarrow> live k' = live k)
   \<and> (\<forall>k i k' q. lu_get_sqe L k = (Some i, k') \<longrightarrow> live (lu_set_sqe L i q k') = add_mset q (live k))
   \<and> (\<forall>k. live (snd (lu_submit L k)) = live k \<and> c_int_range (fst (lu_submit L k)))
   \<and> (\<forall>n k. live (snd (lu_submit_and_wait L n k)) = live k)
   \<and> (\<forall>k ret c k'. lu_wait_cqe L k = (ret, c, k') \<longrightarrow> c_int_range ret \<and>
        (if ret < 0 then live k' = live k else reaps (live k) c (live (lu_cqe_seen L c k'))))
   \<and> (\<forall>k ret oc k'. lu_peek_cqe L k = (ret, oc, k') \<longrightarrow> c_int_range ret \<and>
        (case oc of
           Some c \<Rightarrow> (if ret < 0 then live k' = live k
                      else reaps (live k) c (live (lu_cqe_seen L c k')))
         | None \<Rightarrow> live k' = live k))"

subsection \<open>The invariant\<close>

text \<open>An object keeps the memory it owns; an array kept by itself keeps its own memory.\<close>

fun keeps :: "keep \<Rightarrow> cmem \<Rightarrow> bool" where
  "keeps (KObj i) (Shared j n) \<longleftrightarrow> i = j"
| "keeps (KView m) m' \<longleftrightarrow> m = m'"
| "keeps _ _ \<longleftrightarrow> False"

definition unique_tags :: "sqe multiset \<Rightarrow> bool" where
  "unique_tags M \<longleftrightarrow> (\<forall>q. q \<in># M \<longrightarrow> (\<forall>q'. q' \<in># M - {#q#} \<longrightarrow> sqe_ud q' \<noteq> sqe_ud q))"

definition on_python_memory :: "sqe \<Rightarrow> bool" where
  "on_python_memory q \<longleftrightarrow> (case sqe_buf q of CMem _ \<Rightarrow> True | _ \<Rightarrow> False)"

definition pinned :: "uctx \<Rightarrow> sqe \<Rightarrow> bool" where
  "pinned self q \<longleftrightarrow> (case sqe_buf q of
       CMem m \<Rightarrow> (\<exists>kp. u_async_io_keepalive self (sqe_ud q) = Some kp \<and> keeps kp m)
     | _ \<Rightarrow> u_async_io_keepalive self (sqe_ud q) = None)"

text \<open>
  \<open>X\<close> is what calls that raised have left behind: entries that are queued or in flight although the
  method that prepared them reported a failure.  They have no pin; everything else has.
\<close>

definition pins_ok :: "uctx \<Rightarrow> sqe multiset \<Rightarrow> sqe multiset \<Rightarrow> bool" where
  "pins_ok self X M \<longleftrightarrow> unique_tags M \<and> X \<subseteq># M
     \<and> (\<forall>q. q \<in># M \<longrightarrow> q \<notin># X \<longrightarrow> pinned self q)
     \<and> (\<forall>q. q \<in># X \<longrightarrow> u_async_io_keepalive self (sqe_ud q) = None)
     \<and> (\<forall>ud. u_async_io_keepalive self ud \<noteq> None \<longrightarrow> (\<exists>q. q \<in># M \<and> sqe_ud q = ud))"

definition fresh_tag :: "sqe multiset \<Rightarrow> int \<Rightarrow> bool" where
  "fresh_tag M ud \<longleftrightarrow> 0 \<le> ud \<and> ud < 2 ^ 63 \<and> (\<forall>q. q \<in># M \<longrightarrow> sqe_ud q \<noteq> ud)"

lemma unique_tags_add:
  "unique_tags M \<Longrightarrow> fresh_tag M (sqe_ud q) \<Longrightarrow> unique_tags (add_mset q M)"
  by (auto simp: unique_tags_def fresh_tag_def add_mset_remove_trivial_If
      split: if_splits dest: in_diffD)

lemma unique_tags_remove: "unique_tags M \<Longrightarrow> unique_tags (M - {#q#})"
  unfolding unique_tags_def by (metis diff_right_commute in_diffD)

lemma subset_add_mset: "X \<subseteq># M \<Longrightarrow> X \<subseteq># add_mset q M"
  by (metis add_mset_add_single mset_subset_eq_add_left subset_mset.order_trans)

lemma pins_ok_no_pin:
  "pins_ok self X M \<Longrightarrow> fresh_tag M ud \<Longrightarrow> u_async_io_keepalive self ud = None"
  unfolding pins_ok_def fresh_tag_def by blast

lemma pins_ok_submit:
  assumes ok: "pins_ok self X M" "fresh_tag M ud" "sqe_ud q = ud"
    and K: "\<forall>ud'. ud' \<noteq> ud \<longrightarrow> u_async_io_keepalive self' ud' = u_async_io_keepalive self ud'"
    and q: "u_async_io_keepalive self ud = None \<Longrightarrow> pinned self' q"
  shows "pins_ok self' X (add_mset q M)"
proof -
  have X: "X \<subseteq># M" using ok(1) by (simp add: pins_ok_def)
  have other: "sqe_ud p \<noteq> ud" if "p \<in># M" for p using ok(2) that by (auto simp: fresh_tag_def)
  have "pinned self' p" if "p \<in># M" "p \<notin># X" for p
    using ok(1) K other [OF that(1)] that by (auto simp: pins_ok_def pinned_def split: cval.splits)
  moreover have "u_async_io_keepalive self' (sqe_ud p) = None" if "p \<in># X" for p
    using ok(1) K other [OF mset_subset_eqD [OF X that]] that by (simp add: pins_ok_def)
  moreover have "X \<subseteq># add_mset q M" using X by (rule subset_add_mset)
  moreover have "\<exists>p. p \<in># add_mset q M \<and> sqe_ud p = ud'" if "u_async_io_keepalive self' ud' \<noteq> None" for ud'
  proof (cases "ud' = ud")
    case True then show ?thesis using ok(3) by auto
  next
    case False
    then have "u_async_io_keepalive self ud' \<noteq> None" using K that by simp
    then show ?thesis using ok(1) unfolding pins_ok_def by auto
  qed
  ultimately show ?thesis
    using ok(1-3) q [OF pins_ok_no_pin [OF ok(1,2)]] unique_tags_add [of M q] by (auto simp: pins_ok_def)
qed

lemma pins_ok_left_behind:
  assumes ok: "pins_ok self X M" "fresh_tag M (sqe_ud q)"
    and K: "u_async_io_keepalive self' = u_async_io_keepalive self"
  shows "pins_ok self' (add_mset q X) (add_mset q M)"
proof -
  have "pinned self' p = pinned self p" for p using K by (simp add: pinned_def split: cval.split)
  then show ?thesis
    using ok K pins_ok_no_pin [OF ok] unique_tags_add [of M q] unfolding pins_ok_def by auto
qed

lemma pinned_cong:
  "u_async_io_keepalive self' = u_async_io_keepalive self \<Longrightarrow> pinned self' q = pinned self q"
  by (simp add: pinned_def split: cval.split)

lemma pins_ok_same:
  "pins_ok self X M \<Longrightarrow> u_async_io_keepalive self' = u_async_io_keepalive self \<Longrightarrow> pins_ok self' X M"
  using pinned_cong [of self' self] by (simp add: pins_ok_def)

lemma pins_ok_reap:
  assumes M: "pins_ok self X M" "reaps M c M'"
    and K: "u_async_io_keepalive self' = (u_async_io_keepalive self)(cqe_user_data c := None)"
    and multi: "\<And>q. q \<in># M \<Longrightarrow> multishot q \<Longrightarrow> sqe_buf q = CNull"
  shows "pins_ok self' (X \<inter># M') M'"
proof -
  obtain q where q: "q \<in># M" "sqe_ud q = cqe_user_data c"
      "M' = M - {#q#} \<or> (multishot q \<and> M' = M)"
    using M(2) by (auto simp: reaps_def)
  from q(3) show ?thesis
  proof
    assume M': "M' = M - {#q#}"
    have sub: "p \<in># M" if "p \<in># M'" for p using that M' by (auto dest: in_diffD)
    have other: "sqe_ud p \<noteq> cqe_user_data c" if "p \<in># M'" for p
      using M(1) q M' that by (auto simp: pins_ok_def unique_tags_def)
    have "pinned self' p" if "p \<in># M'" "p \<notin># X" for p
      using M(1) K other [OF that(1)] sub [OF that(1)] that(2) by (auto simp: pins_ok_def pinned_def split: cval.splits)
    moreover have "u_async_io_keepalive self' (sqe_ud p) = None" if "p \<in># X" for p
      using M(1) K that by (simp add: pins_ok_def)
    moreover have "\<exists>p. p \<in># M' \<and> sqe_ud p = ud" if "u_async_io_keepalive self' ud \<noteq> None" for ud
    proof -
      have ud: "ud \<noteq> cqe_user_data c" "u_async_io_keepalive self ud \<noteq> None"
        using that K by (auto split: if_splits)
      then obtain p where "p \<in># M" "sqe_ud p = ud" using M(1) unfolding pins_ok_def by blast
      moreover have "M = add_mset q (M - {#q#})" using q(1) by simp
      ultimately show ?thesis using ud(1) q(2) M' by (metis union_iff add_mset_add_single
            insert_iff set_mset_add_mset_insert)
    qed
    ultimately show ?thesis
      using M(1) unique_tags_remove [of M q] M' by (auto simp: pins_ok_def)
  next
    assume same: "multishot q \<and> M' = M"
    then have "u_async_io_keepalive self (sqe_ud q) = None"
      using M(1) multi [OF q(1)] q(1) by (cases "q \<in># X") (auto simp: pins_ok_def pinned_def)
    then have "u_async_io_keepalive self' = u_async_io_keepalive self"
      using K q(2) by auto
    moreover have "X \<inter># M = X" using M(1) by (simp add: pins_ok_def subset_mset.inf_absorb1)
    ultimately show ?thesis using M(1) same by (auto intro: pins_ok_same)
  qed
qed

subsection \<open>Operations and reachable states\<close>

datatype async_op =
    ReadAsync int async_buf int int
  | ReadAsyncPtr int ptr_arg int int int
  | WriteAsync int pybuf int int
  | WriteAsyncPtr int ptr_arg int int int
  | SpliceSubmit int int int int int int int
  | AcceptMulti int int int
  | RecvMulti int int int int
  | WaitCompletion
  | PeekCompletion
  | Submit
  | SubmitAndWait int

fun op_tag :: "async_op \<Rightarrow> int option" where
  "op_tag (ReadAsync fd buf offset ud) = Some ud"
| "op_tag (ReadAsyncPtr fd p n offset ud) = Some ud"
| "op_tag (WriteAsync fd data offset ud) = Some ud"
| "op_tag (WriteAsyncPtr fd p n offset ud) = Some ud"
| "op_tag (SpliceSubmit fi oi fo oo n fl ud) = Some ud"
| "op_tag (AcceptMulti fd fl ud) = Some ud"
| "op_tag (RecvMulti fd bgid fl ud) = Some ud"
| "op_tag _ = None"

fun run_op :: "'w env \<Rightarrow> async_op \<Rightarrow> ('w, unit) meth" where
  "run_op E (ReadAsync fd buf offset ud) = py_map (\<lambda>_. ()) (UringCtx_read_async E fd buf offset ud)"
| "run_op E (ReadAsyncPtr fd p n offset ud) =
     py_map (\<lambda>_. ()) (UringCtx_read_async_ptr E fd p n offset ud)"
| "run_op E (WriteAsync fd data offset ud) =
     py_map (\<lambda>_. ()) (UringCtx_write_async E fd data offset ud)"
| "run_op E (WriteAsyncPtr fd p n offset ud) =
     py_map (\<lambda>_. ()) (UringCtx_write_async_ptr E fd p n offset ud)"
| "run_op E (SpliceSubmit fi oi fo oo n fl ud) =
     py_map (\<lambda>_. ()) (UringCtx_splice_submit E fi oi fo oo n fl ud)"
| "run_op E (AcceptMulti fd fl ud) = py_map (\<lambda>_. ()) (UringCtx_multishot_accept_submit E fd fl ud)"
| "run_op E (RecvMulti fd bgid fl ud) =
     py_map (\<lambda>_. ()) (UringCtx_recv_multishot_buffer_group_submit E fd bgid fl ud)"
| "run_op E WaitCompletion = py_map (\<lambda>_. ()) (UringCtx_wait_completion E)"
| "run_op E PeekCompletion = py_map (\<lambda>_. ()) (UringCtx_peek_completion E)"
| "run_op E Submit = py_map (\<lambda>_. ()) (UringCtx_submit E)"
| "run_op E (SubmitAndWait n) = py_map (\<lambda>_. ()) (UringCtx_submit_and_wait E n)"

text \<open>
  States one object and its ring reach through asynchronous methods whose tags are not those
  of live operations, whether the methods return or raise; \<open>X\<close> collects the entries that calls which
  raised have left on the ring (\<open>live k' - live k\<close> is nothing, or the one entry such a call prepared), until
  their completions are reaped.
\<close>

inductive reachable :: "'k env \<Rightarrow> ('k \<Rightarrow> sqe multiset) \<Rightarrow> sqe multiset \<Rightarrow> uctx \<times> 'k \<Rightarrow> bool"
  for E live where
  start: "u_async_io_keepalive self = Map.empty \<Longrightarrow> live k = {#} \<Longrightarrow> reachable E live {#} (self, k)"
| returns: "reachable E live X (self, k) \<Longrightarrow> (\<And>ud. op_tag oper = Some ud \<Longrightarrow> fresh_tag (live k) ud)
     \<Longrightarrow> run_op E oper (self, k) = (Inr v, (self', k')) \<Longrightarrow> reachable E live (X \<inter># live k') (self', k')"
| raises: "reachable E live X (self, k) \<Longrightarrow> (\<And>ud. op_tag oper = Some ud \<Longrightarrow> fresh_tag (live k) ud)
     \<Longrightarrow> run_op E oper (self, k) = (Inl e, (self', k'))
     \<Longrightarrow> reachable E live (X + (live k' - live k)) (self', k')"

lemma submit_one_cases:
  assumes "liburing_ok L live" "0 \<le> sqe_ud q" "sqe_ud q < 2 ^ 63"
    and "submit_one_c L ctx q k = (ret, k')"
  shows "convert_ret (Some C_longlong) ret = ret"
    and "0 \<le> ret \<longrightarrow> live k' = add_mset q (live k)"
    and "live k' = live k \<or> live k' = add_mset q (live k)"
proof -
  have ud: "signed_take_bit 63 (sqe_ud q) = sqe_ud q"
    using assms(2,3) by (intro signed_take_bit_id) auto
  have sub: "c_int_range (fst (lu_submit L k)) \<and> live (snd (lu_submit L k)) = live k" for k
    using assms(1) by (simp add: liburing_ok_def)
  have get: "lu_get_sqe L k = (Some i, k1) \<Longrightarrow> live (lu_set_sqe L i q k1) = add_mset q (live k)"
      "lu_get_sqe L k = (None, k1) \<Longrightarrow> live k1 = live k" for i k1
    using assms(1) by (simp_all add: liburing_ok_def)
  have "(- (2 ^ 31) \<le> ret \<and> ret < 2 ^ 63) \<and> (0 \<le> ret \<longrightarrow> live k' = add_mset q (live k))
      \<and> (live k' = live k \<or> live k' = add_mset q (live k))"
  proof (cases "ctx = CNull")
    case True then show ?thesis using assms(4) by (auto simp: submit_one_c_def)
  next
    case False
    obtain oi k1 where g: "lu_get_sqe L k = (oi, k1)" by fastforce
    show ?thesis
    proof (cases oi)
      case None
      then show ?thesis using assms(4) False g get(2) by (auto simp: submit_one_c_def)
    next
      case (Some i)
      then show ?thesis
        using assms False g get(1) [of i k1] sub [of "lu_set_sqe L i q k1"]
        by (auto simp: submit_one_c_def ud c_int_range_def split: prod.splits if_splits)
    qed
  qed
  then show "convert_ret (Some C_longlong) ret = ret" "0 \<le> ret \<longrightarrow> live k' = add_mset q (live k)"
      "live k' = live k \<or> live k' = add_mset q (live k)"
    by (auto simp: convert_ret_def wrap_simps)
qed

definition ring_arg :: "int \<Rightarrow> cval" where
  "ring_arg h = (if take_bit 64 h = 0 then CNull else CInt (take_bit 64 h))"

lemma submitting_call:
  assumes L: "liburing_ok L live" and ud: "0 \<le> sqe_ud q" "sqe_ud q < 2 ^ 63"
    and conv: "\<And>h. \<exists>cargs. convert_args ts (PInt h # args) = Inr cargs
        \<and> native E f cargs k = reply_of (submit_one_c L (ring_arg h) q k)"
    and run: "sync_call_info E (f, ts, Some C_longlong) args fn off len K (self, k) = (res, (self', k'))"
  shows "(\<exists>e. res = Inl e \<and> u_async_io_keepalive self' = u_async_io_keepalive self
        \<and> (live k' = live k \<or> live k' = add_mset q (live k)))
    \<or> (\<exists>r k1. K r (self, k1) = (res, (self', k')) \<and> live k1 = add_mset q (live k))"
proof (cases "usable E self")
  case False
  then show ?thesis using run by (auto simp: sync_call_info_def ring_call_eq)
next
  case True
  obtain cargs where c: "convert_args ts (PInt (the (u_ctx self)) # args) = Inr cargs"
      "native E f cargs k = reply_of (submit_one_c L (ring_arg (the (u_ctx self))) q k)"
    using conv by blast
  obtain ret k1 where s: "submit_one_c L (ring_arg (the (u_ctx self))) q k = (ret, k1)"
    by fastforce
  note facts = submit_one_cases [OF L ud s]
  show ?thesis
  proof (cases "ret < 0")
    case True
    then have "self' = self" "k' = k1" "\<exists>e. res = Inl e"
      using run \<open>usable E self\<close> c s facts(1)
      by (auto simp: sync_call_info_def ring_call_eq invoke_native_def
          reply_of_def py_defs raise_for_neg_errno_def)
    then show ?thesis using facts by auto
  next
    case False
    then have "\<exists>r. K r (self, k1) = (res, (self', k'))"
      using run \<open>usable E self\<close> c s facts(1)
      by (auto simp: sync_call_info_def ring_call_eq invoke_native_def
          reply_of_def py_defs raise_for_neg_errno_def)
    then show ?thesis using False facts by auto
  qed
qed

text \<open>What a submitting method did, as far as the invariant is concerned.\<close>

definition submitted ::
  "('k \<Rightarrow> sqe multiset) \<Rightarrow> int \<Rightarrow> uctx \<Rightarrow> 'k \<Rightarrow> (exn + 'a) \<times> uctx \<times> 'k \<Rightarrow> bool" where
  "submitted live ud self k out \<longleftrightarrow> (case out of (res, self', k') \<Rightarrow> \<exists>q. sqe_ud q = ud \<and> (multishot q \<longrightarrow> sqe_buf q = CNull) \<and>
      ((\<exists>e. res = Inl e \<and> u_async_io_keepalive self' = u_async_io_keepalive self
          \<and> (live k' = live k \<or> live k' = add_mset q (live k)))
     \<or> ((\<exists>v. res = Inr v) \<and> live k' = add_mset q (live k)
          \<and> (\<forall>ud'. ud' \<noteq> ud \<longrightarrow> u_async_io_keepalive self' ud' = u_async_io_keepalive self ud')
          \<and> (u_async_io_keepalive self ud = None \<longrightarrow> pinned self' q))))"

lemma submitted_map: "submitted live ud self k (py_map f m (self, k)) \<longleftrightarrow> submitted live ud self k (m (self, k))"
  by (cases "m (self, k)") (auto simp: submitted_def py_map_def py_bind_def py_return_def split: sum.splits)

lemma submitted_call:
  assumes "liburing_ok L live" "sqe_ud q = ud" "0 \<le> ud" "ud < 2 ^ 63"
    and "\<And>h. \<exists>cargs. convert_args ts (PInt h # args) = Inr cargs
        \<and> native E f cargs k = reply_of (submit_one_c L (ring_arg h) q k)"
    and K: "\<And>r k1. (\<exists>e. K r (self, k1) = (Inl e, (self, k1)))
      \<or> (\<exists>v self'. K r (self, k1) = (Inr v, (self', k1))
          \<and> (\<forall>ud'. ud' \<noteq> ud \<longrightarrow> u_async_io_keepalive self' ud' = u_async_io_keepalive self ud')
          \<and> (u_async_io_keepalive self ud = None \<longrightarrow> pinned self' q))"
    and "multishot q \<longrightarrow> sqe_buf q = CNull"
  shows "submitted live ud self k (sync_call_info E (f, ts, Some C_longlong) args fn off len K (self, k))"
proof -
  obtain res self' k' where run:
    "sync_call_info E (f, ts, Some C_longlong) args fn off len K (self, k) = (res, (self', k'))"
    by (metis prod.collapse)
  have "(\<exists>e. res = Inl e \<and> u_async_io_keepalive self' = u_async_io_keepalive self
        \<and> (live k' = live k \<or> live k' = add_mset q (live k)))
    \<or> (\<exists>r k1. K r (self, k1) = (res, (self', k')) \<and> live k1 = add_mset q (live k))"
    using submitting_call [OF assms(1) _ _ assms(5) run] assms(2-4) by simp
  then show ?thesis
  proof
    assume "\<exists>r k1. K r (self, k1) = (res, (self', k')) \<and> live k1 = add_mset q (live k)"
    then obtain r k1 where "K r (self, k1) = (res, (self', k'))" "live k1 = add_mset q (live k)"
      by blast
    then show ?thesis using K [of r k1] assms(2,7) run by (auto simp: submitted_def)
  qed (use assms(2,7) run in \<open>auto simp: submitted_def\<close>)
qed

lemma track_cases:
  assumes "keeps kp m" "sqe_buf q = CMem m" "sqe_ud q = ud"
  shows "(\<exists>e. py_bind (UringCtx_track_async_io_buffer ud kp) (\<lambda>_. py_return (rp_ret r)) (self, k1)
        = (Inl e, (self, k1)))
    \<or> (\<exists>v self'. py_bind (UringCtx_track_async_io_buffer ud kp) (\<lambda>_. py_return (rp_ret r)) (self, k1)
          = (Inr v, (self', k1))
        \<and> (\<forall>ud'. ud' \<noteq> ud \<longrightarrow> u_async_io_keepalive self' ud' = u_async_io_keepalive self ud')
        \<and> (u_async_io_keepalive self ud = None \<longrightarrow> pinned self' q))"
  using assms by (auto simp: UringCtx_track_async_io_buffer_def py_defs pinned_def)

lemma no_track_cases:
  assumes "\<And>m. sqe_buf q \<noteq> CMem m" "sqe_ud q = ud"
  shows "(\<exists>e. py_bind (py_return ()) (\<lambda>_. py_return (rp_ret r)) (self, k1) = (Inl e, (self, k1)))
    \<or> (\<exists>v self'. py_bind (py_return ()) (\<lambda>_. py_return (rp_ret r)) (self, k1) = (Inr v, (self', k1))
        \<and> (\<forall>ud'. ud' \<noteq> ud \<longrightarrow> u_async_io_keepalive self' ud' = u_async_io_keepalive self ud')
        \<and> (u_async_io_keepalive self ud = None \<longrightarrow> pinned self' q))"
  using assms by (auto simp: py_defs pinned_def split: cval.split)

lemmas async_simps = abi_defs ring_arg_def async_env_def async_native_def char_array_def
  uring_read_async_c_def uring_write_async_c_def uring_splice_submit_c_def
  uring_multishot_accept_submit_c_def uring_recv_multishot_buf_group_submit_c_def

lemma tag_in_width: "0 \<le> ud \<Longrightarrow> ud < 2 ^ 63 \<Longrightarrow> take_bit 64 (ud::int) = ud"
  by (rule take_bit_id) simp_all

lemma submitted_read:
  assumes "liburing_ok L live" "0 \<le> ud" "ud < 2 ^ 63"
    and "\<And>r k1. (\<exists>e. K r (self, k1) = (Inl e, (self, k1)))
      \<or> (\<exists>v self'. K r (self, k1) = (Inr v, (self', k1))
          \<and> (\<forall>ud'. ud' \<noteq> ud \<longrightarrow> u_async_io_keepalive self' ud' = u_async_io_keepalive self ud')
          \<and> (u_async_io_keepalive self ud = None \<longrightarrow> pinned self' q))"
    and "from_param C_void_p v = Some c"
    and "q = \<lparr>sqe_kind = K_read, sqe_fd = signed_take_bit 31 fd, sqe_buf = c,
       sqe_len = take_bit 32 len, sqe_off = signed_take_bit 63 offset, sqe_extra = [], sqe_ud = ud\<rparr>"
  shows "submitted live ud self k (sync_call_info (async_env L other tid) uring_read_async
           [PInt fd, v, PInt len, PInt offset, PInt ud] fn off l K (self, k))"
  unfolding uring_read_async_def
  by (rule submitted_call [where q = q]) (use assms in \<open>simp_all add: async_simps tag_in_width multishot_def\<close>)

lemma submitted_write:
  assumes "liburing_ok L live" "0 \<le> ud" "ud < 2 ^ 63"
    and "\<And>r k1. (\<exists>e. K r (self, k1) = (Inl e, (self, k1)))
      \<or> (\<exists>v self'. K r (self, k1) = (Inr v, (self', k1))
          \<and> (\<forall>ud'. ud' \<noteq> ud \<longrightarrow> u_async_io_keepalive self' ud' = u_async_io_keepalive self ud')
          \<and> (u_async_io_keepalive self ud = None \<longrightarrow> pinned self' q))"
    and "from_param C_void_p v = Some c"
    and "q = \<lparr>sqe_kind = K_write, sqe_fd = signed_take_bit 31 fd, sqe_buf = c,
       sqe_len = take_bit 32 len, sqe_off = signed_take_bit 63 offset, sqe_extra = [], sqe_ud = ud\<rparr>"
  shows "submitted live ud self k (sync_call_info (async_env L other tid) uring_write_async
           [PInt fd, v, PInt len, PInt offset, PInt ud] fn off l K (self, k))"
  unfolding uring_write_async_def
  by (rule submitted_call [where q = q]) (use assms in \<open>simp_all add: async_simps tag_in_width multishot_def\<close>)

lemma submitted_raise: "submitted live ud self k (py_raise e (self, k))"
  by (auto simp: submitted_def py_raise_def multishot_def
      intro!: exI [of _ "\<lparr>sqe_kind = K_read, sqe_fd = 0, sqe_buf = CNull, sqe_len = 0,
        sqe_off = 0, sqe_extra = [], sqe_ud = ud\<rparr>"])

lemma from_param_ptr: "\<exists>c. from_param C_void_p (PInt p) = Some c \<and> (\<forall>m. c \<noteq> CMem m)"
  by simp

lemma submitted_read_ptr:
  assumes "liburing_ok L live" "0 \<le> ud" "ud < 2 ^ 63"
  shows "submitted live ud self k (UringCtx_read_async_ptr (async_env L other tid) fd p n offset ud (self, k))"
  unfolding UringCtx_read_async_ptr_def submit_rw_def split_beta
  by (rule submitted_read [OF assms no_track_cases]) (auto split: if_splits)

lemma submitted_write_ptr:
  assumes "liburing_ok L live" "0 \<le> ud" "ud < 2 ^ 63"
  shows "submitted live ud self k (UringCtx_write_async_ptr (async_env L other tid) fd p n offset ud (self, k))"
  unfolding UringCtx_write_async_ptr_def submit_rw_def split_beta
  by (rule submitted_write [OF assms no_track_cases]) (auto split: if_splits)

lemma submitted_read_buf:
  assumes "liburing_ok L live" "0 \<le> ud" "ud < 2 ^ 63"
  shows "submitted live ud self k (UringCtx_read_async (async_env L other tid) fd buf offset ud (self, k))"
proof (cases buf)
  case (PtrPair p n)
  then show ?thesis by (simp add: UringCtx_read_async_def submitted_read_ptr [OF assms])
next
  case NotABuffer
  then show ?thesis by (simp add: UringCtx_read_async_def submitted_raise)
next
  case (Buf b)
  have copy: "submitted live ud self k (submit_rw (async_env L other tid) uring_read_async fd
      (PMem (Copied (b_id b) (b_len b))) (int (b_len b)) offset ud
      (UringCtx_track_async_io_buffer ud (KView (Copied (b_id b) (b_len b)))) (self, k))"
    unfolding submit_rw_def
    by (rule submitted_read [OF assms track_cases]) auto
  have shared: "submitted live ud self k (submit_rw (async_env L other tid) uring_read_async fd
      (PMem (Shared (b_id b) n)) (int (b_len b)) offset ud
      (UringCtx_track_async_io_buffer ud (KObj (b_id b))) (self, k))" for n
    unfolding submit_rw_def
    by (rule submitted_read [OF assms track_cases]) auto
  show ?thesis
    using copy shared by (simp add: UringCtx_read_async_def Buf submitted_raise with_buffer_def
        from_buffer_def)
qed

lemma submitted_write_buf:
  assumes "liburing_ok L live" "0 \<le> ud" "ud < 2 ^ 63"
  shows "submitted live ud self k (UringCtx_write_async (async_env L other tid) fd data offset ud (self, k))"
proof -
  have "submitted live ud self k (submit_rw (async_env L other tid) uring_write_async fd
      (PMem (Shared (b_id data) n)) (int (b_len data)) offset ud
      (UringCtx_track_async_io_buffer ud (KObj (b_id data))) (self, k))" for n
    unfolding submit_rw_def
    by (rule submitted_write [OF assms track_cases]) auto
  then show ?thesis
    by (simp add: UringCtx_write_async_def submitted_raise with_buffer_def from_buffer_def)
qed

lemma submitted_int:
  assumes "liburing_ok L live" "sqe_ud q = ud" "0 \<le> ud" "ud < 2 ^ 63" "\<And>m. sqe_buf q \<noteq> CMem m"
    and "\<And>h. \<exists>cargs. convert_args ts (PInt h # args) = Inr cargs
        \<and> native E f cargs k = reply_of (submit_one_c L (ring_arg h) q k)"
    and "multishot q \<longrightarrow> sqe_buf q = CNull"
  shows "submitted live ud self k (sync_int E (f, ts, Some C_longlong) args (self, k))"
  unfolding sync_int_def sync_call_is_info
  by (rule submitted_call [OF assms(1-4,6)])
     (use assms(2,5,7) in \<open>auto simp: py_return_def pinned_def split: cval.split\<close>)

lemma submitted_splice:
  assumes "liburing_ok L live" "0 \<le> ud" "ud < 2 ^ 63"
  shows "submitted live ud self k
    (UringCtx_splice_submit (async_env L other tid) fi oi fo oo n fl ud (self, k))"
  unfolding UringCtx_splice_submit_def uring_splice_submit_def
  by (rule submitted_int [where q = "\<lparr>sqe_kind = K_splice, sqe_fd = signed_take_bit 31 fo,
       sqe_buf = CNull, sqe_len = take_bit 32 (mask32 n), sqe_off = signed_take_bit 63 oo,
       sqe_extra = [signed_take_bit 31 fi, signed_take_bit 63 oi, take_bit 32 (mask32 fl)], sqe_ud = ud\<rparr>"])
     (use assms in \<open>simp_all add: async_simps tag_in_width mask64_eq\<close>)

lemma submitted_accept_multi:
  assumes "liburing_ok L live" "0 \<le> ud" "ud < 2 ^ 63"
  shows "submitted live ud self k
    (UringCtx_multishot_accept_submit (async_env L other tid) fd fl ud (self, k))"
  unfolding UringCtx_multishot_accept_submit_def uring_multishot_accept_submit_def
  by (rule submitted_int [where q = "\<lparr>sqe_kind = K_accept_multi, sqe_fd = signed_take_bit 31 fd,
       sqe_buf = CNull, sqe_len = 0, sqe_off = 0, sqe_extra = [signed_take_bit 31 fl], sqe_ud = ud\<rparr>"])
     (use assms in \<open>simp_all add: async_simps tag_in_width mask64_eq\<close>)

lemma submitted_recv_multi:
  assumes "liburing_ok L live" "0 \<le> ud" "ud < 2 ^ 63"
  shows "submitted live ud self k
    (UringCtx_recv_multishot_buffer_group_submit (async_env L other tid) fd bgid fl ud (self, k))"
  unfolding UringCtx_recv_multishot_buffer_group_submit_def uring_recv_multishot_buf_group_submit_def
  by (rule submitted_int [where q = "\<lparr>sqe_kind = K_recv_multi, sqe_fd = signed_take_bit 31 fd,
       sqe_buf = CNull, sqe_len = 0, sqe_off = 0,
       sqe_extra = [signed_take_bit 31 fl, signed_take_bit 31 (take_bit 32 (mask32 bgid))],
       sqe_ud = ud\<rparr>"])
     (use assms in \<open>simp_all add: async_simps tag_in_width mask64_eq\<close>)

lemma submitted_op:
  assumes "liburing_ok L live" "0 \<le> ud" "ud < 2 ^ 63" "op_tag oper = Some ud"
  shows "submitted live ud self k (run_op (async_env L other tid) oper (self, k))"
  using assms(4)
  by (cases oper)
     (use assms in \<open>auto simp: submitted_map intro!: submitted_read_buf submitted_read_ptr
       submitted_write_buf submitted_write_ptr submitted_splice submitted_accept_multi
       submitted_recv_multi\<close>)

subsection \<open>Every reachable state\<close>

definition ring_inv :: "uctx \<Rightarrow> sqe multiset \<Rightarrow> sqe multiset \<Rightarrow> bool" where
  "ring_inv self X M \<longleftrightarrow> pins_ok self X M
     \<and> (\<forall>q. q \<in># M \<longrightarrow> 0 \<le> sqe_ud q \<and> sqe_ud q < 2 ^ 63 \<and> (multishot q \<longrightarrow> sqe_buf q = CNull))"

lemma ring_inv_same:
  "ring_inv self X M \<Longrightarrow> u_async_io_keepalive self' = u_async_io_keepalive self \<Longrightarrow> ring_inv self' X M"
  by (auto simp: ring_inv_def intro: pins_ok_same)

lemma ring_inv_sub:
  assumes "ring_inv self X M"
  shows "X \<inter># M = X" and "X \<inter># add_mset q M = X"
proof -
  have X: "X \<subseteq># M" using assms by (simp add: ring_inv_def pins_ok_def)
  then show "X \<inter># M = X" by (rule subset_mset.inf_absorb1)
  show "X \<inter># add_mset q M = X" using subset_add_mset [OF X] by (rule subset_mset.inf_absorb1)
qed

lemma submitted_simps:
  "submitted live ud self k (Inr v, self', k') \<longleftrightarrow> (\<exists>q. sqe_ud q = ud \<and> (multishot q \<longrightarrow> sqe_buf q = CNull)
     \<and> live k' = add_mset q (live k)
     \<and> (\<forall>ud'. ud' \<noteq> ud \<longrightarrow> u_async_io_keepalive self' ud' = u_async_io_keepalive self ud')
     \<and> (u_async_io_keepalive self ud = None \<longrightarrow> pinned self' q))"
  "submitted live ud self k (Inl e, self', k') \<longleftrightarrow> (\<exists>q. sqe_ud q = ud \<and> (multishot q \<longrightarrow> sqe_buf q = CNull)
     \<and> u_async_io_keepalive self' = u_async_io_keepalive self
     \<and> (live k' = live k \<or> live k' = add_mset q (live k)))"
  by (simp_all add: submitted_def)

lemma ring_inv_submit:
  assumes "submitted live ud self k (Inr v, self', k')" "ring_inv self X (live k)"
    and "fresh_tag (live k) ud"
  shows "ring_inv self' (X \<inter># live k') (live k')"
proof -
  obtain q where q: "sqe_ud q = ud" "multishot q \<longrightarrow> sqe_buf q = CNull" "live k' = add_mset q (live k)"
      "\<forall>ud'. ud' \<noteq> ud \<longrightarrow> u_async_io_keepalive self' ud' = u_async_io_keepalive self ud'"
      "u_async_io_keepalive self ud = None \<longrightarrow> pinned self' q"
    using assms(1) unfolding submitted_simps(1) by (elim exE conjE) (rule that)
  have old: "pins_ok self X (live k)"
      "\<forall>q. q \<in># live k \<longrightarrow> 0 \<le> sqe_ud q \<and> sqe_ud q < 2 ^ 63 \<and> (multishot q \<longrightarrow> sqe_buf q = CNull)"
    by (rule assms(2) [unfolded ring_inv_def, THEN conjunct1], rule assms(2) [unfolded ring_inv_def, THEN conjunct2])
  have pins: "pins_ok self' X (add_mset q (live k))"
    by (rule pins_ok_submit [OF old(1) assms(3) q(1) q(4) q(5) [rule_format]])
  have tag: "0 \<le> ud \<and> ud < 2 ^ 63" using assms(3) unfolding fresh_tag_def by blast
  have "\<forall>p. p \<in># add_mset q (live k) \<longrightarrow> 0 \<le> sqe_ud p \<and> sqe_ud p < 2 ^ 63 \<and> (multishot p \<longrightarrow> sqe_buf p = CNull)"
    using old(2) tag q(1,2) by (metis add_mset_remove_trivial insert_DiffM insert_noteq_member)
  then show ?thesis unfolding q(3) ring_inv_sub(2) [OF assms(2)] ring_inv_def using pins by blast
qed

lemma submitted_raises:
  assumes "submitted live ud self k (Inl e, self', k')" "ring_inv self X (live k)" "fresh_tag (live k) ud"
  shows "ring_inv self' (X + (live k' - live k)) (live k')"
proof -
  obtain q where q: "sqe_ud q = ud" "multishot q \<longrightarrow> sqe_buf q = CNull"
      "u_async_io_keepalive self' = u_async_io_keepalive self" "live k' = live k \<or> live k' = add_mset q (live k)"
    using assms(1) unfolding submitted_simps(2) by (elim exE conjE) (rule that)
  from q(4) show ?thesis
  proof
    assume "live k' = live k"
    then show ?thesis using ring_inv_same [OF assms(2) q(3)] by simp
  next
    assume new: "live k' = add_mset q (live k)"
    then have "pins_ok self' (add_mset q X) (live k')"
      using pins_ok_left_behind [OF _ _ q(3), of X "live k" q] q(1) assms(2,3) by (simp add: ring_inv_def)
    then show ?thesis using new assms(2,3) q(1,2) by (auto simp: ring_inv_def fresh_tag_def)
  qed
qed

lemma ring_inv_reap:
  assumes "ring_inv self X M" "reaps M c M'"
    and "u_async_io_keepalive self' = (u_async_io_keepalive self)(cqe_user_data c := None)"
  shows "ring_inv self' (X \<inter># M') M'"
  using assms pins_ok_reap [OF _ assms(2,3)] unfolding ring_inv_def reaps_def
  by (metis in_diffD)

lemma reaps_tag:
  "ring_inv self X M \<Longrightarrow> reaps M c M' \<Longrightarrow> take_bit 64 (cqe_user_data c) = cqe_user_data c"
  unfolding ring_inv_def reaps_def by (metis tag_in_width)

text \<open>A method that reaps or submits keeps the invariant, or raises and changes neither pins nor operations.\<close>

definition settles :: "('k \<Rightarrow> sqe multiset) \<Rightarrow> sqe multiset \<Rightarrow> uctx \<Rightarrow> 'k \<Rightarrow> (exn + 'a) \<times> uctx \<times> 'k \<Rightarrow> bool" where
  "settles live X self k out \<longleftrightarrow> (case out of (res, self', k') \<Rightarrow>
     (case res of
        Inl _ \<Rightarrow> u_async_io_keepalive self' = u_async_io_keepalive self \<and> live k' = live k
      | Inr _ \<Rightarrow> ring_inv self' (X \<inter># live k') (live k')))"

lemma settles_map: "settles live X self k (py_map f m s) = settles live X self k (m s)"
  by (cases "m s") (auto simp: settles_def py_map_def py_bind_def py_return_def split: sum.splits)

lemma convert_c_int: "- (2 ^ 31) \<le> r \<Longrightarrow> r < 2 ^ 31 \<Longrightarrow> convert_ret (Some C_int) r = r"
  by (simp add: convert_ret_def signed_take_bit_id)

lemma wait_law:
  assumes "liburing_ok L live" "lu_wait_cqe L k = (ret, c, k')"
  shows "c_int_range ret" "ret < 0 \<Longrightarrow> live k' = live k"
    "0 \<le> ret \<Longrightarrow> reaps (live k) c (live (lu_cqe_seen L c k'))"
proof -
  have "c_int_range ret \<and> (if ret < 0 then live k' = live k
      else reaps (live k) c (live (lu_cqe_seen L c k')))"
    using assms unfolding liburing_ok_def by blast
  then show "c_int_range ret" "ret < 0 \<Longrightarrow> live k' = live k"
      "0 \<le> ret \<Longrightarrow> reaps (live k) c (live (lu_cqe_seen L c k'))"
    by auto
qed

lemma peek_law:
  assumes "liburing_ok L live" "lu_peek_cqe L k = (ret, oc, k')"
  shows "c_int_range ret" "ret < 0 \<or> oc = None \<Longrightarrow> live k' = live k"
    "0 \<le> ret \<Longrightarrow> oc = Some c \<Longrightarrow> reaps (live k) c (live (lu_cqe_seen L c k'))"
proof -
  have "c_int_range ret \<and> (case oc of
        Some c \<Rightarrow> (if ret < 0 then live k' = live k
                   else reaps (live k) c (live (lu_cqe_seen L c k')))
      | None \<Rightarrow> live k' = live k)"
    using assms unfolding liburing_ok_def by blast
  then show "c_int_range ret" "ret < 0 \<or> oc = None \<Longrightarrow> live k' = live k"
      "0 \<le> ret \<Longrightarrow> oc = Some c \<Longrightarrow> reaps (live k) c (live (lu_cqe_seen L c k'))"
    by (auto split: option.splits if_splits)
qed

lemma settles_wait:
  assumes L: "liburing_ok L live" and I: "ring_inv self X (live k)"
  shows "settles live X self k (UringCtx_wait_completion (async_env L other tid) (self, k))"
proof -
  obtain ret c k1 where w: "lu_wait_cqe L k = (ret, c, k1)" by (metis prod_cases3)
  note law = wait_law [OF L w]
  have "ring_inv (self\<lparr>u_async_io_keepalive :=
          (u_async_io_keepalive self)(take_bit 64 (cqe_user_data c) := None)\<rparr>)
        (X \<inter># live (lu_cqe_seen L c k1)) (live (lu_cqe_seen L c k1))" if "0 \<le> ret"
    using ring_inv_reap [OF I law(3) [OF that]] reaps_tag [OF I law(3) [OF that]] by simp
  then show ?thesis
    using w law(1,2)
    by (auto simp: c_int_range_def convert_c_int settles_def UringCtx_wait_completion_def sync_call_eq invoke_native_def
        async_simps uring_wait_completion_c_def reply_out_def py_defs
        raise_for_neg_errno_def completion_out_def UringCtx_completion_release_async_io_buffer_def
        split: if_splits)
qed

lemma settles_peek:
  assumes L: "liburing_ok L live" and I: "ring_inv self X (live k)"
  shows "settles live X self k (UringCtx_peek_completion (async_env L other tid) (self, k))"
proof -
  obtain ret oc k1 where w: "lu_peek_cqe L k = (ret, oc, k1)" by (metis prod_cases3)
  note law = peek_law [OF L w]
  have reaped: "ring_inv (self\<lparr>u_async_io_keepalive :=
          (u_async_io_keepalive self)(take_bit 64 (cqe_user_data c) := None)\<rparr>)
        (X \<inter># live (lu_cqe_seen L c k1)) (live (lu_cqe_seen L c k1))" if "0 \<le> ret" "oc = Some c" for c
    using ring_inv_reap [OF I law(3) [OF that]] reaps_tag [OF I law(3) [OF that]] by simp
  have same: "ring_inv self (X \<inter># live k1) (live k1)" "live k1 = live k" if "ret < 0 \<or> oc = None"
    using law(2) [OF that] I ring_inv_sub(1) [OF I] by simp_all
  show ?thesis
    using w law(1) reaped same I
    by (auto simp: c_int_range_def convert_c_int settles_def UringCtx_peek_completion_def ring_call_eq invoke_native_def
        async_simps uring_peek_completion_c_def reply_out_def py_defs
        raise_for_neg_errno_def completion_out_def UringCtx_completion_release_async_io_buffer_def
        split: if_splits option.splits)
qed

lemma settles_submit:
  assumes "liburing_ok L live" "ring_inv self X (live k)"
  shows "settles live X self k (UringCtx_submit (async_env L other tid) (self, k))"
    "settles live X self k (UringCtx_submit_and_wait (async_env L other tid) n (self, k))"
proof -
  have "live (snd (lu_submit L k)) = live k" "live (snd (lu_submit_and_wait L n k)) = live k" for n
    using assms(1) by (simp_all add: liburing_ok_def)
  then show "settles live X self k (UringCtx_submit (async_env L other tid) (self, k))"
    "settles live X self k (UringCtx_submit_and_wait (async_env L other tid) n (self, k))"
    using assms(2) ring_inv_sub(1) [OF assms(2)]
    by (auto simp: settles_def UringCtx_submit_def UringCtx_submit_and_wait_def sync_int_def
        sync_call_eq invoke_native_def async_simps uring_submit_c_def uring_submit_and_wait_c_def
        reply_of_def py_defs raise_for_neg_errno_def split: if_splits prod.splits)
qed

lemma settles_op:
  "liburing_ok L live \<Longrightarrow> ring_inv self X (live k) \<Longrightarrow> op_tag oper = None
     \<Longrightarrow> settles live X self k (run_op (async_env L other tid) oper (self, k))"
  by (cases oper) (simp_all add: settles_map settles_wait settles_peek settles_submit)

theorem reachable_ring_inv:
  assumes "liburing_ok L live" "reachable (async_env L other tid) live X s"
  shows "ring_inv (fst s) X (live (snd s))"
  using assms(2)
proof (induction rule: reachable.induct)
  case (start self k)
  then show ?case by (simp add: ring_inv_def pins_ok_def unique_tags_def)
next
  case (returns X self k oper v self' k')
  show ?case
  proof (cases "op_tag oper")
    case None
    then show ?thesis
      using settles_op [OF assms(1), of self X k oper other tid] returns by (simp add: settles_def)
  next
    case (Some ud)
    then have fresh: "fresh_tag (live k) ud" using returns by simp
    then have "submitted live ud self k (Inr v, self', k')"
      using submitted_op [OF assms(1) _ _ Some, of self k other tid] returns
      by (simp add: fresh_tag_def)
    from ring_inv_submit [OF this _ fresh] show ?thesis using returns by simp
  qed
next
  case (raises X self k oper e self' k')
  show ?case
  proof (cases "op_tag oper")
    case None
    then have "u_async_io_keepalive self' = u_async_io_keepalive self" "live k' = live k"
      using settles_op [OF assms(1), of self X k oper other tid] raises by (simp_all add: settles_def)
    then show ?thesis using raises ring_inv_same [of self X "live k" self'] by simp
  next
    case (Some ud)
    then have fresh: "fresh_tag (live k) ud" using raises by simp
    then have "submitted live ud self k (Inl e :: exn + unit, self', k')"
      using submitted_op [OF assms(1) _ _ Some, of self k other tid] raises
      by (simp add: fresh_tag_def)
    from submitted_raises [OF this _ fresh] raises show ?thesis by simp
  qed
qed

end
