(* ===== verification/Async_Props.thy ===== *)
theory Async_Props
  imports Async_Ring
begin

unbundle bit_operations_syntax

text \<open>
  What the asynchronous methods guarantee for the memory of operations in flight, and the three
  ways in which a call that raises leaves an operation in flight whose buffer nobody keeps.
\<close>

subsection \<open>A ring that behaves as documented\<close>

text \<open>A first-in first-out ring of unbounded size that completes every operation at once.\<close>

definition fifo_ring :: "sqe list liburing" where
  "fifo_ring = \<lparr>
     lu_get_sqe = (\<lambda>k. (Some (length k), k)),
     lu_set_sqe = (\<lambda>i q k. k @ [q]),
     lu_submit = (\<lambda>k. (1, k)),
     lu_submit_and_wait = (\<lambda>n k. (1, k)),
     lu_wait_cqe = (\<lambda>k. case k of
         [] \<Rightarrow> (- EAGAIN, \<lparr>cqe_user_data = 0, cqe_res = 0\<rparr>, k)
       | q # r \<Rightarrow> (0, \<lparr>cqe_user_data = sqe_ud q, cqe_res = sqe_len q\<rparr>, k)),
     lu_peek_cqe = (\<lambda>k. case k of
         [] \<Rightarrow> (- EAGAIN, None, k)
       | q # r \<Rightarrow> (0, Some \<lparr>cqe_user_data = sqe_ud q, cqe_res = sqe_len q\<rparr>, k)),
     lu_cqe_seen = (\<lambda>c k. tl k) \<rparr>"

lemma fifo_ring_ok: "liburing_ok fifo_ring mset"
  by (auto simp: liburing_ok_def fifo_ring_def reaps_def c_int_range_def split: list.splits)

definition no_native :: "string \<Rightarrow> cval list \<Rightarrow> 'k \<Rightarrow> reply \<times> 'k" where
  "no_native f args k = (\<lparr>rp_ret = - ENOSYS, rp_out = [], rp_errno = 0\<rparr>, k)"

abbreviation "fifo_env \<equiv> async_env fifo_ring no_native 1"

definition fresh_ctx :: uctx where
  "fresh_ctx = \<lparr>u_ctx = Some 4096, u_owner_thread_id = Some 1, u_buffer_keepalive = [],
     u_async_io_keepalive = Map.empty\<rparr>"

definition some_bytearray :: pybuf where
  "some_bytearray = \<lparr>b_kind = Bytearray, b_id = 5, b_len = 16, b_nbytes = 16,
     b_readonly = False, b_contiguous = True\<rparr>"

definition some_read :: sqe where
  "some_read = \<lparr>sqe_kind = K_read, sqe_fd = 3, sqe_buf = CMem (Shared 5 16), sqe_len = 16,
     sqe_off = 0, sqe_extra = [], sqe_ud = 7\<rparr>"

lemmas fifo_simps = fifo_ring_def fresh_ctx_def some_bytearray_def some_read_def

lemma fifo_read_run:
  "UringCtx_read_async fifo_env 3 (Buf some_bytearray) 0 7 (fresh_ctx, []) =
     (Inr 7, (fresh_ctx\<lparr>u_async_io_keepalive := [7 \<mapsto> KObj 5]\<rparr>, [some_read]))"
  by (simp add: UringCtx_read_async_def with_buffer_def from_buffer_def submit_rw_def
      sync_call_info_def ring_call_eq usable_def invoke_native_def async_simps reply_of_def
      submit_one_c_def convert_ret_def raise_for_neg_errno_def py_defs
      UringCtx_track_async_io_buffer_def fifo_simps)

lemma fifo_after_read:
  "reachable fifo_env mset {#}
     (fresh_ctx\<lparr>u_async_io_keepalive := [7 \<mapsto> KObj 5]\<rparr>, [some_read])"
proof -
  have start: "reachable fifo_env mset {#} (fresh_ctx, [])"
    by (rule reachable.start) (simp_all add: fresh_ctx_def)
  have run: "run_op fifo_env (ReadAsync 3 (Buf some_bytearray) 0 7) (fresh_ctx, [])
      = (Inr (), (fresh_ctx\<lparr>u_async_io_keepalive := [7 \<mapsto> KObj 5]\<rparr>, [some_read]))"
    by (simp add: py_map_def py_bind_def fifo_read_run py_return_def)
  show ?thesis using reachable.returns [OF start _ run] by (simp add: fresh_tag_def)
qed

lemma fifo_after_wait: "reachable fifo_env mset {#} (fresh_ctx\<lparr>u_async_io_keepalive := Map.empty\<rparr>, [])"
proof -
  have run: "run_op fifo_env WaitCompletion
        (fresh_ctx\<lparr>u_async_io_keepalive := [7 \<mapsto> KObj 5]\<rparr>, [some_read])
      = (Inr (), (fresh_ctx\<lparr>u_async_io_keepalive := Map.empty\<rparr>, []))"
    by (simp add: py_map_def UringCtx_wait_completion_def sync_call_eq usable_def invoke_native_def
        async_simps uring_wait_completion_c_def reply_out_def convert_ret_def py_defs
        raise_for_neg_errno_def completion_out_def UringCtx_completion_release_async_io_buffer_def
        fifo_simps fun_eq_iff)
  show ?thesis using reachable.returns [OF fifo_after_read _ run] by simp
qed

text \<open>The same read on a ring whose submissions fail: the call raises and its entry stays queued.\<close>

definition busy_ring :: "sqe list liburing" where
  "busy_ring = fifo_ring\<lparr>lu_submit := (\<lambda>k. (- 16, k))\<rparr>"

lemma busy_ring_ok: "liburing_ok busy_ring mset"
  by (auto simp: liburing_ok_def busy_ring_def fifo_ring_def reaps_def c_int_range_def
      split: list.splits)

subsection \<open>Memory in flight is kept, and nothing else is\<close>

text \<open>
  C1: In a program that uses a ring through its asynchronous methods, with tags that are
  not in use, and whatever of the calls raise: while an operation on Python memory is queued or in flight,
  the table of the object holds, under the tag of that operation, something that keeps the memory
  alive, unless the call that prepared the operation raised.
\<close>

theorem memory_in_flight_is_kept:
  assumes "liburing_ok L live"
    and "reachable (async_env L other tid) live X (self, k)"
    and "q \<in># live k" "q \<notin># X" "sqe_buf q = CMem m"
  shows "\<exists>kp. u_async_io_keepalive self (sqe_ud q) = Some kp \<and> keeps kp m"
proof -
  have "pinned self q"
    using reachable_ring_inv [OF assms(1,2)] assms(3,4) by (simp add: ring_inv_def pins_ok_def)
  then show ?thesis using assms(5) by (simp add: pinned_def)
qed

theorem memory_in_flight_is_kept_witness:
  "\<exists>kp. u_async_io_keepalive (fresh_ctx\<lparr>u_async_io_keepalive := [7 \<mapsto> KObj 5]\<rparr>) 7 = Some kp
     \<and> keeps kp (Shared 5 16)"
  using memory_in_flight_is_kept [OF fifo_ring_ok fifo_after_read, of some_read "Shared 5 16"]
  by (simp add: some_read_def)

text \<open>
  C27: In such a program the table holds nothing else: when no operation is queued or in
  flight, every buffer has been released.  Synchronous calls are outside: one that takes the
  completion of an asynchronous operation leaves its buffer in the table.
\<close>

theorem idle_ring_pins_nothing:
  assumes "liburing_ok L live"
    and "reachable (async_env L other tid) live X (self, k)" "live k = {#}"
  shows "u_async_io_keepalive self = Map.empty"
proof -
  have "\<forall>ud. u_async_io_keepalive self ud \<noteq> None \<longrightarrow> (\<exists>q. q \<in># live k \<and> sqe_ud q = ud)"
    using reachable_ring_inv [OF assms(1,2)] by (simp add: ring_inv_def pins_ok_def)
  then show ?thesis using assms(3) by (auto simp: fun_eq_iff)
qed

theorem idle_ring_pins_nothing_witness:
  "u_async_io_keepalive (fresh_ctx\<lparr>u_async_io_keepalive := Map.empty\<rparr>) = Map.empty"
  using idle_ring_pins_nothing [OF fifo_ring_ok fifo_after_wait] by simp

subsection \<open>Calls that raise and leave an operation in flight\<close>

text \<open>\<open>read_async\<close> into a \<open>bytearray\<close>, step by step.\<close>

definition read_entry :: "int \<Rightarrow> pybuf \<Rightarrow> int \<Rightarrow> int \<Rightarrow> sqe" where
  "read_entry fd b offset ud = \<lparr>sqe_kind = K_read, sqe_fd = signed_take_bit 31 fd,
     sqe_buf = CMem (Shared (b_id b) (b_len b)), sqe_len = take_bit 32 (int (b_len b)),
     sqe_off = signed_take_bit 63 offset, sqe_extra = [], sqe_ud = take_bit 64 ud\<rparr>"

lemma read_bytearray_eq:
  assumes "usable (async_env L other tid) self" "b_kind b = Bytearray" "pybuf_ok b"
  shows "UringCtx_read_async (async_env L other tid) fd (Buf b) offset ud (self, k) =
    (case submit_one_c L (ring_arg (the (u_ctx self))) (read_entry fd b offset ud) k of (ret, k') \<Rightarrow>
       let r = convert_ret (Some C_longlong) ret in
       if r < 0 then (Inl (UringError (UringError_init (- r) ''uring_read_async'' None None
                        (Some offset) (Some (int (b_len b))))), (self, k'))
       else py_bind (UringCtx_track_async_io_buffer ud (KObj (b_id b))) (\<lambda>_. py_return r) (self, k'))"
proof -
  obtain ret k' where r: "submit_one_c L (ring_arg (the (u_ctx self))) (read_entry fd b offset ud) k
      = (ret, k')" by fastforce
  show ?thesis
    using assms r
    by (cases "convert_ret (Some C_longlong) ret < 0")
       (simp_all add: UringCtx_read_async_def with_buffer_def from_buffer_bytearray submit_rw_def
        sync_call_info_def ring_call_eq invoke_native_def async_simps reply_of_def read_entry_def
        raise_for_neg_errno_def py_raise_apply split: if_splits)
qed

lemma long_long_id: "- (2 ^ 63) \<le> r \<Longrightarrow> r < 2 ^ 63 \<Longrightarrow> convert_ret (Some C_longlong) r = r"
  by (simp add: convert_ret_def signed_take_bit_id)

lemma submit_one_queued:
  assumes "liburing_ok L live" "ctx \<noteq> CNull" "lu_get_sqe L k = (Some i, k1)"
    and "lu_submit L (lu_set_sqe L i q k1) = (ret, k2)"
  shows "submit_one_c L ctx q k = ((if ret < 0 then ret else signed_take_bit 63 (sqe_ud q)), k2)"
    and "live k2 = add_mset q (live k)" and "c_int_range ret"
proof -
  have "live (lu_set_sqe L i q k1) = add_mset q (live k)"
      "live (snd (lu_submit L (lu_set_sqe L i q k1))) = live (lu_set_sqe L i q k1)"
      "c_int_range (fst (lu_submit L (lu_set_sqe L i q k1)))"
    using assms(1,3) by (simp_all add: liburing_ok_def)
  then show "live k2 = add_mset q (live k)" "c_int_range ret" by (simp_all add: assms(4))
  show "submit_one_c L ctx q k = ((if ret < 0 then ret else signed_take_bit 63 (sqe_ud q)), k2)"
    using assms(2-4) by (simp add: submit_one_c_def)
qed

text \<open>
  C32: A tag that is already in use is refused only after the new operation has been
  submitted: the call raises, the read is in flight, and the table still holds the first buffer.
\<close>

theorem duplicate_tag_leaves_read_unpinned:
  assumes "liburing_ok L live" "usable (async_env L other tid) self"
    and "ring_arg (the (u_ctx self)) \<noteq> CNull"
    and "b_kind b = Bytearray" "pybuf_ok b" "0 \<le> ud" "ud < 2 ^ 63"
    and "u_async_io_keepalive self ud = Some kp" "\<not> keeps kp (Shared (b_id b) (b_len b))"
    and "lu_get_sqe L k = (Some i, k1)"
    and "lu_submit L (lu_set_sqe L i (read_entry fd b offset ud) k1) = (ret, k2)" "0 \<le> ret"
  shows "UringCtx_read_async (async_env L other tid) fd (Buf b) offset ud (self, k)
           = (Inl (ValueError (tag_in_use ud)), (self, k2))
    \<and> live k2 = add_mset (read_entry fd b offset ud) (live k)
    \<and> \<not> pinned self (read_entry fd b offset ud)"
  using submit_one_queued [OF assms(1,3,10,11)] assms tag_in_width [of ud]
    long_long_id [of ud] signed_take_bit_id [of 63 ud]
  by (simp add: read_bytearray_eq Let_def read_entry_def pinned_def py_bind_eq
      UringCtx_track_async_io_buffer_def)

theorem duplicate_tag_leaves_read_unpinned_witness:
  "UringCtx_read_async fifo_env 3 (Buf some_bytearray) 0 7
       (fresh_ctx\<lparr>u_async_io_keepalive := [7 \<mapsto> KObj 4]\<rparr>, [])
     = (Inl (ValueError (tag_in_use 7)),
        (fresh_ctx\<lparr>u_async_io_keepalive := [7 \<mapsto> KObj 4]\<rparr>, [read_entry 3 some_bytearray 0 7]))"
  using duplicate_tag_leaves_read_unpinned [OF fifo_ring_ok,
      of no_native 1 "fresh_ctx\<lparr>u_async_io_keepalive := [7 \<mapsto> KObj 4]\<rparr>" some_bytearray 7
        "KObj 4" "[]" 0 "[]" 3 0 1 "[read_entry 3 some_bytearray 0 7]"]
  by (simp add: fifo_ring_def fresh_ctx_def some_bytearray_def usable_def async_env_def
      ring_arg_def pybuf_ok_def)

text \<open>
  A tag of \<open>2^63\<close> or more comes back from \<open>uring_read_async\<close> as a negative
  \<open>long long\<close>: the method reports an error for an operation that is in flight, and pins
  nothing.
\<close>

theorem large_tag_reports_error_for_submitted_read:
  assumes "liburing_ok L live" "usable (async_env L other tid) self"
    and "ring_arg (the (u_ctx self)) \<noteq> CNull"
    and "b_kind b = Bytearray" "pybuf_ok b" "2 ^ 63 \<le> ud" "ud < 2 ^ 64"
    and "u_async_io_keepalive self ud = None"
    and "lu_get_sqe L k = (Some i, k1)"
    and "lu_submit L (lu_set_sqe L i (read_entry fd b offset ud) k1) = (ret, k2)" "0 \<le> ret"
  shows "UringCtx_read_async (async_env L other tid) fd (Buf b) offset ud (self, k)
           = (Inl (UringError (UringError_init (2 ^ 64 - ud) ''uring_read_async'' None None
                (Some offset) (Some (int (b_len b))))), (self, k2))
    \<and> live k2 = add_mset (read_entry fd b offset ud) (live k)
    \<and> \<not> pinned self (read_entry fd b offset ud)"
proof -
  have tb: "take_bit 64 ud = ud" using assms(6,7) by (intro take_bit_id) auto
  moreover have "signed_take_bit 63 ud = ud - 2 ^ 64"
    using assms(6,7) by (rule signed_take_bit_63_large)
  moreover have "convert_ret (Some C_longlong) (ud - 2 ^ 64) = ud - 2 ^ 64"
    using assms(6,7) by (intro long_long_id) auto
  ultimately show ?thesis
    using submit_one_queued [OF assms(1,3,9,10)] assms
    by (simp add: read_bytearray_eq Let_def read_entry_def pinned_def)
qed

theorem large_tag_reports_error_for_submitted_read_witness:
  "fst (UringCtx_read_async fifo_env 3 (Buf some_bytearray) 0 (2 ^ 64 - 1) (fresh_ctx, []))
     = Inl (UringError (UringError_init 1 ''uring_read_async'' None None (Some 0) (Some 16)))"
  using large_tag_reports_error_for_submitted_read [OF fifo_ring_ok,
      of no_native 1 fresh_ctx some_bytearray "2 ^ 64 - 1" "[]" 0 "[]" 3 0 1
        "[read_entry 3 some_bytearray 0 (2 ^ 64 - 1)]"]
  by (simp add: fifo_ring_def fresh_ctx_def some_bytearray_def usable_def async_env_def
      ring_arg_def pybuf_ok_def)

text \<open>
  When the submission fails, the prepared entry stays queued (the next submission sends it)
  and its buffer is not pinned, although the call raised.
\<close>

theorem failed_submit_leaves_entry_queued:
  assumes "liburing_ok L live" "usable (async_env L other tid) self"
    and "ring_arg (the (u_ctx self)) \<noteq> CNull"
    and "b_kind b = Bytearray" "pybuf_ok b" "0 \<le> ud" "ud < 2 ^ 63"
    and "u_async_io_keepalive self ud = None"
    and "lu_get_sqe L k = (Some i, k1)"
    and "lu_submit L (lu_set_sqe L i (read_entry fd b offset ud) k1) = (ret, k2)" "ret < 0"
  shows "UringCtx_read_async (async_env L other tid) fd (Buf b) offset ud (self, k)
           = (Inl (UringError (UringError_init (- ret) ''uring_read_async'' None None
                (Some offset) (Some (int (b_len b))))), (self, k2))
    \<and> live k2 = add_mset (read_entry fd b offset ud) (live k)
    \<and> \<not> pinned self (read_entry fd b offset ud)"
proof -
  have "convert_ret (Some C_longlong) ret = ret"
    using submit_one_queued(3) [OF assms(1,3,9,10)] assms(11)
    by (intro long_long_id) (auto simp: c_int_range_def)
  then show ?thesis
    using submit_one_queued [OF assms(1,3,9,10)] assms tag_in_width [of ud]
    by (simp add: read_bytearray_eq Let_def read_entry_def pinned_def)
qed

theorem failed_submit_leaves_entry_queued_witness:
  "UringCtx_read_async (async_env busy_ring no_native 1) 3 (Buf some_bytearray) 0 7 (fresh_ctx, [])
     = (Inl (UringError (UringError_init 16 ''uring_read_async'' None None (Some 0) (Some 16))),
        (fresh_ctx, [read_entry 3 some_bytearray 0 7]))"
  using failed_submit_leaves_entry_queued [OF busy_ring_ok,
      of no_native 1 fresh_ctx some_bytearray 7 "[]" 0 "[]" 3 0 "- 16"
        "[read_entry 3 some_bytearray 0 7]"]
  by (simp add: busy_ring_def fifo_ring_def fresh_ctx_def some_bytearray_def usable_def async_env_def
      ring_arg_def pybuf_ok_def)

end
