(* ===== verification/Ctx_Contract.thy ===== *)
theory Ctx_Contract
  imports Ctx_Async
begin

text \<open>
  A contract on the methods of \<open>UringCtx\<close> and its rules for the combinators the methods are
  made of.  A method meets it when it refuses to run on an unusable object, reports a
  failed native call, passes arguments that convert, and makes only native calls that
  satisfy a given predicate.
\<close>

named_theorems contract_intros \<open>introduction rules of the method contract\<close>

subsection \<open>The parts of the contract\<close>

text \<open>Any property of the world that good native calls keep is kept by the method.\<close>

definition calls_only ::
  "'w env \<Rightarrow> (string \<Rightarrow> cval list \<Rightarrow> bool) \<Rightarrow> ('w, 'a) meth \<Rightarrow> bool" where
  "calls_only E Q m \<longleftrightarrow> (\<forall>I self w.
     (\<forall>f cargs w. Q f cargs \<longrightarrow> I w \<longrightarrow> I (snd (native E f cargs w))) \<longrightarrow> I w \<longrightarrow>
     I (snd (snd (m (self, w)))))"

definition converts :: "('w, 'a) meth \<Rightarrow> bool" where
  "converts m \<longleftrightarrow> (\<forall>s. fst (m s) \<noteq> Inl ArgumentError)"

definition guarded :: "'w env \<Rightarrow> ('w, 'a) meth \<Rightarrow> bool" where
  "guarded E m \<longleftrightarrow> (\<forall>self w. \<not> usable E self \<longrightarrow> (\<exists>e. m (self, w) = (Inl e, (self, w))))"

text \<open>
  A reading of the world as the list of the native calls made so far with their results.  A call has failed
  when its result is a negative \<open>int\<close>, except for \<open>-ETIME\<close> of \<open>timeout\<close>, which says that the timer has
  expired; \<open>uring_statx_stx_size\<close> returns an unsigned size.
\<close>

type_synonym call_log = "(string \<times> int) list"

definition logs :: "'w env \<Rightarrow> ('w \<Rightarrow> call_log) \<Rightarrow> bool" where
  "logs E log \<longleftrightarrow> (\<forall>f cargs w. log (snd (native E f cargs w)) = log w @ [(f, rp_ret (fst (native E f cargs w)))])"

definition failed_call :: "string \<times> int \<Rightarrow> bool" where
  "failed_call c \<longleftrightarrow> - (2 ^ 31) \<le> snd c \<and> snd c < 0
     \<and> c \<noteq> (''uring_timeout_sync'', - ETIME) \<and> fst c \<noteq> ''uring_statx_stx_size''"

text \<open>No call follows one that failed, and its error is what the method raises.\<close>

definition raises_failure :: "call_log \<Rightarrow> exn + 'a \<Rightarrow> bool" where
  "raises_failure cs res \<longleftrightarrow> list_all (\<lambda>c. \<not> failed_call c) (butlast cs)
     \<and> (cs \<noteq> [] \<and> failed_call (last cs) \<longrightarrow>
          (\<exists>u. res = Inl (UringError u) \<and> ue_errno u = - snd (last cs)))"

definition reports :: "'w env \<Rightarrow> ('w, 'a) meth \<Rightarrow> bool" where
  "reports E m \<longleftrightarrow> (\<forall>log s. logs E log \<longrightarrow>
     (\<exists>cs. log (snd (snd (m s))) = log (snd s) @ cs \<and> raises_failure cs (fst (m s))))"

definition body :: "'w env \<Rightarrow> (string \<Rightarrow> cval list \<Rightarrow> bool) \<Rightarrow> ('w, 'a) meth \<Rightarrow> bool" where
  "body E Q m \<longleftrightarrow> calls_only E Q m \<and> converts m \<and> reports E m"

definition contract :: "'w env \<Rightarrow> (string \<Rightarrow> cval list \<Rightarrow> bool) \<Rightarrow> ('w, 'a) meth \<Rightarrow> bool" where
  "contract E Q m \<longleftrightarrow> body E Q m \<and> guarded E m"

text \<open>A native call with these arguments converts, and the converted call is good.\<close>

definition good_call :: "(string \<Rightarrow> cval list \<Rightarrow> bool) \<Rightarrow> binding \<Rightarrow> pyval list \<Rightarrow> bool" where
  "good_call Q b args \<longleftrightarrow> (case b of (f, ts, rt) \<Rightarrow>
     \<exists>cargs. convert_args ts args = Inr cargs \<and> Q f cargs)"

definition int_result :: "binding \<Rightarrow> bool" where
  "int_result b \<longleftrightarrow> snd (snd b) = Some C_int \<or> snd (snd b) = Some C_longlong"

lemma usable_buffers [simp]: "usable E (self\<lparr>u_buffer_keepalive := xs\<rparr>) = usable E self"
  by (simp add: usable_def)

lemma guard_error_not_arg [simp]: "guard_error E self \<noteq> ArgumentError"
  by (simp add: guard_error_def uring_error_detail_def)

lemma check_not_arg [simp]: "raise_for_neg_errno r f p off len \<noteq> Inl ArgumentError"
  by (auto simp: raise_for_neg_errno_def)

lemma convert_ret_int:
  "int_result b \<Longrightarrow> - (2 ^ 31) \<le> r \<Longrightarrow> r < 0 \<Longrightarrow> convert_ret (snd (snd b)) r = r"
  by (auto simp: int_result_def convert_ret_def wrap_simps)

lemma raises_failure_simps [simp]:
  "raises_failure [] res"
  "raises_failure [c] (Inr x) \<longleftrightarrow> \<not> failed_call c"
  "\<not> failed_call c \<Longrightarrow> raises_failure (c # cs) res \<longleftrightarrow> raises_failure cs res"
  by (auto simp: raises_failure_def)

lemma raises_failure_append:
  "raises_failure cs (Inr x) \<Longrightarrow> raises_failure cs' res \<Longrightarrow> raises_failure (cs @ cs') res"
  by (induction cs) (auto simp: raises_failure_def split: if_splits)

lemma reports_quiet: "(\<And>s. snd (snd (m s)) = snd s) \<Longrightarrow> reports E m"
  by (auto simp: reports_def intro: exI [of _ "[]"])

subsection \<open>Rules for bodies\<close>

lemma body_quiet:
  "(\<And>s. snd (snd (m s)) = snd s) \<Longrightarrow> (\<And>s. fst (m s) \<noteq> Inl ArgumentError) \<Longrightarrow> body E Q m"
  by (simp add: body_def calls_only_def converts_def reports_quiet)

lemma body_raise [contract_intros]: "e \<noteq> ArgumentError \<Longrightarrow> body E Q (py_raise e)"
  by (rule body_quiet) (simp_all add: py_raise_def)

lemma body_return [contract_intros]: "body E Q (py_return x)"
  by (rule body_quiet) (simp_all add: py_return_def)

lemma calls_only_bind:
  assumes "calls_only E Q m" "\<And>x. calls_only E Q (k x)" shows "calls_only E Q (py_bind m k)"
  unfolding calls_only_def
proof (intro allI impI)
  fix I :: "'a \<Rightarrow> bool" and self w
  assume I: "\<forall>f cargs w. Q f cargs \<longrightarrow> I w \<longrightarrow> I (snd (native E f cargs w))" "I w"
  have w': "I (snd (snd (m (self, w))))"
    using assms(1) I unfolding calls_only_def by blast
  have "I (snd (snd (k x (snd (m (self, w))))))" for x
    using assms(2) [of x] I(1) w' unfolding calls_only_def by (metis prod.collapse)
  then show "I (snd (snd (py_bind m k (self, w))))"
    using w' by (simp add: py_bind_eq split: sum.split)
qed

lemma reports_bind:
  assumes "reports E m" "\<And>x. reports E (k x)" shows "reports E (py_bind m k)"
  unfolding reports_def
proof (intro allI impI)
  fix log :: "'a \<Rightarrow> call_log" and s
  assume L: "logs E log"
  obtain cs where cs: "log (snd (snd (m s))) = log (snd s) @ cs" "raises_failure cs (fst (m s))"
    using assms(1) L unfolding reports_def by blast
  show "\<exists>cs. log (snd (snd (py_bind m k s))) = log (snd s) @ cs \<and> raises_failure cs (fst (py_bind m k s))"
  proof (cases "fst (m s)")
    case (Inl e)
    then show ?thesis using cs by (auto simp: py_bind_eq raises_failure_def)
  next
    case (Inr x)
    obtain cs' where "log (snd (snd (k x (snd (m s))))) = log (snd (snd (m s))) @ cs'"
        "raises_failure cs' (fst (k x (snd (m s))))"
      using assms(2) [of x] L unfolding reports_def by blast
    then show ?thesis
      using cs Inr raises_failure_append [of cs x cs'] by (intro exI [of _ "cs @ cs'"]) (simp add: py_bind_eq)
  qed
qed

lemma body_bind [contract_intros]:
  "body E Q m \<Longrightarrow> (\<And>x. body E Q (k x)) \<Longrightarrow> body E Q (py_bind m k)"
  unfolding body_def
  by (auto intro: calls_only_bind reports_bind simp: converts_def py_bind_eq simp del: split_paired_All
      split: sum.split)

lemma body_map [contract_intros]: "body E Q m \<Longrightarrow> body E Q (py_map f m)"
  unfolding py_map_def by (intro contract_intros)

lemma body_check [contract_intros]: "body E Q (py_lift (raise_for_neg_errno r f p off len))"
  by (cases "raise_for_neg_errno r f p off len")
     (use check_not_arg [of r f p off len] in \<open>auto intro: contract_intros\<close>)

lemma body_update [contract_intros]: "body E Q (\<lambda>(self, w). (Inr x, (g self, w)))"
  by (rule body_quiet) (simp_all add: split_beta)

lemma body_track [contract_intros]: "body E Q (UringCtx_track_async_io_buffer ud keepalive)"
  by (rule body_quiet) (simp_all add: UringCtx_track_async_io_buffer_def split_beta)

lemma body_release [contract_intros]: "body E Q (UringCtx_completion_release_async_io_buffer ud)"
  by (rule body_quiet) (simp_all add: split_beta UringCtx_completion_release_async_io_buffer_def)

lemma body_ring [contract_intros]: "body E Q (UringCtx_ring E)"
  by (rule body_quiet) (auto simp: ring_eq split: if_splits)

lemma body_update_first [contract_intros]:
  assumes "body E Q m" shows "body E Q (\<lambda>(self, w). m (g self, w))"
  using assms unfolding body_def calls_only_def converts_def reports_def prod.case split_beta
  by (metis snd_conv)

lemma body_from_buffer [contract_intros]:
  "(n \<le> b_nbytes b \<Longrightarrow> body E Q (k (Shared (b_id b) n))) \<Longrightarrow> body E Q (with_buffer (from_buffer b n) k)"
  by (auto simp: with_buffer_def from_buffer_def intro: contract_intros)

lemma body_if [contract_intros]:
  "(c \<Longrightarrow> body E Q m) \<Longrightarrow> (\<not> c \<Longrightarrow> body E Q m') \<Longrightarrow> body E Q (if c then m else m')"
  by simp

lemma invoke_good:
  assumes "good_call Q b args"
  obtains cargs where "Q (fst b) cargs"
    "invoke_native E b args w = (Inr ((fst (native E (fst b) cargs w))\<lparr>rp_ret :=
        convert_ret (snd (snd b)) (rp_ret (fst (native E (fst b) cargs w)))\<rparr>), snd (native E (fst b) cargs w))"
  using assms by (auto simp: good_call_def invoke_native_def split_beta)

lemma calls_only_call_native:
  assumes "good_call Q b args" shows "calls_only E Q (call_native E b args)" "converts (call_native E b args)"
proof -
  show "calls_only E Q (call_native E b args)"
    unfolding calls_only_def
  proof (intro allI impI)
    fix I :: "'a \<Rightarrow> bool" and self w
    assume I: "\<forall>f cargs w. Q f cargs \<longrightarrow> I w \<longrightarrow> I (snd (native E f cargs w))" "I w"
    show "I (snd (snd (call_native E b args (self, w))))"
      by (rule invoke_good [OF assms, of E w]) (use I in \<open>simp add: call_native_def\<close>)
  qed
  show "converts (call_native E b args)"
    unfolding converts_def
  proof (rule allI)
    fix s :: "uctx \<times> 'a"
    show "fst (call_native E b args s) \<noteq> Inl ArgumentError"
      by (rule invoke_good [OF assms, of E "snd s"]) (simp add: call_native_def split_beta)
  qed
qed

text \<open>The one native call whose result is not checked.\<close>

lemma body_call_stx_size [contract_intros]:
  assumes "good_call Q b args" "fst b = ''uring_statx_stx_size''"
  shows "body E Q (call_native E b args)"
proof -
  have "reports E (call_native E b args)"
    unfolding reports_def
  proof (intro allI impI)
    fix log :: "'a \<Rightarrow> call_log" and s :: "uctx \<times> 'a" assume L: "logs E log"
    show "\<exists>cs. log (snd (snd (call_native E b args s))) = log (snd s) @ cs
        \<and> raises_failure cs (fst (call_native E b args s))"
      by (rule invoke_good [OF assms(1), of E "snd s"])
         (use L assms(2) in \<open>simp add: call_native_def split_beta logs_def failed_call_def\<close>)
  qed
  then show ?thesis using calls_only_call_native [OF assms(1), of E] by (simp add: body_def)
qed

text \<open>A call whose continuation raises when it has failed.\<close>

definition checks :: "binding \<Rightarrow> (reply \<Rightarrow> ('w, 'a) meth) \<Rightarrow> bool" where
  "checks b k \<longleftrightarrow> (\<forall>r s. failed_call (fst b, rp_ret r) \<longrightarrow>
     (\<exists>u. k r s = (Inl (UringError u), s) \<and> ue_errno u = - rp_ret r))"

lemma reports_call:
  assumes "good_call Q b args" "int_result b" "\<And>r. reports E (k r)" "checks b k"
  shows "reports E (py_bind (call_native E b args) k)"
  unfolding reports_def
proof (intro allI impI)
  fix log :: "'a \<Rightarrow> call_log" and s :: "uctx \<times> 'a" assume L: "logs E log"
  obtain cargs where inv: "invoke_native E b args (snd s) =
      (Inr ((fst (native E (fst b) cargs (snd s)))\<lparr>rp_ret :=
        convert_ret (snd (snd b)) (rp_ret (fst (native E (fst b) cargs (snd s))))\<rparr>),
       snd (native E (fst b) cargs (snd s)))"
    by (rule invoke_good [OF assms(1)])
  define n where "n = native E (fst b) cargs (snd s)"
  define c where "c = (fst b, rp_ret (fst n))"
  define r where "r = (fst n)\<lparr>rp_ret := convert_ret (snd (snd b)) (rp_ret (fst n))\<rparr>"
  have run: "py_bind (call_native E b args) k s = k r (fst s, snd n)"
    using inv by (simp add: py_bind_eq call_native_def split_beta n_def r_def)
  have new: "log (snd n) = log (snd s) @ [c]" using L by (simp add: logs_def n_def c_def)
  show "\<exists>cs. log (snd (snd (py_bind (call_native E b args) k s))) = log (snd s) @ cs
      \<and> raises_failure cs (fst (py_bind (call_native E b args) k s))"
  proof (cases "failed_call c")
    case True
    then have ret: "rp_ret r = snd c"
      using convert_ret_int [OF assms(2), of "rp_ret (fst n)"] by (simp add: failed_call_def r_def c_def)
    have "failed_call (fst b, rp_ret r)" using True unfolding ret by (simp add: c_def)
    then obtain u where "k r (fst s, snd n) = (Inl (UringError u), (fst s, snd n))" "ue_errno u = - snd c"
      using assms(4) unfolding checks_def by (metis ret)
    then show ?thesis using run new by (intro exI [of _ "[c]"]) (simp add: raises_failure_def)
  next
    case False
    obtain cs where "log (snd (snd (k r (fst s, snd n)))) = log (snd n) @ cs"
        "raises_failure cs (fst (k r (fst s, snd n)))"
      using assms(3) [of r] L unfolding reports_def by (metis snd_conv)
    then show ?thesis using run new False by (intro exI [of _ "c # cs"]) simp
  qed
qed

lemma body_ring_call [contract_intros]:
  assumes "\<And>h. good_call Q b (PInt h # args)" "int_result b" "\<And>r. body E Q (k r)" "checks b k"
  shows "body E Q (ring_call E b args k)"
  unfolding ring_call_def
proof (rule body_bind [OF body_ring])
  fix h
  show "body E Q (py_bind (call_native E b (PInt h # args)) k)"
    using calls_only_bind [OF calls_only_call_native(1) [OF assms(1)], of E k h] assms(3)
      calls_only_call_native(2) [OF assms(1), of E h] reports_call [OF assms(1,2) _ assms(4), of E h]
    unfolding body_def converts_def by (auto simp: py_bind_eq simp del: split_paired_All split: sum.split)
qed

subsection \<open>Rules for contracts\<close>

lemma contract_body: "contract E Q m \<Longrightarrow> body E Q m"
  by (simp add: contract_def)

lemma contract_raise [contract_intros]: "e \<noteq> ArgumentError \<Longrightarrow> contract E Q (py_raise e)"
  unfolding contract_def guarded_def using body_raise [of e E Q] by (simp add: py_raise_def)

lemma contract_ring [contract_intros]: "contract E Q (UringCtx_ring E)"
  by (auto simp: contract_def guarded_def ring_eq intro: body_ring)

lemma contract_if [contract_intros]:
  "(c \<Longrightarrow> contract E Q m) \<Longrightarrow> (\<not> c \<Longrightarrow> contract E Q m') \<Longrightarrow> contract E Q (if c then m else m')"
  by simp

lemma contract_bind [contract_intros]:
  assumes "contract E Q m" "\<And>x. body E Q (k x)" shows "contract E Q (py_bind m k)"
  unfolding contract_def
proof (rule conjI)
  show "body E Q (py_bind m k)"
    by (rule body_bind [OF contract_body [OF assms(1)] assms(2)])
  show "guarded E (py_bind m k)"
    unfolding guarded_def
  proof (intro allI impI)
    fix self w assume "\<not> usable E self"
    then obtain e where "m (self, w) = (Inl e, (self, w))"
      using assms(1) unfolding contract_def guarded_def by blast
    then show "\<exists>e. py_bind m k (self, w) = (Inl e, (self, w))" by (simp add: py_bind_eq)
  qed
qed

lemma contract_map [contract_intros]: "contract E Q m \<Longrightarrow> contract E Q (py_map f m)"
  unfolding py_map_def by (intro contract_intros)

lemma contract_from_buffer [contract_intros]:
  "(n \<le> b_nbytes b \<Longrightarrow> contract E Q (k (Shared (b_id b) n)))
     \<Longrightarrow> contract E Q (with_buffer (from_buffer b n) k)"
  by (auto simp: with_buffer_def from_buffer_def intro: contract_intros)

lemma contract_zeroed_buffer [contract_intros]:
  "(0 \<le> n \<Longrightarrow> contract E Q (k (Zeroed (nat n)))) \<Longrightarrow> contract E Q (with_buffer (zeroed_buffer n) k)"
  by (auto simp: with_buffer_def zeroed_buffer_def intro: contract_intros)

lemma body_zeroed_buffer [contract_intros]:
  "(0 \<le> n \<Longrightarrow> body E Q (k (Zeroed (nat n)))) \<Longrightarrow> body E Q (with_buffer (zeroed_buffer n) k)"
  by (auto simp: with_buffer_def zeroed_buffer_def intro: contract_intros)

lemma contract_sockaddr_buffer [contract_intros]:
  "b_kind addr = Bytes
     \<Longrightarrow> contract E Q (k (Copied (b_id addr) (nat (max (int (b_len addr)) addr_len))))
     \<Longrightarrow> contract E Q (with_buffer (sockaddr_buffer addr addr_len) k)"
  by (simp add: with_buffer_def sockaddr_buffer_def)

lemma contract_own_buffer [contract_intros]:
  "(c \<Longrightarrow> contract E Q (k arr)) \<Longrightarrow> (\<not> c \<Longrightarrow> contract E Q (with_buffer m k))
     \<Longrightarrow> contract E Q (with_buffer (if c then Inr arr else m) k)"
  by (simp add: with_buffer_def)

lemma contract_copy [contract_intros]:
  "contract E Q (k (Copied (b_id b) (b_len b))) \<Longrightarrow> contract E Q (with_buffer (from_buffer_copy b) k)"
  "contract E Q (k (Copied (b_id b) (b_len b))) \<Longrightarrow> contract E Q (with_buffer (create_string_buffer b) k)"
  by (auto simp: with_buffer_def from_buffer_copy_def create_string_buffer_def intro: contract_intros)

lemma guarded_ring_call: "guarded E (ring_call E b args k)"
  by (auto simp: guarded_def ring_call_eq)

lemma contract_ring_call:
  assumes "\<And>h. good_call Q b (PInt h # args)" "int_result b" "\<And>r. body E Q (k r)" "checks b k"
  shows "contract E Q (ring_call E b args k)"
  unfolding contract_def by (intro conjI guarded_ring_call body_ring_call assms)

lemma checks_check: "checks b (\<lambda>r. py_bind (py_lift (raise_for_neg_errno (rp_ret r) f p off len)) (k r))"
  by (auto simp: checks_def failed_call_def raise_for_neg_errno_def py_defs UringError_init_def)

lemma body_sync_call_info [contract_intros]:
  assumes "\<And>h. good_call Q b (PInt h # args)" "int_result b" "\<And>r. body E Q (k r)"
  shows "body E Q (sync_call_info E b args f off len k)"
  unfolding sync_call_info_def by (intro body_ring_call contract_intros assms checks_check)

lemma contract_sync_call_info [contract_intros]:
  assumes "\<And>h. good_call Q b (PInt h # args)" "int_result b" "\<And>r. body E Q (k r)"
  shows "contract E Q (sync_call_info E b args f off len k)"
  unfolding sync_call_info_def by (intro contract_ring_call contract_intros assms checks_check)

lemma contract_sync_call [contract_intros]:
  assumes "\<And>h. good_call Q b (PInt h # args)" "int_result b" "\<And>r. body E Q (k r)"
  shows "contract E Q (sync_call E b args k)"
  unfolding sync_call_is_info by (intro contract_intros assms)

lemma body_sync_call [contract_intros]:
  assumes "\<And>h. good_call Q b (PInt h # args)" "int_result b" "\<And>r. body E Q (k r)"
  shows "body E Q (sync_call E b args k)"
  unfolding sync_call_is_info by (intro contract_intros assms)

lemma contract_sync_none [contract_intros]:
  "(\<And>h. good_call Q b (PInt h # args)) \<Longrightarrow> int_result b \<Longrightarrow> contract E Q (sync_none E b args)"
  unfolding sync_none_def by (intro contract_intros)

lemma body_sync_none [contract_intros]:
  "(\<And>h. good_call Q b (PInt h # args)) \<Longrightarrow> int_result b \<Longrightarrow> body E Q (sync_none E b args)"
  unfolding sync_none_def by (intro contract_intros)

lemma contract_sync_int [contract_intros]:
  "(\<And>h. good_call Q b (PInt h # args)) \<Longrightarrow> int_result b \<Longrightarrow> contract E Q (sync_int E b args)"
  unfolding sync_int_def by (intro contract_intros)

end
