(* ===== verification/Ctx_Api.thy ===== *)
theory Ctx_Api
  imports Ctx_Contract
begin

text \<open>
  The public methods of \<open>UringCtx\<close> as one relation, with the documented conditions on their
  arguments, and the memory a native function may access through its pointer arguments.
  Every method meets the contract of theory \<open>Ctx_Contract\<close>.
\<close>

subsection \<open>The memory a native function accesses\<close>

text \<open>
  For each native function with pointer arguments: the position of the pointer and how many
  bytes \<open>csrc/uring_wrap.c\<close> and the kernel access from it, in terms of the other arguments:
  an argument, a product of two, an argument times an element size, a constant (the size of
  a structure), or the value an \<open>unsigned *\<close> argument points to.
\<close>

datatype access = Arg nat | Product nat nat | Elems nat nat | Const nat | AtRef nat

definition extent_table :: "(string \<times> (nat \<times> access) list) list" where
  "extent_table = [
     (''uring_register_files'', [(1, Elems 2 4)]),
     (''uring_register_buffers'', [(1, Elems 2 16)]),
     (''uring_read_fixed_sync'', [(2, Arg 3)]),
     (''uring_write_fixed_sync'', [(2, Arg 3)]),
     (''uring_probe_supported_mask'', [(1, Arg 2)]),
     (''uring_readv_sync'', [(2, Elems 3 16)]),
     (''uring_writev_sync'', [(2, Elems 3 16)]),
     (''uring_statx_sync'', [(5, Const 256)]),
     (''uring_statx_stx_size'', [(0, Const 256)]),
     (''uring_send_sync'', [(2, Arg 3)]),
     (''uring_recv_sync'', [(2, Arg 3)]),
     (''uring_accept_sync'', [(2, AtRef 3), (3, Const 4)]),
     (''uring_connect_sync'', [(2, Arg 3)]),
     (''uring_madvise_sync'', [(1, Arg 2)]),
     (''uring_sendmsg_iov_sync'', [(2, Elems 3 16)]),
     (''uring_recvmsg_iov_sync'', [(2, Elems 3 16)]),
     (''uring_pipe_sync'', [(1, Const 8)]),
     (''uring_pipe_direct_sync'', [(1, Const 8)]),
     (''uring_bind_sync'', [(2, Arg 3)]),
     (''uring_link_timeout_sync'', [(1, Const 16)]),
     (''uring_getxattr_sync'', [(2, Arg 4)]),
     (''uring_setxattr_sync'', [(2, Arg 5)]),
     (''uring_fgetxattr_sync'', [(3, Arg 4)]),
     (''uring_fsetxattr_sync'', [(3, Arg 5)]),
     (''uring_provide_buffers_sync'', [(1, Product 2 3)]),
     (''uring_timeout_update_sync'', [(1, Const 16)]),
     (''uring_recv_multishot_sync'', [(2, Arg 3)]),
     (''uring_send_zc_sync'', [(2, Arg 3)]),
     (''uring_send_zc_fixed_sync'', [(2, Arg 3)]),
     (''uring_sendmsg_zc_iov_sync'', [(2, Elems 3 16)]),
     (''uring_sendmsg_zc_fixed_iov_sync'', [(2, Elems 3 16)]),
     (''uring_recv_zc_sync'', [(2, Arg 3)]),
     (''uring_recvmsg_multishot_iov_sync'', [(2, Elems 3 16)]),
     (''uring_waitid_sync'', [(3, Const 128)]),
     (''uring_cmd_sock_sync'', [(5, Arg 6)]),
     (''uring_cmd_getsockname_sync'', [(2, AtRef 3), (3, Const 4)]),
     (''uring_files_update_sync'', [(1, Elems 2 4)]),
     (''uring_readv_fixed_sync'', [(2, Elems 3 16)]),
     (''uring_writev_fixed_sync'', [(2, Elems 3 16)]),
     (''uring_sendto_sync'', [(2, Arg 3), (5, Arg 6)]),
     (''uring_timeout_sync'', [(1, Const 16)]),
     (''uring_link_read_write_sync'', [(2, Arg 3)]),
     (''uring_read_sync'', [(2, Arg 3)]),
     (''uring_write_sync'', [(2, Arg 3)]),
     (''uring_read_batch_sync'', [(2, Product 3 4)]),
     (''uring_read_offsets_sync'', [(2, Product 3 5), (4, Elems 5 8)]),
     (''uring_read_async'', [(2, Arg 3)]),
     (''uring_write_async'', [(2, Arg 3)]),
     (''uring_openat2_sync'', [(3, Const 24)]),
     (''uring_epoll_ctl_sync'', [(4, Const 12)]),
     (''uring_epoll_wait_sync'', [(2, Elems 3 12)]),
     (''uring_futex_waitv_sync'', [(1, Elems 2 24)]),
     (''uring_wait_completion'', [(1, Const 8), (2, Const 4)]),
     (''uring_peek_completion'', [(1, Const 8), (2, Const 4)])]"

definition int_arg :: "cval \<Rightarrow> int" where
  "int_arg v = (case v of CInt n \<Rightarrow> n | _ \<Rightarrow> 0)"

fun access_bytes :: "access \<Rightarrow> cval list \<Rightarrow> int" where
  "access_bytes (Arg i) args = int_arg (args ! i)"
| "access_bytes (Product i j) args = int_arg (args ! i) * int_arg (args ! j)"
| "access_bytes (Elems i n) args = int_arg (args ! i) * int n"
| "access_bytes (Const n) args = int n"
| "access_bytes (AtRef i) args = (case args ! i of CMem (UIntRef n) \<Rightarrow> n | _ \<Rightarrow> 0)"

definition fits :: "cmem \<Rightarrow> int \<Rightarrow> bool" where
  "fits m n \<longleftrightarrow> (case mem_size m of None \<Rightarrow> True | Some s \<Rightarrow> n \<le> int s)"

text \<open>An access through a pointer the wrapper built; an array of \<open>iovec\<close>s counts with its parts.\<close>

fun access_ok :: "cval \<Rightarrow> int \<Rightarrow> bool" where
  "access_ok (CMem (IovArr xs)) n \<longleftrightarrow> fits (IovArr xs) n \<and> list_all (\<lambda>(m, k). fits m (int k)) xs"
| "access_ok (CMem m) n \<longleftrightarrow> fits m n"
| "access_ok _ n \<longleftrightarrow> True"

definition in_bounds :: "string \<Rightarrow> cval list \<Rightarrow> bool" where
  "in_bounds f args \<longleftrightarrow> (case map_of extent_table f of
       None \<Rightarrow> True
     | Some es \<Rightarrow> list_all (\<lambda>(p, a). access_ok (args ! p) (access_bytes a args)) es)"

lemma extent_lookup [simp]:
  "map_of extent_table ''uring_register_files'' = Some [(1, Elems 2 4)]"
  "map_of extent_table ''uring_register_buffers'' = Some [(1, Elems 2 16)]"
  "map_of extent_table ''uring_read_fixed_sync'' = Some [(2, Arg 3)]"
  "map_of extent_table ''uring_write_fixed_sync'' = Some [(2, Arg 3)]"
  "map_of extent_table ''uring_probe_supported_mask'' = Some [(1, Arg 2)]"
  "map_of extent_table ''uring_readv_sync'' = Some [(2, Elems 3 16)]"
  "map_of extent_table ''uring_writev_sync'' = Some [(2, Elems 3 16)]"
  "map_of extent_table ''uring_statx_sync'' = Some [(5, Const 256)]"
  "map_of extent_table ''uring_statx_stx_size'' = Some [(0, Const 256)]"
  "map_of extent_table ''uring_send_sync'' = Some [(2, Arg 3)]"
  "map_of extent_table ''uring_recv_sync'' = Some [(2, Arg 3)]"
  "map_of extent_table ''uring_accept_sync'' = Some [(2, AtRef 3), (3, Const 4)]"
  "map_of extent_table ''uring_connect_sync'' = Some [(2, Arg 3)]"
  "map_of extent_table ''uring_madvise_sync'' = Some [(1, Arg 2)]"
  "map_of extent_table ''uring_sendmsg_iov_sync'' = Some [(2, Elems 3 16)]"
  "map_of extent_table ''uring_recvmsg_iov_sync'' = Some [(2, Elems 3 16)]"
  "map_of extent_table ''uring_pipe_sync'' = Some [(1, Const 8)]"
  "map_of extent_table ''uring_pipe_direct_sync'' = Some [(1, Const 8)]"
  "map_of extent_table ''uring_bind_sync'' = Some [(2, Arg 3)]"
  "map_of extent_table ''uring_link_timeout_sync'' = Some [(1, Const 16)]"
  "map_of extent_table ''uring_getxattr_sync'' = Some [(2, Arg 4)]"
  "map_of extent_table ''uring_setxattr_sync'' = Some [(2, Arg 5)]"
  "map_of extent_table ''uring_fgetxattr_sync'' = Some [(3, Arg 4)]"
  "map_of extent_table ''uring_fsetxattr_sync'' = Some [(3, Arg 5)]"
  "map_of extent_table ''uring_provide_buffers_sync'' = Some [(1, Product 2 3)]"
  "map_of extent_table ''uring_timeout_update_sync'' = Some [(1, Const 16)]"
  "map_of extent_table ''uring_recv_multishot_sync'' = Some [(2, Arg 3)]"
  "map_of extent_table ''uring_send_zc_sync'' = Some [(2, Arg 3)]"
  "map_of extent_table ''uring_send_zc_fixed_sync'' = Some [(2, Arg 3)]"
  "map_of extent_table ''uring_sendmsg_zc_iov_sync'' = Some [(2, Elems 3 16)]"
  "map_of extent_table ''uring_sendmsg_zc_fixed_iov_sync'' = Some [(2, Elems 3 16)]"
  "map_of extent_table ''uring_recv_zc_sync'' = Some [(2, Arg 3)]"
  "map_of extent_table ''uring_recvmsg_multishot_iov_sync'' = Some [(2, Elems 3 16)]"
  "map_of extent_table ''uring_waitid_sync'' = Some [(3, Const 128)]"
  "map_of extent_table ''uring_cmd_sock_sync'' = Some [(5, Arg 6)]"
  "map_of extent_table ''uring_cmd_getsockname_sync'' = Some [(2, AtRef 3), (3, Const 4)]"
  "map_of extent_table ''uring_files_update_sync'' = Some [(1, Elems 2 4)]"
  "map_of extent_table ''uring_readv_fixed_sync'' = Some [(2, Elems 3 16)]"
  "map_of extent_table ''uring_writev_fixed_sync'' = Some [(2, Elems 3 16)]"
  "map_of extent_table ''uring_sendto_sync'' = Some [(2, Arg 3), (5, Arg 6)]"
  "map_of extent_table ''uring_timeout_sync'' = Some [(1, Const 16)]"
  "map_of extent_table ''uring_link_read_write_sync'' = Some [(2, Arg 3)]"
  "map_of extent_table ''uring_read_sync'' = Some [(2, Arg 3)]"
  "map_of extent_table ''uring_write_sync'' = Some [(2, Arg 3)]"
  "map_of extent_table ''uring_read_batch_sync'' = Some [(2, Product 3 4)]"
  "map_of extent_table ''uring_read_offsets_sync'' = Some [(2, Product 3 5), (4, Elems 5 8)]"
  "map_of extent_table ''uring_read_async'' = Some [(2, Arg 3)]"
  "map_of extent_table ''uring_write_async'' = Some [(2, Arg 3)]"
  "map_of extent_table ''uring_wait_completion'' = Some [(1, Const 8), (2, Const 4)]"
  "map_of extent_table ''uring_peek_completion'' = Some [(1, Const 8), (2, Const 4)]"
  "map_of extent_table ''uring_openat2_sync'' = Some [(3, Const 24)]"
  "map_of extent_table ''uring_epoll_ctl_sync'' = Some [(4, Const 12)]"
  "map_of extent_table ''uring_epoll_wait_sync'' = Some [(2, Elems 3 12)]"
  "map_of extent_table ''uring_futex_waitv_sync'' = Some [(1, Elems 2 24)]"
  by code_simp+

lemma no_extents [simp]:
  "map_of extent_table ''uring_async_cancel_fd_sync'' = None"
  "map_of extent_table ''uring_async_cancel_sync'' = None"
  "map_of extent_table ''uring_close_sync'' = None"
  "map_of extent_table ''uring_fadvise_sync'' = None"
  "map_of extent_table ''uring_fallocate_sync'' = None"
  "map_of extent_table ''uring_fixed_fd_install_sync'' = None"
  "map_of extent_table ''uring_fsync_sync'' = None"
  "map_of extent_table ''uring_ftruncate_sync'' = None"
  "map_of extent_table ''uring_linkat_sync'' = None"
  "map_of extent_table ''uring_listen_sync'' = None"
  "map_of extent_table ''uring_mkdirat_sync'' = None"
  "map_of extent_table ''uring_msg_ring_cqe_flags_sync'' = None"
  "map_of extent_table ''uring_msg_ring_fd_alloc_sync'' = None"
  "map_of extent_table ''uring_msg_ring_fd_sync'' = None"
  "map_of extent_table ''uring_msg_ring_sync'' = None"
  "map_of extent_table ''uring_multishot_accept_submit'' = None"
  "map_of extent_table ''uring_nop128_sync'' = None"
  "map_of extent_table ''uring_nop_sync'' = None"
  "map_of extent_table ''uring_openat_sync'' = None"
  "map_of extent_table ''uring_poll_add_sync'' = None"
  "map_of extent_table ''uring_poll_remove_sync'' = None"
  "map_of extent_table ''uring_poll_update_sync'' = None"
  "map_of extent_table ''uring_probe_last_op'' = None"
  "map_of extent_table ''uring_probe_opcode_supported'' = None"
  "map_of extent_table ''uring_recv_multishot_buf_group_submit'' = None"
  "map_of extent_table ''uring_remove_buffers_sync'' = None"
  "map_of extent_table ''uring_renameat_sync'' = None"
  "map_of extent_table ''uring_ring_fd'' = None"
  "map_of extent_table ''uring_send_bundle_sync'' = None"
  "map_of extent_table ''uring_shutdown_sync'' = None"
  "map_of extent_table ''uring_socket_direct_alloc_sync'' = None"
  "map_of extent_table ''uring_socket_direct_sync'' = None"
  "map_of extent_table ''uring_socket_sync'' = None"
  "map_of extent_table ''uring_splice_submit'' = None"
  "map_of extent_table ''uring_splice_sync'' = None"
  "map_of extent_table ''uring_submit'' = None"
  "map_of extent_table ''uring_submit_and_wait'' = None"
  "map_of extent_table ''uring_symlinkat_sync'' = None"
  "map_of extent_table ''uring_sync_file_range_sync'' = None"
  "map_of extent_table ''uring_tee_sync'' = None"
  "map_of extent_table ''uring_timeout_arm_remove_pair_sync'' = None"
  "map_of extent_table ''uring_timeout_remove_sync'' = None"
  "map_of extent_table ''uring_unlinkat_sync'' = None"
  "map_of extent_table ''uring_unregister_buffers'' = None"
  "map_of extent_table ''uring_unregister_files'' = None"
  "map_of extent_table ''uring_uring_cmd128_sync'' = None"
  "map_of extent_table ''uring_uring_cmd_sync'' = None"
  by code_simp+

subsection \<open>The public methods\<close>

text \<open>
  One rule per method, with its result made a \<open>pyres\<close>.  The conditions are those of the
  documentation: socket addresses are \<open>bytes\<close> with a length that is not negative, block sizes
  and counts are not negative, and the option length of \<open>cmd_sock\<close> is at most the number
  of bytes given.
\<close>

datatype pyres =
    RNone | RInt int | RBool bool | RBytes "int list" | RPair "int \<times> int"
  | RIntBytes "int \<times> int list" | RMaybe "(int \<times> int) option"

inductive ring_method :: "'w env \<Rightarrow> ('w, pyres) meth \<Rightarrow> bool" for E where
  m_enter: "ring_method E (py_map (\<lambda>_. RNone) (UringCtx_enter E))"
| m_ring_fd: "ring_method E (py_map RInt (UringCtx_ring_fd E))"
| m_register_files: "ring_method E (py_map (\<lambda>_. RNone) (UringCtx_register_files E fds))"
| m_unregister_files: "ring_method E (py_map (\<lambda>_. RNone) (UringCtx_unregister_files E))"
| m_register_buffers: "ring_method E (py_map (\<lambda>_. RNone) (UringCtx_register_buffers E buffers))"
| m_unregister_buffers: "ring_method E (py_map (\<lambda>_. RNone) (UringCtx_unregister_buffers E))"
| m_read_fixed: "ring_method E (py_map RInt (UringCtx_read_fixed E file_index buf offset buf_index))"
| m_write_fixed: "ring_method E (py_map RInt (UringCtx_write_fixed E file_index data offset buf_index))"
| m_probe_opcode_supported: "ring_method E (py_map RBool (UringCtx_probe_opcode_supported E opcode))"
| m_probe_last_op: "ring_method E (py_map RInt (UringCtx_probe_last_op E))"
| m_probe_supported_mask: "ring_method E (py_map RBytes (UringCtx_probe_supported_mask E))"
| m_nop: "ring_method E (py_map (\<lambda>_. RNone) (UringCtx_nop E))"
| m_readv: "ring_method E (py_map RInt (UringCtx_readv E fd parts offset))"
| m_writev: "ring_method E (py_map RInt (UringCtx_writev E fd parts offset))"
| m_openat: "ring_method E (py_map RInt (UringCtx_openat E path flags mode dir_fd))"
| m_close_fd: "ring_method E (py_map (\<lambda>_. RNone) (UringCtx_close_fd E fd))"
| m_fsync_fd: "ring_method E (py_map (\<lambda>_. RNone) (UringCtx_fsync_fd E fd datasync))"
| m_fallocate_fd: "ring_method E (py_map (\<lambda>_. RNone) (UringCtx_fallocate_fd E fd mode offset len))"
| m_statx: "ring_method E (py_map RInt (UringCtx_statx E path dir_fd flags stx_mask))"
| m_renameat: "ring_method E (py_map (\<lambda>_. RNone) (UringCtx_renameat E old_path new_path old_dir_fd new_dir_fd flags))"
| m_unlinkat: "ring_method E (py_map (\<lambda>_. RNone) (UringCtx_unlinkat E path dir_fd flags))"
| m_mkdirat: "ring_method E (py_map (\<lambda>_. RNone) (UringCtx_mkdirat E path mode dir_fd))"
| m_symlinkat: "ring_method E (py_map (\<lambda>_. RNone) (UringCtx_symlinkat E target link_path new_dir_fd))"
| m_linkat: "ring_method E (py_map (\<lambda>_. RNone) (UringCtx_linkat E old_path new_path old_dir_fd new_dir_fd flags))"
| m_sync_file_range: "ring_method E (py_map (\<lambda>_. RNone) (UringCtx_sync_file_range E fd len offset flags))"
| m_fadvise: "ring_method E (py_map (\<lambda>_. RNone) (UringCtx_fadvise E fd offset len advice))"
| m_madvise: "ring_method E (py_map (\<lambda>_. RNone) (UringCtx_madvise E buf advice))"
| m_openat2: "ring_method E (py_map RInt (UringCtx_openat2 E path dir_fd))"
| m_getxattr: "ring_method E (py_map RInt (UringCtx_getxattr E path name val))"
| m_setxattr: "ring_method E (py_map (\<lambda>_. RNone) (UringCtx_setxattr E path name val flags))"
| m_fgetxattr: "ring_method E (py_map RInt (UringCtx_fgetxattr E fd name val))"
| m_fsetxattr: "ring_method E (py_map (\<lambda>_. RNone) (UringCtx_fsetxattr E fd name val flags))"
| m_ftruncate: "ring_method E (py_map (\<lambda>_. RNone) (UringCtx_ftruncate E fd len))"
| m_files_update: "ring_method E (py_map (\<lambda>_. RNone) (UringCtx_files_update E fds offset))"
| m_readv_fixed: "ring_method E (py_map RInt (UringCtx_readv_fixed E fd parts offset rw_flags buf_index))"
| m_writev_fixed: "ring_method E (py_map RInt (UringCtx_writev_fixed E fd parts offset rw_flags buf_index))"
| m_link_read_write: "ring_method E (py_map RInt (UringCtx_link_read_write E fd_in buf offset_in fd_out offset_out))"
| m_read: "ring_method E (py_map RBytes (UringCtx_read E fd len offset))"
| m_write: "ring_method E (py_map RInt (UringCtx_write E fd data offset))"
| m_read_batch: "0 \<le> block_size \<Longrightarrow> 0 \<le> blocks \<Longrightarrow> ring_method E (py_map RBytes (UringCtx_read_batch E fd block_size blocks offset))"
| m_read_offsets: "ring_method E (py_map RBytes (UringCtx_read_offsets E fd block_size offsets offset_bytes))"
| m_send: "ring_method E (py_map RInt (UringCtx_send E fd data flags))"
| m_recv: "ring_method E (py_map RInt (UringCtx_recv E fd buf flags))"
| m_accept: "ring_method E (py_map RIntBytes (UringCtx_accept E fd flags))"
| m_connect: "b_kind addr = Bytes \<Longrightarrow> 0 \<le> addr_len \<Longrightarrow> ring_method E (py_map (\<lambda>_. RNone) (UringCtx_connect E fd addr addr_len))"
| m_shutdown: "ring_method E (py_map (\<lambda>_. RNone) (UringCtx_shutdown E fd how))"
| m_sendmsg_iov: "ring_method E (py_map RInt (UringCtx_sendmsg_iov E fd parts flags))"
| m_recvmsg_iov: "ring_method E (py_map RInt (UringCtx_recvmsg_iov E fd parts flags))"
| m_socket: "ring_method E (py_map RInt (UringCtx_socket E domain typ protocol flags))"
| m_bind: "b_kind addr = Bytes \<Longrightarrow> 0 \<le> addr_len \<Longrightarrow> ring_method E (py_map (\<lambda>_. RNone) (UringCtx_bind E fd addr addr_len))"
| m_listen: "ring_method E (py_map (\<lambda>_. RNone) (UringCtx_listen E fd backlog))"
| m_recv_multishot: "ring_method E (py_map RInt (UringCtx_recv_multishot E fd buf msg_flags))"
| m_send_zc: "ring_method E (py_map RInt (UringCtx_send_zc E fd data msg_flags zc_flags))"
| m_send_zc_fixed: "ring_method E (py_map RInt (UringCtx_send_zc_fixed E fd data msg_flags zc_flags buf_index))"
| m_sendmsg_zc_iov: "ring_method E (py_map RInt (UringCtx_sendmsg_zc_iov E fd parts flags))"
| m_sendmsg_zc_fixed_iov: "ring_method E (py_map RInt (UringCtx_sendmsg_zc_fixed_iov E fd parts flags buf_index))"
| m_recv_zc: "ring_method E (py_map RInt (UringCtx_recv_zc E fd buf msg_flags ioprio_zc))"
| m_recvmsg_multishot_iov: "ring_method E (py_map RInt (UringCtx_recvmsg_multishot_iov E fd parts flags))"
| m_send_bundle: "ring_method E (py_map RInt (UringCtx_send_bundle E fd len msg_flags))"
| m_sendto: "b_kind addr = Bytes \<Longrightarrow> 0 \<le> addr_len \<Longrightarrow> ring_method E (py_map RInt (UringCtx_sendto E fd data msg_flags addr addr_len))"
| m_socket_direct: "ring_method E (py_map RInt (UringCtx_socket_direct E domain typ protocol file_index flags))"
| m_socket_direct_alloc: "ring_method E (py_map RInt (UringCtx_socket_direct_alloc E domain typ protocol flags))"
| m_splice: "ring_method E (py_map RInt (UringCtx_splice E fd_in off_in fd_out off_out nbytes flags))"
| m_tee: "ring_method E (py_map RInt (UringCtx_tee E fd_in fd_out nbytes flags))"
| m_pipe: "ring_method E (py_map RPair (UringCtx_pipe E pipe_flags))"
| m_pipe_direct: "ring_method E (py_map RPair (UringCtx_pipe_direct E pipe_flags file_index))"
| m_poll_add: "ring_method E (py_map RInt (UringCtx_poll_add E fd poll_mask user_data))"
| m_poll_remove: "ring_method E (py_map (\<lambda>_. RNone) (UringCtx_poll_remove E target_user_data))"
| m_async_cancel_fd: "ring_method E (py_map (\<lambda>_. RNone) (UringCtx_async_cancel_fd E fd flags))"
| m_link_timeout: "ring_method E (py_map (\<lambda>_. RNone) (UringCtx_link_timeout E sec nsec flags))"
| m_poll_update: "ring_method E (py_map (\<lambda>_. RNone) (UringCtx_poll_update E old_user_data new_user_data poll_mask flags))"
| m_timeout_update: "ring_method E (py_map (\<lambda>_. RNone) (UringCtx_timeout_update E target_user_data sec nsec flags))"
| m_timeout: "ring_method E (py_map (\<lambda>_. RNone) (UringCtx_timeout E sec nsec count timeout_flags user_data))"
| m_timeout_remove: "ring_method E (py_map (\<lambda>_. RNone) (UringCtx_timeout_remove E target_user_data flags))"
| m_async_cancel: "ring_method E (py_map (\<lambda>_. RNone) (UringCtx_async_cancel E user_data flags))"
| m_timeout_arm_remove_pair: "ring_method E (py_map (\<lambda>_. RNone) (UringCtx_timeout_arm_remove_pair E sec nsec user_data))"
| m_provide_buffers: "0 \<le> buf_len_each \<Longrightarrow> 0 \<le> nr \<Longrightarrow> ring_method E (py_map (\<lambda>_. RNone) (UringCtx_provide_buffers E buf buf_len_each nr bgid bid))"
| m_remove_buffers: "ring_method E (py_map (\<lambda>_. RNone) (UringCtx_remove_buffers E nr bgid))"
| m_msg_ring: "ring_method E (py_map (\<lambda>_. RNone) (UringCtx_msg_ring E fd len_val data flags))"
| m_msg_ring_fd: "ring_method E (py_map (\<lambda>_. RNone) (UringCtx_msg_ring_fd E fd source_fd target_fd data flags))"
| m_msg_ring_fd_alloc: "ring_method E (py_map (\<lambda>_. RNone) (UringCtx_msg_ring_fd_alloc E fd source_fd data flags))"
| m_msg_ring_cqe_flags: "ring_method E (py_map (\<lambda>_. RNone) (UringCtx_msg_ring_cqe_flags E fd len_val data flags cqe_flags))"
| m_nop128: "ring_method E (py_map (\<lambda>_. RNone) (UringCtx_nop128 E))"
| m_fixed_fd_install: "ring_method E (py_map RInt (UringCtx_fixed_fd_install E fd install_flags))"
| m_epoll_ctl: "ring_method E (py_map (\<lambda>_. RNone) (UringCtx_epoll_ctl E epfd fd op has_event))"
| m_epoll_wait: "ring_method E (py_map RIntBytes (UringCtx_epoll_wait E epfd maxevents flags))"
| m_waitid: "ring_method E (py_map RInt (UringCtx_waitid E idtype pid options flags info))"
| m_futex_wake: "ring_method E (py_map RInt (UringCtx_futex_wake E uaddr val fmask futex_flags flags))"
| m_futex_wait: "ring_method E (py_map RInt (UringCtx_futex_wait E uaddr val fmask futex_flags flags))"
| m_futex_waitv: "ring_method E (py_map RInt (UringCtx_futex_waitv E n flags))"
| m_uring_cmd: "ring_method E (py_map RInt (UringCtx_uring_cmd E cmd_op fd))"
| m_uring_cmd128: "ring_method E (py_map RInt (UringCtx_uring_cmd128 E cmd_op fd))"
| m_cmd_sock: "(\<And>b. optval = Some b \<Longrightarrow> optlen \<le> int (b_len b)) \<Longrightarrow> ring_method E (py_map RInt (UringCtx_cmd_sock E cmd_op fd level optname optval optlen))"
| m_cmd_getsockname: "ring_method E (py_map RInt (UringCtx_cmd_getsockname E fd addr peer))"
| m_read_async_ptr: "ring_method E (py_map RInt (UringCtx_read_async_ptr E fd buf_ptr buf_len offset user_data))"
| m_read_async: "ring_method E (py_map RInt (UringCtx_read_async E fd buf offset user_data))"
| m_write_async_ptr: "ring_method E (py_map RInt (UringCtx_write_async_ptr E fd buf_ptr buf_len offset user_data))"
| m_write_async: "ring_method E (py_map RInt (UringCtx_write_async E fd data offset user_data))"
| m_splice_submit: "ring_method E (py_map RInt (UringCtx_splice_submit E fd_in off_in fd_out off_out nbytes splice_flags user_data))"
| m_multishot_accept_submit: "ring_method E (py_map RInt (UringCtx_multishot_accept_submit E fd flags user_data))"
| m_recv_multishot_buffer_group_submit: "ring_method E (py_map RInt (UringCtx_recv_multishot_buffer_group_submit E fd bgid msg_flags user_data))"
| m_wait_completion: "ring_method E (py_map RPair (UringCtx_wait_completion E))"
| m_peek_completion: "ring_method E (py_map RMaybe (UringCtx_peek_completion E))"
| m_submit: "ring_method E (py_map RInt (UringCtx_submit E))"
| m_submit_and_wait: "ring_method E (py_map RInt (UringCtx_submit_and_wait E wait_nr))"

subsection \<open>Every call is in bounds\<close>

lemma int_arg_simps [simp]:
  "int_arg (CInt n) = n" "int_arg (CMem m) = 0" "int_arg CNull = 0" "int_arg (CStr s) = 0"
  by (simp_all add: int_arg_def)

lemma fits_sized: "mem_size m = Some s \<Longrightarrow> n \<le> int s \<Longrightarrow> fits m n"
  by (simp add: fits_def)

lemma take_bit_times: "0 \<le> (a::int) \<Longrightarrow> 0 \<le> b \<Longrightarrow> take_bit k a * take_bit l b \<le> a * b"
  by (intro mult_mono take_bit_le_self) simp_all

lemma abs_signed_take_bit_le: assumes "0 \<le> (a::int)" shows "\<bar>signed_take_bit k a\<bar> \<le> a"
proof (cases "a < 2 ^ k")
  case True
  moreover have "- (2 ^ k) \<le> a" using assms by (rule order_trans [rotated]) simp
  ultimately show ?thesis using assms by (simp add: signed_take_bit_id)
next
  case False
  then show ?thesis using signed_take_bit_range [of k a] by arith
qed

lemma signed_take_bit_times:
  assumes "0 \<le> (a::int)" "0 \<le> b" shows "signed_take_bit k a * signed_take_bit l b \<le> a * b"
proof -
  have "signed_take_bit k a * signed_take_bit l b \<le> \<bar>signed_take_bit k a\<bar> * \<bar>signed_take_bit l b\<bar>"
    by (simp flip: abs_mult)
  also have "\<dots> \<le> a * b"
    using assms by (intro mult_mono abs_signed_take_bit_le) simp_all
  finally show ?thesis .
qed

lemma take_bit_times_length:
  "0 \<le> a * int n \<Longrightarrow> take_bit k a * take_bit l (int n) \<le> a * int n"
  by (cases "n = 0") (simp_all add: zero_le_mult_iff take_bit_times)

lemma take_bit_le_max: "0 \<le> (n::int) \<Longrightarrow> take_bit k n \<le> max m n"
  by (rule order_trans [OF take_bit_le_self]) simp_all

lemma signed_take_bit_packed: "0 < n \<Longrightarrow> 3 * signed_take_bit k n \<le> 4 * (n::int)"
  using abs_signed_take_bit_le [of n k] by linarith

lemma max_int_nonneg [simp]: "0 \<le> max (int n) m"
  by (simp add: le_max_iff_disj)

lemma byref_not_arg [simp]: "byref_int_error \<noteq> ArgumentError"
  by (simp add: byref_int_error_def)

definition sound_part :: "(pybuf \<Rightarrow> exn + (cmem \<times> nat)) \<Rightarrow> bool" where
  "sound_part part \<longleftrightarrow> (\<forall>p. part p \<noteq> Inl ArgumentError)
     \<and> (\<forall>p m k. part p = Inr (m, k) \<longrightarrow> fits m (int k))"

lemma from_buffer_not_arg [simp]: "from_buffer b n \<noteq> Inl ArgumentError"
  by (simp add: from_buffer_def)

lemma sum_bind_Inl_iff: "sum_bind r k = Inl e \<longleftrightarrow> r = Inl e \<or> (\<exists>x. r = Inr x \<and> k x = Inl e)"
  by (cases r) auto

lemma sound_parts [contract_intros]:
  "sound_part writable_part" "sound_part gather_part" "sound_part register_part"
  by (auto simp: sound_part_def writable_part_def gather_part_def register_part_def fits_def
      sum_bind_Inl_iff sum_bind_Inr_iff dest!: from_buffer_Inr)

lemma collect_not_arg: "\<forall>p. f p \<noteq> Inl ArgumentError \<Longrightarrow> collect f xs \<noteq> Inl ArgumentError"
  by (induction xs) (auto simp: sum_bind_Inl_iff)

lemma collect_sound:
  "sound_part part \<Longrightarrow> collect part parts = Inr iov \<Longrightarrow> list_all (\<lambda>(m, n). fits m (int n)) iov"
  by (induction parts arbitrary: iov) (auto simp: sound_part_def sum_bind_Inr_iff)

lemma contract_with_parts [contract_intros]:
  assumes "sound_part part"
    and k: "\<And>iov. length iov = length parts \<Longrightarrow> list_all (\<lambda>(m, n). fits m (int n)) iov
       \<Longrightarrow> contract E Q (k iov)"
  shows "contract E Q (with_parts part msg parts k)"
proof (cases "collect part parts")
  case (Inl e)
  then have "e \<noteq> ArgumentError"
    using collect_not_arg [of part parts] assms(1) by (auto simp: sound_part_def)
  then show ?thesis by (simp add: with_parts_def Inl contract_raise)
next
  case (Inr iov)
  have "contract E Q (k iov)"
    using k [OF collect_Inr_length [OF Inr] collect_sound [OF assms(1) Inr]] .
  then show ?thesis by (simp add: with_parts_def Inr contract_raise)
qed

lemma contract_case_option [contract_intros]:
  "(x = None \<Longrightarrow> contract E Q m) \<Longrightarrow> (\<And>y. x = Some y \<Longrightarrow> contract E Q (k y))
     \<Longrightarrow> contract E Q (case x of None \<Rightarrow> m | Some y \<Rightarrow> k y)"
  by (cases x) auto

lemma contract_case_prod [contract_intros]:
  "(\<And>a b. p = (a, b) \<Longrightarrow> contract E Q (k a b)) \<Longrightarrow> contract E Q (case p of (a, b) \<Rightarrow> k a b)"
  by (cases p) auto

lemma contract_case_async_buf [contract_intros]:
  "(\<And>b. x = Buf b \<Longrightarrow> contract E Q (f b)) \<Longrightarrow> (\<And>p n. x = PtrPair p n \<Longrightarrow> contract E Q (g p n))
     \<Longrightarrow> (x = NotABuffer \<Longrightarrow> contract E Q h)
     \<Longrightarrow> contract E Q (case x of Buf b \<Rightarrow> f b | PtrPair p n \<Rightarrow> g p n | NotABuffer \<Rightarrow> h)"
  by (cases x) auto

text \<open>What a call needs: the declared types, the extents, and the arithmetic of widths.\<close>

lemmas call_defs = good_call_def int_result_def abi_defs in_bounds_def
  c_int_array_def kernel_timespec_def char_array_def SIGINFO_T_SIZE_def

lemmas call_facts = fits_def wrap_simps mask32_range mask64_range take_bit_le_self
  signed_take_bit_packed take_bit_times signed_take_bit_times take_bit_times_length take_bit_le_max

lemma checks_timeout:
  "checks uring_timeout_sync (\<lambda>r. if rp_ret r < 0 \<and> rp_ret r \<noteq> - 62
     then py_lift (check_ret (rp_ret r) ''uring_timeout_sync'') else py_return ())"
  by (auto simp: checks_def failed_call_def uring_timeout_sync_def raise_for_neg_errno_def py_defs
      UringError_init_def)

lemma contract_timeout:
  "contract E in_bounds (UringCtx_timeout E sec nsec count timeout_flags user_data)"
  unfolding UringCtx_timeout_def
  by (rule contract_ring_call [OF _ _ _ checks_timeout]) (auto intro!: contract_intros simp: call_defs call_facts)

lemma contract_peek: "contract E in_bounds (UringCtx_peek_completion E)"
proof -
  have "checks uring_peek_completion (\<lambda>r. if rp_ret r = 0 then py_return None
       else py_bind (py_lift (check_ret (rp_ret r) ''uring_peek_completion'')) (\<lambda>_.
         py_bind (UringCtx_completion_release_async_io_buffer (fst (completion_out r)))
           (\<lambda>_. py_return (Some (completion_out r)))))"
    by (auto simp: checks_def failed_call_def raise_for_neg_errno_def py_defs UringError_init_def)
  then show ?thesis
    unfolding UringCtx_peek_completion_def
    by (rule contract_ring_call [rotated 3]) (auto intro!: contract_intros simp: call_defs call_facts)
qed

lemma contract_cmd_sock:
  assumes "\<And>b. optval = Some b \<Longrightarrow> optlen \<le> int (b_len b)"
  shows "contract E in_bounds (UringCtx_cmd_sock E cmd_op fd level optname optval optlen)"
proof (cases "optval = None \<or> optlen \<le> 0")
  case True
  then show ?thesis
    by (auto simp: UringCtx_cmd_sock_def call_defs split: option.split intro!: contract_intros)
next
  case False
  then obtain b where b: "optval = Some b" "0 < optlen" "optlen \<le> int (b_len b)"
    using assms by auto
  have "signed_take_bit 31 optlen \<le> int (b_len b)"
    using abs_signed_take_bit_le [of optlen 31] b by linarith
  with b show ?thesis
    by (auto simp: UringCtx_cmd_sock_def call_defs fits_def intro!: contract_intros)
qed

lemma sync_methods:
  "contract E in_bounds (UringCtx_ring_fd E)"
  "contract E in_bounds (UringCtx_register_files E fds)"
  "contract E in_bounds (UringCtx_unregister_files E)"
  "contract E in_bounds (UringCtx_register_buffers E buffers)"
  "contract E in_bounds (UringCtx_unregister_buffers E)"
  "contract E in_bounds (UringCtx_read_fixed E file_index buf offset buf_index)"
  "contract E in_bounds (UringCtx_write_fixed E file_index data offset buf_index)"
  "contract E in_bounds (UringCtx_probe_opcode_supported E opcode)"
  "contract E in_bounds (UringCtx_probe_last_op E)"
  "contract E in_bounds (UringCtx_probe_supported_mask E)"
  "contract E in_bounds (UringCtx_nop E)"
  "contract E in_bounds (UringCtx_readv E fd parts offset)"
  "contract E in_bounds (UringCtx_writev E fd parts offset)"
  "contract E in_bounds (UringCtx_openat E path flags mode dir_fd)"
  "contract E in_bounds (UringCtx_close_fd E fd)"
  "contract E in_bounds (UringCtx_fsync_fd E fd datasync)"
  "contract E in_bounds (UringCtx_fallocate_fd E fd mode offset len)"
  "contract E in_bounds (UringCtx_statx E path dir_fd flags stx_mask)"
  "contract E in_bounds (UringCtx_renameat E old_path new_path old_dir_fd new_dir_fd flags)"
  "contract E in_bounds (UringCtx_unlinkat E path dir_fd flags)"
  "contract E in_bounds (UringCtx_mkdirat E path mode dir_fd)"
  "contract E in_bounds (UringCtx_symlinkat E target link_path new_dir_fd)"
  "contract E in_bounds (UringCtx_linkat E old_path new_path old_dir_fd new_dir_fd flags)"
  "contract E in_bounds (UringCtx_sync_file_range E fd len offset flags)"
  "contract E in_bounds (UringCtx_fadvise E fd offset len advice)"
  "contract E in_bounds (UringCtx_madvise E buf advice)"
  "contract E in_bounds (UringCtx_openat2 E path dir_fd)"
  "contract E in_bounds (UringCtx_getxattr E path name val)"
  "contract E in_bounds (UringCtx_setxattr E path name val flags)"
  "contract E in_bounds (UringCtx_fgetxattr E fd name val)"
  "contract E in_bounds (UringCtx_fsetxattr E fd name val flags)"
  "contract E in_bounds (UringCtx_ftruncate E fd len)"
  "contract E in_bounds (UringCtx_files_update E fds offset)"
  "contract E in_bounds (UringCtx_readv_fixed E fd parts offset rw_flags buf_index)"
  "contract E in_bounds (UringCtx_writev_fixed E fd parts offset rw_flags buf_index)"
  "contract E in_bounds (UringCtx_link_read_write E fd_in buf offset_in fd_out offset_out)"
  "contract E in_bounds (UringCtx_read E fd len offset)"
  "contract E in_bounds (UringCtx_write E fd data offset)"
  "0 \<le> block_size \<Longrightarrow> 0 \<le> blocks \<Longrightarrow> contract E in_bounds (UringCtx_read_batch E fd block_size blocks offset)"
  "contract E in_bounds (UringCtx_read_offsets E fd block_size offsets offset_bytes)"
  unfolding method_defs submit_rw_def Let_def UringCtx_ring_fd_def
  by (intro contract_intros; simp add: call_defs call_facts)+

lemma net_methods:
  "contract E in_bounds (UringCtx_send E fd data flags)"
  "contract E in_bounds (UringCtx_recv E fd buf flags)"
  "contract E in_bounds (UringCtx_accept E fd flags)"
  "b_kind addr = Bytes \<Longrightarrow> 0 \<le> addr_len \<Longrightarrow> contract E in_bounds (UringCtx_connect E fd addr addr_len)"
  "contract E in_bounds (UringCtx_shutdown E fd how)"
  "contract E in_bounds (UringCtx_sendmsg_iov E fd parts flags)"
  "contract E in_bounds (UringCtx_recvmsg_iov E fd parts flags)"
  "contract E in_bounds (UringCtx_socket E domain typ protocol flags)"
  "b_kind addr = Bytes \<Longrightarrow> 0 \<le> addr_len \<Longrightarrow> contract E in_bounds (UringCtx_bind E fd addr addr_len)"
  "contract E in_bounds (UringCtx_listen E fd backlog)"
  "contract E in_bounds (UringCtx_recv_multishot E fd buf msg_flags)"
  "contract E in_bounds (UringCtx_send_zc E fd data msg_flags zc_flags)"
  "contract E in_bounds (UringCtx_send_zc_fixed E fd data msg_flags zc_flags buf_index)"
  "contract E in_bounds (UringCtx_sendmsg_zc_iov E fd parts flags)"
  "contract E in_bounds (UringCtx_sendmsg_zc_fixed_iov E fd parts flags buf_index)"
  "contract E in_bounds (UringCtx_recv_zc E fd buf msg_flags ioprio_zc)"
  "contract E in_bounds (UringCtx_recvmsg_multishot_iov E fd parts flags)"
  "contract E in_bounds (UringCtx_send_bundle E fd len msg_flags)"
  "b_kind addr = Bytes \<Longrightarrow> 0 \<le> addr_len \<Longrightarrow> contract E in_bounds (UringCtx_sendto E fd data msg_flags addr addr_len)"
  "contract E in_bounds (UringCtx_socket_direct E domain typ protocol file_index flags)"
  "contract E in_bounds (UringCtx_socket_direct_alloc E domain typ protocol flags)"
  "contract E in_bounds (UringCtx_splice E fd_in off_in fd_out off_out nbytes flags)"
  "contract E in_bounds (UringCtx_tee E fd_in fd_out nbytes flags)"
  "contract E in_bounds (UringCtx_pipe E pipe_flags)"
  "contract E in_bounds (UringCtx_pipe_direct E pipe_flags file_index)"
  "contract E in_bounds (UringCtx_poll_add E fd poll_mask user_data)"
  "contract E in_bounds (UringCtx_poll_remove E target_user_data)"
  "contract E in_bounds (UringCtx_async_cancel_fd E fd flags)"
  "contract E in_bounds (UringCtx_link_timeout E sec nsec flags)"
  "contract E in_bounds (UringCtx_poll_update E old_user_data new_user_data poll_mask flags)"
  "contract E in_bounds (UringCtx_timeout_update E target_user_data sec nsec flags)"
  "contract E in_bounds (UringCtx_timeout_remove E target_user_data flags)"
  "contract E in_bounds (UringCtx_async_cancel E user_data flags)"
  "contract E in_bounds (UringCtx_timeout_arm_remove_pair E sec nsec user_data)"
  unfolding method_defs submit_rw_def Let_def UringCtx_ring_fd_def
  by (intro contract_intros; simp add: call_defs call_facts)+

lemma misc_methods:
  "contract E in_bounds (UringCtx_remove_buffers E nr bgid)"
  "contract E in_bounds (UringCtx_msg_ring E fd len_val data flags)"
  "contract E in_bounds (UringCtx_msg_ring_fd E fd source_fd target_fd data flags)"
  "contract E in_bounds (UringCtx_msg_ring_fd_alloc E fd source_fd data flags)"
  "contract E in_bounds (UringCtx_msg_ring_cqe_flags E fd len_val data flags cqe_flags)"
  "contract E in_bounds (UringCtx_nop128 E)"
  "contract E in_bounds (UringCtx_fixed_fd_install E fd install_flags)"
  "contract E in_bounds (UringCtx_epoll_ctl E epfd fd op has_event)"
  "contract E in_bounds (UringCtx_epoll_wait E epfd maxevents flags)"
  "contract E in_bounds (UringCtx_waitid E idtype pid options flags info)"
  "contract E in_bounds (UringCtx_futex_wake E uaddr val fmask futex_flags flags)"
  "contract E in_bounds (UringCtx_futex_wait E uaddr val fmask futex_flags flags)"
  "contract E in_bounds (UringCtx_futex_waitv E n flags)"
  "contract E in_bounds (UringCtx_uring_cmd E cmd_op fd)"
  "contract E in_bounds (UringCtx_uring_cmd128 E cmd_op fd)"
  "contract E in_bounds (UringCtx_cmd_getsockname E fd addr peer)"
  unfolding method_defs submit_rw_def Let_def UringCtx_ring_fd_def
  by (intro contract_intros; simp add: call_defs call_facts)+

lemma async_methods:
  "contract E in_bounds (UringCtx_read_async_ptr E fd buf_ptr buf_len offset user_data)"
  "contract E in_bounds (UringCtx_read_async E fd buf offset user_data)"
  "contract E in_bounds (UringCtx_write_async_ptr E fd buf_ptr buf_len offset user_data)"
  "contract E in_bounds (UringCtx_write_async E fd data offset user_data)"
  "contract E in_bounds (UringCtx_splice_submit E fd_in off_in fd_out off_out nbytes splice_flags user_data)"
  "contract E in_bounds (UringCtx_multishot_accept_submit E fd flags user_data)"
  "contract E in_bounds (UringCtx_recv_multishot_buffer_group_submit E fd bgid msg_flags user_data)"
  "contract E in_bounds (UringCtx_wait_completion E)"
  "contract E in_bounds (UringCtx_submit E)"
  "contract E in_bounds (UringCtx_submit_and_wait E wait_nr)"
  unfolding method_defs submit_rw_def Let_def UringCtx_ring_fd_def
  by (intro contract_intros; simp add: call_defs call_facts)+

text \<open>
  \<open>provide_buffers\<close> is the one method that changes the object before its guard: it appends
  the array over the caller's buffer to \<open>_buffer_keepalive\<close>.
\<close>

definition queues_slab :: "'w env \<Rightarrow> ('w, pyres) meth \<Rightarrow> bool" where
  "queues_slab E m \<longleftrightarrow> (\<exists>buf buf_len_each nr bgid bid.
     m = py_map (\<lambda>_. RNone) (UringCtx_provide_buffers E buf buf_len_each nr bgid bid))"

lemma body_provide_buffers:
  "0 \<le> buf_len_each \<Longrightarrow> 0 \<le> nr \<Longrightarrow> body E in_bounds (UringCtx_provide_buffers E buf buf_len_each nr bgid bid)"
  unfolding method_defs Let_def
  by (intro contract_intros; simp add: call_defs call_facts)+

lemma unusable_provide_buffers:
  assumes "\<not> usable E self"
  shows "\<exists>e self'. UringCtx_provide_buffers E buf buf_len_each nr bgid bid (self, w) = (Inl e, (self', w))
    \<and> (self' = self \<or> (\<exists>arr. self' = self\<lparr>u_buffer_keepalive := u_buffer_keepalive self @ [KView arr]\<rparr>))"
  using assms
  by (cases "from_buffer buf (nat (buf_len_each * nr))")
     (auto simp: UringCtx_provide_buffers_def Let_def with_buffer_def py_raise_def sync_none_def sync_call_eq)

lemma contract_enter: "contract E in_bounds (UringCtx_enter E)"
  by (auto simp: contract_def guarded_def UringCtx_enter_def ensure_open_eq intro!: body_quiet split: if_splits)

subsection \<open>The contract of the class\<close>

theorem ring_method_contract: "ring_method E m \<Longrightarrow> contract E in_bounds m \<or> queues_slab E m"
proof (induction rule: ring_method.induct)
  case (m_provide_buffers buf_len_each nr buf bgid bid)
  show ?case by (rule disjI2) (unfold queues_slab_def, intro exI, rule refl)
qed (rule disjI1; rule contract_map;
     simp_all add: sync_methods net_methods misc_methods async_methods contract_enter
       contract_timeout contract_peek contract_cmd_sock)+

theorem ring_method_body: "ring_method E m \<Longrightarrow> body E in_bounds m"
proof (induction rule: ring_method.induct)
  case (m_provide_buffers buf_len_each nr buf bgid bid)
  show ?case by (rule body_map, rule body_provide_buffers) (rule m_provide_buffers)+
qed (rule contract_body; rule contract_map;
     simp_all add: sync_methods net_methods misc_methods async_methods contract_enter
       contract_timeout contract_peek contract_cmd_sock)+

end
