(* ===== verification/Ctx_Props.thy ===== *)
theory Ctx_Props
  imports Ctx_Api
begin

unbundle bit_operations_syntax

text \<open>
  Properties of \<open>UringCtx\<close> as a whole (every public method, through the relation
  \<open>ring_method\<close>), of its construction and its end, and of the declared native functions.
\<close>

subsection \<open>Concrete objects\<close>

text \<open>An environment whose native functions all return \<open>r\<close> and count the calls.\<close>

definition counting_env :: "int \<Rightarrow> nat env" where
  "counting_env r = \<lparr>native = (\<lambda>f args w. (\<lparr>rp_ret = r, rp_out = [], rp_errno = 0\<rparr>, Suc w)),
     thread_ident = 1, ct_errno = 0\<rparr>"

definition open_ctx :: uctx where
  "open_ctx = \<lparr>u_ctx = Some 4096, u_owner_thread_id = Some 1, u_buffer_keepalive = [],
     u_async_io_keepalive = Map.empty\<rparr>"

definition sixteen_bytes :: pybuf where
  "sixteen_bytes = \<lparr>b_kind = Bytes, b_id = 5, b_len = 16, b_nbytes = 16, b_readonly = True,
     b_contiguous = True\<rparr>"

lemmas concrete = counting_env_def open_ctx_def sixteen_bytes_def

subsection \<open>Every method\<close>

text \<open>
  C5: No method of a closed object, or of one used from a thread that does not own it, makes
  a native call: it raises, and neither the world nor the object changes, except that
  \<open>provide_buffers\<close> may already have appended the caller's buffer to \<open>_buffer_keepalive\<close>.  The methods are
  all public ones except the two that end the object, \<open>close\<close> and \<open>__exit__\<close>: these make no native
  call for a closed object either, but have no guard for the thread.
\<close>

theorem unusable_object_makes_no_call:
  assumes "ring_method E m" "\<not> usable E self"
  shows "(\<exists>e self'. m (self, w) = (Inl e, (self', w))
        \<and> (self' = self \<or> queues_slab E m
             \<and> (\<exists>arr. self' = self\<lparr>u_buffer_keepalive := u_buffer_keepalive self @ [KView arr]\<rparr>)))
    \<and> (\<not> truthy (u_ctx self) \<longrightarrow> snd (snd (UringCtx_close E (self, w))) = w
          \<and> snd (snd (UringCtx_exit E (self, w))) = w)"
proof -
  have "\<exists>e self'. m (self, w) = (Inl e, (self', w))
        \<and> (self' = self \<or> queues_slab E m
             \<and> (\<exists>arr. self' = self\<lparr>u_buffer_keepalive := u_buffer_keepalive self @ [KView arr]\<rparr>))"
    using ring_method_contract [OF assms(1)]
  proof
    assume "contract E in_bounds m"
    then obtain e where "m (self, w) = (Inl e, (self, w))"
      using assms(2) unfolding contract_def guarded_def by blast
    then show ?thesis by blast
  next
    assume m: "queues_slab E m"
    then obtain buf n nr bgid bid
      where "m = py_map (\<lambda>_. RNone) (UringCtx_provide_buffers E buf n nr bgid bid)"
      unfolding queues_slab_def by blast
    with m unusable_provide_buffers [OF assms(2), of buf n nr bgid bid w]
    show ?thesis by (auto simp: py_map_def py_bind_eq)
  qed
  then show ?thesis by (simp add: UringCtx_close_def UringCtx_exit_def Let_def)
qed

theorem unusable_object_makes_no_call_witness:
  "\<exists>e self'. py_map RInt (UringCtx_write (counting_env 4) 3 sixteen_bytes 0)
       (open_ctx\<lparr>u_owner_thread_id := Some 2\<rparr>, 0) = (Inl e, (self', 0))"
  using unusable_object_makes_no_call [OF ring_method.m_write,
      of "counting_env 4" "open_ctx\<lparr>u_owner_thread_id := Some 2\<rparr>" 3 sixteen_bytes 0 0]
  by (auto simp: usable_def concrete)

text \<open>
  \<open>close\<close> has no guard: called from a thread that does not own the object it destroys the ring.
\<close>

theorem foreign_close_destroys_the_ring:
  assumes "uctx_inv self" "u_ctx self = Some h"
  shows "snd (snd (UringCtx_close E (self, w))) = snd (native E ''uring_destroy''
       [if take_bit 64 h = 0 then CNull else CInt (take_bit 64 h)] w)
    \<and> u_ctx (fst (snd (UringCtx_close E (self, w)))) = None"
  using assms by (simp add: UringCtx_close_def uctx_inv_def Let_def invoke_native_def uring_destroy_def split_beta)

theorem foreign_close_destroys_the_ring_witness:
  "UringCtx_close (counting_env 0) (open_ctx\<lparr>u_owner_thread_id := Some 2\<rparr>, 0)
     = (Inr (), (open_ctx\<lparr>u_ctx := None, u_owner_thread_id := None\<rparr>, 1))"
  using foreign_close_destroys_the_ring [of "open_ctx\<lparr>u_owner_thread_id := Some 2\<rparr>" 4096 "counting_env 0" 0]
  by (simp add: uctx_inv_def UringCtx_close_def invoke_native_def uring_destroy_def concrete)

text \<open>
  C13: No method swallows the failure of a native call, whichever of its calls fails and whatever
  the others return: nothing is called after the first failure, and the method raises \<open>UringError\<close> with its
  \<open>errno\<close>.  The calls are read from any log of the world; \<open>-ETIME\<close> from \<open>uring_timeout_sync\<close>, which
  says that the timer has expired, is no failure.
\<close>

theorem native_failure_is_raised:
  assumes "ring_method E m" "logs E log" "m (self, w) = (res, (self', w'))"
  shows "\<exists>calls. log w' = log w @ calls
      \<and> list_all (\<lambda>c. \<not> failed_call c) (butlast calls)
      \<and> (calls \<noteq> [] \<and> failed_call (last calls) \<longrightarrow>
           (\<exists>u. res = Inl (UringError u) \<and> ue_errno u = - snd (last calls)))"
proof -
  have "reports E m" using ring_method_body [OF assms(1)] by (simp add: body_def)
  then have "\<exists>cs. log (snd (snd (m (self, w)))) = log (snd (self, w)) @ cs
      \<and> raises_failure cs (fst (m (self, w)))"
    using assms(2) unfolding reports_def by blast
  then show ?thesis by (simp add: assms(3) raises_failure_def)
qed

text \<open>A library in which only the function \<open>g\<close> fails, with \<open>-5\<close>, and which logs its calls.\<close>

definition failing_env :: "string \<Rightarrow> call_log env" where
  "failing_env g = \<lparr>native = (\<lambda>f args w. let r = (if f = g then - 5 else 3)
       in (\<lparr>rp_ret = r, rp_out = [], rp_errno = 0\<rparr>, w @ [(f, r)])),
     thread_ident = 1, ct_errno = 0\<rparr>"

theorem native_failure_is_raised_witness:
  "\<exists>u. fst (py_map RBytes (UringCtx_probe_supported_mask (failing_env ''uring_probe_supported_mask''))
         (open_ctx, [])) = Inl (UringError u) \<and> ue_errno u = 5"
  using native_failure_is_raised [OF ring_method.m_probe_supported_mask,
      of "failing_env ''uring_probe_supported_mask''" "\<lambda>w. w" open_ctx "[]"]
  by (simp add: logs_def Let_def failing_env_def open_ctx_def UringCtx_probe_supported_mask_def
      UringCtx_probe_last_op_def zeroed_buffer_def with_buffer_def sync_int_def sync_call_eq usable_def
      invoke_native_def uring_probe_last_op_def uring_probe_supported_mask_def raise_for_neg_errno_def
      convert_ret_def py_map_def py_bind_eq py_return_def failed_call_def)

text \<open>
  Every method passes its native function arguments of the declared types: with
  arguments as documented, none of them raises \<open>ctypes.ArgumentError\<close>.
\<close>

theorem arguments_always_convert:
  assumes "ring_method E m" shows "fst (m s) \<noteq> Inl ArgumentError"
  using ring_method_body [OF assms] unfolding body_def converts_def by blast

theorem arguments_always_convert_witness:
  "fst (py_map (\<lambda>_. RNone) (UringCtx_connect (counting_env 0) 3 sixteen_bytes 16) (open_ctx, 0))
     \<noteq> Inl ArgumentError"
  by (rule arguments_always_convert [OF ring_method.m_connect]) (simp_all add: sixteen_bytes_def)

text \<open>The environment that records its calls.\<close>

definition traced :: "'w env \<Rightarrow> ((string \<times> cval list) list \<times> 'w) env" where
  "traced E = \<lparr>native = (\<lambda>f args (t, w). case native E f args w of (r, w') \<Rightarrow>
        (r, (t @ [(f, args)], w'))),
     thread_ident = thread_ident E, ct_errno = ct_errno E\<rparr>"

lemma usable_traced [simp]: "usable (traced E) = usable E"
  by (auto simp: usable_def traced_def fun_eq_iff split: option.split)





subsection \<open>Methods that do not do what they are for\<close>

text \<open>
  \<open>cmd_sock\<close> passes the caller's \<open>optlen\<close> with a copy of \<open>optval\<close>; when it is larger than
  the copy, the kernel is told to read past its end.
\<close>

theorem cmd_sock_reads_past_the_copy:
  assumes "usable E self" "b_contiguous b" "int (b_len b) < optlen" "optlen < 2 ^ 31"
  shows "\<exists>args. (''uring_cmd_sock_sync'', args)
      \<in> set (fst (snd (snd (UringCtx_cmd_sock (traced E) cmd_op fd level optname (Some b) optlen
            (self, ([], w)))))) \<and> \<not> in_bounds ''uring_cmd_sock_sync'' args"
proof -
  have u: "usable (traced E) self" using assms(1) by simp
  have "signed_take_bit 31 optlen = optlen" using assms(3,4) by (intro signed_take_bit_id) auto
  then show ?thesis using u assms(2,3)
    by (auto simp: UringCtx_cmd_sock_def with_buffer_def from_buffer_copy_def sync_int_def sync_call_eq invoke_native_def
        uring_cmd_sock_sync_def traced_def in_bounds_def fits_def raise_for_neg_errno_def
        py_return_def split: prod.splits)
qed

theorem cmd_sock_reads_past_the_copy_witness:
  "\<exists>args. (''uring_cmd_sock_sync'', args)
      \<in> set (fst (snd (snd (UringCtx_cmd_sock (traced (counting_env 0)) 0 3 1 2 (Some sixteen_bytes)
            64 (open_ctx, ([], 0)))))) \<and> \<not> in_bounds ''uring_cmd_sock_sync'' args"
  by (rule cmd_sock_reads_past_the_copy) (simp_all add: usable_def concrete)

text \<open>
  \<open>futex_wake\<close> and \<open>futex_wait\<close> never reach the native library, and never return.
\<close>

theorem futex_methods_always_raise:
  "\<exists>e. UringCtx_futex_wake E uaddr val fmask futex_flags flags (self, w) = (Inl e, (self, w))
     \<and> UringCtx_futex_wait E uaddr val fmask futex_flags flags (self, w) = (Inl e, (self, w))"
  by (cases "from_buffer uaddr 4")
     (auto simp: UringCtx_futex_wake_def UringCtx_futex_wait_def with_buffer_def py_bind_eq
       py_raise_def ring_eq)

subsection \<open>Reading\<close>

text \<open>
  \<open>read\<close> returns exactly the bytes the call reported: as many as its result, at most
  \<open>length\<close>, a prefix of the buffer; and a negative result is raised with offset and length.
\<close>

theorem read_returns_what_was_read:
  assumes "usable E self" "0 \<le> len"
    and "native E ''uring_read_sync'' [ring, CInt (signed_take_bit 31 fd), CMem (Zeroed (nat len)),
           CInt (take_bit 32 len), CInt (signed_take_bit 63 offset)] w = (r, w')"
    and "from_param C_void_p (PInt (the (u_ctx self))) = Some ring"
    and "- (2 ^ 31) \<le> rp_ret r" "rp_ret r < 2 ^ 31"
  shows "UringCtx_read E fd len offset (self, w) =
     (if rp_ret r < 0
      then Inl (UringError (UringError_init (- rp_ret r) ''uring_read_sync'' None None
             (Some offset) (Some len)))
      else Inr (take (nat (min (rp_ret r) len)) (rp_out r @ replicate (nat len) 0)), (self, w'))"
proof -
  have "convert_ret (Some C_int) (rp_ret r) = rp_ret r"
    using assms(5,6) by (simp add: convert_ret_def signed_take_bit_id)
  moreover have "take (nat x) (raw_after (nat len) r') =
      take (nat (min x len)) (rp_out r' @ replicate (nat len) 0)" if "0 \<le> x" for x and r'
  proof -
    have "nat (min x len) = min (nat x) (nat len)" by (simp add: min_def)
    then show ?thesis by (simp only: raw_after_def take_take)
  qed
  ultimately show ?thesis
    using assms(1-4)
    by (simp add: UringCtx_read_def zeroed_buffer_def with_buffer_def sync_call_info_def
        ring_call_eq invoke_native_def uring_read_sync_def raise_for_neg_errno_def py_defs
        split: if_splits)
qed

theorem read_returns_what_was_read_witness:
  "UringCtx_read (counting_env 2) 3 4 0 (open_ctx, 0) = (Inr [0, 0], (open_ctx, 1))"
  using read_returns_what_was_read [of "counting_env 2" open_ctx 4 "CInt 4096" 3 0 0
      "\<lparr>rp_ret = 2, rp_out = [], rp_errno = 0\<rparr>" 1]
  by (simp add: usable_def concrete numeral_2_eq_2)

subsection \<open>Construction and end\<close>

text \<open>
  When \<open>uring_create_ex\<close> returns \<open>NULL\<close>, the constructor reports \<open>EOPNOTSUPP\<close> whatever
  \<open>errno\<close> the C side set: the library is loaded without \<open>use_errno\<close>, so
  \<open>ctypes.get_errno()\<close> is still the thread's initial 0.
\<close>

theorem create_failure_hides_errno:
  assumes "ct_errno E = 0"
    and "\<And>args. rp_ret (fst (native E ''uring_create_ex'' args w)) = 0"
  shows "fst (UringCtx_init E entries setup_flags sq_thread_cpu sq_thread_idle chk w)
      = Inl (uring_error_detail EOPNOTSUPP ''uring_create_ex'' (create_failed_detail setup_flags))"
  using assms by (simp add: UringCtx_init_def invoke_native_def uring_create_ex_def split_beta
      convert_ret_def get_errno_after_def CDLL_use_errno_def)

theorem create_failure_hides_errno_witness:
  "fst (UringCtx_init ((counting_env 0)\<lparr>native := (\<lambda>f args w.
          (\<lparr>rp_ret = 0, rp_out = [], rp_errno = EPERM\<rparr>, w))\<rparr>) 64 0 (- 1) 0 True 0)
     = Inl (uring_error_detail EOPNOTSUPP ''uring_create_ex'' (create_failed_detail 0))"
  by (rule create_failure_hides_errno) (simp_all add: counting_env_def)

text \<open>
  C38: \<open>close\<close> never raises, destroys an open ring with exactly one native call, drops every
  reference to a buffer, and leaves an object on which a second \<open>close\<close> changes nothing.
\<close>

theorem close_releases_and_is_idempotent:
  assumes "uctx_inv self" "UringCtx_close E (self, w) = (res, (self', w'))"
  shows "res = Inr ()
    \<and> u_ctx self' = None \<and> u_buffer_keepalive self' = [] \<and> u_async_io_keepalive self' = Map.empty
    \<and> w' = (case u_ctx self of
         None \<Rightarrow> w
       | Some h \<Rightarrow> snd (native E ''uring_destroy''
            [if take_bit 64 h = 0 then CNull else CInt (take_bit 64 h)] w))
    \<and> UringCtx_close E (self', w') = (Inr (), (self', w'))"
proof (cases "u_ctx self")
  case None
  then show ?thesis using assms by (auto simp: UringCtx_close_def uctx_inv_def Let_def)
next
  case (Some h)
  then have "h \<noteq> 0" using assms(1) by (simp add: uctx_inv_def)
  then show ?thesis using assms(2) Some
    by (auto simp: UringCtx_close_def Let_def invoke_native_def uring_destroy_def split_beta)
qed

theorem close_releases_and_is_idempotent_witness:
  "UringCtx_close (counting_env 0)
       (fst (snd (UringCtx_close (counting_env 0) (open_ctx, 0))), 1)
     = (Inr (), (fst (snd (UringCtx_close (counting_env 0) (open_ctx, 0))), 1))"
  using close_releases_and_is_idempotent [of open_ctx "counting_env 0" 0 "Inr ()"
      "\<lparr>u_ctx = None, u_owner_thread_id = None, u_buffer_keepalive = [],
        u_async_io_keepalive = Map.empty\<rparr>" 1]
  by (simp add: uctx_inv_def UringCtx_close_def invoke_native_def uring_destroy_def concrete)

subsection \<open>The declared functions\<close>

text \<open>The values of an integer type of C on LP64 Linux.\<close>

fun c_range :: "cdecl \<Rightarrow> (int \<times> int) option" where
  "c_range D_int = Some (- (2 ^ 31), 2 ^ 31)"
| "c_range D_unsigned = Some (0, 2 ^ 32)"
| "c_range D_uint32_t = Some (0, 2 ^ 32)"
| "c_range D_socklen_t = Some (0, 2 ^ 32)"
| "c_range D_longlong = Some (- (2 ^ 63), 2 ^ 63)"
| "c_range D_int64_t = Some (- (2 ^ 63), 2 ^ 63)"
| "c_range D_uint64_t = Some (0, 2 ^ 64)"
| "c_range D_size_t = Some (0, 2 ^ 64)"
| "c_range _ = None"

definition in_c_range :: "cdecl \<Rightarrow> int \<Rightarrow> bool" where
  "in_c_range d n \<longleftrightarrow> (case c_range d of None \<Rightarrow> False | Some (lo, hi) \<Rightarrow> lo \<le> n \<and> n < hi)"

lemma from_param_in_range:
  "abi_compatible t d \<Longrightarrow> in_c_range d n \<Longrightarrow> from_param t (PInt n) = Some (CInt n)"
  by (cases "(t, d)" rule: abi_compatible.cases) (auto simp: in_c_range_def wrap_simps split: cdecl.splits)

lemma convert_ret_in_range:
  "result_compatible rt d \<Longrightarrow> in_c_range d r \<Longrightarrow> convert_ret rt r = r"
proof (cases rt)
  case (Some t)
  assume "result_compatible rt d" "in_c_range d r"
  then show ?thesis unfolding Some
    by (cases "(t, d)" rule: abi_compatible.cases)
      (auto simp: in_c_range_def result_compatible_def convert_ret_def wrap_simps split: cdecl.splits)
qed (simp add: result_compatible_def in_c_range_def)

lemma convert_args_nth:
  "convert_args ts vs = Inr cs \<Longrightarrow> i < length ts \<Longrightarrow> from_param (ts ! i) (vs ! i) = Some (cs ! i)"
  by (induction ts vs arbitrary: cs i rule: convert_args.induct)
    (auto simp: sum_bind_Inr_iff nth_Cons split: option.splits nat.splits)

lemma declarations_agree: "list_all2 binding_agrees all_bindings c_signatures"
  by code_simp

text \<open>
  C29: No declaration of the package cuts a value.  Every function whose \<open>argtypes\<close> and \<open>restype\<close> the package
  declares is one of the C library with as many parameters, and every integer in the range of a
  parameter's C type reaches the function as it is, every result in the range of the C result type comes
  back as it is.
\<close>

theorem declared_types_lose_nothing:
  assumes "(f, ts, rt) \<in> set all_bindings"
  shows "\<exists>ds d. (f, ds, d) \<in> set c_signatures \<and> length ds = length ts
    \<and> (\<forall>args cargs. convert_args ts args = Inr cargs \<longrightarrow>
         (\<forall>i < length ts. \<forall>n. args ! i = PInt n \<and> in_c_range (ds ! i) n \<longrightarrow> cargs ! i = CInt n))
    \<and> (\<forall>r. in_c_range d r \<longrightarrow> convert_ret rt r = r)"
proof -
  obtain i where i: "i < length all_bindings" "all_bindings ! i = (f, ts, rt)"
    using assms by (auto simp: in_set_conv_nth)
  define c where "c = c_signatures ! i"
  have c: "c \<in> set c_signatures" "binding_agrees (f, ts, rt) c"
    using list_all2_nthD [OF declarations_agree i(1)] list_all2_lengthD [OF declarations_agree] i
    by (simp_all add: c_def)
  obtain g ds d where g: "c = (g, ds, d)" by (cases c)
  have d: "g = f" "list_all2 abi_compatible ts ds" "result_compatible rt d"
    using c(2) by (simp_all add: binding_agrees_def g)
  have "cargs ! i = CInt n"
    if "convert_args ts args = Inr cargs" "i < length ts" "args ! i = PInt n" "in_c_range (ds ! i) n" for args cargs i n
    using convert_args_nth [OF that(1,2)] from_param_in_range [OF list_all2_nthD [OF d(2) that(2)] that(4)] that(3) by simp
  moreover have "(f, ds, d) \<in> set c_signatures" using c(1) g d(1) by simp
  moreover have "length ds = length ts" using list_all2_lengthD [OF d(2)] by simp
  ultimately show ?thesis using convert_ret_in_range [OF d(3)] by blast
qed

theorem declared_types_lose_nothing_witness:
  "\<exists>ds d. (''uring_read_async'', ds, d) \<in> set c_signatures
     \<and> (in_c_range (ds ! 5) (2 ^ 64 - 1) \<longrightarrow> (\<forall>cargs. convert_args (fst (snd uring_read_async))
          [PInt 4096, PInt 3, PInt 8192, PInt 16, PInt 0, PInt (2 ^ 64 - 1)] = Inr cargs \<longrightarrow> cargs ! 5 = CInt (2 ^ 64 - 1)))"
proof -
  have "(''uring_read_async'', fst (snd uring_read_async), snd (snd uring_read_async)) \<in> set all_bindings"
    by code_simp
  from declared_types_lose_nothing [OF this] obtain ds d where
    "(''uring_read_async'', ds, d) \<in> set c_signatures"
    "\<forall>args cargs. convert_args (fst (snd uring_read_async)) args = Inr cargs \<longrightarrow>
         (\<forall>i < length (fst (snd uring_read_async)). \<forall>n. args ! i = PInt n \<and> in_c_range (ds ! i) n \<longrightarrow> cargs ! i = CInt n)"
    by blast
  then show ?thesis by (intro exI [of _ ds] exI [of _ d]) (auto simp: uring_read_async_def)
qed

text \<open>
  \<open>EpollEvent\<close> does not have the layout of the packed x86-64 \<open>struct epoll_event\<close>: \<open>data\<close>
  is at offset 8 of 16 bytes instead of 4 of 12, so an array of events is read with the
  wrong stride.
\<close>

theorem EpollEvent_layout_is_not_packed:
  "field_offsets 0 EpollEvent_fields = [(''events'', 0), (''_pad'', 4), (''data'', 8)]
   \<and> struct_size EpollEvent_fields = 16
   \<and> packed_offsets 0 [(''events'', 4), (''data'', 8)] = [(''events'', 0), (''data'', 4)]"
  by code_simp

end
