(* ===== verification/Pool_C.thy ===== *)
theory Pool_C
  imports Native_Abi "HOL-Library.Multiset"
begin

text \<open>
  The buffer pool of \<open>csrc/uring_wrap.c\<close> (lines 279 to 405): its structure, one function per
  operation over the allocation functions of the C library, the invariant of the structure,
  the abstract view of a pool as a list of byte strings, and the accounting of its allocations.
  \<open>unsigned\<close> values are natural numbers below \<open>2^32\<close>.
\<close>

subsection \<open>Allocation\<close>

text \<open>
  \<open>calloc\<close> gives an address or \<open>NULL\<close> (0); \<open>posix_memalign\<close> fails, or gives an address (which
  may be \<open>NULL\<close> for size 0) with the bytes found there; \<open>free\<close> takes an address.
\<close>

record 'm heap =
  hp_calloc :: "nat \<Rightarrow> 'm \<Rightarrow> int \<times> 'm"
  hp_memalign :: "nat \<Rightarrow> 'm \<Rightarrow> (int \<times> int list) option \<times> 'm"
  hp_free :: "int \<Rightarrow> 'm \<Rightarrow> 'm"

text \<open>What the C library promises, with \<open>owned\<close> the blocks not yet freed.\<close>

definition add_block :: "int \<Rightarrow> int multiset \<Rightarrow> int multiset" where
  "add_block a M = (if a = 0 then M else add_mset a M)"

definition is_addr :: "int \<Rightarrow> bool" where
  "is_addr a \<longleftrightarrow> 0 \<le> a \<and> a < 2 ^ 64"

definition heap_ok :: "'m heap \<Rightarrow> ('m \<Rightarrow> int multiset) \<Rightarrow> bool" where
  "heap_ok H owned \<longleftrightarrow>
     (\<forall>n m a m'. hp_calloc H n m = (a, m') \<longrightarrow> owned m' = add_block a (owned m) \<and> is_addr a)
   \<and> (\<forall>n m r m'. hp_memalign H n m = (r, m') \<longrightarrow>
        (case r of
           None \<Rightarrow> owned m' = owned m
         | Some (a, bs) \<Rightarrow> owned m' = add_block a (owned m) \<and> length bs = n \<and> (a = 0 \<longrightarrow> n = 0) \<and> is_addr a))
   \<and> (\<forall>a m. a \<noteq> 0 \<longrightarrow> a \<in># owned m \<longrightarrow> owned (hp_free H a m) = owned m - {#a#})
   \<and> (\<forall>m. hp_free H 0 m = m)"

subsection \<open>The structure\<close>

record slot =
  sl_addr :: int
  sl_data :: "int list"
  sl_size :: nat
  sl_cap :: nat

(* csrc/uring_wrap.c:279-285 uring_buffer_pool *)
record cpool =
  cp_self :: int
  cp_buffers :: int
  cp_sizes :: int
  cp_capacities :: int
  cp_slots :: "slot list"
  cp_max_capacity :: nat

abbreviation cp_count :: "cpool \<Rightarrow> nat" where
  "cp_count p \<equiv> length (cp_slots p)"

subsection \<open>Operations\<close>

(* csrc/uring_wrap.c:314-316 uring_buffer_pool_create *)
definition free_all :: "'m heap \<Rightarrow> int list \<Rightarrow> 'm \<Rightarrow> 'm" where
  "free_all H as m = foldl (\<lambda>m a. hp_free H a m) m as"

text \<open>The allocation loop: the slots made so far, and whether one allocation failed.\<close>

(* csrc/uring_wrap.c:310-326 uring_buffer_pool_create *)
fun alloc_slots :: "'m heap \<Rightarrow> nat \<Rightarrow> nat \<Rightarrow> slot list \<Rightarrow> 'm \<Rightarrow> (bool \<times> slot list) \<times> 'm" where
  "alloc_slots H 0 sz made m = ((True, made), m)"
| "alloc_slots H (Suc n) sz made m =
     (case hp_memalign H sz m of
        (None, m) \<Rightarrow> ((False, made), m)
      | (Some (p, bs), m) \<Rightarrow>
          alloc_slots H n sz
            (made @ [\<lparr>sl_addr = p, sl_data = bs, sl_size = 0, sl_cap = sz\<rparr>]) m)"

(* csrc/uring_wrap.c:287-329 uring_buffer_pool_create *)
definition uring_buffer_pool_create_c ::
  "'m heap \<Rightarrow> nat \<Rightarrow> nat \<Rightarrow> 'm \<Rightarrow> cpool option \<times> 'm" where
  "uring_buffer_pool_create_c H initial_count initial_size m =
     (case hp_calloc H 32 m of (pool, m) \<Rightarrow>
      if pool = 0 then (None, m)
      else case hp_calloc H (8 * initial_count) m of (buffers, m) \<Rightarrow>
           case hp_calloc H (4 * initial_count) m of (sizes, m) \<Rightarrow>
           case hp_calloc H (4 * initial_count) m of (capacities, m) \<Rightarrow>
             if buffers = 0 \<or> sizes = 0 \<or> capacities = 0
             then (None, free_all H [buffers, sizes, capacities, pool] m)
             else case alloc_slots H initial_count initial_size [] m of
               ((False, made), m) \<Rightarrow>
                  (None, free_all H (map sl_addr made @ [buffers, sizes, capacities, pool]) m)
             | ((True, made), m) \<Rightarrow>
                  (Some \<lparr>cp_self = pool, cp_buffers = buffers, cp_sizes = sizes,
                     cp_capacities = capacities, cp_slots = made,
                     cp_max_capacity = initial_size\<rparr>, m))"

(* csrc/uring_wrap.c:331-369 uring_buffer_pool_resize *)
definition uring_buffer_pool_resize_c ::
  "'m heap \<Rightarrow> cpool \<Rightarrow> nat \<Rightarrow> nat \<Rightarrow> 'm \<Rightarrow> (int \<times> cpool) \<times> 'm" where
  "uring_buffer_pool_resize_c H p index new_size m =
     (if index \<ge> cp_count p then ((- EINVAL, p), m)
      else let s = cp_slots p ! index in
      if new_size \<le> sl_cap s
      then ((0, p\<lparr>cp_slots := (cp_slots p)[index := s\<lparr>sl_size := new_size\<rparr>]\<rparr>), m)
      else case hp_memalign H new_size m of
        (None, m) \<Rightarrow> ((- ENOMEM, p), m)
      | (Some (new_buf, bs), m) \<Rightarrow>
          let data = (if sl_addr s \<noteq> 0 \<and> sl_size s > 0
                      then (let copy_size = min (sl_size s) new_size
                            in take copy_size (sl_data s) @ drop copy_size bs)
                      else bs);
              s' = \<lparr>sl_addr = new_buf, sl_data = data, sl_size = new_size, sl_cap = new_size\<rparr>
          in ((0, p\<lparr>cp_slots := (cp_slots p)[index := s'],
                    cp_max_capacity := max (cp_max_capacity p) new_size\<rparr>),
              hp_free H (sl_addr s) m))"

text \<open>Address and size; \<open>NULL\<close> and 0 for an index that is out of range.\<close>

(* csrc/uring_wrap.c:371-379 uring_buffer_pool_get *)
definition uring_buffer_pool_get_c :: "cpool \<Rightarrow> nat \<Rightarrow> int \<times> nat" where
  "uring_buffer_pool_get_c p index =
     (if index \<ge> cp_count p then (0, 0)
      else (sl_addr (cp_slots p ! index), sl_size (cp_slots p ! index)))"

(* csrc/uring_wrap.c:381-388 uring_buffer_pool_set_size *)
definition uring_buffer_pool_set_size_c :: "cpool \<Rightarrow> nat \<Rightarrow> nat \<Rightarrow> int \<times> cpool" where
  "uring_buffer_pool_set_size_c p index new_size =
     (if index \<ge> cp_count p \<or> new_size > sl_cap (cp_slots p ! index) then (- EINVAL, p)
      else (0, p\<lparr>cp_slots := (cp_slots p)[index := (cp_slots p ! index)\<lparr>sl_size := new_size\<rparr>]\<rparr>))"

(* csrc/uring_wrap.c:390-405 uring_buffer_pool_destroy *)
definition uring_buffer_pool_destroy_c :: "'m heap \<Rightarrow> cpool \<Rightarrow> 'm \<Rightarrow> 'm" where
  "uring_buffer_pool_destroy_c H p m =
     free_all H (filter (\<lambda>a. a \<noteq> 0) (map sl_addr (cp_slots p))
       @ [cp_buffers p, cp_sizes p, cp_capacities p, cp_self p]) m"

subsection \<open>The invariant\<close>

definition slot_ok :: "slot \<Rightarrow> bool" where
  "slot_ok s \<longleftrightarrow> sl_size s \<le> sl_cap s \<and> length (sl_data s) = sl_cap s
     \<and> (sl_addr s = 0 \<longrightarrow> sl_cap s = 0) \<and> is_addr (sl_addr s)"

definition cpool_ok :: "cpool \<Rightarrow> bool" where
  "cpool_ok p \<longleftrightarrow> (\<forall>s \<in> set (cp_slots p). slot_ok s \<and> sl_cap s \<le> cp_max_capacity p)"

text \<open>The blocks a pool owns.\<close>

definition blocks :: "int list \<Rightarrow> int multiset" where
  "blocks as = mset (filter (\<lambda>a. a \<noteq> 0) as)"

definition pool_blocks :: "cpool \<Rightarrow> int multiset" where
  "pool_blocks p = blocks (map sl_addr (cp_slots p)
     @ [cp_buffers p, cp_sizes p, cp_capacities p, cp_self p])"

lemma blocks_simps [simp]:
  "blocks [] = {#}" "blocks (a # as) = add_block a (blocks as)" "blocks (as @ bs) = blocks as + blocks bs"
  by (simp_all add: blocks_def add_block_def)

lemma add_block_plus: "add_block a M + N = add_block a (M + N)" "M + add_block a N = add_block a (M + N)"
  by (simp_all add: add_block_def)

lemma add_block_commute: "add_block a (add_block b M) = add_block b (add_block a M)"
  by (simp add: add_block_def add_mset_commute)

lemma memalign_law:
  assumes "heap_ok H owned" "hp_memalign H n m = (r, m')"
  shows "r = None \<Longrightarrow> owned m' = owned m"
    and "r = Some (a, bs) \<Longrightarrow> owned m' = add_block a (owned m) \<and> length bs = n \<and> (a = 0 \<longrightarrow> n = 0) \<and> is_addr a"
proof -
  have "case r of None \<Rightarrow> owned m' = owned m
      | Some (a, bs) \<Rightarrow> owned m' = add_block a (owned m) \<and> length bs = n \<and> (a = 0 \<longrightarrow> n = 0) \<and> is_addr a"
    using assms unfolding heap_ok_def by blast
  then show "r = None \<Longrightarrow> owned m' = owned m"
      "r = Some (a, bs) \<Longrightarrow> owned m' = add_block a (owned m) \<and> length bs = n \<and> (a = 0 \<longrightarrow> n = 0) \<and> is_addr a"
    by auto
qed

lemma calloc_law:
  "heap_ok H owned \<Longrightarrow> hp_calloc H n m = (a, m') \<Longrightarrow> owned m' = add_block a (owned m) \<and> is_addr a"
  unfolding heap_ok_def by blast

lemma heap_free:
  assumes "heap_ok H owned"
  shows "hp_free H 0 m = m" "a \<noteq> 0 \<Longrightarrow> a \<in># owned m \<Longrightarrow> owned (hp_free H a m) = owned m - {#a#}"
proof -
  have "(\<forall>a m. a \<noteq> 0 \<longrightarrow> a \<in># owned m \<longrightarrow> owned (hp_free H a m) = owned m - {#a#})
      \<and> (\<forall>m. hp_free H 0 m = m)"
    using assms unfolding heap_ok_def by (elim conjE) (intro conjI)
  then show "hp_free H 0 m = m"
      "a \<noteq> 0 \<Longrightarrow> a \<in># owned m \<Longrightarrow> owned (hp_free H a m) = owned m - {#a#}" by auto
qed

lemma free_law:
  assumes "heap_ok H owned" "owned m = add_block a M" shows "owned (hp_free H a m) = M"
proof (cases "a = 0")
  case True
  moreover have "hp_free H 0 m = m" by (rule heap_free [OF assms(1)])
  ultimately show ?thesis using assms(2) by (simp add: add_block_def)
next
  case False
  then have own: "owned m = add_mset a M" using assms(2) by (simp add: add_block_def)
  then have "a \<in># owned m" by simp
  then have "owned (hp_free H a m) = owned m - {#a#}"
    using False heap_free(2) [OF assms(1)] by blast
  then show ?thesis by (simp add: own)
qed

lemma free_all_law:
  "heap_ok H owned \<Longrightarrow> owned m = blocks as + M \<Longrightarrow> owned (free_all H as m) = M"
proof (induction as arbitrary: m)
  case (Cons a as)
  have "owned (hp_free H a m) = blocks as + M"
    using Cons.prems(2) by (intro free_law [OF Cons.prems(1)]) (simp add: add_block_plus)
  then have "owned (free_all H as (hp_free H a m)) = M" by (rule Cons.IH [OF Cons.prems(1)])
  then show ?case by (simp add: free_all_def)
qed (simp add: free_all_def)

definition new_slots :: "nat \<Rightarrow> slot list \<Rightarrow> bool" where
  "new_slots sz ss \<longleftrightarrow> (\<forall>s \<in> set ss. sl_size s = 0 \<and> sl_cap s = sz \<and> length (sl_data s) = sz
     \<and> (sl_addr s = 0 \<longrightarrow> sz = 0) \<and> is_addr (sl_addr s))"

lemma alloc_slots_spec:
  assumes "heap_ok H owned" "alloc_slots H n sz made m = ((ok, slots), m')"
  shows "\<exists>new. slots = made @ new \<and> new_slots sz new \<and> (ok \<longrightarrow> length new = n)
    \<and> owned m' = owned m + blocks (map sl_addr new)"
  using assms(2)
proof (induction n arbitrary: made m)
  case 0 then show ?case by (simp add: new_slots_def)
next
  case (Suc n)
  obtain r m1 where r: "hp_memalign H sz m = (r, m1)" by fastforce
  show ?case
  proof (cases r)
    case None
    then show ?thesis using Suc.prems r memalign_law(1) [OF assms(1) r] by (simp add: new_slots_def)
  next
    case (Some abs)
    obtain a bs where abs: "abs = (a, bs)" by fastforce
    let ?s = "\<lparr>sl_addr = a, sl_data = bs, sl_size = 0, sl_cap = sz\<rparr>"
    have law: "owned m1 = add_block a (owned m)" "length bs = sz" "a = 0 \<longrightarrow> sz = 0" "is_addr a"
      using memalign_law(2) [OF assms(1) r] Some abs by auto
    have "alloc_slots H n sz (made @ [?s]) m1 = ((ok, slots), m')"
      using Suc.prems r Some abs by simp
    then obtain new where new: "slots = (made @ [?s]) @ new" "new_slots sz new"
        "ok \<longrightarrow> length new = n" "owned m' = owned m1 + blocks (map sl_addr new)"
      using Suc.IH by blast
    then have "slots = made @ (?s # new)" "new_slots sz (?s # new)" "ok \<longrightarrow> length (?s # new) = Suc n"
        "owned m' = owned m + blocks (map sl_addr (?s # new))"
      using law by (simp_all add: new_slots_def add_block_plus)
    then show ?thesis by blast
  qed
qed

lemma pool_blocks_slots:
  "pool_blocks (p\<lparr>cp_slots := ss\<rparr>) + blocks (map sl_addr (cp_slots p))
     = pool_blocks p + blocks (map sl_addr ss)"
  by (simp add: pool_blocks_def ac_simps)

lemma blocks_filter [simp]: "blocks (filter (\<lambda>a. a \<noteq> 0) as) = blocks as"
  by (simp add: blocks_def)

lemma blocks_update:
  "i < length as \<Longrightarrow> add_block (as ! i) (blocks (as[i := a])) = add_block a (blocks as)"
proof (induction as arbitrary: i)
  case (Cons b as)
  show ?case
  proof (cases i)
    case 0 then show ?thesis by (simp add: add_block_commute)
  next
    case (Suc j)
    then have "add_block (as ! j) (blocks (as[j := a])) = add_block a (blocks as)"
      using Cons by simp
    then show ?thesis using Suc by (metis add_block_commute blocks_simps(2) list_update_code(3)
          nth_Cons_Suc)
  qed
qed simp

subsection \<open>Each operation against its specification\<close>

text \<open>The abstract pool: the valid bytes of each buffer.\<close>

definition contents :: "cpool \<Rightarrow> int list list" where
  "contents p = map (\<lambda>s. take (sl_size s) (sl_data s)) (cp_slots p)"

lemma create_spec:
  assumes "heap_ok H owned" "uring_buffer_pool_create_c H n sz m = (r, m')"
  shows "case r of
      None \<Rightarrow> owned m' = owned m
    | Some p \<Rightarrow> owned m' = owned m + pool_blocks p \<and> cpool_ok p
        \<and> cp_self p \<noteq> 0 \<and> is_addr (cp_self p)
        \<and> contents p = replicate n [] \<and> (\<forall>s \<in> set (cp_slots p). sl_cap s = sz)"
proof -
  obtain a m1 where 1: "hp_calloc H 32 m = (a, m1)" by fastforce
  obtain b m2 where 2: "hp_calloc H (8 * n) m1 = (b, m2)" by fastforce
  obtain c m3 where 3: "hp_calloc H (4 * n) m2 = (c, m3)" by fastforce
  obtain d m4 where 4: "hp_calloc H (4 * n) m3 = (d, m4)" by fastforce
  obtain ok made m5 where 5: "alloc_slots H n sz [] m4 = ((ok, made), m5)" by (metis prod.collapse)
  note own = calloc_law [OF assms(1) 1] calloc_law [OF assms(1) 2] calloc_law [OF assms(1) 3]
    calloc_law [OF assms(1) 4]
  have spec: "new_slots sz made" "ok \<longrightarrow> length made = n" "owned m5 = owned m4 + blocks (map sl_addr made)"
    using alloc_slots_spec [OF assms(1) 5] by auto
  show ?thesis
  proof (cases "a = 0")
    case True
    then show ?thesis using assms(2) 1 own by (auto simp: uring_buffer_pool_create_c_def add_block_def)
  next
    case a: False
    show ?thesis
    proof (cases "b = 0 \<or> c = 0 \<or> d = 0")
      case True
      then have r: "r = None" "m' = free_all H [b, c, d, a] m4"
        using assms(2) 1 2 3 4 a by (auto simp: uring_buffer_pool_create_c_def)
      have "owned m4 = blocks [b, c, d, a] + owned m"
        using own by (simp add: add_block_plus add_block_commute)
      then show ?thesis using r free_all_law [OF assms(1)] by simp
    next
      case bcd: False
      show ?thesis
      proof (cases ok)
        case True
        then have "r = Some \<lparr>cp_self = a, cp_buffers = b, cp_sizes = c, cp_capacities = d,
            cp_slots = made, cp_max_capacity = sz\<rparr>" "m' = m5"
          using assms(2) 1 2 3 4 5 a bcd by (auto simp: uring_buffer_pool_create_c_def)
        moreover have "contents \<lparr>cp_self = a, cp_buffers = b, cp_sizes = c, cp_capacities = d,
            cp_slots = made, cp_max_capacity = sz\<rparr> = replicate n []"
          using spec True by (auto simp: contents_def new_slots_def intro!: replicate_eqI)
        ultimately show ?thesis
          using spec own a
          by (auto simp: pool_blocks_def cpool_ok_def slot_ok_def new_slots_def add_block_plus
              add_block_commute)
      next
        case False
        then have r: "r = None" "m' = free_all H (map sl_addr made @ [b, c, d, a]) m5"
          using assms(2) 1 2 3 4 5 a bcd by (auto simp: uring_buffer_pool_create_c_def)
        have "owned m5 = blocks (map sl_addr made @ [b, c, d, a]) + owned m"
          using own spec(3) by (simp add: add_block_plus add_block_commute ac_simps)
        then show ?thesis using r free_all_law [OF assms(1)] by simp
      qed
    qed
  qed
qed

lemma cpool_ok_update:
  assumes "cpool_ok p" "i < cp_count p" "slot_ok s" "sl_cap s \<le> mx" "cp_max_capacity p \<le> mx"
  shows "cpool_ok (p\<lparr>cp_slots := (cp_slots p)[i := s], cp_max_capacity := mx\<rparr>)"
  using assms set_update_subset_insert [of "cp_slots p" i s]
  by (fastforce simp: cpool_ok_def)

lemma contents_update:
  "contents (p\<lparr>cp_slots := (cp_slots p)[i := s]\<rparr>) = (contents p)[i := take (sl_size s) (sl_data s)]"
  "contents (p\<lparr>cp_slots := (cp_slots p)[i := s], cp_max_capacity := mx\<rparr>)
     = (contents p)[i := take (sl_size s) (sl_data s)]"
  by (simp_all add: contents_def map_update)

lemma contents_nth:
  "i < cp_count p \<Longrightarrow> contents p ! i = take (sl_size (cp_slots p ! i)) (sl_data (cp_slots p ! i))"
  by (simp add: contents_def)

lemma pool_slot_ok: "cpool_ok p \<Longrightarrow> i < cp_count p \<Longrightarrow> slot_ok (cp_slots p ! i)"
  by (simp add: cpool_ok_def)

text \<open>
  What \<open>resize\<close> promises: on success only buffer \<open>i\<close> changes, it has the new size, and it
  keeps the old bytes as far as they fit; on failure nothing changes.
\<close>

definition resize_promise :: "cpool \<Rightarrow> nat \<Rightarrow> nat \<Rightarrow> int \<Rightarrow> cpool \<Rightarrow> bool" where
  "resize_promise p i n ret p' \<longleftrightarrow>
     (if ret = 0 then i < cp_count p
        \<and> (\<exists>b. contents p' = (contents p)[i := b] \<and> length b = n
             \<and> take (min n (length (contents p ! i))) b = take n (contents p ! i))
      else p' = p \<and> (ret = - EINVAL \<and> i \<ge> cp_count p \<or> ret = - ENOMEM))"

lemma resize_in_place:
  assumes "cpool_ok p" "i < cp_count p" "n \<le> sl_cap (cp_slots p ! i)"
  defines "s' \<equiv> (cp_slots p ! i)\<lparr>sl_size := n\<rparr>"
  shows "cpool_ok (p\<lparr>cp_slots := (cp_slots p)[i := s']\<rparr>)"
    and "resize_promise p i n 0 (p\<lparr>cp_slots := (cp_slots p)[i := s']\<rparr>)"
    and "pool_blocks (p\<lparr>cp_slots := (cp_slots p)[i := s']\<rparr>) = pool_blocks p"
proof -
  have s: "slot_ok (cp_slots p ! i)" "sl_cap (cp_slots p ! i) \<le> cp_max_capacity p"
    using assms(1,2) by (simp_all add: cpool_ok_def)
  show "cpool_ok (p\<lparr>cp_slots := (cp_slots p)[i := s']\<rparr>)"
    using cpool_ok_update [OF assms(1,2), of s' "cp_max_capacity p"] s assms(3)
    by (simp add: s'_def slot_ok_def)
  have "contents (p\<lparr>cp_slots := (cp_slots p)[i := s']\<rparr>)
      = (contents p)[i := take n (sl_data (cp_slots p ! i))]"
    by (simp add: contents_update s'_def)
  moreover have "length (take n (sl_data (cp_slots p ! i))) = n"
    using s(1) assms(3) by (simp add: slot_ok_def)
  ultimately show "resize_promise p i n 0 (p\<lparr>cp_slots := (cp_slots p)[i := s']\<rparr>)"
    using assms(2) s(1) unfolding resize_promise_def
    by (intro if_P [THEN iffD2])
       (auto simp: contents_nth slot_ok_def min_def intro!: exI [of _ "take n (sl_data (cp_slots p ! i))"])
  have "map sl_addr ((cp_slots p)[i := s']) = map sl_addr (cp_slots p)"
    using assms(2) by (simp add: map_update s'_def list_update_same_conv)
  then show "pool_blocks (p\<lparr>cp_slots := (cp_slots p)[i := s']\<rparr>) = pool_blocks p"
    by (simp add: pool_blocks_def)
qed

lemma resize_reallocated:
  assumes "heap_ok H owned" "cpool_ok p" "i < cp_count p" "sl_cap (cp_slots p ! i) < n"
    and "hp_memalign H n m = (Some (a, bs), m1)" "owned m = pool_blocks p + M"
  defines "s \<equiv> cp_slots p ! i"
  defines "s' \<equiv> \<lparr>sl_addr = a,
      sl_data = (if sl_addr s \<noteq> 0 \<and> sl_size s > 0
                 then take (min (sl_size s) n) (sl_data s) @ drop (min (sl_size s) n) bs else bs),
      sl_size = n, sl_cap = n\<rparr>"
  defines "p' \<equiv> p\<lparr>cp_slots := (cp_slots p)[i := s'], cp_max_capacity := max (cp_max_capacity p) n\<rparr>"
  shows "cpool_ok p'" "resize_promise p i n 0 p'" "owned (hp_free H (sl_addr s) m1) = pool_blocks p' + M"
proof -
  have s: "slot_ok s" using assms(2,3) by (simp add: s_def pool_slot_ok)
  have law: "owned m1 = add_block a (owned m)" "length bs = n" "a = 0 \<longrightarrow> n = 0" "is_addr a"
    using memalign_law(2) [OF assms(1,5)] by auto
  have len: "length (sl_data s') = n"
    using s law(2) assms(4) by (auto simp: s'_def s_def slot_ok_def)
  have "slot_ok s'" using len law(3,4) by (simp add: slot_ok_def s'_def)
  then show "cpool_ok p'"
    unfolding p'_def using assms(2,3) by (intro cpool_ok_update) (simp_all add: s'_def)
  have old: "sl_size s \<le> n" "length (sl_data s) = sl_cap s" "sl_size s \<le> sl_cap s"
    using s assms(4) by (simp_all add: slot_ok_def s_def)
  have "contents p ! i = take (sl_size s) (sl_data s)" using assms(3) by (simp add: contents_nth s_def)
  moreover have "take (sl_size s) (sl_data s') = take (sl_size s) (sl_data s)"
    using s old by (cases "sl_size s = 0") (auto simp: s'_def slot_ok_def)
  ultimately have keep: "take (min n (length (contents p ! i))) (sl_data s') = take n (contents p ! i)"
    using old by (simp add: min_absorb1 min_absorb2)
  have "contents p' = (contents p)[i := sl_data s']"
    using len by (simp add: p'_def contents_update s'_def)
  then show "resize_promise p i n 0 p'"
    using assms(3) keep len unfolding resize_promise_def by auto
  have "add_block (sl_addr s) (blocks (map sl_addr ((cp_slots p)[i := s'])))
      = add_block a (blocks (map sl_addr (cp_slots p)))"
    using blocks_update [of i "map sl_addr (cp_slots p)" a] assms(3)
    by (simp add: map_update s'_def s_def)
  moreover have "pool_blocks p = blocks (map sl_addr (cp_slots p)) + B"
      "pool_blocks p' = blocks (map sl_addr ((cp_slots p)[i := s'])) + B"
    if "B = blocks [cp_buffers p, cp_sizes p, cp_capacities p, cp_self p]" for B
    using that by (simp_all add: pool_blocks_def p'_def)
  ultimately have "owned m1 = add_block (sl_addr s) (pool_blocks p' + M)"
    using law(1) assms(6) by (metis add_block_plus(1) union_assoc)
  then show "owned (hp_free H (sl_addr s) m1) = pool_blocks p' + M"
    by (rule free_law [OF assms(1)])
qed

lemma resize_spec:
  assumes "heap_ok H owned" "cpool_ok p" "owned m = pool_blocks p + M"
    and "uring_buffer_pool_resize_c H p i n m = ((ret, p'), m')"
  shows "cpool_ok p' \<and> resize_promise p i n ret p' \<and> owned m' = pool_blocks p' + M"
proof (cases "i < cp_count p")
  case False
  then show ?thesis
    using assms by (auto simp: uring_buffer_pool_resize_c_def resize_promise_def)
next
  case i: True
  show ?thesis
  proof (cases "n \<le> sl_cap (cp_slots p ! i)")
    case True
    then show ?thesis
      using assms i resize_in_place [OF assms(2) i True]
      by (auto simp: uring_buffer_pool_resize_c_def Let_def)
  next
    case grow: False
    obtain r m1 where r: "hp_memalign H n m = (r, m1)" by fastforce
    show ?thesis
    proof (cases r)
      case None
      then show ?thesis
        using assms i grow r memalign_law(1) [OF assms(1) r]
        by (auto simp: uring_buffer_pool_resize_c_def Let_def resize_promise_def)
    next
      case (Some abs)
      obtain a bs where abs: "abs = (a, bs)" by fastforce
      show ?thesis
        using assms(4) i grow r Some abs
          resize_reallocated [OF assms(1,2) i _ r [unfolded Some abs] assms(3)]
        by (auto simp: uring_buffer_pool_resize_c_def Let_def)
    qed
  qed
qed

lemma set_size_spec:
  assumes "cpool_ok p" "uring_buffer_pool_set_size_c p i n = (ret, p')"
  shows "cpool_ok p' \<and> pool_blocks p' = pool_blocks p
    \<and> (if ret = 0 then i < cp_count p \<and> n \<le> sl_cap (cp_slots p ! i) \<and> resize_promise p i n 0 p'
       else ret = - EINVAL \<and> p' = p)"
  using assms resize_in_place [OF assms(1), of i n]
  by (auto simp: uring_buffer_pool_set_size_c_def split: if_splits)

lemma destroy_spec:
  "heap_ok H owned \<Longrightarrow> owned m = pool_blocks p + M
     \<Longrightarrow> owned (uring_buffer_pool_destroy_c H p m) = M"
  unfolding uring_buffer_pool_destroy_c_def
  by (erule free_all_law) (simp add: pool_blocks_def)

lemma get_spec:
  "cpool_ok p \<Longrightarrow> uring_buffer_pool_get_c p i =
     (if i < cp_count p then (sl_addr (cp_slots p ! i), length (contents p ! i)) else (0, 0))"
  using pool_slot_ok [of p i]
  by (auto simp: uring_buffer_pool_get_c_def contents_nth slot_ok_def)

end
