(* ===== verification/Resource.thy ===== *)
theory Resource
  imports Py_Prelude
begin

text \<open>
  The contract of objects that own a native resource: a guard that every method starts with,
  \<open>__enter__\<close>, and a \<open>close\<close> that releases the resource.  \<open>UringCtx\<close> and \<open>BufferPool\<close>
  provide it; the lemmas on the \<open>with\<close> statement and on use after \<open>close\<close> are proved
  once from it.
\<close>

text \<open>
  Python's \<open>with\<close> statement over a context manager whose \<open>__exit__\<close> returns \<open>None\<close>: the body
  runs when \<open>__enter__\<close> returned, \<open>__exit__\<close> runs however the body ended, and an exception
  of \<open>__exit__\<close> replaces that of the body.
\<close>

definition py_with :: "('s, unit) py \<Rightarrow> ('s, unit) py \<Rightarrow> ('s, 'a) py \<Rightarrow> ('s, 'a) py" where
  "py_with enter exit body = (\<lambda>s. case enter s of
       (Inl e, s1) \<Rightarrow> (Inl e, s1)
     | (Inr _, s1) \<Rightarrow>
         (case body s1 of (res, s2) \<Rightarrow>
            (case exit s2 of
               (Inl e, s3) \<Rightarrow> (Inl e, s3)
             | (Inr _, s3) \<Rightarrow> (res, s3))))"

locale closable =
  fixes is_open :: "'s \<Rightarrow> bool"
    and guard :: "('s, unit) py"
    and enter :: "('s, unit) py"
    and close :: "('s, unit) py"
  assumes guard_open: "is_open s \<Longrightarrow> guard s = (Inr (), s)"
    and guard_closed: "\<not> is_open s \<Longrightarrow> \<exists>e. guard s = (Inl e, s)"
    and enter_keeps: "snd (enter s) = s"
    and enter_open: "is_open s \<Longrightarrow> fst (enter s) = Inr ()"
    and close_returns: "fst (close s) = Inr ()"
    and close_closes: "\<not> is_open (snd (close s))"
    and close_twice: "close (snd (close s)) = (Inr (), snd (close s))"
begin

lemma guarded_after_close: "\<exists>e. py_bind guard k (snd (close s)) = (Inl e, snd (close s))"
  using guard_closed [OF close_closes [of s]] by (auto simp: py_bind_def)

lemma with_eq:
  assumes "is_open s"
  shows "py_with enter close body s = (fst (body s), snd (close (snd (body s))))"
  using enter_open [OF assms] enter_keeps [of s] close_returns [of "snd (body s)"]
  by (auto simp: py_with_def split: prod.split sum.split)

lemma with_closes: "is_open s \<Longrightarrow> \<not> is_open (snd (py_with enter close body s))"
  by (simp add: with_eq close_closes)

lemma with_then_closed:
  "is_open s \<Longrightarrow> close (snd (py_with enter close body s)) = (Inr (), snd (py_with enter close body s))"
  by (simp add: with_eq close_twice)

lemma with_body_closes:
  "is_open s \<Longrightarrow> snd (py_with enter close (\<lambda>s. (res, snd (close s))) s) = snd (close s)"
  by (simp add: with_eq close_twice)

end

end
