(* ===== verification/Buffer_Pool.thy ===== *)
theory Buffer_Pool
  imports Ctx_Core Pool_C Resource
begin

text \<open>
  The class \<open>BufferPool\<close> of \<open>pyuring/native/buffer_pool.py\<close> over the C functions of theory
  \<open>Pool_C\<close>, its reachable states, and the interpretations of the contract of theory
  \<open>Resource\<close> for \<open>UringCtx\<close> and \<open>BufferPool\<close>.
\<close>

subsection \<open>The class\<close>

record bpool = bp_pool :: "int option"

definition pool_closed_detail :: string where
  "pool_closed_detail =
     ''This BufferPool is closed; create a new pool or avoid using it after close().''"

(* pyuring/native/buffer_pool.py:30-36 BufferPool._ensure_open *)
definition BufferPool_ensure_open :: "(bpool \<times> 'w, unit) py" where
  "BufferPool_ensure_open = (\<lambda>(self, w).
     if \<not> truthy (bp_pool self)
     then (Inl (uring_error_detail EINVAL ''BufferPool'' pool_closed_detail), (self, w))
     else (Inr (), (self, w)))"

(* pyuring/native/buffer_pool.py:38-40 BufferPool._pool_live *)
definition BufferPool_pool_live :: "(bpool \<times> 'w, int) py" where
  "BufferPool_pool_live = py_bind BufferPool_ensure_open
     (\<lambda>_. \<lambda>(self, w). (Inr (the (bp_pool self)), (self, w)))"

definition pool_call ::
  "'w env \<Rightarrow> binding \<Rightarrow> pyval list \<Rightarrow> (reply \<Rightarrow> (bpool \<times> 'w, 'a) py) \<Rightarrow> (bpool \<times> 'w, 'a) py" where
  "pool_call E b args k = py_bind BufferPool_pool_live (\<lambda>h. \<lambda>(self, w).
     case invoke_native E b (PInt h # args) w of
       (Inl e, w') \<Rightarrow> (Inl e, (self, w'))
     | (Inr r, w') \<Rightarrow> k r (self, w'))"

(* pyuring/native/buffer_pool.py:42-65 BufferPool.create *)
definition BufferPool_create :: "'w env \<Rightarrow> int \<Rightarrow> int \<Rightarrow> 'w \<Rightarrow> (exn + bpool) \<times> 'w" where
  "BufferPool_create E initial_count initial_size w =
     (case invoke_native E uring_buffer_pool_create [PInt initial_count, PInt initial_size] w of
        (Inl e, w') \<Rightarrow> (Inl e, w')
      | (Inr r, w') \<Rightarrow>
          if rp_ret r = 0 then
            (let err = get_errno_after CDLL_use_errno E r;
                 err = (if err = 0 then ENOMEM else err)
             in (Inl (UringError (UringError_init err ''uring_buffer_pool_create'' None None None None)), w'))
          else (Inr \<lparr>bp_pool = Some (rp_ret r)\<rparr>, w'))"

(* pyuring/native/buffer_pool.py:67-70 BufferPool.resize *)
definition BufferPool_resize :: "'w env \<Rightarrow> int \<Rightarrow> int \<Rightarrow> (bpool \<times> 'w, unit) py" where
  "BufferPool_resize E index new_size =
     pool_call E uring_buffer_pool_resize [PInt index, PInt new_size]
       (\<lambda>r. py_lift (check_ret (rp_ret r) ''uring_buffer_pool_resize''))"

definition bad_index :: "int \<Rightarrow> exn" where
  "bad_index index = uring_error_detail EINVAL ''uring_buffer_pool_get''
     (''invalid buffer index: '' @ str_of_int index)"

definition size_out :: "reply \<Rightarrow> int" where
  "size_out r = (case rp_out r of [] \<Rightarrow> 0 | n # _ \<Rightarrow> take_bit 32 n)"

text \<open>\<open>ctypes.string_at\<close> reads memory of the world.\<close>

(* pyuring/native/buffer_pool.py:72-78 BufferPool.get *)
definition BufferPool_get ::
  "'w env \<Rightarrow> (int \<Rightarrow> int \<Rightarrow> 'w \<Rightarrow> int list) \<Rightarrow> int \<Rightarrow> (bpool \<times> 'w, int list) py" where
  "BufferPool_get E string_at index =
     pool_call E uring_buffer_pool_get [PInt index, PMem (UIntRef 0)] (\<lambda>r (self, w).
       if rp_ret r = 0 then (Inl (bad_index index), (self, w))
       else (Inr (string_at (rp_ret r) (size_out r) w), (self, w)))"

(* pyuring/native/buffer_pool.py:80-86 BufferPool.get_ptr *)
definition BufferPool_get_ptr :: "'w env \<Rightarrow> int \<Rightarrow> (bpool \<times> 'w, int \<times> int) py" where
  "BufferPool_get_ptr E index =
     pool_call E uring_buffer_pool_get [PInt index, PMem (UIntRef 0)] (\<lambda>r.
       if rp_ret r = 0 then py_raise (bad_index index)
       else py_return (rp_ret r, size_out r))"

(* pyuring/native/buffer_pool.py:88-91 BufferPool.set_size *)
definition BufferPool_set_size :: "'w env \<Rightarrow> int \<Rightarrow> int \<Rightarrow> (bpool \<times> 'w, unit) py" where
  "BufferPool_set_size E index new_size =
     pool_call E uring_buffer_pool_set_size [PInt index, PInt new_size]
       (\<lambda>r. py_lift (check_ret (rp_ret r) ''uring_buffer_pool_set_size''))"

(* pyuring/native/buffer_pool.py:93-98 BufferPool.close *)
definition BufferPool_close :: "'w env \<Rightarrow> (bpool \<times> 'w, unit) py" where
  "BufferPool_close E = (\<lambda>(self, w).
     if truthy (bp_pool self)
     then (case invoke_native E uring_buffer_pool_destroy [PInt (the (bp_pool self))] w of
             (Inl e, w') \<Rightarrow> (Inl e, (self, w'))
           | (Inr _, w') \<Rightarrow> (Inr (), (self\<lparr>bp_pool := None\<rparr>, w')))
     else (Inr (), (self, w)))"

(* pyuring/native/buffer_pool.py:100-101 BufferPool.__enter__ *)
definition BufferPool_enter :: "(bpool \<times> 'w, unit) py" where
  "BufferPool_enter = py_return ()"

(* pyuring/native/buffer_pool.py:103-104 BufferPool.__exit__ *)
definition BufferPool_exit :: "'w env \<Rightarrow> (bpool \<times> 'w, unit) py" where
  "BufferPool_exit E = BufferPool_close E"

(* pyuring/native/buffer_pool.py:106-115 BufferPool.__del__ *)
definition BufferPool_del_warns :: "bool \<Rightarrow> bpool \<Rightarrow> bool" where
  "BufferPool_del_warns is_finalizing self \<longleftrightarrow> \<not> is_finalizing \<and> bp_pool self \<noteq> None"

subsection \<open>Both classes meet the contract of a closable resource\<close>

interpretation pool_res: closable "\<lambda>(self, w). truthy (bp_pool self)" BufferPool_ensure_open
  BufferPool_enter "BufferPool_exit E" for E :: "'w env"
  by unfold_locales
    (auto simp: BufferPool_ensure_open_def BufferPool_enter_def BufferPool_exit_def py_return_def
      BufferPool_close_def invoke_native_def uring_buffer_pool_destroy_def split: prod.splits)

interpretation ctx_res: closable "\<lambda>(self, w). usable E self" "UringCtx_ensure_open E"
  "UringCtx_enter E" "UringCtx_exit E" for E :: "'w env"
  by unfold_locales
    (auto simp: ensure_open_eq UringCtx_enter_def UringCtx_exit_def UringCtx_close_def Let_def
      usable_def invoke_native_def uring_destroy_def split: prod.splits)

lemma pool_live_eq:
  "BufferPool_pool_live (self, w) =
     ((if truthy (bp_pool self) then Inr (the (bp_pool self))
       else Inl (uring_error_detail EINVAL ''BufferPool'' pool_closed_detail)), (self, w))"
  by (simp add: BufferPool_pool_live_def BufferPool_ensure_open_def py_bind_def)

lemma pool_call_eq:
  "pool_call E b args k (self, w) =
     (if truthy (bp_pool self)
      then (case invoke_native E b (PInt (the (bp_pool self)) # args) w of
              (Inl e, w') \<Rightarrow> (Inl e, (self, w'))
            | (Inr r, w') \<Rightarrow> k r (self, w'))
      else (Inl (uring_error_detail EINVAL ''BufferPool'' pool_closed_detail), (self, w)))"
  by (simp add: pool_call_def py_bind_def pool_live_eq)

end
