(* ===== verification/Pool_Props.thy ===== *)
theory Pool_Props
  imports Buffer_Pool
begin

text \<open>
  \<open>BufferPool\<close> and the C pool together: the life of one pool from \<open>create\<close> to \<open>close\<close>, with the
  properties of its buffers and of its allocations.
\<close>

subsection \<open>The native functions of the pool\<close>

type_synonym 'm pool_world = "(int \<rightharpoonup> cpool) \<times> 'm"

fun narg :: "cval \<Rightarrow> nat" where
  "narg (CInt n) = nat n"
| "narg _ = 0"

definition plain_reply :: "int \<Rightarrow> int list \<Rightarrow> reply" where
  "plain_reply ret out = \<lparr>rp_ret = ret, rp_out = out, rp_errno = 0\<rparr>"

text \<open>The pool a pointer designates; \<open>NULL\<close> and stray pointers designate none.\<close>

definition pool_at :: "(int \<rightharpoonup> cpool) \<Rightarrow> cval \<Rightarrow> (int \<times> cpool) option" where
  "pool_at ps v = (case v of CInt a \<Rightarrow> map_option (Pair a) (ps a) | _ \<Rightarrow> None)"

definition pool_native ::
  "'m heap \<Rightarrow> string \<Rightarrow> cval list \<Rightarrow> 'm pool_world \<Rightarrow> reply \<times> 'm pool_world" where
  "pool_native H f args = (\<lambda>(ps, m).
     if f = ''uring_buffer_pool_create'' then
       (case uring_buffer_pool_create_c H (narg (args!0)) (narg (args!1)) m of
          (None, m') \<Rightarrow> (plain_reply 0 [], (ps, m'))
        | (Some p, m') \<Rightarrow> (plain_reply (cp_self p) [], (ps(cp_self p \<mapsto> p), m')))
     else case pool_at ps (args!0) of
       None \<Rightarrow> (plain_reply (if f = ''uring_buffer_pool_get'' then 0 else - EINVAL) [0], (ps, m))
     | Some (a, p) \<Rightarrow>
         if f = ''uring_buffer_pool_resize'' then
           (case uring_buffer_pool_resize_c H p (narg (args!1)) (narg (args!2)) m of
              ((ret, p'), m') \<Rightarrow> (plain_reply ret [], (ps(a \<mapsto> p'), m')))
         else if f = ''uring_buffer_pool_get'' then
           (case uring_buffer_pool_get_c p (narg (args!1)) of
              (addr, n) \<Rightarrow> (plain_reply addr [int n], (ps, m)))
         else if f = ''uring_buffer_pool_set_size'' then
           (case uring_buffer_pool_set_size_c p (narg (args!1)) (narg (args!2)) of
              (ret, p') \<Rightarrow> (plain_reply ret [], (ps(a \<mapsto> p'), m)))
         else if f = ''uring_buffer_pool_destroy'' then
           (plain_reply 0 [], (ps(a := None), uring_buffer_pool_destroy_c H p m))
         else (plain_reply (- ENOSYS) [], (ps, m)))"

definition pool_env :: "'m heap \<Rightarrow> 'm pool_world env" where
  "pool_env H = \<lparr>native = pool_native H, thread_ident = 1, ct_errno = 0\<rparr>"

lemmas pool_env_simps = pool_env_def pool_native_def plain_reply_def pool_at_def
  invoke_native_def abi_defs

subsection \<open>The life of a pool\<close>

text \<open>
  States of one object with its pool, from a successful \<open>create\<close> through methods that return
  or raise, up to \<open>close\<close>.
\<close>

datatype pool_op = PResize int int | PSetSize int int | PGetPtr int

fun run_pool_op :: "'w env \<Rightarrow> pool_op \<Rightarrow> (bpool \<times> 'w, unit) py" where
  "run_pool_op E (PResize i n) = BufferPool_resize E i n"
| "run_pool_op E (PSetSize i n) = BufferPool_set_size E i n"
| "run_pool_op E (PGetPtr i) = py_map (\<lambda>_. ()) (BufferPool_get_ptr E i)"

inductive pool_life :: "'m heap \<Rightarrow> 'm pool_world \<Rightarrow> bpool \<times> 'm pool_world \<Rightarrow> bool"
  for H w0 where
  created: "BufferPool_create (pool_env H) n sz w0 = (Inr self, w) \<Longrightarrow> pool_life H w0 (self, w)"
| used: "pool_life H w0 s \<Longrightarrow> run_pool_op (pool_env H) oper s = (res, s') \<Longrightarrow> pool_life H w0 s'"

text \<open>An open pool: its handle is valid, the structure is sound and its blocks are extra.\<close>

definition pool_live_ok :: "('m \<Rightarrow> int multiset) \<Rightarrow> int multiset \<Rightarrow> bpool \<times> 'm pool_world \<Rightarrow> bool" where
  "pool_live_ok owned M s \<longleftrightarrow> (case s of (self, ps, m) \<Rightarrow>
     \<exists>a p. bp_pool self = Some a \<and> a \<noteq> 0 \<and> is_addr a \<and> ps a = Some p \<and> cpool_ok p
       \<and> owned m = pool_blocks p + M)"

lemma take_bit_addr: "is_addr a \<Longrightarrow> take_bit 64 a = a"
  by (simp add: is_addr_def take_bit_id)

lemma create_live:
  assumes "heap_ok H owned"
    and "BufferPool_create (pool_env H) n sz (ps, m) = (Inr self, w)"
  shows "pool_live_ok owned (owned m) (self, w)"
proof -
  obtain r m' where c: "uring_buffer_pool_create_c H (nat (take_bit 32 n)) (nat (take_bit 32 sz)) m = (r, m')"
    by fastforce
  note run = assms(2) [unfolded BufferPool_create_def pool_env_simps]
  show ?thesis
  proof (cases r)
    case None
    then show ?thesis using run c by (simp add: convert_ret_def Let_def)
  next
    case (Some p)
    then have p: "owned m' = owned m + pool_blocks p" "cpool_ok p" "cp_self p \<noteq> 0" "is_addr (cp_self p)"
      using create_spec [OF assms(1) c] by auto
    then have "self = \<lparr>bp_pool = Some (cp_self p)\<rparr>" "w = (ps(cp_self p \<mapsto> p), m')"
      using run c Some by (simp_all add: convert_ret_def take_bit_addr)
    then show ?thesis using p by (simp add: pool_live_ok_def)
  qed
qed

lemma op_live:
  assumes "heap_ok H owned" "pool_live_ok owned M s"
    and "run_pool_op (pool_env H) oper s = (res, s')"
  shows "pool_live_ok owned M s'"
proof -
  obtain self ps m where s: "s = (self, ps, m)" by (metis prod.collapse)
  obtain a p where I: "bp_pool self = Some a" "a \<noteq> 0" "is_addr a" "ps a = Some p" "cpool_ok p"
      "owned m = pool_blocks p + M"
    using assms(2) s by (auto simp: pool_live_ok_def)
  note tb = take_bit_addr [OF I(3)]
  show ?thesis
  proof (cases oper)
    case (PResize i n)
    obtain ret p' m' where r:
      "uring_buffer_pool_resize_c H p (nat (take_bit 32 i)) (nat (take_bit 32 n)) m = ((ret, p'), m')"
      by (metis prod.collapse)
    show ?thesis
      using assms(3) s PResize I r tb resize_spec [OF assms(1) I(5,6) r]
      by (auto simp: BufferPool_resize_def pool_call_eq pool_env_simps pool_live_ok_def py_lift_def
          py_raise_def py_return_def split: sum.splits)
  next
    case (PSetSize i n)
    obtain ret p' where r:
      "uring_buffer_pool_set_size_c p (nat (take_bit 32 i)) (nat (take_bit 32 n)) = (ret, p')"
      by fastforce
    show ?thesis
      using assms(3) s PSetSize I r tb set_size_spec [OF I(5) r]
      by (auto simp: BufferPool_set_size_def pool_call_eq pool_env_simps pool_live_ok_def py_lift_def
          py_raise_def py_return_def split: sum.splits)
  next
    case (PGetPtr i)
    obtain addr n where g: "uring_buffer_pool_get_c p (nat (take_bit 32 i)) = (addr, n)" by fastforce
    show ?thesis
      using assms(3) s PGetPtr I tb g
      by (auto simp: BufferPool_get_ptr_def pool_call_eq pool_env_simps pool_live_ok_def py_map_def
          py_bind_eq py_raise_def py_return_def split: if_splits)
  qed
qed

lemma life_live:
  assumes "heap_ok H owned" "pool_life H (ps, m) s"
  shows "pool_live_ok owned (owned m) s"
  using assms(2)
proof (induction rule: pool_life.induct)
  case (created n sz self w)
  then show ?case by (rule create_live [OF assms(1)])
next
  case (used s oper res s')
  then show ?case using op_live [OF assms(1)] by blast
qed

subsection \<open>A concrete allocator\<close>

definition bump_heap :: "(int \<times> int list) heap" where
  "bump_heap = \<lparr>
     hp_calloc = (\<lambda>n (nx, l). if 0 < nx \<and> nx < 2 ^ 32 then (nx, (nx + 1, nx # l)) else (0, (nx, l))),
     hp_memalign = (\<lambda>n (nx, l). if 0 < nx \<and> nx < 2 ^ 32
        then (Some (nx, replicate n 0), (nx + 1, nx # l)) else (None, (nx, l))),
     hp_free = (\<lambda>a (nx, l). (nx, if a = 0 then l else remove1 a l)) \<rparr>"

definition bump_owned :: "int \<times> int list \<Rightarrow> int multiset" where
  "bump_owned m = mset (snd m)"

lemma bump_heap_ok: "heap_ok bump_heap bump_owned"
  by (auto simp: heap_ok_def bump_heap_def bump_owned_def add_block_def is_addr_def
      split: option.splits if_splits)

definition bump_start :: "(int \<times> int list) pool_world" where
  "bump_start = (Map.empty, (1, []))"

definition two_slots :: cpool where
  "two_slots = \<lparr>cp_self = 1, cp_buffers = 2, cp_sizes = 3, cp_capacities = 4,
     cp_slots = [\<lparr>sl_addr = 5, sl_data = [0, 0, 0], sl_size = 0, sl_cap = 3\<rparr>,
                 \<lparr>sl_addr = 6, sl_data = [0, 0, 0], sl_size = 0, sl_cap = 3\<rparr>],
     cp_max_capacity = 3\<rparr>"

lemma bump_create:
  "BufferPool_create (pool_env bump_heap) 2 3 bump_start =
     (Inr \<lparr>bp_pool = Some 1\<rparr>, ([1 \<mapsto> two_slots], (7, [6, 5, 4, 3, 2, 1])))"
  by (simp add: BufferPool_create_def pool_env_simps convert_ret_def bump_heap_def bump_start_def
      uring_buffer_pool_create_c_def two_slots_def numeral_2_eq_2 numeral_3_eq_3)

lemma bump_life:
  "pool_life bump_heap bump_start (\<lparr>bp_pool = Some 1\<rparr>, ([1 \<mapsto> two_slots], (7, [6, 5, 4, 3, 2, 1])))"
  by (rule pool_life.created [OF bump_create])

subsection \<open>Properties\<close>

text \<open>
  C12: Whatever was done with a pool in between, \<open>close\<close> returns, marks the object closed
  and gives back every block the pool ever allocated: the allocations are those from before
  \<open>create\<close>.
\<close>

theorem pool_close_frees_everything:
  assumes "heap_ok H owned" "pool_life H (ps, m) (self, w)"
    and "BufferPool_close (pool_env H) (self, w) = (res, (self', (ps', m')))"
  shows "res = Inr () \<and> bp_pool self' = None \<and> owned m' = owned m"
proof -
  obtain qs m1 where w: "w = (qs, m1)" by fastforce
  obtain a p where "bp_pool self = Some a" "a \<noteq> 0" "is_addr a" "qs a = Some p"
      "owned m1 = pool_blocks p + owned m"
    using life_live [OF assms(1,2)] w by (auto simp: pool_live_ok_def)
  then show ?thesis
    using assms(3) w destroy_spec [OF assms(1), of m1 p "owned m"]
    by (auto simp: BufferPool_close_def pool_env_simps take_bit_addr)
qed

theorem pool_close_frees_everything_witness:
  "bump_owned (snd (snd (snd (BufferPool_close (pool_env bump_heap)
      (\<lparr>bp_pool = Some 1\<rparr>, ([1 \<mapsto> two_slots], (7, [6, 5, 4, 3, 2, 1]))))))) = {#}"
proof -
  obtain res self' ps' m' where c: "BufferPool_close (pool_env bump_heap)
      (\<lparr>bp_pool = Some 1\<rparr>, ([1 \<mapsto> two_slots], (7, [6, 5, 4, 3, 2, 1]))) = (res, (self', (ps', m')))"
    by (metis prod.collapse)
  show ?thesis
    using pool_close_frees_everything [OF bump_heap_ok bump_life [unfolded bump_start_def] c] c
    by (simp add: bump_owned_def)
qed

text \<open>
  A \<open>create\<close> that fails leaves no block behind, at whichever allocation it failed, and
  reports \<open>ENOMEM\<close>.
\<close>

theorem failed_create_leaks_nothing:
  assumes "heap_ok H owned"
    and "BufferPool_create (pool_env H) n sz (ps, m) = (Inl e, (ps', m'))"
  shows "owned m' = owned m \<and> ps' = ps
    \<and> e = UringError (UringError_init ENOMEM ''uring_buffer_pool_create'' None None None None)"
proof -
  obtain r m1 where c: "uring_buffer_pool_create_c H (nat (take_bit 32 n)) (nat (take_bit 32 sz)) m = (r, m1)"
    by fastforce
  show ?thesis
    using create_spec [OF assms(1) c] assms(2) c
    by (cases r) (auto simp: BufferPool_create_def pool_env_simps convert_ret_def take_bit_addr
        Let_def get_errno_after_def CDLL_use_errno_def)
qed

theorem failed_create_leaks_nothing_witness:
  "bump_owned (snd (snd (BufferPool_create (pool_env bump_heap) 2 3 (Map.empty, (2 ^ 32 - 5, []))))) = {#}"
proof -
  obtain r ps' m' where c:
    "BufferPool_create (pool_env bump_heap) 2 3 (Map.empty, (2 ^ 32 - 5, [])) = (r, (ps', m'))"
    by (metis prod.collapse)
  then obtain e where "r = Inl e"
    by (auto simp: BufferPool_create_def pool_env_simps convert_ret_def bump_heap_def
      uring_buffer_pool_create_c_def numeral_2_eq_2 numeral_3_eq_3 free_all_def Let_def)
  with c failed_create_leaks_nothing [OF bump_heap_ok c [unfolded \<open>r = Inl e\<close>]]
  show ?thesis by (simp add: bump_owned_def)
qed

text \<open>
  Every buffer of a new pool has size 0, not \<open>initial_size\<close>: \<open>get_ptr\<close> hands out an
  address with length 0 until \<open>resize\<close> or \<open>set_size\<close> is called.
\<close>

theorem new_pool_buffers_are_empty:
  assumes "heap_ok H owned" "BufferPool_create (pool_env H) n sz (ps, m) = (Inr self, w)"
    and "0 \<le> i" "i < n" "n < 2 ^ 32" "0 < sz" "sz < 2 ^ 32"
  shows "\<exists>addr. addr \<noteq> 0 \<and> BufferPool_get_ptr (pool_env H) i (self, w) = (Inr (addr, 0), (self, w))"
proof -
  obtain r m' where c: "uring_buffer_pool_create_c H (nat n) (nat sz) m = (r, m')" by fastforce
  have tb: "take_bit 32 n = n" "take_bit 32 sz = sz" "take_bit 32 i = i"
    using assms(3-7) by (simp_all add: take_bit_id)
  note run = assms(2) [unfolded BufferPool_create_def pool_env_simps]
  show ?thesis
  proof (cases r)
    case None
    then show ?thesis using run c tb by (simp add: convert_ret_def Let_def)
  next
    case (Some p)
    then have p: "cpool_ok p" "cp_self p \<noteq> 0" "is_addr (cp_self p)" "contents p = replicate (nat n) []"
        "\<forall>s \<in> set (cp_slots p). sl_cap s = nat sz"
      using create_spec [OF assms(1) c] by auto
    have sw: "self = \<lparr>bp_pool = Some (cp_self p)\<rparr>" "w = (ps(cp_self p \<mapsto> p), m')"
      using run c Some p tb by (simp_all add: convert_ret_def take_bit_addr)
    have "length (contents p) = nat n" using p(4) by simp
    then have i: "nat i < cp_count p" using assms(3,4) by (simp add: contents_def)
    let ?s = "cp_slots p ! nat i"
    have "slot_ok ?s" "sl_cap ?s = nat sz" using p(1,5) i by (simp_all add: pool_slot_ok)
    then have "sl_addr ?s \<noteq> 0" "is_addr (sl_addr ?s)" using assms(6) by (auto simp: slot_ok_def)
    moreover have "contents p ! nat i = []" using p(4) i assms(3,4) by simp
    ultimately show ?thesis
      using p i sw tb get_spec [OF p(1), of "nat i"]
      by (auto simp: BufferPool_get_ptr_def pool_call_eq pool_env_simps take_bit_addr convert_ret_def
          py_return_def size_out_def)
  qed
qed

theorem new_pool_buffers_are_empty_witness:
  "\<exists>addr. addr \<noteq> 0 \<and> BufferPool_get_ptr (pool_env bump_heap) 1
      (\<lparr>bp_pool = Some 1\<rparr>, ([1 \<mapsto> two_slots], (7, [6, 5, 4, 3, 2, 1])))
    = (Inr (addr, 0), (\<lparr>bp_pool = Some 1\<rparr>, ([1 \<mapsto> two_slots], (7, [6, 5, 4, 3, 2, 1]))))"
  using new_pool_buffers_are_empty [OF bump_heap_ok bump_create [unfolded bump_start_def], of 1]
  by simp

text \<open>
  C28: A \<open>resize\<close> that returns gives the buffer exactly the new size, keeps its bytes as far as
  they fit and every other buffer as it was; one that raises leaves the pool unchanged.
\<close>

theorem resize_keeps_contents:
  assumes "heap_ok H owned" "pool_life H w0 (self, (ps, m))"
    and "bp_pool self = Some a" "ps a = Some p" "0 \<le> i" "i < 2 ^ 32" "0 \<le> n" "n < 2 ^ 32"
    and "BufferPool_resize (pool_env H) i n (self, (ps, m)) = (res, (self', (ps', m')))"
  shows "\<exists>p'. ps' a = Some p' \<and> self' = self \<and>
     (case res of
        Inr _ \<Rightarrow> (\<exists>b. contents p' = (contents p)[nat i := b] \<and> length b = nat n
           \<and> take (min (nat n) (length (contents p ! nat i))) b = take (nat n) (contents p ! nat i))
      | Inl _ \<Rightarrow> p' = p)"
proof -
  obtain ps0 m0 where w0: "w0 = (ps0, m0)" by fastforce
  have live: "a \<noteq> 0" "is_addr a" "cpool_ok p" "owned m = pool_blocks p + owned m0"
    using life_live [OF assms(1) assms(2) [unfolded w0]] assms(3,4) by (auto simp: pool_live_ok_def)
  have tb: "take_bit 32 n = n" "take_bit 32 i = i" "take_bit 64 a = a"
    using assms(5-8) live(2) by (simp_all add: take_bit_id take_bit_addr)
  obtain ret p' m1 where r: "uring_buffer_pool_resize_c H p (nat i) (nat n) m = ((ret, p'), m1)"
    by (metis prod.collapse)
  note spec = resize_spec [OF assms(1) live(3,4) r]
  have "convert_ret (Some C_int) ret = ret"
    using spec by (auto simp: resize_promise_def convert_ret_def split: if_splits)
  then show ?thesis
    using assms(3,4,9) r tb live spec
    by (auto simp: BufferPool_resize_def pool_call_eq pool_env_simps resize_promise_def
        raise_for_neg_errno_def py_raise_def py_return_def split: if_splits)
qed

theorem resize_keeps_contents_witness:
  "fst (BufferPool_resize (pool_env bump_heap) 1 8
      (\<lparr>bp_pool = Some 1\<rparr>, ([1 \<mapsto> two_slots], (7, [6, 5, 4, 3, 2, 1])))) = Inr ()
   \<and> (\<exists>p'. fst (snd (snd (BufferPool_resize (pool_env bump_heap) 1 8
      (\<lparr>bp_pool = Some 1\<rparr>, ([1 \<mapsto> two_slots], (7, [6, 5, 4, 3, 2, 1])))))) 1 = Some p'
     \<and> (\<exists>b. contents p' = (contents two_slots)[1 := b] \<and> length b = 8))"
proof -
  let ?s = "(\<lparr>bp_pool = Some 1\<rparr>, ([1 \<mapsto> two_slots], (7, [6, 5, 4, 3, 2, 1])))"
  obtain res self' ps' m' where c: "BufferPool_resize (pool_env bump_heap) 1 8 ?s = (res, (self', (ps', m')))"
    by (metis prod.collapse)
  have "res = Inr ()"
    using c by (simp add: BufferPool_resize_def pool_call_eq pool_env_simps bump_heap_def two_slots_def
        uring_buffer_pool_resize_c_def raise_for_neg_errno_def convert_ret_def py_return_def)
  with resize_keeps_contents [OF bump_heap_ok bump_life _ _ _ _ _ _ c, of 1 two_slots] c
  show ?thesis by auto
qed

text \<open>
  A \<open>with\<close> block on a \<open>BufferPool\<close> or a \<open>UringCtx\<close> has the result of its body, closes the
  object however the body ended, and afterwards every guarded call on it raises.
\<close>

theorem with_block_closes:
  assumes "truthy (bp_pool pself)" "usable E cself"
  shows "fst (py_with BufferPool_enter (BufferPool_exit E) pbody (pself, w)) = fst (pbody (pself, w))
    \<and> (\<exists>e. fst (py_bind BufferPool_ensure_open pk
          (snd (py_with BufferPool_enter (BufferPool_exit E) pbody (pself, w)))) = Inl e)
    \<and> fst (py_with (UringCtx_enter E) (UringCtx_exit E) cbody (cself, w)) = fst (cbody (cself, w))
    \<and> (\<exists>e. fst (py_bind (UringCtx_ensure_open E) ck
          (snd (py_with (UringCtx_enter E) (UringCtx_exit E) cbody (cself, w)))) = Inl e)"
  using pool_res.with_eq [of "(pself, w)" E pbody] assms(1)
    pool_res.guarded_after_close [of pk E "snd (pbody (pself, w))"]
    ctx_res.with_eq [of E "(cself, w)" cbody] assms(2)
    ctx_res.guarded_after_close [of E ck "snd (cbody (cself, w))"]
  by force

theorem with_block_closes_witness:
  "\<exists>e. fst (py_bind BufferPool_ensure_open (\<lambda>_. py_return ())
      (snd (py_with BufferPool_enter (BufferPool_exit (pool_env bump_heap))
        (py_raise (ValueError ''body'') :: (bpool \<times> (int \<times> int list) pool_world, unit) py)
        (\<lparr>bp_pool = Some 1\<rparr>, ([1 \<mapsto> two_slots], (7, [6, 5, 4, 3, 2, 1])))))) = Inl e"
  using with_block_closes [of "\<lparr>bp_pool = Some 1\<rparr>" "pool_env bump_heap"
      "\<lparr>u_ctx = Some 1, u_owner_thread_id = None, u_buffer_keepalive = [],
        u_async_io_keepalive = Map.empty\<rparr>"
      "py_raise (ValueError ''body'') :: (bpool \<times> (int \<times> int list) pool_world, unit) py" "([1 \<mapsto> two_slots], (7, [6, 5, 4, 3, 2, 1]))" "\<lambda>_. py_return ()"
      "py_return ()" "\<lambda>_. py_return ()"]
  by (simp add: usable_def)

end
