(* ===== verification/Pipeline_Size.thy ===== *)
theory Pipeline_Size
  imports Py_Prelude
begin

text \<open>
  How the C pipelines of \<open>csrc/uring_wrap.c\<close> size their buffers: the probe of the callback that
  fixes the size every slot buffer is allocated with (\<open>uring_copy_path_dynamic\<close> and
  \<open>uring_write_newfile_dynamic\<close> have the same loop), and the size chosen for each transfer.
  \<open>unsigned\<close> and \<open>uint64_t\<close> values are natural numbers; the offsets stay below the file
  size plus one block, so they do not wrap.  A callback is a function of its arguments: it
  answers the probe and the transfer alike.
\<close>

type_synonym size_fn = "nat \<Rightarrow> nat \<Rightarrow> nat \<Rightarrow> nat"

definition size_limit :: nat where "size_limit = 64 * 1024 * 1024"

(* csrc/uring_wrap.c:736-750 uring_copy_path_dynamic (probe of the callback) *)
function probe_max :: "size_fn \<Rightarrow> nat \<Rightarrow> nat \<Rightarrow> nat \<Rightarrow> nat \<Rightarrow> nat" where
  "probe_max cb tot bs off mx =
     (if bs = 0 \<or> off \<ge> tot then mx
      else let mx = (if cb off tot bs > mx then cb off tot bs else mx)
           in if mx > size_limit then size_limit else probe_max cb tot bs (off + bs) mx)"
  by pat_completeness auto
termination by (relation "measure (\<lambda>(cb, tot, bs, off, mx). tot - off)") auto

declare probe_max.simps [simp del]

definition slot_buffer_size :: "size_fn option \<Rightarrow> nat \<Rightarrow> nat \<Rightarrow> nat" where
  "slot_buffer_size cb tot bs = (case cb of None \<Rightarrow> bs | Some f \<Rightarrow> probe_max f tot bs 0 bs)"

(* csrc/uring_wrap.c:790-802 uring_copy_path_dynamic (size of a transfer) *)
definition transfer_size :: "size_fn option \<Rightarrow> nat \<Rightarrow> nat \<Rightarrow> nat \<Rightarrow> nat \<Rightarrow> nat" where
  "transfer_size cb max_buffer_size tot bs off =
     (let want = (case cb of
             None \<Rightarrow> bs
           | Some f \<Rightarrow> (let cb_size = f off tot bs
                        in if cb_size > 0 \<and> cb_size \<le> max_buffer_size then cb_size else bs));
          remain = tot - off
      in if remain < want then remain else want)"

lemma probe_max_ge: "mx \<le> size_limit \<Longrightarrow> mx \<le> probe_max cb tot bs off mx"
proof (induction cb tot bs off mx rule: probe_max.induct)
  case (1 cb tot bs off mx)
  let ?m = "if cb off tot bs > mx then cb off tot bs else mx"
  show ?case
  proof (cases "bs = 0 \<or> off \<ge> tot \<or> ?m > size_limit")
    case True
    then show ?thesis using 1(2) by (auto simp: probe_max.simps [of cb tot bs off mx] Let_def)
  next
    case False
    then have "?m \<le> probe_max cb tot bs (off + bs) ?m" by (intro 1(1)) auto
    then show ?thesis
      using False by (auto simp: probe_max.simps [of cb tot bs off mx] Let_def)
  qed
qed

lemma probe_max_large:
  "0 < bs \<Longrightarrow> size_limit < bs \<Longrightarrow> 0 < tot \<Longrightarrow> probe_max cb tot bs 0 bs = size_limit"
  by (subst probe_max.simps) (auto simp: Let_def)

lemma transfer_fits:
  assumes "bs \<le> size_limit \<or> cb = None"
  shows "transfer_size cb (slot_buffer_size cb tot bs) tot bs off \<le> slot_buffer_size cb tot bs"
proof (cases cb)
  case None
  then show ?thesis by (simp add: transfer_size_def slot_buffer_size_def Let_def)
next
  case (Some f)
  then have "bs \<le> probe_max f tot bs 0 bs" using assms by (intro probe_max_ge) simp
  then show ?thesis using Some by (auto simp: transfer_size_def slot_buffer_size_def Let_def)
qed

end
