(* ===== verification/Easy_Api.thy ===== *)
theory Easy_Api
  imports Uring_Errors Pipeline_Size
begin

unbundle bit_operations_syntax

text \<open>
  The functions of \<open>pyuring/_easy.py\<close> and \<open>pyuring/native/c_api.py\<close>: presets of queue depth and
  block size per mode, sync policies, the adaptive buffer size, the callbacks handed to C and
  the calls of the C pipelines.
\<close>

subsection \<open>Callbacks and the C pipelines\<close>

text \<open>
  A Python callback may raise or return an int (any other result is converted by \<open>int\<close> or
  by truth).  What C sees of it is a total function on C integers.
\<close>

type_synonym py_size_cb = "int \<Rightarrow> int \<Rightarrow> int \<Rightarrow> exn + int"
type_synonym py_progress_cb = "int \<Rightarrow> int \<Rightarrow> exn + bool"
type_synonym c_size_cb = "int \<Rightarrow> int \<Rightarrow> int \<Rightarrow> int"
type_synonym c_progress_cb = "int \<Rightarrow> int \<Rightarrow> int"

record 'w pipelines =
  pl_copy_path :: "string \<Rightarrow> string \<Rightarrow> int \<Rightarrow> int \<Rightarrow> 'w \<Rightarrow> int \<times> 'w"
  pl_copy_path_dynamic :: "string \<Rightarrow> string \<Rightarrow> int \<Rightarrow> int \<Rightarrow> c_size_cb option \<Rightarrow> int
      \<Rightarrow> c_progress_cb option \<Rightarrow> 'w \<Rightarrow> int \<times> 'w"
  pl_write_newfile :: "string \<Rightarrow> int \<Rightarrow> int \<Rightarrow> int \<Rightarrow> int \<Rightarrow> int \<Rightarrow> 'w \<Rightarrow> int \<times> 'w"
  pl_write_newfile_dynamic :: "string \<Rightarrow> int \<Rightarrow> int \<Rightarrow> int \<Rightarrow> int \<Rightarrow> int \<Rightarrow> c_size_cb option
      \<Rightarrow> c_progress_cb option \<Rightarrow> 'w \<Rightarrow> int \<times> 'w"
  pl_write_manyfiles :: "string \<Rightarrow> int \<Rightarrow> int \<Rightarrow> int \<Rightarrow> int \<Rightarrow> int \<Rightarrow> 'w \<Rightarrow> int \<times> 'w"

(* pyuring/native/c_api.py:81-88 copy_path_dynamic._callback_wrapper *)
definition callback_wrapper :: "py_size_cb \<Rightarrow> c_size_cb" where
  "callback_wrapper cb current_offset total_bytes default_block_size =
     take_bit 32 (case cb current_offset total_bytes default_block_size of
        Inr n \<Rightarrow> n
      | Inl _ \<Rightarrow> default_block_size)"

(* pyuring/native/c_api.py:92-98 copy_path_dynamic._progress_wrapper *)
definition progress_wrapper :: "py_progress_cb \<Rightarrow> c_progress_cb" where
  "progress_wrapper cb done_bytes total_bytes =
     (case cb done_bytes total_bytes of
        Inr b \<Rightarrow> if b then 1 else 0
      | Inl _ \<Rightarrow> 1)"

abbreviation c_uint :: "int \<Rightarrow> int" where "c_uint n \<equiv> take_bit 32 n"

definition int_of_bool :: "bool \<Rightarrow> int" where "int_of_bool b = (if b then 1 else 0)"

text \<open>\<open>_raise_for_neg_errno(int(ret) if ret < 0 else 0, op); return int(ret)\<close> on a \<open>long long\<close>.\<close>

definition finish :: "string \<Rightarrow> int \<times> 'w \<Rightarrow> (exn + int) \<times> 'w" where
  "finish operation rw = (let ret = signed_take_bit 63 (fst rw) in
     (case check_ret (if ret < 0 then ret else 0) operation of
        Inl e \<Rightarrow> Inl e
      | Inr _ \<Rightarrow> Inr ret, snd rw))"

(* pyuring/native/c_api.py:11-22 copy_path *)
definition copy_path :: "'w pipelines \<Rightarrow> string \<Rightarrow> string \<Rightarrow> int \<Rightarrow> int \<Rightarrow> ('w, int) py" where
  "copy_path P src dst qd block_size w =
     finish ''uring_copy_path'' (pl_copy_path P src dst (c_uint qd) (c_uint block_size) w)"

(* pyuring/native/c_api.py:32-119 copy_path_dynamic *)
definition copy_path_dynamic ::
  "'w pipelines \<Rightarrow> string \<Rightarrow> string \<Rightarrow> int \<Rightarrow> int \<Rightarrow> py_size_cb option \<Rightarrow> bool
     \<Rightarrow> py_progress_cb option \<Rightarrow> ('w, int) py" where
  "copy_path_dynamic P src dst qd block_size buffer_size_cb fsync progress_cb w =
     finish ''uring_copy_path_dynamic''
       (pl_copy_path_dynamic P src dst (c_uint qd) (c_uint block_size)
          (map_option callback_wrapper buffer_size_cb) (int_of_bool fsync)
          (map_option progress_wrapper progress_cb) w)"

(* pyuring/native/c_api.py:122-143 write_newfile *)
definition write_newfile ::
  "'w pipelines \<Rightarrow> string \<Rightarrow> int \<Rightarrow> int \<Rightarrow> int \<Rightarrow> bool \<Rightarrow> bool \<Rightarrow> ('w, int) py" where
  "write_newfile P dst total_mb block_size qd fsync dsync w =
     finish ''uring_write_newfile''
       (pl_write_newfile P dst (c_uint total_mb) (c_uint block_size) (c_uint qd)
          (int_of_bool fsync) (int_of_bool dsync) w)"

(* pyuring/native/c_api.py:146-234 write_newfile_dynamic *)
definition write_newfile_dynamic ::
  "'w pipelines \<Rightarrow> string \<Rightarrow> int \<Rightarrow> int \<Rightarrow> int \<Rightarrow> bool \<Rightarrow> bool \<Rightarrow> py_size_cb option
     \<Rightarrow> py_progress_cb option \<Rightarrow> ('w, int) py" where
  "write_newfile_dynamic P dst total_mb block_size qd fsync dsync buffer_size_cb progress_cb w =
     finish ''uring_write_newfile_dynamic''
       (pl_write_newfile_dynamic P dst (c_uint total_mb) (c_uint block_size) (c_uint qd)
          (int_of_bool fsync) (int_of_bool dsync)
          (map_option callback_wrapper buffer_size_cb)
          (map_option progress_wrapper progress_cb) w)"

(* pyuring/native/c_api.py:237-263 write_manyfiles *)
definition write_manyfiles ::
  "'w pipelines \<Rightarrow> string \<Rightarrow> int \<Rightarrow> int \<Rightarrow> int \<Rightarrow> int \<Rightarrow> bool \<Rightarrow> ('w, int) py" where
  "write_manyfiles P dir nfiles mb_per_file block_size qd fsync_end w =
     finish ''uring_write_manyfiles''
       (pl_write_manyfiles P dir (c_uint nfiles) (c_uint mb_per_file) (c_uint block_size)
          (c_uint qd) (int_of_bool fsync_end) w)"

subsection \<open>Presets and policies\<close>

text \<open>
  Python's \<open>offset / total\<close> rounds the quotient to 53 bits (to nearest, ties to even), so
  \<open>progress < n/4\<close> holds when the exact quotient is below \<open>n/4\<close> by more than half the
  distance to the preceding float: \<open>2^-56\<close> for 1/4, \<open>2^-55\<close> for 2/4, \<open>2^-54\<close> for 3/4.
\<close>

definition float_quotient_below :: "int \<Rightarrow> int \<Rightarrow> int \<Rightarrow> nat \<Rightarrow> bool" where
  "float_quotient_below offset tot n k \<longleftrightarrow> offset * (4 * 2 ^ k) < (n * 2 ^ k - 4) * tot"

(* pyuring/_easy.py:26-37 _adaptive_buffer_size *)
definition adaptive_buffer_size :: "int \<Rightarrow> int \<Rightarrow> int \<Rightarrow> int" where
  "adaptive_buffer_size offset tot dflt =
     (if tot \<le> 0 then dflt
      else if float_quotient_below offset tot 1 56 then dflt
      else if float_quotient_below offset tot 2 55 then dflt * 2
      else if float_quotient_below offset tot 3 54 then dflt * 4
      else dflt * 8)"

(* pyuring/_easy.py:40-45 _resolve_copy_tuning *)
definition resolve_copy_tuning :: "string \<Rightarrow> int \<Rightarrow> int \<Rightarrow> int \<times> int" where
  "resolve_copy_tuning mode qd block_size =
     (if mode = ''safe'' then (min qd 16, min block_size (push_bit 20 1))
      else if mode = ''fast'' then (max qd 64, max block_size (push_bit 20 1))
      else (qd, block_size))"

(* pyuring/_easy.py:48-53 _resolve_write_tuning *)
definition resolve_write_tuning :: "string \<Rightarrow> int \<Rightarrow> int \<Rightarrow> int \<times> int" where
  "resolve_write_tuning mode qd block_size =
     (if mode = ''safe'' then (min qd 128, min block_size 4096)
      else if mode = ''fast'' then (max qd 256, max block_size (push_bit 16 1))
      else (qd, block_size))"

definition bad_mode :: exn where
  "bad_mode = ValueError (''mode must be one of: '' @ quoted ''safe'' @ '', '' @ quoted ''fast''
     @ '', '' @ quoted ''auto'')"

(* pyuring/_easy.py:56-58 _validate_mode *)
definition validate_mode :: "string \<Rightarrow> exn + unit" where
  "validate_mode mode =
     (if mode \<notin> {''safe'', ''fast'', ''auto''} then Inl bad_mode else Inr ())"

definition bad_copy_policy :: exn where
  "bad_copy_policy = ValueError (''sync_policy must be '' @ quoted ''default'' @ '', '' @ quoted ''none''
     @ '', or '' @ quoted ''end'')"

definition bad_write_policy :: exn where
  "bad_write_policy = ValueError (''sync_policy must be '' @ quoted ''default'' @ '', '' @ quoted ''none''
     @ '', '' @ quoted ''end'' @ '', '' @ quoted ''data'' @ '', or '' @ quoted ''end_and_data'')"

(* pyuring/_easy.py:61-68 _copy_fsync *)
definition copy_fsync :: "string \<Rightarrow> bool \<Rightarrow> exn + bool" where
  "copy_fsync sync_policy fsync =
     (if sync_policy = ''default'' then Inr fsync
      else if sync_policy = ''none'' then Inr False
      else if sync_policy = ''end'' then Inr True
      else Inl bad_copy_policy)"

(* pyuring/_easy.py:71-84 _write_fsync_dsync *)
definition write_fsync_dsync :: "string \<Rightarrow> bool \<Rightarrow> bool \<Rightarrow> exn + (bool \<times> bool)" where
  "write_fsync_dsync sync_policy fsync dsync =
     (if sync_policy = ''default'' then Inr (fsync, dsync)
      else if sync_policy = ''none'' then Inr (False, False)
      else if sync_policy = ''end'' then Inr (True, False)
      else if sync_policy = ''data'' then Inr (False, True)
      else if sync_policy = ''end_and_data'' then Inr (True, True)
      else Inl bad_write_policy)"

(* pyuring/_easy.py:87-91 _fixed_block_cb *)
definition fixed_block_cb :: "int \<Rightarrow> py_size_cb" where
  "fixed_block_cb block = (\<lambda>o' t d. Inr block)"

definition adaptive_cb :: py_size_cb where
  "adaptive_cb = (\<lambda>o' t d. Inr (adaptive_buffer_size o' t d))"

definition or_else :: "'a option \<Rightarrow> 'a \<Rightarrow> 'a" where
  "or_else x y = (case x of None \<Rightarrow> y | Some z \<Rightarrow> z)"

subsection \<open>The entry points\<close>

(* pyuring/_easy.py:94-150 copy *)
definition easy_copy ::
  "'w pipelines \<Rightarrow> string \<Rightarrow> string \<Rightarrow> string \<Rightarrow> int \<Rightarrow> int \<Rightarrow> bool \<Rightarrow> string
     \<Rightarrow> py_size_cb option \<Rightarrow> py_progress_cb option \<Rightarrow> ('w, int) py" where
  "easy_copy P src dst mode qd block_size fsync sync_policy buffer_size_cb progress_cb =
     py_bind (py_lift (validate_mode mode)) (\<lambda>_.
     case resolve_copy_tuning mode qd block_size of (tuned_qd, tuned_block) \<Rightarrow>
     py_bind (py_lift (copy_fsync sync_policy fsync)) (\<lambda>fsync_eff.
       if mode = ''auto'' then
         copy_path_dynamic P src dst tuned_qd tuned_block
           (Some (or_else buffer_size_cb adaptive_cb)) fsync_eff progress_cb
       else if progress_cb \<noteq> None \<or> sync_policy \<noteq> ''default'' \<or> buffer_size_cb \<noteq> None then
         copy_path_dynamic P src dst tuned_qd tuned_block
           (Some (or_else buffer_size_cb (fixed_block_cb tuned_block))) fsync_eff progress_cb
       else copy_path P src dst tuned_qd tuned_block))"

(* pyuring/_easy.py:153-213 write *)
definition easy_write ::
  "'w pipelines \<Rightarrow> string \<Rightarrow> int \<Rightarrow> string \<Rightarrow> int \<Rightarrow> int \<Rightarrow> bool \<Rightarrow> bool \<Rightarrow> string
     \<Rightarrow> py_size_cb option \<Rightarrow> py_progress_cb option \<Rightarrow> ('w, int) py" where
  "easy_write P dst total_mb mode qd block_size fsync dsync sync_policy buffer_size_cb progress_cb =
     py_bind (py_lift (validate_mode mode)) (\<lambda>_.
     case resolve_write_tuning mode qd block_size of (tuned_qd, tuned_block) \<Rightarrow>
     py_bind (py_lift (write_fsync_dsync sync_policy fsync dsync)) (\<lambda>(fsync_eff, dsync_eff).
       if mode = ''auto'' then
         write_newfile_dynamic P dst total_mb tuned_block tuned_qd fsync_eff dsync_eff
           (Some (or_else buffer_size_cb adaptive_cb)) progress_cb
       else if progress_cb \<noteq> None \<or> sync_policy \<noteq> ''default'' \<or> buffer_size_cb \<noteq> None then
         write_newfile_dynamic P dst total_mb tuned_block tuned_qd fsync_eff dsync_eff
           (Some (or_else buffer_size_cb (fixed_block_cb tuned_block))) progress_cb
       else write_newfile P dst total_mb tuned_block tuned_qd fsync_eff dsync_eff))"

(* pyuring/_easy.py:216-244 write_many *)
definition easy_write_many ::
  "'w pipelines \<Rightarrow> string \<Rightarrow> int \<Rightarrow> int \<Rightarrow> string \<Rightarrow> int \<Rightarrow> int \<Rightarrow> bool \<Rightarrow> string \<Rightarrow> ('w, int) py"
  where
  "easy_write_many P dir nfiles mb_per_file mode qd block_size fsync_end sync_policy =
     py_bind (py_lift (validate_mode mode)) (\<lambda>_.
     case resolve_write_tuning mode qd block_size of (tuned_qd, tuned_block) \<Rightarrow>
     py_bind (py_lift (copy_fsync sync_policy fsync_end)) (\<lambda>fsync_eff.
       write_manyfiles P dir nfiles mb_per_file tuned_block tuned_qd fsync_eff))"

end
