(* ===== verification/Easy_Props.thy ===== *)
theory Easy_Props
  imports Easy_Api
begin

unbundle bit_operations_syntax

text \<open>
  The contract of the mode presets, shared by copying and writing, and the properties of the
  entry points of \<open>pyuring/_easy.py\<close>.
\<close>

subsection \<open>Presets\<close>

locale mode_tuning =
  fixes tune :: "string \<Rightarrow> int \<Rightarrow> int \<Rightarrow> int \<times> int"
    and qd_cap block_cap qd_floor block_floor :: int
  assumes safe: "tune ''safe'' qd bs = (min qd qd_cap, min bs block_cap)"
    and fast: "tune ''fast'' qd bs = (max qd qd_floor, max bs block_floor)"
    and other: "mode \<noteq> ''safe'' \<Longrightarrow> mode \<noteq> ''fast'' \<Longrightarrow> tune mode qd bs = (qd, bs)"
    and caps: "0 < qd_cap" "0 < block_cap"
begin

lemma tune_cases:
  obtains (is_safe) "mode = ''safe''" "tune mode qd bs = (min qd qd_cap, min bs block_cap)"
  | (is_fast) "mode = ''fast''" "tune mode qd bs = (max qd qd_floor, max bs block_floor)"
  | (as_asked) "tune mode qd bs = (qd, bs)"
  by (cases "mode = ''safe''"; cases "mode = ''fast''") (auto simp: safe fast other)

lemma tune_positive:
  "0 < qd \<Longrightarrow> 0 < bs \<Longrightarrow> 0 < fst (tune mode qd bs) \<and> 0 < snd (tune mode qd bs)"
  by (rule tune_cases [of mode qd bs]) (use caps in auto)

lemma tune_idem: "tune mode (fst (tune mode qd bs)) (snd (tune mode qd bs)) = tune mode qd bs"
  by (rule tune_cases [of mode qd bs]) (auto simp: safe fast intro: other)

lemma tune_mono:
  "qd \<le> qd' \<Longrightarrow> bs \<le> bs' \<Longrightarrow> fst (tune mode qd bs) \<le> fst (tune mode qd' bs')
     \<and> snd (tune mode qd bs) \<le> snd (tune mode qd' bs')"
  by (cases "mode = ''safe''"; cases "mode = ''fast''") (auto simp: safe fast other)

lemma tune_between:
  "fst (tune ''safe'' qd bs) \<le> fst (tune mode qd bs) \<and> fst (tune mode qd bs) \<le> fst (tune ''fast'' qd bs)
   \<and> snd (tune ''safe'' qd bs) \<le> snd (tune mode qd bs) \<and> snd (tune mode qd bs) \<le> snd (tune ''fast'' qd bs)"
  by (rule tune_cases [of mode qd bs]) (auto simp: safe fast)

end

interpretation copy_mode: mode_tuning resolve_copy_tuning 16 "2 ^ 20" 64 "2 ^ 20"
  by unfold_locales (auto simp: resolve_copy_tuning_def push_bit_eq_mult)

interpretation write_mode: mode_tuning resolve_write_tuning 128 4096 256 "2 ^ 16"
  by unfold_locales (auto simp: resolve_write_tuning_def push_bit_eq_mult)

text \<open>
  For copying and for writing, the presets order the modes (\<open>safe\<close> never asks for more, nor
  \<open>fast\<close> for less, than any other mode), applying a preset twice is applying it once, and
  positive requests stay positive.
\<close>

theorem presets_order_the_modes:
  "(\<forall>tune \<in> {resolve_copy_tuning, resolve_write_tuning}.
      fst (tune ''safe'' qd bs) \<le> fst (tune mode qd bs)
    \<and> fst (tune mode qd bs) \<le> fst (tune ''fast'' qd bs)
    \<and> snd (tune ''safe'' qd bs) \<le> snd (tune mode qd bs)
    \<and> snd (tune mode qd bs) \<le> snd (tune ''fast'' qd bs)
    \<and> tune mode (fst (tune mode qd bs)) (snd (tune mode qd bs)) = tune mode qd bs
    \<and> (0 < qd \<and> 0 < bs \<longrightarrow> 0 < fst (tune mode qd bs) \<and> 0 < snd (tune mode qd bs)))"
  using copy_mode.tune_between copy_mode.tune_idem copy_mode.tune_positive
    write_mode.tune_between write_mode.tune_idem write_mode.tune_positive
  by (auto simp only: ball_simps simp_thms)

theorem presets_order_the_modes_witness:
  "0 < fst (resolve_copy_tuning ''fast'' 32 65536) \<and> 0 < snd (resolve_write_tuning ''safe'' 32 65536)
     \<and> fst (resolve_copy_tuning ''auto'' 32 65536) \<le> fst (resolve_copy_tuning ''fast'' 32 65536)"
  using presets_order_the_modes [of 32 65536 "''fast''"] presets_order_the_modes [of 32 65536 "''safe''"]
    presets_order_the_modes [of 32 65536 "''auto''"] by auto

text \<open>
  For files below \<open>2^52\<close> bytes the adaptive size is the documented step function of the
  exact progress: the default in the first quarter, then twice, four and eight times as much.
\<close>

theorem adaptive_size_follows_progress:
  assumes "0 < tot" "tot < 2 ^ 52" "0 \<le> offset"
  shows "adaptive_buffer_size offset tot dflt =
     (if 4 * offset < tot then dflt
      else if 2 * offset < tot then 2 * dflt
      else if 4 * offset < 3 * tot then 4 * dflt
      else 8 * dflt)"
proof -
  have "float_quotient_below offset tot 1 56 \<longleftrightarrow> 4 * offset < tot"
    using assms by (simp add: float_quotient_below_def) linarith
  moreover have "float_quotient_below offset tot 2 55 \<longleftrightarrow> 2 * offset < tot"
    using assms by (simp add: float_quotient_below_def) linarith
  moreover have "float_quotient_below offset tot 3 54 \<longleftrightarrow> 4 * offset < 3 * tot"
    using assms by (simp add: float_quotient_below_def) linarith
  ultimately show ?thesis using assms(1) by (simp add: adaptive_buffer_size_def)
qed

theorem adaptive_size_follows_progress_witness:
  "adaptive_buffer_size 600 1000 4096 = 16384"
  using adaptive_size_follows_progress [of 1000 600 4096] by simp

subsection \<open>Entry points\<close>

lemma finish_eq:
  assumes "- (2 ^ 63) \<le> r" "r < 2 ^ 63"
  shows "finish operation (r, w) =
     (if r < 0 then Inl (UringError (UringError_init (- r) operation None None None None)) else Inr r, w)"
proof -
  have "signed_take_bit 63 r = r" using assms by (intro signed_take_bit_id) auto
  then show ?thesis by (simp only: finish_def fst_conv snd_conv Let_def raise_for_neg_errno_def) simp
qed

definition valid_mode :: "string \<Rightarrow> bool" where
  "valid_mode mode \<longleftrightarrow> mode \<in> {''safe'', ''fast'', ''auto''}"

lemma validate_mode_eq: "validate_mode mode = (if valid_mode mode then Inr () else Inl bad_mode)"
  by (simp add: validate_mode_def valid_mode_def)

text \<open>
  \<open>copy\<close> and \<open>write_many\<close> with \<open>sync_policy='end'\<close> ask the C pipeline to \<open>fsync\<close> in every
  mode, and \<open>'none'\<close> asks it not to, whatever the \<open>fsync\<close> argument says.
\<close>

theorem sync_policy_overrides_fsync:
  assumes "valid_mode mode" "policy = ''end'' \<or> policy = ''none''"
  shows "(\<exists>cb. easy_copy P src dst mode qd bs fsync policy size_cb progress_cb w =
      finish ''uring_copy_path_dynamic'' (pl_copy_path_dynamic P src dst
        (c_uint (fst (resolve_copy_tuning mode qd bs))) (c_uint (snd (resolve_copy_tuning mode qd bs)))
        (Some cb) (if policy = ''end'' then 1 else 0) (map_option progress_wrapper progress_cb) w))
    \<and> easy_write_many P dir nfiles mb mode qd bs fsync policy w =
      finish ''uring_write_manyfiles'' (pl_write_manyfiles P dir (c_uint nfiles) (c_uint mb)
        (c_uint (snd (resolve_write_tuning mode qd bs))) (c_uint (fst (resolve_write_tuning mode qd bs)))
        (if policy = ''end'' then 1 else 0) w)"
proof -
  have f: "copy_fsync policy fsync = Inr (policy = ''end'')" "policy \<noteq> ''default''"
    using assms(2) by (auto simp: copy_fsync_def)
  have flag: "int_of_bool (policy = ''end'') = (if policy = ''end'' then 1 else 0)"
    by (simp add: int_of_bool_def)
  show ?thesis
    unfolding easy_copy_def easy_write_many_def validate_mode_eq f(1)
    using assms(1) f(2)
    by (cases "mode = ''auto''")
       (auto simp only: py_lift_Inr py_bind_return split_beta simp_thms if_True if_False flag
         copy_path_dynamic_def write_manyfiles_def option.map)
qed

text \<open>Pipelines that answer with the flag for \<open>fsync\<close> they were given (-1 when they take none).\<close>

definition echo_pipelines :: "nat pipelines" where
  "echo_pipelines = \<lparr>
     pl_copy_path = (\<lambda>src dst qd bs w. (100, Suc w)),
     pl_copy_path_dynamic = (\<lambda>src dst qd bs cb fs pcb w. (fs, Suc w)),
     pl_write_newfile = (\<lambda>dst mb bs qd fs ds w. (fs, Suc w)),
     pl_write_newfile_dynamic = (\<lambda>dst mb bs qd fs ds cb pcb w. (fs, Suc w)),
     pl_write_manyfiles = (\<lambda>dir n mb bs qd fs w. (fs, Suc w)) \<rparr>"

theorem sync_policy_overrides_fsync_witness:
  "easy_write_many echo_pipelines ''d'' 2 1 ''fast'' 8 4096 False ''end'' 0 = (Inr 1, 1)
   \<and> (\<exists>cb. easy_copy echo_pipelines ''a'' ''b'' ''fast'' 8 4096 False ''end'' None None 0 =
        finish ''uring_copy_path_dynamic'' (pl_copy_path_dynamic echo_pipelines ''a'' ''b''
          64 (2 ^ 20) (Some cb) 1 None 0))"
  using sync_policy_overrides_fsync [of "''fast''" "''end''" echo_pipelines "''a''" "''b''" 8 4096 False
      None None 0 "''d''" 2 1]
  by (simp add: valid_mode_def resolve_copy_tuning_def resolve_write_tuning_def push_bit_eq_mult
      echo_pipelines_def finish_def raise_for_neg_errno_def)

text \<open>
  In mode \<open>safe\<close> or \<open>fast\<close>, without callbacks and with the default policy, \<open>copy\<close> ignores
  its \<open>fsync\<close> argument: the call is the one for \<open>fsync=False\<close>, and the pipeline it uses has no
  \<open>fsync\<close> at all.
\<close>

theorem copy_ignores_fsync_in_fixed_modes:
  assumes "mode = ''safe'' \<or> mode = ''fast''"
  shows "easy_copy P src dst mode qd bs fsync ''default'' None None w =
     finish ''uring_copy_path'' (pl_copy_path P src dst
       (c_uint (fst (resolve_copy_tuning mode qd bs))) (c_uint (snd (resolve_copy_tuning mode qd bs))) w)"
  using assms
  by (auto simp: easy_copy_def validate_mode_eq valid_mode_def copy_fsync_def copy_path_def split_beta)

theorem copy_ignores_fsync_in_fixed_modes_witness:
  "easy_copy echo_pipelines ''a'' ''b'' ''fast'' 8 4096 True ''default'' None None 0 = (Inr 100, 1)"
  using copy_ignores_fsync_in_fixed_modes [of "''fast''" echo_pipelines "''a''" "''b''" 8 4096 True 0]
  by (simp add: echo_pipelines_def finish_def raise_for_neg_errno_def)

text \<open>
  A mode or a sync policy that is not one of the documented words raises \<open>ValueError\<close>
  from each of the three entry points before the pipeline is called.
\<close>

theorem bad_mode_or_policy_calls_nothing:
  assumes "\<not> valid_mode mode \<or> policy \<notin> {''default'', ''none'', ''end'', ''data'', ''end_and_data''}"
  shows "(\<exists>msg. easy_copy P src dst mode qd bs fsync policy size_cb progress_cb w = (Inl (ValueError msg), w))
    \<and> (\<exists>msg. easy_write P dst mb mode qd bs fsync dsync policy size_cb progress_cb w
         = (Inl (ValueError msg), w))
    \<and> (\<exists>msg. easy_write_many P dir nfiles mb mode qd bs fsync policy w = (Inl (ValueError msg), w))"
proof (cases "valid_mode mode")
  case False
  then show ?thesis
    by (simp add: easy_copy_def easy_write_def easy_write_many_def validate_mode_eq bad_mode_def
        py_raise_apply)
next
  case True
  then have "copy_fsync policy fsync = Inl bad_copy_policy" "write_fsync_dsync policy fsync dsync = Inl bad_write_policy"
    using assms by (simp_all add: copy_fsync_def write_fsync_dsync_def)
  then show ?thesis using True
    by (simp add: easy_copy_def easy_write_def easy_write_many_def validate_mode_eq bad_copy_policy_def
        bad_write_policy_def py_raise_apply split_beta)
qed

theorem bad_mode_or_policy_calls_nothing_witness:
  "\<exists>msg. easy_write echo_pipelines ''f'' 1 ''turbo'' 8 4096 False False ''default'' None None 0
     = (Inl (ValueError msg), 0)"
  using bad_mode_or_policy_calls_nothing [of "''turbo''" "''default''" echo_pipelines]
  by (simp add: valid_mode_def)

text \<open>
  A negative result of a pipeline is raised as \<open>UringError\<close> with that \<open>errno\<close>, and any
  other result is returned: shown for \<open>write\<close> in mode \<open>auto\<close>.
\<close>

theorem pipeline_result_is_returned_or_raised:
  assumes "write_fsync_dsync policy fsync dsync = Inr (fs, ds)"
    and "pl_write_newfile_dynamic P dst (c_uint mb) (c_uint bs) (c_uint qd) (int_of_bool fs)
           (int_of_bool ds) (Some (callback_wrapper adaptive_cb)) (map_option progress_wrapper progress_cb) w
         = (r, w')"
    and "- (2 ^ 63) \<le> r" "r < 2 ^ 63"
  shows "easy_write P dst mb ''auto'' qd bs fsync dsync policy None progress_cb w =
     (if r < 0 then Inl (UringError (UringError_init (- r) ''uring_write_newfile_dynamic'' None None None None))
      else Inr r, w')"
  using assms
  by (simp add: easy_write_def validate_mode_eq valid_mode_def resolve_write_tuning_def
      write_newfile_dynamic_def or_else_def finish_eq)

theorem pipeline_result_is_returned_or_raised_witness:
  "easy_write (echo_pipelines\<lparr>pl_write_newfile_dynamic := (\<lambda>dst mb bs qd fs ds cb pcb w. (- 28, w))\<rparr>)
     ''f'' 1 ''auto'' 8 4096 False False ''end_and_data'' None None 0
   = (Inl (UringError (UringError_init 28 ''uring_write_newfile_dynamic'' None None None None)), 0)"
  using pipeline_result_is_returned_or_raised [of "''end_and_data''" False False True True
      "echo_pipelines\<lparr>pl_write_newfile_dynamic := (\<lambda>dst mb bs qd fs ds cb pcb w. (- 28, w))\<rparr>"
      "''f''" 1 4096 8 None 0 "- 28" 0]
  by (simp add: write_fsync_dsync_def)

subsection \<open>Sizes in the C pipeline\<close>

text \<open>
  C37: When the block size is at most 64 MiB, or there is no callback, no transfer is larger than
  the buffer of its slot, whatever sizes the callback returns.
\<close>

theorem transfers_fit_their_buffers:
  assumes "bs \<le> 64 * 1024 * 1024 \<or> cb = None"
  shows "transfer_size cb (slot_buffer_size cb tot bs) tot bs off \<le> slot_buffer_size cb tot bs"
  by (rule transfer_fits) (use assms in \<open>simp add: size_limit_def\<close>)

theorem transfers_fit_their_buffers_witness:
  "transfer_size (Some (\<lambda>o' t d. 4 * d)) (slot_buffer_size (Some (\<lambda>o' t d. 4 * d)) 100 10) 100 10 0
     \<le> slot_buffer_size (Some (\<lambda>o' t d. 4 * d)) 100 10"
  by (rule transfers_fit_their_buffers) simp

text \<open>The callback as C sees it, on C's unsigned values.\<close>

definition c_callback :: "py_size_cb \<Rightarrow> size_fn" where
  "c_callback cb = (\<lambda>o' t d. nat (callback_wrapper cb (int o') (int t) (int d)))"

text \<open>
  Above 64 MiB the limit applies to the buffers but not to the transfers: with the callback
  that \<open>copy\<close> itself installs for a fixed block size, the first read of a large file is as long as
  the block and overruns its buffer of 64 MiB.
\<close>

theorem large_fixed_block_overruns_buffer:
  assumes "64 * 1024 * 1024 < bs" "bs < 2 ^ 32" "bs \<le> tot"
  defines "cb \<equiv> Some (c_callback (fixed_block_cb (int bs)))"
  shows "slot_buffer_size cb tot bs = 64 * 1024 * 1024
    \<and> transfer_size cb (slot_buffer_size cb tot bs) tot bs 0 = bs"
proof -
  have c: "c_uint (int bs) = int bs" using assms(2) by (intro take_bit_id) auto
  have size: "slot_buffer_size cb tot bs = 64 * 1024 * 1024"
    using assms(1,3) by (simp add: cb_def slot_buffer_size_def probe_max_large size_limit_def)
  then show ?thesis
    using assms(1,3) c by (simp add: transfer_size_def cb_def Let_def c_callback_def callback_wrapper_def
        fixed_block_cb_def)
qed

theorem large_fixed_block_overruns_buffer_witness:
  "slot_buffer_size (Some (c_callback (fixed_block_cb 134217728))) 1073741824 134217728 = 67108864
   \<and> transfer_size (Some (c_callback (fixed_block_cb 134217728)))
      (slot_buffer_size (Some (c_callback (fixed_block_cb 134217728))) 1073741824 134217728)
      1073741824 134217728 0 = 134217728"
  using large_fixed_block_overruns_buffer [of 134217728 1073741824] by auto

end
