(* ===== verification/Aio.thy ===== *)
theory Aio
  imports Ctx_Async Resource
begin

text \<open>
  \<open>pyuring/aio.py\<close>: \<open>UringAsync\<close>, which waits for completions of one \<open>UringCtx\<close> on an
  asyncio event loop, and the helpers \<open>sendfile_splice\<close> and \<open>iter_multishot_accept\<close>.  The
  part of asyncio the class uses is modelled with it: futures, which are settled at most once,
  and the readers registered with a loop.  A coroutine is cut at its \<open>await\<close>: the part up to
  it, and the part that runs when the future has been settled.
\<close>

subsection \<open>Futures, loops and the object\<close>

datatype fut = Pending | Result "int \<times> int" | Failed exn | Cancelled

(* pyuring/aio.py:43-52 UringAsync *)
record uasync =
  a_waiters :: "nat list"
  a_reader_active :: bool
  a_loop :: "nat option"
  a_closed :: bool

text \<open>
  Around the object: the \<open>UringCtx\<close> it was made with (\<open>self._ctx\<close>, which no method rebinds, so
  the test for \<open>None\<close> in \<open>_ensure_ctx_open\<close> never succeeds),
  the native world, the futures by number, and the readers as pairs of a loop and a file
  descriptor; the callback of every reader here is \<open>_on_readable\<close>.
\<close>

record 'w aio =
  as_self :: uasync
  as_ctx :: uctx
  as_world :: 'w
  as_futs :: "nat \<rightharpoonup> fut"
  as_readers :: "(nat \<times> int) set"

text \<open>\<open>loop.add_reader\<close> may refuse a file descriptor (the selector raises).\<close>

record 'w aio_env =
  ae_env :: "'w env"
  ae_add_reader :: "int \<Rightarrow> exn option"

type_synonym ('w, 'a) aio_meth = "('w aio, 'a) py"

definition on_ctx :: "('w, 'a) meth \<Rightarrow> ('w, 'a) aio_meth" where
  "on_ctx m = (\<lambda>s. case m (as_ctx s, as_world s) of
     (r, (c, w)) \<Rightarrow> (r, s\<lparr>as_ctx := c, as_world := w\<rparr>))"

definition set_waiters :: "nat list \<Rightarrow> 'w aio \<Rightarrow> 'w aio" where
  "set_waiters ws s = s\<lparr>as_self := (as_self s)\<lparr>a_waiters := ws\<rparr>\<rparr>"

definition set_active :: "bool \<Rightarrow> 'w aio \<Rightarrow> 'w aio" where
  "set_active b s = s\<lparr>as_self := (as_self s)\<lparr>a_reader_active := b\<rparr>\<rparr>"

abbreviation "waiters s \<equiv> a_waiters (as_self s)"
abbreviation "active s \<equiv> a_reader_active (as_self s)"

text \<open>\<open>if not fut.done(): ...\<close> with the value the future gets.\<close>

definition settle :: "nat \<Rightarrow> fut \<Rightarrow> 'w aio \<Rightarrow> 'w aio" where
  "settle f v s = (if as_futs s f = Some Pending then s\<lparr>as_futs := (as_futs s)(f \<mapsto> v)\<rparr> else s)"

subsection \<open>Methods\<close>

(* pyuring/aio.py:45-52 UringAsync.__init__ *)
definition UringAsync_init :: "uctx \<Rightarrow> exn + uasync" where
  "UringAsync_init ctx =
     (if \<not> truthy (u_ctx ctx)
      then Inl (uring_error_detail EINVAL ''UringAsync.__init__'' ''UringCtx is already closed'')
      else Inr \<lparr>a_waiters = [], a_reader_active = False, a_loop = None, a_closed = False\<rparr>)"

(* pyuring/aio.py:58-60 UringAsync.ring_fd *)
definition UringAsync_ring_fd :: "'w aio_env \<Rightarrow> ('w, int) aio_meth" where
  "UringAsync_ring_fd A = on_ctx (UringCtx_ring_fd (ae_env A))"

(* pyuring/aio.py:62-68 UringAsync._ensure_ctx_open *)
definition UringAsync_ensure_ctx_open :: "('w, unit) aio_meth" where
  "UringAsync_ensure_ctx_open = (\<lambda>s.
     if a_closed (as_self s)
     then (Inl (uring_error_detail EINVAL ''UringAsync'' ''UringAsync is closed''), s)
     else if \<not> truthy (u_ctx (as_ctx s))
     then (Inl (uring_error_detail EINVAL ''UringAsync'' ''UringCtx is closed''), s)
     else (Inr (), s))"

(* pyuring/aio.py:70-74 UringAsync._bind_loop *)
definition UringAsync_bind_loop :: "nat \<Rightarrow> ('w, unit) aio_meth" where
  "UringAsync_bind_loop loop = (\<lambda>s. case a_loop (as_self s) of
       None \<Rightarrow> (Inr (), s\<lparr>as_self := (as_self s)\<lparr>a_loop := Some loop\<rparr>\<rparr>)
     | Some l \<Rightarrow>
         if l \<noteq> loop
         then (Inl (RuntimeError ''UringAsync is already bound to another event loop''), s)
         else (Inr (), s))"

text \<open>\<open>except (ValueError, RuntimeError, OSError)\<close>; \<open>UringError\<close> is an \<open>OSError\<close>.\<close>

fun remove_reader_catches :: "exn \<Rightarrow> bool" where
  "remove_reader_catches (UringError _) = True"
| "remove_reader_catches (OSError _) = True"
| "remove_reader_catches (ValueError _) = True"
| "remove_reader_catches (RuntimeError _) = True"
| "remove_reader_catches _ = False"

(* pyuring/aio.py:76-83 UringAsync._remove_reader *)
definition UringAsync_remove_reader :: "'w aio_env \<Rightarrow> ('w, unit) aio_meth" where
  "UringAsync_remove_reader A = (\<lambda>s. case a_loop (as_self s) of
       None \<Rightarrow> (Inr (), s)
     | Some loop \<Rightarrow>
         if \<not> active s then (Inr (), s)
         else (case UringAsync_ring_fd A s of
             (Inr fd, s) \<Rightarrow>
               (Inr (), set_active False (s\<lparr>as_readers := as_readers s - {(loop, fd)}\<rparr>))
           | (Inl e, s) \<Rightarrow>
               if remove_reader_catches e then (Inr (), set_active False s) else (Inl e, s)))"

(* pyuring/aio.py:85-90 UringAsync._fail_all *)
definition UringAsync_fail_all :: "'w aio_env \<Rightarrow> exn \<Rightarrow> ('w, unit) aio_meth" where
  "UringAsync_fail_all A e = (\<lambda>s.
     UringAsync_remove_reader A
       (set_waiters [] (fold (\<lambda>f. settle f (Failed e)) (waiters s) s)))"

text \<open>The loop of \<open>_deliver_peek_chain\<close>; every round that goes on pops one waiter.\<close>

(* pyuring/aio.py:93-99 UringAsync._deliver_peek_chain *)
fun deliver_loop :: "'w aio_env \<Rightarrow> nat list \<Rightarrow> ('w, unit) aio_meth" where
  "deliver_loop A [] s = (Inr (), s)"
| "deliver_loop A (f # fs) s =
     (case on_ctx (UringCtx_peek_completion (ae_env A)) s of
        (Inl e, s) \<Rightarrow> (Inl e, s)
      | (Inr None, s) \<Rightarrow> (Inr (), s)
      | (Inr (Some pair), s) \<Rightarrow> deliver_loop A fs (settle f (Result pair) (set_waiters fs s)))"

(* pyuring/aio.py:92-99 UringAsync._deliver_peek_chain *)
definition UringAsync_deliver_peek_chain :: "'w aio_env \<Rightarrow> ('w, unit) aio_meth" where
  "UringAsync_deliver_peek_chain A = (\<lambda>s. deliver_loop A (waiters s) s)"

(* pyuring/aio.py:101-105 UringAsync._arm_reader *)
definition UringAsync_arm_reader :: "'w aio_env \<Rightarrow> ('w, unit) aio_meth" where
  "UringAsync_arm_reader A = (\<lambda>s. case a_loop (as_self s) of
       None \<Rightarrow> (Inr (), s)
     | Some loop \<Rightarrow>
         if a_closed (as_self s) \<or> waiters s = [] \<or> active s then (Inr (), s)
         else (case UringAsync_ring_fd A s of
             (Inl e, s) \<Rightarrow> (Inl e, s)
           | (Inr fd, s) \<Rightarrow>
               (case ae_add_reader A fd of
                  Some e \<Rightarrow> (Inl e, s)
                | None \<Rightarrow>
                    (Inr (), set_active True (s\<lparr>as_readers := insert (loop, fd) (as_readers s)\<rparr>)))))"

(* pyuring/aio.py:107-128 UringAsync._on_readable *)
definition UringAsync_on_readable :: "'w aio_env \<Rightarrow> ('w, unit) aio_meth" where
  "UringAsync_on_readable A = py_bind (UringAsync_remove_reader A) (\<lambda>_ s.
     case UringAsync_ensure_ctx_open s of
       (Inl e, s) \<Rightarrow> UringAsync_fail_all A e s
     | (Inr _, s) \<Rightarrow>
         if waiters s = [] then (Inr (), s)
         else (case on_ctx (UringCtx_wait_completion (ae_env A)) s of
             (Inl e, s) \<Rightarrow> UringAsync_fail_all A e s
           | (Inr pair, s) \<Rightarrow>
               py_bind (UringAsync_deliver_peek_chain A) (\<lambda>_. UringAsync_arm_reader A)
                 (settle (hd (waiters s)) (Result pair) (set_waiters (tl (waiters s)) s))))"

text \<open>
  \<open>wait_completion\<close> up to \<open>await fut\<close>, with the number of the future it creates, and after
  it: \<open>await\<close> returns the result of the future or raises its exception, or
  \<open>CancelledError\<close>, which also cancellation of the task raises there (\<open>interrupted\<close>).
\<close>

(* pyuring/aio.py:139-145 UringAsync.wait_completion (up to await) *)
definition UringAsync_wait_start :: "'w aio_env \<Rightarrow> nat \<Rightarrow> nat \<Rightarrow> ('w, unit) aio_meth" where
  "UringAsync_wait_start A loop f =
     py_bind UringAsync_ensure_ctx_open (\<lambda>_.
     py_bind (UringAsync_bind_loop loop) (\<lambda>_ s.
       UringAsync_arm_reader A
         (set_waiters (waiters s @ [f]) (s\<lparr>as_futs := (as_futs s)(f \<mapsto> Pending)\<rparr>))))"

(* pyuring/aio.py:146-155 UringAsync.wait_completion (from await) *)
definition UringAsync_wait_finish ::
  "'w aio_env \<Rightarrow> nat \<Rightarrow> bool \<Rightarrow> ('w, int \<times> int) aio_meth" where
  "UringAsync_wait_finish A f interrupted = (\<lambda>s.
     let cancelled = (
       let s = set_waiters (remove1 f (waiters s)) s in
       py_bind (if waiters s = [] then UringAsync_remove_reader A else py_return ())
         (\<lambda>_. py_raise CancelledError) s)
     in if interrupted then cancelled
        else case as_futs s f of
          Some (Result pair) \<Rightarrow> (Inr pair, s)
        | Some (Failed e) \<Rightarrow> (Inl e, s)
        | _ \<Rightarrow> cancelled)"

(* pyuring/aio.py:157-159 UringAsync.__aenter__ *)
definition UringAsync_aenter :: "('w, unit) aio_meth" where
  "UringAsync_aenter = UringAsync_ensure_ctx_open"

(* pyuring/aio.py:164-173 UringAsync.close *)
definition UringAsync_close :: "'w aio_env \<Rightarrow> ('w, unit) aio_meth" where
  "UringAsync_close A = (\<lambda>s.
     if a_closed (as_self s) then (Inr (), s)
     else py_bind (UringAsync_remove_reader A)
       (\<lambda>_ s. (Inr (), set_waiters [] (fold (\<lambda>f. settle f Cancelled) (waiters s) s)))
       (s\<lparr>as_self := (as_self s)\<lparr>a_closed := True\<rparr>\<rparr>))"

(* pyuring/aio.py:161-162 UringAsync.__aexit__ *)
definition UringAsync_aexit :: "'w aio_env \<Rightarrow> ('w, unit) aio_meth" where
  "UringAsync_aexit A = UringAsync_close A"

subsection \<open>Steps of a program that waits\<close>

text \<open>
  What may happen while the object exists: a task calls \<open>wait_completion\<close>, is cancelled
  while it waits, is resumed after its future has been settled, the loop runs the callback of
  a registered reader, the object is closed, or anything else happens to the context and the
  kernel that keeps \<open>I\<close>.
\<close>

inductive aio_step ::
  "'w aio_env \<Rightarrow> (uctx \<times> 'w \<Rightarrow> bool) \<Rightarrow> 'w aio \<Rightarrow> 'w aio \<Rightarrow> bool"
  for A I
where
  wait: "as_futs s f = None \<Longrightarrow> aio_step A I s (snd (UringAsync_wait_start A loop f s))"
| cancel: "aio_step A I s (settle f Cancelled s)"
| resume: "as_futs s f = Some v \<Longrightarrow> v \<noteq> Pending
    \<Longrightarrow> aio_step A I s (snd (UringAsync_wait_finish A f interrupted s))"
| readable: "(loop, fd) \<in> as_readers s \<Longrightarrow> aio_step A I s (snd (UringAsync_on_readable A s))"
| close: "aio_step A I s (snd (UringAsync_close A s))"
| outside: "I (c, w) \<Longrightarrow> aio_step A I s (s\<lparr>as_ctx := c, as_world := w\<rparr>)"

inductive aio_reachable :: "'w aio_env \<Rightarrow> (uctx \<times> 'w \<Rightarrow> bool) \<Rightarrow> 'w aio \<Rightarrow> bool"
  for A I
where
  start: "UringAsync_init c = Inr self \<Longrightarrow> I (c, w)
    \<Longrightarrow> aio_reachable A I
          \<lparr>as_self = self, as_ctx = c, as_world = w, as_futs = Map.empty, as_readers = {}\<rparr>"
| step: "aio_reachable A I s \<Longrightarrow> aio_step A I s s' \<Longrightarrow> aio_reachable A I s'"

inductive_cases aio_stepE: "aio_step A I s s'"

subsection \<open>The invariant\<close>

text \<open>
  \<open>aio_ok\<close> holds at every point of the methods, \<open>armed\<close> between them: somebody waits only if
  the loop watches the ring.
\<close>

definition aio_ok :: "int \<Rightarrow> (uctx \<times> 'w \<Rightarrow> bool) \<Rightarrow> 'w aio \<Rightarrow> bool" where
  "aio_ok fd I s \<longleftrightarrow> I (as_ctx s, as_world s)
     \<and> distinct (waiters s) \<and> set (waiters s) \<subseteq> dom (as_futs s)
     \<and> (\<forall>f. as_futs s f = Some Pending \<longrightarrow> f \<in> set (waiters s))
     \<and> (waiters s \<noteq> [] \<longrightarrow> a_loop (as_self s) \<noteq> None \<and> \<not> a_closed (as_self s))
     \<and> as_readers s = (if active s then {(the (a_loop (as_self s)), fd)} else {})
     \<and> (active s \<longrightarrow> a_loop (as_self s) \<noteq> None \<and> \<not> a_closed (as_self s))"

definition armed :: "'w aio \<Rightarrow> bool" where
  "armed s \<longleftrightarrow> (waiters s \<noteq> [] \<longrightarrow> active s)"

lemma settle_simps [simp]:
  "as_self (settle f v s) = as_self s" "as_ctx (settle f v s) = as_ctx s"
  "as_world (settle f v s) = as_world s" "as_readers (settle f v s) = as_readers s"
  by (simp_all add: settle_def)

lemma settle_futs:
  "as_futs (settle f v s) g =
     (if g = f \<and> as_futs s f = Some Pending then Some v else as_futs s g)"
  by (simp add: settle_def)

lemma set_simps [simp]:
  "a_waiters (as_self (set_waiters ws s)) = ws"
  "a_reader_active (as_self (set_waiters ws s)) = active s"
  "a_loop (as_self (set_waiters ws s)) = a_loop (as_self s)"
  "a_closed (as_self (set_waiters ws s)) = a_closed (as_self s)"
  "as_ctx (set_waiters ws s) = as_ctx s" "as_world (set_waiters ws s) = as_world s"
  "as_futs (set_waiters ws s) = as_futs s" "as_readers (set_waiters ws s) = as_readers s"
  "a_waiters (as_self (set_active b s)) = waiters s"
  "a_reader_active (as_self (set_active b s)) = b"
  "a_loop (as_self (set_active b s)) = a_loop (as_self s)"
  "a_closed (as_self (set_active b s)) = a_closed (as_self s)"
  "as_ctx (set_active b s) = as_ctx s" "as_world (set_active b s) = as_world s"
  "as_futs (set_active b s) = as_futs s" "as_readers (set_active b s) = as_readers s"
  by (simp_all add: set_waiters_def set_active_def)

lemma fold_settle [simp]:
  "as_self (fold (\<lambda>f. settle f v) fs s) = as_self s" "as_ctx (fold (\<lambda>f. settle f v) fs s) = as_ctx s"
  "as_world (fold (\<lambda>f. settle f v) fs s) = as_world s"
  "as_readers (fold (\<lambda>f. settle f v) fs s) = as_readers s"
  by (induction fs arbitrary: s) simp_all

lemma fold_settle_futs:
  "v \<noteq> Pending \<Longrightarrow> as_futs (fold (\<lambda>f. settle f v) fs s) g =
     (if g \<in> set fs \<and> as_futs s g = Some Pending then Some v else as_futs s g)"
  by (induction fs arbitrary: s) (auto simp: settle_futs)

lemma aio_ok_settle: "aio_ok fd I s \<Longrightarrow> v \<noteq> Pending \<Longrightarrow> aio_ok fd I (settle f v s)"
  by (auto simp: aio_ok_def settle_futs)

lemma aio_ok_pop:
  "aio_ok fd I s \<Longrightarrow> waiters s = f # fs \<Longrightarrow> v \<noteq> Pending
     \<Longrightarrow> aio_ok fd I (settle f v (set_waiters fs s))"
  by (auto simp: aio_ok_def settle_futs)

lemma aio_ok_drop:
  "aio_ok fd I s \<Longrightarrow> as_futs s f \<noteq> Some Pending \<Longrightarrow> aio_ok fd I (set_waiters (remove1 f (waiters s)) s)"
  by (auto simp: aio_ok_def dest: notin_set_remove1)

lemma remove_reader_closed:
  "UringAsync_remove_reader A (s\<lparr>as_self := (as_self s)\<lparr>a_closed := b\<rparr>\<rparr>) =
     (case UringAsync_remove_reader A s of
        (r, s') \<Rightarrow> (r, s'\<lparr>as_self := (as_self s')\<lparr>a_closed := b\<rparr>\<rparr>))"
  by (auto simp: UringAsync_remove_reader_def UringAsync_ring_fd_def on_ctx_def set_active_def
      split: option.splits prod.splits sum.splits)

text \<open>Completions handed to waiters, one each.\<close>

definition served :: "(nat \<times> int \<times> int) list \<Rightarrow> (nat \<rightharpoonup> fut) \<Rightarrow> nat \<rightharpoonup> fut" where
  "served xs m = fold (\<lambda>(f, p) m. if m f = Some Pending then m(f \<mapsto> Result p) else m) xs m"

lemma served_simps [simp]:
  "served [] m = m"
  "served ((f, p) # xs) m = served xs (if m f = Some Pending then m(f \<mapsto> Result p) else m)"
  by (simp_all add: served_def)

lemma as_futs_settle: "as_futs (settle f v s) = (if as_futs s f = Some Pending
    then (as_futs s)(f \<mapsto> v) else as_futs s)"
  by (simp add: settle_def)

lemma served_other: "g \<notin> fst ` set xs \<Longrightarrow> served xs m g = m g"
  by (induction xs arbitrary: m) auto

lemma served_nth:
  "distinct fs \<Longrightarrow> i < length fs \<Longrightarrow> i < length ps \<Longrightarrow> m (fs ! i) = Some Pending
     \<Longrightarrow> served (zip fs ps) m (fs ! i) = Some (Result (ps ! i))"
proof (induction fs arbitrary: ps i m)
  case (Cons f fs)
  then obtain p qs where ps: "ps = p # qs" by (cases ps) auto
  have "f \<notin> fst ` set (zip fs qs)" using Cons.prems(1) by (auto dest: set_zip_leftD)
  then show ?case
  proof (cases i)
    case (Suc j)
    then have "fs ! j \<noteq> f" using Cons.prems(1,2) by (auto simp: in_set_conv_nth)
    then show ?thesis using Cons Suc ps by simp
  qed (use Cons.prems(4) ps in \<open>simp add: served_other\<close>)
qed simp

lemma aio_ok_settle_all:
  "aio_ok fd I s \<Longrightarrow> v \<noteq> Pending
     \<Longrightarrow> aio_ok fd I (set_waiters [] (fold (\<lambda>f. settle f v) (waiters s) s))"
  by (auto simp: aio_ok_def fold_settle_futs)

subsection \<open>The contract with the context\<close>

text \<open>
  While \<open>I\<close> holds the \<open>UringCtx\<close> is open, its ring keeps its file descriptor, which the loop
  accepts, polling for a completion does not fail, and the calls keep \<open>I\<close>.
\<close>

locale completion_source =
  fixes A :: "'w aio_env" and fd :: int and I :: "uctx \<times> 'w \<Rightarrow> bool"
  assumes accepted: "I s \<Longrightarrow> ae_add_reader A fd = None"
    and is_open: "I (c, w) \<Longrightarrow> truthy (u_ctx c)"
    and ring_fd: "I s \<Longrightarrow> \<exists>s'. UringCtx_ring_fd (ae_env A) s = (Inr fd, s') \<and> I s'"
    and peek: "I s \<Longrightarrow> \<exists>r s'. UringCtx_peek_completion (ae_env A) s = (Inr r, s') \<and> I s'"
    and wait: "I s \<Longrightarrow> I (snd (UringCtx_wait_completion (ae_env A) s))"
begin

lemma ring_fd_served:
  assumes "aio_ok fd I s"
  obtains c w where "UringAsync_ring_fd A s = (Inr fd, s\<lparr>as_ctx := c, as_world := w\<rparr>)" "I (c, w)"
proof -
  obtain c w where "UringCtx_ring_fd (ae_env A) (as_ctx s, as_world s) = (Inr fd, (c, w))" "I (c, w)"
    using assms ring_fd [of "(as_ctx s, as_world s)"] by (auto simp: aio_ok_def)
  then show ?thesis by (intro that [of w c]) (simp_all add: UringAsync_ring_fd_def on_ctx_def)
qed

lemma remove_reader_spec:
  assumes "aio_ok fd I s"
  shows "fst (UringAsync_remove_reader A s) = Inr ()"
    and "aio_ok fd I (snd (UringAsync_remove_reader A s))"
    and "\<not> active (snd (UringAsync_remove_reader A s))"
    and "waiters (snd (UringAsync_remove_reader A s)) = waiters s"
    and "as_futs (snd (UringAsync_remove_reader A s)) = as_futs s"
    and "a_closed (as_self (snd (UringAsync_remove_reader A s))) = a_closed (as_self s)"
proof -
  obtain c w where cw: "UringAsync_ring_fd A s = (Inr fd, s\<lparr>as_ctx := c, as_world := w\<rparr>)" "I (c, w)"
    using assms by (rule ring_fd_served)
  show "fst (UringAsync_remove_reader A s) = Inr ()"
    "aio_ok fd I (snd (UringAsync_remove_reader A s))"
    "\<not> active (snd (UringAsync_remove_reader A s))"
    "waiters (snd (UringAsync_remove_reader A s)) = waiters s"
    "as_futs (snd (UringAsync_remove_reader A s)) = as_futs s"
    "a_closed (as_self (snd (UringAsync_remove_reader A s))) = a_closed (as_self s)"
    using cw assms by (auto simp: UringAsync_remove_reader_def aio_ok_def split: option.splits)
qed

lemma arm_reader_spec:
  assumes "aio_ok fd I s"
  shows "fst (UringAsync_arm_reader A s) = Inr ()"
    and "aio_ok fd I (snd (UringAsync_arm_reader A s)) \<and> armed (snd (UringAsync_arm_reader A s))"
proof -
  obtain c w where cw: "UringAsync_ring_fd A s = (Inr fd, s\<lparr>as_ctx := c, as_world := w\<rparr>)" "I (c, w)"
    using assms by (rule ring_fd_served)
  show "fst (UringAsync_arm_reader A s) = Inr ()"
    "aio_ok fd I (snd (UringAsync_arm_reader A s)) \<and> armed (snd (UringAsync_arm_reader A s))"
    using cw accepted [OF cw(2)] assms
    by (auto simp: UringAsync_arm_reader_def aio_ok_def armed_def split: option.splits)
qed

lemma fail_all_spec:
  "aio_ok fd I s \<Longrightarrow> aio_ok fd I (snd (UringAsync_fail_all A e s)) \<and> armed (snd (UringAsync_fail_all A e s))"
  using remove_reader_spec(2,4) [OF aio_ok_settle_all [of fd I s "Failed e"]]
  by (simp add: UringAsync_fail_all_def armed_def)

lemma deliver_spec:
  assumes "aio_ok fd I s" "waiters s = fs"
  shows "fst (deliver_loop A fs s) = Inr () \<and> aio_ok fd I (snd (deliver_loop A fs s))"
  using assms
proof (induction fs arbitrary: s)
  case Nil
  then show ?case by simp
next
  case (Cons f fs)
  obtain r c w where p: "UringCtx_peek_completion (ae_env A) (as_ctx s, as_world s) = (Inr r, (c, w))"
      "I (c, w)"
    using peek [of "(as_ctx s, as_world s)"] Cons.prems(1) by (auto simp: aio_ok_def)
  define s1 where "s1 = s\<lparr>as_ctx := c, as_world := w\<rparr>"
  have s1: "on_ctx (UringCtx_peek_completion (ae_env A)) s = (Inr r, s1)" "aio_ok fd I s1"
      "waiters s1 = f # fs"
    using p Cons.prems by (auto simp: on_ctx_def s1_def aio_ok_def)
  have "aio_ok fd I (settle f (Result pair) (set_waiters fs s1))" for pair
    using s1(2,3) by (rule aio_ok_pop) simp
  then show ?case
    using s1(1,2) Cons.IH by (cases r) auto
qed

lemma on_readable_spec:
  assumes "aio_ok fd I s"
  shows "aio_ok fd I (snd (UringAsync_on_readable A s)) \<and> armed (snd (UringAsync_on_readable A s))"
proof -
  let ?s1 = "snd (UringAsync_remove_reader A s)"
  note rr = remove_reader_spec [OF assms]
  have I1: "I (as_ctx ?s1, as_world ?s1)" using rr(2) by (simp add: aio_ok_def)
  show ?thesis
  proof (cases "waiters ?s1 = []")
    case True
    then show ?thesis
      using rr is_open [OF I1] fail_all_spec [OF rr(2)]
      by (auto simp: UringAsync_on_readable_def py_bind_eq UringAsync_ensure_ctx_open_def armed_def)
  next
    case False
    then have open1: "UringAsync_ensure_ctx_open ?s1 = (Inr (), ?s1)"
      using rr(2) is_open [OF I1] by (auto simp: aio_ok_def UringAsync_ensure_ctx_open_def)
    obtain r c w where p: "UringCtx_wait_completion (ae_env A) (as_ctx ?s1, as_world ?s1) = (r, (c, w))"
        "I (c, w)"
      using wait [OF I1] by (metis prod.collapse)
    define s2 where "s2 = ?s1\<lparr>as_ctx := c, as_world := w\<rparr>"
    have s2: "on_ctx (UringCtx_wait_completion (ae_env A)) ?s1 = (r, s2)" "aio_ok fd I s2"
        "waiters s2 = waiters ?s1"
      using p rr(2) by (auto simp: on_ctx_def s2_def aio_ok_def)
    show ?thesis
    proof (cases r)
      case (Inl e)
      then show ?thesis
        using rr(1) open1 s2 False fail_all_spec [OF s2(2), of e]
        by (simp add: UringAsync_on_readable_def py_bind_eq)
    next
      case (Inr pair)
      define s3 where "s3 = settle (hd (waiters s2)) (Result pair) (set_waiters (tl (waiters s2)) s2)"
      have "aio_ok fd I s3"
        unfolding s3_def using s2(2,3) False by (intro aio_ok_pop) auto
      then have d: "fst (UringAsync_deliver_peek_chain A s3) = Inr ()"
          "aio_ok fd I (snd (UringAsync_deliver_peek_chain A s3))"
        using deliver_spec [of s3] by (simp_all add: UringAsync_deliver_peek_chain_def)
      have "UringAsync_on_readable A s = UringAsync_arm_reader A (snd (UringAsync_deliver_peek_chain A s3))"
        using Inr rr(1) open1 s2(1,3) False d(1)
        by (simp add: UringAsync_on_readable_def py_bind_eq s3_def)
      then show ?thesis using arm_reader_spec(2) [OF d(2)] by simp
    qed
  qed
qed

lemma wait_start_spec:
  assumes "aio_ok fd I s" "as_futs s f = None" "armed s"
  shows "aio_ok fd I (snd (UringAsync_wait_start A l f s)) \<and> armed (snd (UringAsync_wait_start A l f s))"
proof (cases "a_closed (as_self s) \<or> \<not> truthy (u_ctx (as_ctx s))
    \<or> (a_loop (as_self s) \<noteq> None \<and> a_loop (as_self s) \<noteq> Some l)")
  case True
  then show ?thesis using assms
    by (auto simp: UringAsync_wait_start_def py_bind_eq UringAsync_ensure_ctx_open_def
        UringAsync_bind_loop_def)
next
  case False
  define s1 where "s1 = set_waiters (waiters s @ [f])
     (s\<lparr>as_self := (as_self s)\<lparr>a_loop := Some l\<rparr>, as_futs := (as_futs s)(f \<mapsto> Pending)\<rparr>)"
  have self: "(as_self s)\<lparr>a_loop := Some l, a_waiters := ws\<rparr> = (as_self s)\<lparr>a_waiters := ws\<rparr>"
    if "a_loop (as_self s) = Some l" for ws using that by (cases "as_self s") simp
  have eq: "UringAsync_wait_start A l f s = UringAsync_arm_reader A s1"
    using False by (cases "a_loop (as_self s)")
      (simp_all add: UringAsync_wait_start_def py_bind_eq UringAsync_ensure_ctx_open_def
        UringAsync_bind_loop_def s1_def set_waiters_def self)
  have "aio_ok fd I s1"
    using assms False by (auto simp: aio_ok_def s1_def)
  then show ?thesis unfolding eq by (rule arm_reader_spec(2))
qed

lemma wait_finish_spec:
  assumes "aio_ok fd I s" "as_futs s f = Some v" "v \<noteq> Pending" "armed s"
  shows "aio_ok fd I (snd (UringAsync_wait_finish A f b s))
     \<and> armed (snd (UringAsync_wait_finish A f b s))"
proof -
  let ?s = "set_waiters (remove1 f (waiters s)) s"
  have ok: "aio_ok fd I ?s" using assms(1-3) by (intro aio_ok_drop) auto
  have "armed ?s" using assms(4) by (cases "waiters s") (auto simp: armed_def)
  define cancelled :: "(exn + int \<times> int) \<times> 'w aio" where "cancelled = py_bind (if waiters ?s = [] then UringAsync_remove_reader A
      else py_return ()) (\<lambda>_. py_raise CancelledError) ?s"
  have c: "aio_ok fd I (snd cancelled) \<and> armed (snd cancelled)"
    using ok \<open>armed ?s\<close> remove_reader_spec [OF ok]
    by (auto simp: cancelled_def py_bind_eq py_raise_apply py_return_apply armed_def)
  have "UringAsync_wait_finish A f b s = cancelled \<or> snd (UringAsync_wait_finish A f b s) = s"
    by (auto simp: UringAsync_wait_finish_def cancelled_def Let_def split: option.split fut.split)
  then show ?thesis using c assms(1,4) by auto
qed

lemma close_spec:
  assumes "aio_ok fd I s"
  shows "aio_ok fd I (snd (UringAsync_close A s)) \<and> armed (snd (UringAsync_close A s))
    \<and> fst (UringAsync_close A s) = Inr () \<and> a_closed (as_self (snd (UringAsync_close A s)))
    \<and> as_futs (snd (UringAsync_close A s))
        = (\<lambda>f. if as_futs s f = Some Pending then Some Cancelled else as_futs s f)"
proof (cases "a_closed (as_self s)")
  case True
  then show ?thesis using assms
    by (auto simp: UringAsync_close_def aio_ok_def armed_def fun_eq_iff)
next
  case False
  define s1 where "s1 = snd (UringAsync_remove_reader A s)"
  have s1: "UringAsync_remove_reader A s = (Inr (), s1)" "aio_ok fd I s1" "\<not> active s1"
      "as_futs s1 = as_futs s"
    using remove_reader_spec(1-3,5) [OF assms] by (auto simp: s1_def prod_eq_iff)
  have "UringAsync_close A s = (Inr (), set_waiters [] (fold (\<lambda>f. settle f Cancelled) (waiters s1)
      (s1\<lparr>as_self := (as_self s1)\<lparr>a_closed := True\<rparr>\<rparr>)))"
    using False s1(1) by (simp add: UringAsync_close_def py_bind_eq remove_reader_closed)
  then show ?thesis
    using s1(2-4) by (auto simp: aio_ok_def armed_def fold_settle_futs fun_eq_iff)
qed

lemma step_ok:
  assumes "aio_step A I s s'" "aio_ok fd I s" "armed s"
  shows "aio_ok fd I s' \<and> armed s'"
  using assms(1)
proof cases
  case (wait f loop)
  then show ?thesis using wait_start_spec assms(2,3) by blast
next
  case (cancel f)
  then show ?thesis using assms(2,3) by (auto simp: aio_ok_settle armed_def)
next
  case (resume f v interrupted)
  then show ?thesis using wait_finish_spec assms(2,3) by blast
next
  case readable
  then show ?thesis using on_readable_spec assms(2) by blast
next
  case close
  then show ?thesis using close_spec assms(2) by blast
next
  case (outside c w)
  then show ?thesis using assms(2,3) by (auto simp: aio_ok_def armed_def)
qed

lemma reachable_ok: "aio_reachable A I s \<Longrightarrow> aio_ok fd I s \<and> armed s"
proof (induction rule: aio_reachable.induct)
  case (start c self w)
  then show ?case
    by (auto simp: UringAsync_init_def aio_ok_def armed_def split: if_splits)
next
  case (step s s')
  then show ?case using step_ok by blast
qed

end

text \<open>
  The largest invariant a context can offer: it serves now and after each of the calls.
\<close>

coinductive serving :: "'w aio_env \<Rightarrow> int \<Rightarrow> uctx \<times> 'w \<Rightarrow> bool" for A fd where
  "ae_add_reader A fd = None \<Longrightarrow> truthy (u_ctx (fst s))
     \<Longrightarrow> UringCtx_ring_fd (ae_env A) s = (Inr fd, s1) \<Longrightarrow> serving A fd s1
     \<Longrightarrow> UringCtx_peek_completion (ae_env A) s = (Inr r, s2) \<Longrightarrow> serving A fd s2
     \<Longrightarrow> serving A fd (snd (UringCtx_wait_completion (ae_env A) s))
     \<Longrightarrow> serving A fd s"

interpretation uring_source: completion_source A fd "serving A fd" for A fd
proof
  fix s show "serving A fd s \<Longrightarrow> ae_add_reader A fd = None"
    "serving A fd s \<Longrightarrow> \<exists>s'. UringCtx_ring_fd (ae_env A) s = (Inr fd, s') \<and> serving A fd s'"
    "serving A fd s \<Longrightarrow> \<exists>r s'. UringCtx_peek_completion (ae_env A) s = (Inr r, s') \<and> serving A fd s'"
    "serving A fd s \<Longrightarrow> serving A fd (snd (UringCtx_wait_completion (ae_env A) s))"
    by (auto elim: serving.cases)
next
  fix c w show "serving A fd (c, w) \<Longrightarrow> truthy (u_ctx c)" by (auto elim: serving.cases)
qed

subsection \<open>A context as a queue of completions\<close>

text \<open>
  A stronger contract: in state \<open>s\<close> the completions \<open>cs\<close> wait to be reaped, in this order.
\<close>

locale completion_queue =
  completion_source A fd "\<lambda>s. \<exists>cs. Q cs s"
  for A :: "'w aio_env" and fd :: int and Q :: "(int \<times> int) list \<Rightarrow> uctx \<times> 'w \<Rightarrow> bool" +
  assumes ring_fd_keeps: "Q cs s \<Longrightarrow> \<exists>s'. UringCtx_ring_fd (ae_env A) s = (Inr fd, s') \<and> Q cs s'"
    and peek_empty: "Q [] s \<Longrightarrow> \<exists>s'. UringCtx_peek_completion (ae_env A) s = (Inr None, s') \<and> Q [] s'"
    and peek_first: "Q (p # cs) s
      \<Longrightarrow> \<exists>s'. UringCtx_peek_completion (ae_env A) s = (Inr (Some p), s') \<and> Q cs s'"
    and wait_first: "Q (p # cs) s
      \<Longrightarrow> \<exists>s'. UringCtx_wait_completion (ae_env A) s = (Inr p, s') \<and> Q cs s'"
begin

abbreviation "I \<equiv> \<lambda>s. \<exists>cs. Q cs s"

abbreviation at :: "(int \<times> int) list \<Rightarrow> 'w aio \<Rightarrow> bool" where
  "at cs s \<equiv> Q cs (as_ctx s, as_world s)"

lemma remove_reader_at:
  assumes "at cs s"
  shows "at cs (snd (UringAsync_remove_reader A s))"
proof -
  obtain c w where "UringCtx_ring_fd (ae_env A) (as_ctx s, as_world s) = (Inr fd, (c, w))" "Q cs (c, w)"
    using ring_fd_keeps [OF assms] by auto
  then show ?thesis using assms
    by (auto simp: UringAsync_remove_reader_def UringAsync_ring_fd_def on_ctx_def split: option.split)
qed

lemma arm_reader_at:
  assumes "at cs s"
  shows "at cs (snd (UringAsync_arm_reader A s)) \<and> waiters (snd (UringAsync_arm_reader A s)) = waiters s
    \<and> as_futs (snd (UringAsync_arm_reader A s)) = as_futs s"
proof -
  obtain c w where "UringCtx_ring_fd (ae_env A) (as_ctx s, as_world s) = (Inr fd, (c, w))" "Q cs (c, w)"
    using ring_fd_keeps [OF assms] by auto
  then show ?thesis using assms
    by (auto simp: UringAsync_arm_reader_def UringAsync_ring_fd_def on_ctx_def split: option.split)
qed

lemma deliver_at:
  assumes "at cs s" "waiters s = fs"
  shows "let s' = snd (deliver_loop A fs s) in
     at (drop (length fs) cs) s' \<and> waiters s' = drop (length cs) fs
     \<and> as_futs s' = served (zip fs cs) (as_futs s)"
  using assms
proof (induction fs arbitrary: cs s)
  case Nil
  then show ?case by simp
next
  case (Cons f fs)
  show ?case
  proof (cases cs)
    case Nil
    then obtain c w where "UringCtx_peek_completion (ae_env A) (as_ctx s, as_world s) = (Inr None, (c, w))"
        "Q [] (c, w)"
      using peek_empty [of "(as_ctx s, as_world s)"] Cons.prems(1) by auto
    then show ?thesis using Nil Cons.prems by (simp add: on_ctx_def)
  next
    case c: (Cons p ps)
    then obtain c w where p: "UringCtx_peek_completion (ae_env A) (as_ctx s, as_world s)
          = (Inr (Some p), (c, w))" "Q ps (c, w)"
      using peek_first [of p ps "(as_ctx s, as_world s)"] Cons.prems(1) by auto
    define s1 where "s1 = settle f (Result p) (set_waiters fs (s\<lparr>as_ctx := c, as_world := w\<rparr>))"
    have "deliver_loop A (f # fs) s = deliver_loop A fs s1"
      using p(1) by (simp add: on_ctx_def s1_def)
    moreover have "at ps s1" "waiters s1 = fs" using p(2) by (simp_all add: s1_def)
    ultimately show ?thesis
      using Cons.IH [of ps s1] c by (simp add: Let_def s1_def as_futs_settle)
  qed
qed

text \<open>One call of the callback serves the waiters in their order, each with one completion.\<close>

lemma on_readable_at:
  assumes "aio_ok fd I s" "at (p # cs) s" "waiters s = f # fs"
  shows "let s' = snd (UringAsync_on_readable A s) in
     at (drop (length fs) cs) s' \<and> waiters s' = drop (length cs) fs
     \<and> as_futs s' = served (zip (f # fs) (p # cs)) (as_futs s)"
proof -
  define s1 where "s1 = snd (UringAsync_remove_reader A s)"
  have s1: "UringAsync_remove_reader A s = (Inr (), s1)" "aio_ok fd I s1" "waiters s1 = f # fs"
      "as_futs s1 = as_futs s" "at (p # cs) s1"
    using remove_reader_spec [OF assms(1)] remove_reader_at [OF assms(2)] assms(3)
    by (auto simp: s1_def prod_eq_iff)
  then have open1: "UringAsync_ensure_ctx_open s1 = (Inr (), s1)"
    using is_open by (auto simp: aio_ok_def UringAsync_ensure_ctx_open_def)
  obtain c w where w: "UringCtx_wait_completion (ae_env A) (as_ctx s1, as_world s1) = (Inr p, (c, w))"
      "Q cs (c, w)"
    using wait_first [OF s1(5)] by auto
  define s2 where "s2 = settle f (Result p) (set_waiters fs (s1\<lparr>as_ctx := c, as_world := w\<rparr>))"
  have s2: "aio_ok fd I s2" "at cs s2" "waiters s2 = fs"
    using s1(2,3) w(2) by (auto simp: s2_def aio_ok_def settle_futs)
  define s3 where "s3 = snd (deliver_loop A fs s2)"
  have s3: "UringAsync_deliver_peek_chain A s2 = (Inr (), s3)" "at (drop (length fs) cs) s3"
      "waiters s3 = drop (length cs) fs" "as_futs s3 = served (zip fs cs) (as_futs s2)"
    using deliver_spec [OF s2(1) s2(3)] deliver_at [OF s2(2,3)] s2(3)
    by (auto simp: s3_def UringAsync_deliver_peek_chain_def Let_def prod_eq_iff)
  have "UringAsync_on_readable A s = UringAsync_arm_reader A s3"
    using s1(1,3) open1 w(1) s3(1)
    by (simp add: UringAsync_on_readable_def py_bind_eq on_ctx_def s2_def)
  then show ?thesis
    using arm_reader_at [OF s3(2)] s3(3,4) s1(4)
    by (simp add: Let_def s2_def as_futs_settle)
qed

end

text \<open>The contract in terms of the context: the largest relation that satisfies it.\<close>

coinductive queued :: "'w aio_env \<Rightarrow> int \<Rightarrow> (int \<times> int) list \<Rightarrow> uctx \<times> 'w \<Rightarrow> bool" for A fd where
  "ae_add_reader A fd = None \<Longrightarrow> truthy (u_ctx (fst s))
     \<Longrightarrow> UringCtx_ring_fd (ae_env A) s = (Inr fd, s1) \<Longrightarrow> queued A fd cs s1
     \<Longrightarrow> UringCtx_peek_completion (ae_env A) s = (Inr r, s2)
     \<Longrightarrow> r = (case cs of [] \<Rightarrow> None | p # ps \<Rightarrow> Some p) \<Longrightarrow> queued A fd (tl cs) s2
     \<Longrightarrow> UringCtx_wait_completion (ae_env A) s = (r3, s3) \<Longrightarrow> queued A fd cs3 s3
     \<Longrightarrow> cs \<noteq> [] \<longrightarrow> r3 = Inr (hd cs) \<and> cs3 = tl cs
     \<Longrightarrow> queued A fd cs s"

interpretation uring_queue: completion_queue A fd "queued A fd" for A fd
proof
  fix s cs p c w
  show "\<exists>cs. queued A fd cs s \<Longrightarrow> ae_add_reader A fd = None"
    "queued A fd cs s \<Longrightarrow> \<exists>s'. UringCtx_ring_fd (ae_env A) s = (Inr fd, s') \<and> queued A fd cs s'"
    "queued A fd [] s
      \<Longrightarrow> \<exists>s'. UringCtx_peek_completion (ae_env A) s = (Inr None, s') \<and> queued A fd [] s'"
    "queued A fd (p # cs) s
      \<Longrightarrow> \<exists>s'. UringCtx_peek_completion (ae_env A) s = (Inr (Some p), s') \<and> queued A fd cs s'"
    "queued A fd (p # cs) s
      \<Longrightarrow> \<exists>s'. UringCtx_wait_completion (ae_env A) s = (Inr p, s') \<and> queued A fd cs s'"
    by (auto elim: queued.cases)
  show "\<exists>cs. queued A fd cs s
      \<Longrightarrow> \<exists>s'. UringCtx_ring_fd (ae_env A) s = (Inr fd, s') \<and> (\<exists>cs. queued A fd cs s')"
    by (erule exE, erule queued.cases) auto
  show "\<exists>cs. queued A fd cs s
      \<Longrightarrow> \<exists>r s'. UringCtx_peek_completion (ae_env A) s = (Inr r, s') \<and> (\<exists>cs. queued A fd cs s')"
    by (erule exE, erule queued.cases) auto
  show "\<exists>cs. queued A fd cs s
      \<Longrightarrow> \<exists>cs. queued A fd cs (snd (UringCtx_wait_completion (ae_env A) s))"
    by (erule exE, erule queued.cases) auto
next
  fix c w show "\<exists>cs. queued A fd cs (c, w) \<Longrightarrow> truthy (u_ctx c)" by (auto elim: queued.cases)
qed

end
