(* ===== verification/Aio_Helpers.thy ===== *)
theory Aio_Helpers
  imports Aio
begin

unbundle bit_operations_syntax

text \<open>
  The coroutines of \<open>pyuring/aio.py\<close> built on \<open>UringAsync\<close>.  What happens between
  \<open>await ua.wait_completion()\<close> and its result (other tasks, the loop, the kernel) is the argument
  \<open>awaits\<close>.  The loops may go on for ever, so they are partial: \<open>None\<close> is a run that never
  returns.
\<close>

type_synonym ('w, 'a) coro = "'w aio \<Rightarrow> ((exn + 'a) \<times> 'w aio) option"

subsection \<open>sendfile_splice\<close>

definition mismatch_detail :: "int \<Rightarrow> int \<Rightarrow> string" where
  "mismatch_detail ud user_data =
     ''unexpected user_data '' @ str_of_int ud @ '', expected '' @ str_of_int user_data"

definition splice_length :: "int option \<Rightarrow> int \<Rightarrow> int \<Rightarrow> int" where
  "splice_length count chunk moved =
     (case count of None \<Rightarrow> chunk | Some c \<Rightarrow> min chunk (c - moved))"

text \<open>The loop, with \<open>total\<close> (here \<open>moved\<close>) and \<open>off\<close> as it updates them.\<close>

(* pyuring/aio.py:195-205 sendfile_splice *)
partial_function (option) sendfile_loop ::
  "'w aio_env \<Rightarrow> ('w, int \<times> int) aio_meth \<Rightarrow> int \<Rightarrow> int \<Rightarrow> int option \<Rightarrow> int \<Rightarrow> int
     \<Rightarrow> int \<Rightarrow> int \<Rightarrow> ('w, int) coro" where
  "sendfile_loop A awaits file_fd sock_fd count chunk user_data moved off s =
     (if count \<noteq> None \<and> the count \<le> moved then Some (Inr moved, s)
      else case on_ctx (UringCtx_splice_submit (ae_env A) file_fd off sock_fd (- 1)
                  (splice_length count chunk moved) 0 user_data) s of
        (Inl e, s) \<Rightarrow> Some (Inl e, s)
      | (Inr _, s) \<Rightarrow>
          (case awaits s of
             (Inl e, s) \<Rightarrow> Some (Inl e, s)
           | (Inr (ud, res), s) \<Rightarrow>
               if ud \<noteq> user_data
               then Some (Inl (uring_error_detail EINVAL ''sendfile_splice''
                      (mismatch_detail ud user_data)), s)
               else if res \<le> 0 then Some (Inr moved, s)
               else sendfile_loop A awaits file_fd sock_fd count chunk user_data
                      (moved + res) (off + res) s))"

(* pyuring/aio.py:176-194 sendfile_splice *)
definition sendfile_splice ::
  "'w aio_env \<Rightarrow> ('w, int \<times> int) aio_meth \<Rightarrow> int \<Rightarrow> int \<Rightarrow> int \<Rightarrow> int option \<Rightarrow> int \<Rightarrow> int
     \<Rightarrow> ('w, int) coro" where
  "sendfile_splice A awaits file_fd sock_fd offset count chunk user_data =
     sendfile_loop A awaits file_fd sock_fd count chunk user_data 0 offset"

subsection \<open>iter_multishot_accept\<close>

text \<open>
  The generator up to its first suspension submits; every \<open>__anext__\<close> then runs the loop to the
  next \<open>yield\<close>.
\<close>

(* pyuring/aio.py:208-220 iter_multishot_accept *)
definition multishot_accept_begin ::
  "'w aio_env \<Rightarrow> int \<Rightarrow> int \<Rightarrow> int \<Rightarrow> ('w, int) aio_meth" where
  "multishot_accept_begin A listen_fd flags user_data =
     on_ctx (UringCtx_multishot_accept_submit (ae_env A) listen_fd flags user_data)"

(* pyuring/aio.py:221-227 iter_multishot_accept *)
partial_function (option) multishot_accept_next ::
  "('w, int \<times> int) aio_meth \<Rightarrow> int \<Rightarrow> ('w, int) coro" where
  "multishot_accept_next awaits user_data s =
     (case awaits s of
        (Inl e, s) \<Rightarrow> Some (Inl e, s)
      | (Inr (ud, res), s) \<Rightarrow>
          if ud \<noteq> user_data then multishot_accept_next awaits user_data s
          else if res < 0
          then Some (Inl (UringError (UringError_init (- res) ''iter_multishot_accept''
                 None None None None)), s)
          else Some (Inr res, s))"

subsection \<open>wait_completion_in_executor\<close>

text \<open>The call runs on a worker thread, so the thread check sees that thread.\<close>

(* pyuring/aio.py:230-247 wait_completion_in_executor *)
definition wait_completion_in_executor :: "'w env \<Rightarrow> int \<Rightarrow> ('w, int \<times> int) meth" where
  "wait_completion_in_executor E worker = UringCtx_wait_completion (E\<lparr>thread_ident := worker\<rparr>)"

subsection \<open>What a splice moves\<close>

text \<open>
  What \<open>splice(2)\<close> documents for a regular file as source, seen through one
  submission and the await of its completion.  Into a pipe (\<open>to_pipe\<close>), it moves at least one and at most
  \<open>n\<close> bytes from the given offset, none only at the end of the file; when the destination is not a
  pipe, neither end is, and it fails with \<open>EINVAL\<close>.  \<open>sent\<close> reads what the destination has received.
\<close>

definition splice_ok ::
  "bool \<Rightarrow> 'w aio_env \<Rightarrow> ('w, int \<times> int) aio_meth \<Rightarrow> int \<Rightarrow> int \<Rightarrow> int \<Rightarrow> 'b list \<Rightarrow> ('w aio \<Rightarrow> 'b list)
     \<Rightarrow> ('w aio \<Rightarrow> bool) \<Rightarrow> bool" where
  "splice_ok to_pipe A awaits file_fd dest_fd user_data file sent ready \<longleftrightarrow>
     (\<forall>s off n. ready s \<longrightarrow> int off < 2 ^ 63 \<longrightarrow> 0 < n \<longrightarrow> n < 2 ^ 32 \<longrightarrow>
       (\<exists>r s1 m s2.
          on_ctx (UringCtx_splice_submit (ae_env A) file_fd (int off) dest_fd (- 1) n 0 user_data) s
            = (Inr r, s1)
        \<and> awaits s1 = (Inr (user_data, if to_pipe then int m else - EINVAL), s2) \<and> ready s2
        \<and> (if to_pipe
            then int m \<le> n \<and> m \<le> length file - off \<and> (m = 0 \<longrightarrow> length file \<le> off)
               \<and> sent s2 = sent s @ take m (drop off file)
            else sent s2 = sent s)))"

lemma sendfile_loop_sends:
  assumes "splice_ok True A awaits file_fd sock_fd user_data file sent ready"
    and "0 < chunk" "chunk < 2 ^ 32" "int (length file) < 2 ^ 63"
    and "ready s" "int off < 2 ^ 63" "case count of None \<Rightarrow> True | Some c \<Rightarrow> moved \<le> c"
    and "k = (case count of None \<Rightarrow> length file - off
           | Some c \<Rightarrow> min (nat (c - moved)) (length file - off))"
  shows "\<exists>s'. sendfile_loop A awaits file_fd sock_fd count chunk user_data moved (int off) s
       = Some (Inr (moved + int k), s')
     \<and> sent s' = sent s @ take k (drop off file)"
  using assms(5-8)
proof (induction k arbitrary: moved off s rule: less_induct)
  case (less k)
  show ?case
  proof (cases "count \<noteq> None \<and> the count \<le> moved")
    case True
    then show ?thesis using less.prems
      by (subst sendfile_loop.simps) auto
  next
    case False
    define n where "n = splice_length count chunk moved"
    have n: "0 < n" "n < 2 ^ 32"
      using False assms(2,3) by (auto simp: n_def splice_length_def split: option.split)
    then obtain r s1 m s2 where step:
      "on_ctx (UringCtx_splice_submit (ae_env A) file_fd (int off) sock_fd (- 1) n 0 user_data) s
         = (Inr r, s1)" "awaits s1 = (Inr (user_data, int m), s2)" "ready s2"
      "int m \<le> n" "m \<le> length file - off" "m = 0 \<longrightarrow> length file \<le> off"
      "sent s2 = sent s @ take m (drop off file)"
      using assms(1) less.prems(1,2) unfolding splice_ok_def if_True by blast
    have unfold: "sendfile_loop A awaits file_fd sock_fd count chunk user_data moved (int off) s
        = (if int m \<le> 0 then Some (Inr moved, s2)
           else sendfile_loop A awaits file_fd sock_fd count chunk user_data (moved + int m)
              (int (off + m)) s2)"
      using False step(1,2) by (subst sendfile_loop.simps) (auto simp flip: n_def)
    show ?thesis
    proof (cases "m = 0")
      case True
      then show ?thesis using unfold step(6,7) less.prems(4) by (auto split: option.split)
    next
      case m: False
      define k' where "k' = (case count of None \<Rightarrow> length file - (off + m)
         | Some c \<Rightarrow> min (nat (c - (moved + int m))) (length file - (off + m)))"
      have le: "case count of None \<Rightarrow> True | Some c \<Rightarrow> moved + int m \<le> c"
        using step(4) by (auto simp: n_def splice_length_def split: option.splits)
      then have k: "k = m + k'"
        using less.prems(4) step(5) by (cases count; simp add: k'_def min_def; linarith)
      then have "k' < k" using m by simp
      have off: "int (off + m) < 2 ^ 63" using less.prems(2) assms(4) step(5) m by linarith
      from less.IH [OF \<open>k' < k\<close> step(3) off le k'_def] obtain s' where
        "sendfile_loop A awaits file_fd sock_fd count chunk user_data (moved + int m) (int (off + m)) s2
           = Some (Inr (moved + int m + int k'), s')"
        "sent s' = sent s2 @ take k' (drop (off + m) file)" by blast
      then show ?thesis
        using unfold m step(7) take_add [of m k' "drop off file"] k by (simp add: ac_simps)
    qed
  qed
qed

lemma sendfile_loop_no_pipe:
  assumes "splice_ok False A awaits file_fd sock_fd user_data file sent ready"
    and "0 < chunk" "chunk < 2 ^ 32" "ready s" "int off < 2 ^ 63"
  shows "\<exists>s'. sendfile_loop A awaits file_fd sock_fd count chunk user_data moved (int off) s
       = Some (Inr moved, s') \<and> sent s' = sent s"
proof (cases "count \<noteq> None \<and> the count \<le> moved")
  case True
  then show ?thesis by (subst sendfile_loop.simps) auto
next
  case False
  define n where "n = splice_length count chunk moved"
  have n: "0 < n" "n < 2 ^ 32"
    using False assms(2,3) by (auto simp: n_def splice_length_def split: option.split)
  then obtain r s1 s2 where step:
    "on_ctx (UringCtx_splice_submit (ae_env A) file_fd (int off) sock_fd (- 1) n 0 user_data) s
       = (Inr r, s1)" "awaits s1 = (Inr (user_data, - EINVAL), s2)" "sent s2 = sent s"
    using assms(1,4,5) unfolding splice_ok_def if_False by blast
  then have "sendfile_loop A awaits file_fd sock_fd count chunk user_data moved (int off) s = Some (Inr moved, s2)"
    using False by (subst sendfile_loop.simps) (auto simp flip: n_def)
  then show ?thesis using step(3) by blast
qed

end
