(* ===== verification/Aio_Props.thy ===== *)
theory Aio_Props
  imports Aio_Helpers
begin

text \<open>
  What \<open>UringAsync\<close> guarantees to the tasks that wait on it: they are woken, served in order
  and settled by \<open>close\<close>; and two ways in which a completion or a registration is lost.
\<close>

subsection \<open>A context that is a list of completions\<close>

definition list_native :: "string \<Rightarrow> cval list \<Rightarrow> (int \<times> int) list \<Rightarrow> reply \<times> (int \<times> int) list" where
  "list_native f args cs =
     (if f = ''uring_ring_fd'' then (\<lparr>rp_ret = 9, rp_out = [], rp_errno = 0\<rparr>, cs)
      else case cs of
        [] \<Rightarrow> (\<lparr>rp_ret = (if f = ''uring_wait_completion'' then - EAGAIN else 0),
                rp_out = [], rp_errno = 0\<rparr>, [])
      | (ud, res) # ps \<Rightarrow> (\<lparr>rp_ret = (if f = ''uring_wait_completion'' then 0 else 1),
                rp_out = [ud, res], rp_errno = 0\<rparr>, ps))"

definition list_env :: "(int \<times> int) list aio_env" where
  "list_env = \<lparr>ae_env = \<lparr>native = list_native, thread_ident = 1, ct_errno = 0\<rparr>,
     ae_add_reader = (\<lambda>_. None)\<rparr>"

definition list_ctx :: uctx where
  "list_ctx = \<lparr>u_ctx = Some 4096, u_owner_thread_id = Some 1, u_buffer_keepalive = [],
     u_async_io_keepalive = Map.empty\<rparr>"

lemmas list_simps = list_env_def list_native_def list_ctx_def

definition plain_pair :: "int \<times> int \<Rightarrow> bool" where
  "plain_pair p \<longleftrightarrow> take_bit 64 (fst p) = fst p \<and> signed_take_bit 31 (snd p) = snd p"

lemma list_calls:
  "usable (ae_env list_env) c \<Longrightarrow> UringCtx_ring_fd (ae_env list_env) (c, cs) = (Inr 9, (c, cs))"
  "usable (ae_env list_env) c \<Longrightarrow> UringCtx_peek_completion (ae_env list_env) (c, []) = (Inr None, (c, []))"
  "usable (ae_env list_env) c \<Longrightarrow> plain_pair p \<Longrightarrow> UringCtx_peek_completion (ae_env list_env) (c, p # cs)
     = (Inr (Some p), (c\<lparr>u_async_io_keepalive := (u_async_io_keepalive c)(fst p := None)\<rparr>, cs))"
  "usable (ae_env list_env) c \<Longrightarrow> \<exists>e. UringCtx_wait_completion (ae_env list_env) (c, []) = (Inl e, (c, []))"
  "usable (ae_env list_env) c \<Longrightarrow> plain_pair p \<Longrightarrow> UringCtx_wait_completion (ae_env list_env) (c, p # cs)
     = (Inr p, (c\<lparr>u_async_io_keepalive := (u_async_io_keepalive c)(fst p := None)\<rparr>, cs))"
  by (auto simp: UringCtx_ring_fd_def sync_int_def sync_call_eq ring_call_eq invoke_native_def
      UringCtx_peek_completion_def UringCtx_wait_completion_def list_simps uring_ring_fd_def
      uring_peek_completion_def uring_wait_completion_def convert_ret_def raise_for_neg_errno_def
      py_defs completion_out_def plain_pair_def UringCtx_completion_release_async_io_buffer_def
      split_beta)

lemma usable_unpinned [simp]:
  "usable E (c\<lparr>u_async_io_keepalive := k\<rparr>) = usable E c"
  by (simp add: usable_def)

lemma list_queued:
  assumes "usable (ae_env list_env) c" "\<forall>p \<in> set cs. plain_pair p"
  shows "queued list_env 9 cs (c, cs)"
  using assms
proof (coinduction arbitrary: c cs)
  case queued
  then show ?case
  proof (cases cs)
    case Nil
    obtain e where "UringCtx_wait_completion (ae_env list_env) (c, []) = (Inl e, (c, []))"
      using list_calls(4) queued(1) by blast
    then show ?thesis
      using Nil queued list_calls(1,2) [of c] by (fastforce simp: list_env_def usable_def)
  next
    case (Cons p ps)
    then show ?thesis
      using queued list_calls(1) [of c "p # ps"] list_calls(3,5) [of c p ps]
      by (fastforce simp: list_env_def usable_def)
  qed
qed

lemma queued_serving: "queued A fd cs s \<Longrightarrow> serving A fd s"
proof (coinduction arbitrary: cs s)
  case serving
  then show ?case by cases (auto 4 4)
qed

lemma init_list_ctx:
  "UringAsync_init list_ctx = Inr \<lparr>a_waiters = [], a_reader_active = False, a_loop = None, a_closed = False\<rparr>"
  by (simp add: UringAsync_init_def list_ctx_def)

definition list_aio :: "nat list \<Rightarrow> (nat \<rightharpoonup> fut) \<Rightarrow> (int \<times> int) list \<Rightarrow> (int \<times> int) list aio" where
  "list_aio ws futs cs = \<lparr>as_self = \<lparr>a_waiters = ws, a_reader_active = (ws \<noteq> []),
       a_loop = (if ws = [] then None else Some 1), a_closed = False\<rparr>,
     as_ctx = list_ctx, as_world = cs, as_futs = futs, as_readers = (if ws = [] then {} else {(1, 9)})\<rparr>"

lemma usable_list_ctx: "usable (ae_env list_env) list_ctx"
  by (simp add: usable_def list_simps)

lemma list_wait:
  "UringAsync_wait_start list_env 1 f (list_aio ws futs cs)
     = (Inr (), list_aio (ws @ [f]) (futs(f \<mapsto> Pending)) cs)"
  using list_calls(1) [OF usable_list_ctx]
  by (cases ws) (auto simp: UringAsync_wait_start_def UringAsync_ensure_ctx_open_def UringAsync_bind_loop_def
      UringAsync_arm_reader_def UringAsync_ring_fd_def on_ctx_def list_aio_def py_bind_eq
      set_waiters_def set_active_def list_env_def list_ctx_def)

lemma list_aio_two:
  assumes "\<And>cs. \<forall>p \<in> set cs. plain_pair p \<Longrightarrow> I (list_ctx, cs)" "\<forall>p \<in> set cs. plain_pair p"
  shows "aio_reachable list_env I (list_aio [0, 1] [0 \<mapsto> Pending, 1 \<mapsto> Pending] cs)"
proof -
  have "aio_reachable list_env I (list_aio [] Map.empty cs)"
    using aio_reachable.start [OF init_list_ctx, of I cs list_env] assms by (simp add: list_aio_def)
  from aio_reachable.step [OF this aio_step.wait [where f = 0 and loop = 1]]
  have "aio_reachable list_env I (list_aio [0] [0 \<mapsto> Pending] cs)"
    using list_wait [of 0 "[]" Map.empty cs] by (simp add: list_aio_def)
  from aio_reachable.step [OF this aio_step.wait [where f = 1 and loop = 1]]
  show ?thesis using list_wait [of 1 "[0]" "[0 \<mapsto> Pending]" cs] by (simp add: list_aio_def)
qed

subsection \<open>Nobody waits in vain\<close>

text \<open>
  C9: A task that waits is queued on the object, and the loop watches the completion queue
  for it, whatever tasks start, are cancelled, resume or are woken.
\<close>

theorem waiting_tasks_are_woken:
  assumes "aio_reachable A (serving A fd) s" and "as_futs s f = Some Pending"
  shows "f \<in> set (waiters s) \<and> \<not> a_closed (as_self s)
    \<and> (\<exists>loop. a_loop (as_self s) = Some loop \<and> (loop, fd) \<in> as_readers s)"
  using uring_source.reachable_ok [OF assms(1)] assms(2)
  by (auto simp: aio_ok_def armed_def split: if_splits)

theorem waiting_tasks_are_woken_witness:
  "1 \<in> set (waiters (list_aio [0, 1] [0 \<mapsto> Pending, 1 \<mapsto> Pending] []))"
  using waiting_tasks_are_woken [of list_env 9 "list_aio [0, 1] [0 \<mapsto> Pending, 1 \<mapsto> Pending] []" 1]
    list_aio_two [of "serving list_env 9" "[]"] list_queued [OF usable_list_ctx] queued_serving
  by (fastforce simp: list_aio_def)

text \<open>
  C10: One callback hands the completions that are ready to the waiting tasks in their order, one
  to each; the tasks that got none go on waiting and the completions nobody waits for stay in
  the ring.
\<close>

theorem completions_reach_waiters_in_order:
  assumes "aio_reachable A (\<lambda>s. \<exists>cs. queued A fd cs s) s"
    and "queued A fd cs (as_ctx s, as_world s)" "cs \<noteq> []"
    and "waiters s = fs" "i < length fs" "as_futs s (fs ! i) = Some Pending"
  shows "let s' = snd (UringAsync_on_readable A s) in
     as_futs s' (fs ! i) = Some (if i < length cs then Result (cs ! i) else Pending)
   \<and> waiters s' = drop (length cs) fs
   \<and> queued A fd (drop (length fs) cs) (as_ctx s', as_world s')"
proof -
  have ok: "aio_ok fd (\<lambda>s. \<exists>cs. queued A fd cs s) s"
    using uring_queue.reachable_ok [OF assms(1)] by blast
  then have d: "distinct fs" using assms(4) by (simp add: aio_ok_def)
  obtain p ps f gs where c: "cs = p # ps" "fs = f # gs"
    using assms(3,5) by (cases cs; cases fs) auto
  have "served (zip fs cs) (as_futs s) (fs ! i) = Some (if i < length cs then Result (cs ! i) else Pending)"
  proof (cases "i < length cs")
    case True
    then show ?thesis using served_nth [of fs i cs "as_futs s"] d assms(5,6) by simp
  next
    case False
    then have "fs ! i \<notin> fst ` set (zip fs cs)"
      using d assms(5) by (auto simp: set_zip nth_eq_iff_index_eq)
    then show ?thesis using False assms(6) by (simp add: served_other)
  qed
  then show ?thesis
    using uring_queue.on_readable_at [OF ok, of p ps f gs] assms(2,4) c by (simp add: Let_def)
qed

theorem completions_reach_waiters_in_order_witness:
  "as_futs (snd (UringAsync_on_readable list_env
       (list_aio [0, 1] [0 \<mapsto> Pending, 1 \<mapsto> Pending] [(7, 16), (8, 32), (9, 64)]))) 1
     = Some (Result (8, 32))"
proof -
  have "\<forall>p \<in> set [(7, 16), (8, 32), (9, 64)]. plain_pair p" by (simp add: plain_pair_def)
  then show ?thesis
    using completions_reach_waiters_in_order [of list_env 9
        "list_aio [0, 1] [0 \<mapsto> Pending, 1 \<mapsto> Pending] [(7, 16), (8, 32), (9, 64)]"
        "[(7, 16), (8, 32), (9, 64)]" "[0, 1]" 1]
      list_aio_two [of "\<lambda>s. \<exists>cs. queued list_env 9 cs s" "[(7, 16), (8, 32), (9, 64)]"]
      list_queued [OF usable_list_ctx]
    by (auto simp: list_aio_def Let_def)
qed

lemma close_after_ring:
  assumes "aio_ok fd I s" and t: "t = s\<lparr>as_ctx := (as_ctx s)\<lparr>u_ctx := None\<rparr>\<rparr>"
  shows "fst (UringAsync_close A t) = Inr () \<and> as_readers (snd (UringAsync_close A t)) = as_readers s
    \<and> as_futs (snd (UringAsync_close A t))
        = (\<lambda>f. if as_futs s f = Some Pending then Some Cancelled else as_futs s f)"
proof (cases "a_closed (as_self s)")
  case True
  then show ?thesis using assms by (auto simp: UringAsync_close_def aio_ok_def fun_eq_iff)
next
  case False
  define s1 where "s1 = t\<lparr>as_self := (as_self t)\<lparr>a_closed := True\<rparr>\<rparr>"
  have "\<exists>s2. UringAsync_remove_reader A s1 = (Inr (), s2) \<and> as_readers s2 = as_readers s \<and> as_futs s2 = as_futs s
      \<and> waiters s2 = waiters s"
    by (auto simp: UringAsync_remove_reader_def UringAsync_ring_fd_def on_ctx_def UringCtx_ring_fd_def sync_int_def
        sync_call_eq usable_def guard_error_def uring_error_detail_def s1_def t split: option.split)
  then obtain s2 where s2: "UringAsync_remove_reader A s1 = (Inr (), s2)" "as_readers s2 = as_readers s"
      "as_futs s2 = as_futs s" "waiters s2 = waiters s" by blast
  have "UringAsync_close A t = (Inr (), set_waiters [] (fold (\<lambda>f. settle f Cancelled) (waiters s2) s2))"
    using False s2(1) t by (simp add: UringAsync_close_def py_bind_eq s1_def)
  then show ?thesis
    using assms(1) s2(2-4) by (auto simp: aio_ok_def fold_settle_futs fun_eq_iff)
qed

text \<open>
  C31: Closing the object cancels every task that waits and ends the object:
  waiting again raises, closing again does nothing.  While the ring is open it also removes the reader
  from the loop; when the \<open>UringCtx\<close> has been closed first, the reader stays
  registered, as its descriptor can no longer be asked for.
\<close>

theorem async_close_settles_every_wait:
  assumes "aio_reachable A (serving A fd) s"
  shows "let s' = snd (UringAsync_close A s); t = s\<lparr>as_ctx := (as_ctx s)\<lparr>u_ctx := None\<rparr>\<rparr>;
       t' = snd (UringAsync_close A t) in
     fst (UringAsync_close A s) = Inr ()
   \<and> as_futs s' = (\<lambda>f. if as_futs s f = Some Pending then Some Cancelled else as_futs s f)
   \<and> waiters s' = [] \<and> as_readers s' = {}
   \<and> UringAsync_close A s' = (Inr (), s')
   \<and> UringAsync_wait_start A loop f s'
       = (Inl (uring_error_detail EINVAL ''UringAsync'' ''UringAsync is closed''), s')
   \<and> fst (UringAsync_close A t) = Inr () \<and> as_futs t' = as_futs s' \<and> as_readers t' = as_readers s"
proof -
  have ok: "aio_ok fd (serving A fd) s" using uring_source.reachable_ok [OF assms] by blast
  note c = uring_source.close_spec [OF this]
  have again: "UringAsync_close A t = (Inr (), t)" if "a_closed (as_self t)" for t
    using that by (simp add: UringAsync_close_def)
  show ?thesis
    using c close_after_ring [OF ok refl, of A] by (auto simp: Let_def aio_ok_def again UringAsync_wait_start_def
        UringAsync_ensure_ctx_open_def py_bind_eq split: if_splits)
qed

theorem async_close_settles_every_wait_witness:
  "as_futs (snd (UringAsync_close list_env (list_aio [0, 1] [0 \<mapsto> Pending, 1 \<mapsto> Pending] []))) 1
     = Some Cancelled"
  using async_close_settles_every_wait [of list_env 9 "list_aio [0, 1] [0 \<mapsto> Pending, 1 \<mapsto> Pending] []"]
    list_aio_two [of "serving list_env 9" "[]"] list_queued [OF usable_list_ctx] queued_serving
  by (fastforce simp: list_aio_def Let_def)

subsection \<open>What gets lost\<close>

text \<open>
  The future of a cancelled task stays in the queue until the task has been resumed; a
  completion that is reaped in between is given to it and lost: the next task goes on waiting
  and the ring is empty.
\<close>

theorem cancelled_waiter_swallows_completion:
  assumes "aio_reachable A (\<lambda>s. \<exists>cs. queued A fd cs s) s"
    and "queued A fd [p] (as_ctx s, as_world s)"
    and "waiters s = f # fs" "as_futs s f = Some Cancelled"
  shows "let s' = snd (UringAsync_on_readable A s) in
     as_futs s' = as_futs s \<and> waiters s' = fs \<and> queued A fd [] (as_ctx s', as_world s')"
proof -
  have "aio_ok fd (\<lambda>s. \<exists>cs. queued A fd cs s) s"
    using uring_queue.reachable_ok [OF assms(1)] by blast
  from uring_queue.on_readable_at [OF this assms(2,3)]
  show ?thesis using assms(4) by (simp add: Let_def)
qed

theorem cancelled_waiter_swallows_completion_witness:
  "let s' = snd (UringAsync_on_readable list_env
       (settle 0 Cancelled (list_aio [0, 1] [0 \<mapsto> Pending, 1 \<mapsto> Pending] [(7, 16)])))
   in as_futs s' 1 = Some Pending \<and> waiters s' = [1] \<and> queued list_env 9 [] (as_ctx s', as_world s')"
proof -
  let ?I = "\<lambda>s. \<exists>cs. queued list_env 9 cs s"
  let ?s = "list_aio [0, 1] [0 \<mapsto> Pending, 1 \<mapsto> Pending] [(7, 16)]"
  have p: "\<forall>p \<in> set [(7, 16)]. plain_pair p" by (simp add: plain_pair_def)
  have q: "queued list_env 9 [(7, 16)] (list_ctx, [(7, 16)])"
    by (rule list_queued [OF usable_list_ctx p])
  have "aio_reachable list_env ?I ?s"
    using list_aio_two [of ?I "[(7, 16)]"] list_queued [OF usable_list_ctx] p by blast
  from aio_reachable.step [OF this aio_step.cancel [of list_env ?I ?s 0]]
  show ?thesis
    using cancelled_waiter_swallows_completion [of list_env 9 "settle 0 Cancelled ?s" "(7, 16)" 0 "[1]"] q
    by (simp add: list_aio_def Let_def as_futs_settle)
qed

text \<open>
  Once the \<open>UringCtx\<close> has been closed, its file descriptor can no longer be asked for, so
  closing the object leaves the reader registered with the loop, and believes it removed.
\<close>

theorem closing_after_the_ring_leaves_the_reader:
  assumes "u_ctx (as_ctx s) = None" "active s" "a_loop (as_self s) = Some loop"
    and "(loop, fd) \<in> as_readers s" "\<not> a_closed (as_self s)"
  shows "let s' = snd (UringAsync_close A s) in
     fst (UringAsync_close A s) = Inr () \<and> \<not> active s' \<and> (loop, fd) \<in> as_readers s'"
  using assms
  by (simp add: Let_def UringAsync_close_def py_bind_eq UringAsync_remove_reader_def
      UringAsync_ring_fd_def on_ctx_def UringCtx_ring_fd_def sync_int_def sync_call_eq usable_def
      guard_error_def uring_error_detail_def)

theorem closing_after_the_ring_leaves_the_reader_witness:
  "(1, 9) \<in> as_readers (snd (UringAsync_close list_env
       (list_aio [0] [0 \<mapsto> Pending] []\<lparr>as_ctx := list_ctx\<lparr>u_ctx := None\<rparr>\<rparr>)))"
  using closing_after_the_ring_leaves_the_reader [of
      "list_aio [0] [0 \<mapsto> Pending] []\<lparr>as_ctx := list_ctx\<lparr>u_ctx := None\<rparr>\<rparr>" 1 9 list_env]
  by (simp add: list_aio_def Let_def)

subsection \<open>Sending a file\<close>

text \<open>
  C16: \<open>sendfile_splice\<close> from a regular file returns, and what it does depends on the destination.  Into
  a pipe it sends exactly the next \<open>count\<close> bytes of the file from \<open>offset\<close> (all that are left, when there are fewer or no
  \<open>count\<close> is given), in order and without gaps, however the kernel cuts them, and returns
  their number.  Into a socket, which it is named and documented for, every splice fails with
  \<open>EINVAL\<close> as \<open>splice(2)\<close> documents; the loop takes the error for the end of the file, sends nothing and returns
  0 as if all were well.
\<close>

theorem sendfile_splice_needs_a_pipe:
  assumes "splice_ok to_pipe A awaits file_fd dest_fd user_data file sent ready"
    and "0 < chunk" "chunk < 2 ^ 32" "int (length file) < 2 ^ 63" "ready s" "int off < 2 ^ 63"
    and "case count of None \<Rightarrow> k = length file - off
           | Some c \<Rightarrow> 0 \<le> c \<and> k = min (nat c) (length file - off)"
  shows "\<exists>s'. sendfile_splice A awaits file_fd dest_fd (int off) count chunk user_data s
       = Some (Inr (if to_pipe then int k else 0), s')
     \<and> sent s' = sent s @ (if to_pipe then take k (drop off file) else [])"
proof (cases to_pipe)
  case True
  then have "splice_ok True A awaits file_fd dest_fd user_data file sent ready" using assms(1) by simp
  from sendfile_loop_sends [OF this assms(2-6), where count = count and moved = 0 and k = k] assms(7) True
  show ?thesis by (simp add: sendfile_splice_def split: option.splits)
next
  case False
  then have "splice_ok False A awaits file_fd dest_fd user_data file sent ready" using assms(1) by simp
  from sendfile_loop_no_pipe [OF this assms(2,3,5,6), where count = count and moved = 0] False
  show ?thesis by (simp add: sendfile_splice_def)
qed

text \<open>A pipe that takes at most two bytes at a time from a file of five.\<close>

record sink_world =
  sw_sent :: "nat list"
  sw_done :: int

definition sink_native :: "string \<Rightarrow> cval list \<Rightarrow> sink_world \<Rightarrow> reply \<times> sink_world" where
  "sink_native f args w =
     (case args of
        [h, fd_in, CInt off, fd_out, off_out, CInt n, fl, ud] \<Rightarrow>
          let part = take (min 2 (nat n)) (drop (nat off) [10, 20, 30, 40, 50])
          in (\<lparr>rp_ret = 0, rp_out = [], rp_errno = 0\<rparr>,
              \<lparr>sw_sent = sw_sent w @ part, sw_done = int (length part)\<rparr>)
      | _ \<Rightarrow> (\<lparr>rp_ret = - ENOSYS, rp_out = [], rp_errno = 0\<rparr>, w))"

definition sink_env :: "sink_world aio_env" where
  "sink_env = \<lparr>ae_env = \<lparr>native = sink_native, thread_ident = 1, ct_errno = 0\<rparr>,
     ae_add_reader = (\<lambda>_. None)\<rparr>"

definition sink_await :: "(sink_world, int \<times> int) aio_meth" where
  "sink_await s = (Inr (9100, sw_done (as_world s)), s)"

definition sink_start :: "sink_world aio" where
  "sink_start = \<lparr>as_self = \<lparr>a_waiters = [], a_reader_active = False, a_loop = None, a_closed = False\<rparr>,
     as_ctx = list_ctx, as_world = \<lparr>sw_sent = [], sw_done = 0\<rparr>, as_futs = Map.empty, as_readers = {}\<rparr>"

lemma sink_splice_ok:
  "splice_ok True sink_env sink_await 3 4 9100 [10, 20, 30, 40, 50] (\<lambda>s. sw_sent (as_world s))
     (\<lambda>s. as_ctx s = list_ctx)"
  unfolding splice_ok_def if_True
proof (intro allI impI)
  fix s :: "sink_world aio" and off :: nat and n :: int
  assume s: "as_ctx s = list_ctx" and off: "int off < 2 ^ 63" and n: "0 < n" "n < 2 ^ 32"
  define part where "part = take (min 2 (nat n)) (drop off [10, 20, 30, 40, 50::nat])"
  define s1 where "s1 = s\<lparr>as_world := \<lparr>sw_sent = sw_sent (as_world s) @ part,
      sw_done = int (length part)\<rparr>\<rparr>"
  have len: "int (length part) \<le> n" "length part \<le> 5 - off" "length part = 0 \<longrightarrow> 5 \<le> off"
    using n by (simp_all add: part_def min_def) linarith+
  have part: "part = take (length part) (drop off [10, 20, 30, 40, 50])"
    unfolding part_def by (metis append_eq_conv_conj append_take_drop_id)
  have call: "on_ctx (UringCtx_splice_submit (ae_env sink_env) 3 (int off) 4 (- 1) n 0 9100) s = (Inr 0, s1)"
    using s off n
    by (simp add: on_ctx_def UringCtx_splice_submit_def sync_int_def sync_call_eq usable_def
        invoke_native_def uring_splice_submit_def sink_env_def sink_native_def list_ctx_def s1_def
        part_def convert_ret_def raise_for_neg_errno_def py_defs Let_def mask32_eq mask64_eq
        signed_take_bit_id take_bit_id)
  show "\<exists>r s1 m s2. on_ctx (UringCtx_splice_submit (ae_env sink_env) 3 (int off) 4 (- 1) n 0 9100) s
            = (Inr r, s1)
        \<and> sink_await s1 = (Inr (9100, int m), s2) \<and> as_ctx s2 = list_ctx
        \<and> int m \<le> n \<and> m \<le> length [10, 20, 30, 40, 50::nat] - off
        \<and> (m = 0 \<longrightarrow> length [10, 20, 30, 40, 50::nat] \<le> off)
        \<and> sw_sent (as_world s2) = sw_sent (as_world s) @ take m (drop off [10, 20, 30, 40, 50])"
    using call len part s by (intro exI [of _ 0] exI [of _ s1] exI [of _ "length part"])
      (auto simp: sink_await_def s1_def)
qed

theorem sendfile_splice_needs_a_pipe_witness:
  "\<exists>s'. sendfile_splice sink_env sink_await 3 4 1 (Some 3) 65536 9100 sink_start = Some (Inr 3, s')
     \<and> sw_sent (as_world s') = [20, 30, 40]"
  using sendfile_splice_needs_a_pipe [OF sink_splice_ok, where chunk = 65536
      and s = sink_start and off = 1 and count = "Some 3" and k = 3]
  by (simp add: sink_start_def numeral_3_eq_3)

end
