(* ===== verification/Async_File.thy ===== *)
theory Async_File
  imports Aio_Helpers
begin

unbundle bit_operations_syntax

text \<open>
  \<open>pyuring/async_file.py\<close>: the class \<open>AsyncFile\<close>, which reads and writes a file through a ring
  of its own when one can be created, and through a Python file object on a thread pool
  otherwise.  Each method that takes the lock is cut in two, before and while it holds it:
  between the two parts other tasks run.
\<close>

subsection \<open>State and surroundings\<close>

(* pyuring/async_file.py:119-134 AsyncFile *)
record afile =
  f_path :: string
  f_mode :: string
  f_flags :: int
  f_prefer_uring :: bool
  f_use_uring :: bool
  f_fd :: "int option"
  f_fp :: "nat option"
  f_ring :: bool
  f_ua :: bool
  f_pos :: int
  f_ud :: int
  f_closed :: bool
  f_lock :: bool

text \<open>
  \<open>f_ring\<close> and \<open>f_ua\<close> tell whether \<open>_ring\<close> and \<open>_ua\<close> are set; the objects they refer to are the
  context and the \<open>UringAsync\<close> of \<open>fw_aio\<close>.  \<open>f_lock\<close> tells that the lock exists.
  \<open>fw_available\<close> is the module variable \<open>_URING_AVAILABLE\<close>.
\<close>

record 'w fworld =
  fw_self :: afile
  fw_available :: "bool option"
  fw_aio :: "'w aio"

text \<open>
  The operating system calls and Python file objects the class uses (the latter run on the
  executor), the memory of Python objects, and the scheduling of \<open>await\<close>.
\<close>

record 'w file_env =
  fe_aio :: "'w aio_env"
  fe_await :: "('w, int \<times> int) aio_meth"
  fe_os_open :: "string \<Rightarrow> int \<Rightarrow> 'w \<Rightarrow> (exn + int) \<times> 'w"
  fe_lseek_end :: "int \<Rightarrow> 'w \<Rightarrow> (exn + int) \<times> 'w"
  fe_os_close :: "int \<Rightarrow> 'w \<Rightarrow> (exn + unit) \<times> 'w"
  fe_open :: "string \<Rightarrow> string \<Rightarrow> 'w \<Rightarrow> (exn + nat) \<times> 'w"
  fe_fp_read :: "nat \<Rightarrow> int \<Rightarrow> 'w \<Rightarrow> (exn + int list) \<times> 'w"
  fe_fp_write :: "nat \<Rightarrow> int list \<Rightarrow> 'w \<Rightarrow> (exn + int) \<times> 'w"
  fe_fp_close :: "nat \<Rightarrow> 'w \<Rightarrow> (exn + unit) \<times> 'w"
  fe_alloc :: "int list \<Rightarrow> 'w \<Rightarrow> nat \<times> 'w"
  fe_bytes :: "nat \<Rightarrow> 'w \<Rightarrow> int list"

type_synonym ('w, 'a) fmeth = "('w fworld, 'a) py"
type_synonym ('w, 'a) fcoro = "'w fworld \<Rightarrow> ((exn + 'a) \<times> 'w fworld) option"

definition on_aio :: "('w, 'a) aio_meth \<Rightarrow> ('w, 'a) fmeth" where
  "on_aio m = (\<lambda>s. case m (fw_aio s) of (r, a) \<Rightarrow> (r, s\<lparr>fw_aio := a\<rparr>))"

definition on_world :: "('w \<Rightarrow> (exn + 'a) \<times> 'w) \<Rightarrow> ('w, 'a) fmeth" where
  "on_world m = on_aio (\<lambda>a. case m (as_world a) of (r, w) \<Rightarrow> (r, a\<lparr>as_world := w\<rparr>))"

definition set_self :: "(afile \<Rightarrow> afile) \<Rightarrow> 'w fworld \<Rightarrow> 'w fworld" where
  "set_self f s = s\<lparr>fw_self := f (fw_self s)\<rparr>"

abbreviation "f_env F \<equiv> ae_env (fe_aio F)"

subsection \<open>Is io_uring available?\<close>

(* pyuring/async_file.py:23-23 _READ_SLICE *)
definition READ_SLICE :: nat where "READ_SLICE = 256 * 1024"

definition unavailable_errnos :: "int list" where
  "unavailable_errnos = [EPERM, EACCES, EINVAL, EOPNOTSUPP, ENOSYS, ENODEV]"

(* pyuring/async_file.py:28-56 _probe_io_uring *)
definition probe_io_uring :: "'w env \<Rightarrow> bool option \<Rightarrow> 'w \<Rightarrow> (exn + bool) \<times> bool option \<times> 'w" where
  "probe_io_uring E available w =
     (case available of
        Some b \<Rightarrow> (Inr b, available, w)
      | None \<Rightarrow>
          (case (case UringCtx_init E 8 0 (- 1) 0 True w of
                   (Inl e, w) \<Rightarrow> (Inl e, w)
                 | (Inr r, w) \<Rightarrow> (case UringCtx_close E (r, w) of (res, (_, w)) \<Rightarrow> (res, w))) of
             (Inl (UringError u), w) \<Rightarrow>
               if ue_errno u \<in> set unavailable_errnos then (Inr False, Some False, w)
               else (Inl (UringError u), available, w)
           | (Inl e, w) \<Rightarrow> (Inl e, available, w)
           | (Inr _, w) \<Rightarrow> (Inr True, Some True, w)))"

subsection \<open>Modes\<close>

(* pyuring/async_file.py:59-71 _VALID_BINARY_MODES *)
definition VALID_BINARY_MODES :: "string list" where
  "VALID_BINARY_MODES =
     [''rb'', ''wb'', ''ab'', ''r+b'', ''rb+'', ''w+b'', ''wb+'', ''a+b'', ''ab+'']"

text \<open>\<open>str.strip\<close> on characters up to 255.\<close>

definition py_space :: "char \<Rightarrow> bool" where
  "py_space c \<longleftrightarrow> (of_char c :: nat) \<in> {9..13} \<union> {28..32} \<union> {133, 160}"

definition py_strip :: "string \<Rightarrow> string" where
  "py_strip m = rev (dropWhile py_space (rev (dropWhile py_space m)))"

(* pyuring/async_file.py:74-85 _normalize_mode *)
definition normalize_mode :: "(string \<Rightarrow> string) \<Rightarrow> string \<Rightarrow> exn + string" where
  "normalize_mode repr mode =
     (let m = py_strip mode
      in if m \<in> set VALID_BINARY_MODES then Inr m
         else if m = [] then Inl (ValueError ''empty mode'')
         else if CHR ''b'' \<notin> set m
         then Inl (ValueError (''pyuring.async_file only supports binary modes (e.g. ''
                     @ quoted ''rb'' @ '', '' @ quoted ''wb'' @ '')''))
         else if CHR ''t'' \<in> set m
         then Inl (ValueError (''text mode is not supported; use a binary mode such as ''
                     @ quoted ''rb''))
         else Inl (ValueError (''invalid mode '' @ repr mode)))"

text \<open>The numbers of the Linux headers that \<open>os\<close> exports.\<close>

abbreviation "O_RDONLY \<equiv> (0::int)"
abbreviation "O_WRONLY \<equiv> (1::int)"
abbreviation "O_RDWR \<equiv> (2::int)"
abbreviation "O_CREAT \<equiv> (64::int)"
abbreviation "O_TRUNC \<equiv> (512::int)"
abbreviation "O_APPEND \<equiv> (1024::int)"

(* pyuring/async_file.py:88-103 _mode_to_flags *)
definition mode_to_flags :: "(string \<Rightarrow> string) \<Rightarrow> string \<Rightarrow> exn + int" where
  "mode_to_flags repr mode =
     (let cm = filter (\<lambda>c. c \<noteq> CHR ''b'') mode
      in if cm = ''r'' then Inr O_RDONLY
         else if cm = ''w'' then Inr (O_WRONLY OR O_CREAT OR O_TRUNC)
         else if cm = ''a'' then Inr (O_WRONLY OR O_APPEND OR O_CREAT)
         else if cm = ''r+'' then Inr O_RDWR
         else if cm = ''w+'' then Inr (O_RDWR OR O_CREAT OR O_TRUNC)
         else if cm = ''a+'' then Inr (O_RDWR OR O_APPEND OR O_CREAT)
         else Inl (ValueError (''unsupported mode '' @ repr mode)))"

subsection \<open>Construction\<close>

(* pyuring/async_file.py:136-157 AsyncFile.__init__ *)
definition AsyncFile_init ::
  "(string \<Rightarrow> string) \<Rightarrow> string \<Rightarrow> string \<Rightarrow> bool \<Rightarrow> exn + afile" where
  "AsyncFile_init repr path mode prefer_uring =
     sum_bind (normalize_mode repr mode) (\<lambda>m. sum_bind (mode_to_flags repr m) (\<lambda>flags.
       Inr \<lparr>f_path = path, f_mode = m, f_flags = flags, f_prefer_uring = prefer_uring,
          f_use_uring = False, f_fd = None, f_fp = None, f_ring = False, f_ua = False, f_pos = 0,
          f_ud = 1, f_closed = True, f_lock = False\<rparr>))"

(* pyuring/async_file.py:341-349 open *)
definition AsyncFile_open ::
  "(string \<Rightarrow> string) \<Rightarrow> string \<Rightarrow> string \<Rightarrow> bool \<Rightarrow> exn + afile" where
  "AsyncFile_open repr path mode prefer_uring = AsyncFile_init repr path mode prefer_uring"

subsection \<open>Entering\<close>

text \<open>\<open>self._ring = UringCtx(entries=64); self._ua = UringAsync(self._ring)\<close>.\<close>

(* pyuring/async_file.py:169-171 AsyncFile.__aenter__ *)
definition new_ring :: "'w file_env \<Rightarrow> ('w, unit) fmeth" where
  "new_ring F = (\<lambda>s. case UringCtx_init (f_env F) 64 0 (- 1) 0 True (as_world (fw_aio s)) of
       (Inl e, w) \<Rightarrow> (Inl e, s\<lparr>fw_aio := (fw_aio s)\<lparr>as_world := w\<rparr>\<rparr>)
     | (Inr c, w) \<Rightarrow>
         (let s = set_self (\<lambda>f. f\<lparr>f_ring := True\<rparr>)
                    (s\<lparr>fw_aio := (fw_aio s)\<lparr>as_world := w, as_ctx := c\<rparr>\<rparr>)
          in case UringAsync_init c of
               Inl e \<Rightarrow> (Inl e, s)
             | Inr ua \<Rightarrow> (Inr (), set_self (\<lambda>f. f\<lparr>f_ua := True, f_use_uring := True\<rparr>)
                                 (s\<lparr>fw_aio := (fw_aio s)\<lparr>as_self := ua\<rparr>\<rparr>))))"

(* pyuring/async_file.py:168-175 AsyncFile.__aenter__ *)
definition enter_ring :: "'w file_env \<Rightarrow> int \<Rightarrow> ('w, unit) fmeth" where
  "enter_ring F fd = py_bind (new_ring F) (\<lambda>_ s.
     if f_flags (fw_self s) AND O_APPEND \<noteq> 0
     then py_bind (on_world (fe_lseek_end F fd))
            (\<lambda>p. py_modify (set_self (\<lambda>f. f\<lparr>f_pos := p\<rparr>))) s
     else (Inr (), set_self (\<lambda>f. f\<lparr>f_pos := 0\<rparr>) s))"

text \<open>The handler of \<open>except UringError\<close>: an \<open>OSError\<close> of \<open>os.close\<close> is dropped.\<close>

fun is_os_error :: "exn \<Rightarrow> bool" where
  "is_os_error (UringError _) = True"
| "is_os_error (OSError _) = True"
| "is_os_error _ = False"

(* pyuring/async_file.py:176-185 AsyncFile.__aenter__ *)
definition leave_ring :: "'w file_env \<Rightarrow> int \<Rightarrow> ('w, unit) fmeth" where
  "leave_ring F fd =
     py_bind (py_catch is_os_error (on_world (fe_os_close F fd)) (\<lambda>_. py_return ()))
       (\<lambda>_. py_modify (set_self (\<lambda>f. f\<lparr>f_fd := None, f_ring := False, f_ua := False,
          f_use_uring := False\<rparr>)))"

(* pyuring/async_file.py:159-195 AsyncFile.__aenter__ *)
definition AsyncFile_aenter :: "'w file_env \<Rightarrow> ('w, unit) fmeth" where
  "AsyncFile_aenter F = (\<lambda>s.
     let s = set_self (\<lambda>f. f\<lparr>f_lock := True\<rparr>) s;
         (use, s) = (if f_prefer_uring (fw_self s)
            then (case probe_io_uring (f_env F) (fw_available s) (as_world (fw_aio s)) of
                    (r, av, w) \<Rightarrow> (r, s\<lparr>fw_available := av, fw_aio := (fw_aio s)\<lparr>as_world := w\<rparr>\<rparr>))
            else (Inr False, s));
         ring = (\<lambda>s. py_bind (on_world (fe_os_open F (f_path (fw_self s)) (f_flags (fw_self s))))
            (\<lambda>fd. py_bind (py_modify (set_self (\<lambda>f. f\<lparr>f_fd := Some fd\<rparr>)))
              (\<lambda>_. py_catch is_uring_error (enter_ring F fd) (\<lambda>_. leave_ring F fd))) s);
         fallback = (\<lambda>s. if f_use_uring (fw_self s) then (Inr (), s)
            else py_bind (on_world (fe_open F (f_path (fw_self s)) (f_mode (fw_self s))))
              (\<lambda>fp. py_modify (set_self (\<lambda>f. f\<lparr>f_fp := Some fp, f_fd := None, f_pos := 0\<rparr>))) s)
     in case use of
          Inl e \<Rightarrow> (Inl e, s)
        | Inr u \<Rightarrow>
            py_bind (if u then ring else py_return ()) (\<lambda>_. py_bind fallback
              (\<lambda>_. py_modify (set_self (\<lambda>f. f\<lparr>f_closed := False\<rparr>)))) s)"

subsection \<open>Reading\<close>

(* pyuring/async_file.py:200-204 AsyncFile._ensure_open *)
definition AsyncFile_ensure_open :: "('w, unit) fmeth" where
  "AsyncFile_ensure_open = (\<lambda>s.
     if \<not> f_lock (fw_self s)
     then (Inl (RuntimeError (''AsyncFile must be used with '' @ quoted ''async with pyuring.open(...)''
             @ '' (call __aenter__ first)'')), s)
     else if f_closed (fw_self s) then (Inl (ValueError ''I/O operation on closed file''), s)
     else (Inr (), s))"

abbreviation ring_mode :: "afile \<Rightarrow> bool" where
  "ring_mode f \<equiv> f_fd f \<noteq> None \<and> f_ring f \<and> f_ua f"

definition bytearray_obj :: "nat \<Rightarrow> nat \<Rightarrow> pybuf" where
  "bytearray_obj i n = \<lparr>b_kind = Bytearray, b_id = i, b_len = n, b_nbytes = n,
     b_readonly = False, b_contiguous = True\<rparr>"

definition bytes_obj :: "nat \<Rightarrow> nat \<Rightarrow> pybuf" where
  "bytes_obj i n = \<lparr>b_kind = Bytes, b_id = i, b_len = n, b_nbytes = n,
     b_readonly = True, b_contiguous = True\<rparr>"

definition py_alloc :: "'w file_env \<Rightarrow> int list \<Rightarrow> ('w, nat) fmeth" where
  "py_alloc F bs = on_world (\<lambda>w. case fe_alloc F bs w of (i, w) \<Rightarrow> (Inr i, w))"

definition next_ud :: "('w, int) fmeth" where
  "next_ud = (\<lambda>s. (Inr (f_ud (fw_self s)), set_self (\<lambda>f. f\<lparr>f_ud := f_ud f + 1\<rparr>) s))"

text \<open>The errors of a completion; \<open>_pos\<close> moves only when there is none.\<close>

(* pyuring/async_file.py:259-266 AsyncFile._read_uring_once *)
definition mismatch :: "string \<Rightarrow> afile \<Rightarrow> int \<Rightarrow> int \<Rightarrow> int \<Rightarrow> exn" where
  "mismatch operation f ud got_ud n = UringError (UringError_init EIO operation
     (Some (''completion user_data mismatch (expected '' @ str_of_int ud @ '', got ''
        @ str_of_int got_ud @ '')'')) (Some (f_path f)) (Some (f_pos f)) (Some n))"

(* pyuring/async_file.py:257-270 AsyncFile._read_uring_once *)
definition take_completion :: "string \<Rightarrow> int \<Rightarrow> int \<Rightarrow> int \<times> int \<Rightarrow> ('w, int) fmeth" where
  "take_completion operation ud n c = (\<lambda>s. case c of (got_ud, res) \<Rightarrow>
     if got_ud \<noteq> ud then (Inl (mismatch operation (fw_self s) ud got_ud n), s)
     else if res < 0
     then (Inl (UringError (UringError_init (- res) operation None (Some (f_path (fw_self s)))
             (Some (f_pos (fw_self s))) (Some n))), s)
     else (Inr res, set_self (\<lambda>f. f\<lparr>f_pos := f_pos f + res\<rparr>) s))"

(* pyuring/async_file.py:250-271 AsyncFile._read_uring_once *)
definition AsyncFile_read_uring_once :: "'w file_env \<Rightarrow> int \<Rightarrow> ('w, int list) fmeth" where
  "AsyncFile_read_uring_once F n = (\<lambda>s.
     if \<not> ring_mode (fw_self s) then (Inl AssertionError, s)
     else if n \<le> 0 then (Inr [], s)
     else py_bind (py_alloc F (replicate (nat n) 0)) (\<lambda>buf. py_bind next_ud (\<lambda>ud s.
       py_bind (on_aio (on_ctx (UringCtx_read_async (f_env F) (the (f_fd (fw_self s)))
           (Buf (bytearray_obj buf (nat n))) (f_pos (fw_self s)) ud))) (\<lambda>_.
         py_bind (on_aio (fe_await F)) (\<lambda>c.
           py_bind (take_completion ''AsyncFile.read'' ud n c) (\<lambda>nbytes s.
             (Inr (take (nat nbytes) (fe_bytes F buf (as_world (fw_aio s)))), s)))) s)) s)"

(* pyuring/async_file.py:222-231 AsyncFile._read_uring_until_eof *)
partial_function (option) AsyncFile_read_uring_until_eof ::
  "'w file_env \<Rightarrow> int list \<Rightarrow> ('w, int list) fcoro" where
  "AsyncFile_read_uring_until_eof F chunks s =
     (case AsyncFile_read_uring_once F (int READ_SLICE) s of
        (Inl e, s) \<Rightarrow> Some (Inl e, s)
      | (Inr piece, s) \<Rightarrow>
          if piece = [] then Some (Inr chunks, s)
          else if length piece < READ_SLICE then Some (Inr (chunks @ piece), s)
          else AsyncFile_read_uring_until_eof F (chunks @ piece) s)"

(* pyuring/async_file.py:233-248 AsyncFile._read_uring_up_to *)
function AsyncFile_read_uring_up_to ::
  "'w file_env \<Rightarrow> int \<Rightarrow> int list \<Rightarrow> ('w, int list) fmeth" where
  "AsyncFile_read_uring_up_to F remaining out s =
     (if remaining \<le> 0 then (Inr out, s)
      else case AsyncFile_read_uring_once F (min remaining (int READ_SLICE)) s of
        (Inl e, s) \<Rightarrow> (Inl e, s)
      | (Inr piece, s) \<Rightarrow>
          if piece = [] then (Inr out, s)
          else if int (length piece) < min remaining (int READ_SLICE) then (Inr (out @ piece), s)
          else AsyncFile_read_uring_up_to F (remaining - int (length piece)) (out @ piece) s)"
  by pat_completeness auto
termination by (relation "measure (\<lambda>(F, remaining, out, s). nat remaining)") auto

declare AsyncFile_read_uring_up_to.simps [simp del]

(* pyuring/async_file.py:206-211 AsyncFile.read *)
definition AsyncFile_read_begin :: "int \<Rightarrow> ('w, unit) fmeth" where
  "AsyncFile_read_begin n =
     (if n < - 1 then py_raise (ValueError ''invalid read length'') else AsyncFile_ensure_open)"

(* pyuring/async_file.py:212-220 AsyncFile.read *)
definition AsyncFile_read_locked :: "'w file_env \<Rightarrow> int \<Rightarrow> ('w, int list) fcoro" where
  "AsyncFile_read_locked F n = (\<lambda>s. case f_fp (fw_self s) of
       Some fp \<Rightarrow> Some (on_world (fe_fp_read F fp n) s)
     | None \<Rightarrow>
         if \<not> ring_mode (fw_self s) then Some (Inl AssertionError, s)
         else if n = 0 then Some (Inr [], s)
         else if n < 0 then AsyncFile_read_uring_until_eof F [] s
         else Some (AsyncFile_read_uring_up_to F n [] s))"

subsection \<open>Writing\<close>

text \<open>
  Before the lock \<open>write\<close> copies the data into a \<open>bytes\<close> object of its own; for empty data it
  returns 0 there (\<open>None\<close> here: no object).
\<close>

(* pyuring/async_file.py:273-278 AsyncFile.write *)
definition AsyncFile_write_begin :: "'w file_env \<Rightarrow> int list \<Rightarrow> ('w, nat option) fmeth" where
  "AsyncFile_write_begin F data = py_bind AsyncFile_ensure_open
     (\<lambda>_. if data = [] then py_return None else py_map Some (py_alloc F data))"

(* pyuring/async_file.py:279-304 AsyncFile.write *)
definition AsyncFile_write_locked :: "'w file_env \<Rightarrow> nat \<Rightarrow> int list \<Rightarrow> ('w, int) fmeth" where
  "AsyncFile_write_locked F b data = (\<lambda>s. case f_fp (fw_self s) of
       Some fp \<Rightarrow> on_world (fe_fp_write F fp data) s
     | None \<Rightarrow>
         if \<not> ring_mode (fw_self s) then (Inl AssertionError, s)
         else py_bind next_ud (\<lambda>ud s.
           py_bind (on_aio (on_ctx (UringCtx_write_async (f_env F) (the (f_fd (fw_self s)))
               (bytes_obj b (length data)) (f_pos (fw_self s)) ud))) (\<lambda>_.
             py_bind (on_aio (fe_await F))
               (take_completion ''AsyncFile.write'' ud (int (length data)))) s) s)"

subsection \<open>Closing\<close>

(* pyuring/async_file.py:316-338 AsyncFile._aclose_unlocked *)
definition AsyncFile_aclose_unlocked :: "'w file_env \<Rightarrow> ('w, unit) fmeth" where
  "AsyncFile_aclose_unlocked F = (\<lambda>s.
     if f_closed (fw_self s) then (Inr (), s)
     else
       py_bind (py_modify (set_self (\<lambda>f. f\<lparr>f_closed := True\<rparr>))) (\<lambda>_.
       py_bind (\<lambda>s. if f_ua (fw_self s)
          then py_bind (on_aio (UringAsync_close (fe_aio F)))
                 (\<lambda>_. py_modify (set_self (\<lambda>f. f\<lparr>f_ua := False\<rparr>))) s
          else (Inr (), s)) (\<lambda>_.
       py_bind (\<lambda>s. if f_ring (fw_self s)
          then py_bind (on_aio (on_ctx (UringCtx_close (f_env F))))
                 (\<lambda>_. py_modify (set_self (\<lambda>f. f\<lparr>f_ring := False\<rparr>))) s
          else (Inr (), s)) (\<lambda>_.
       py_bind (\<lambda>s. case f_fd (fw_self s) of
            None \<Rightarrow> (Inr (), s)
          | Some fd \<Rightarrow> (case on_world (fe_os_close F fd) s of
              (r, s) \<Rightarrow> (r, set_self (\<lambda>f. f\<lparr>f_fd := None\<rparr>) s))) (\<lambda>_ s.
       case f_fp (fw_self s) of
         None \<Rightarrow> (Inr (), s)
       | Some fp \<Rightarrow> on_world (fe_fp_close F fp) (set_self (\<lambda>f. f\<lparr>f_fp := None\<rparr>) s))))) s)"

text \<open>\<open>aclose\<close> tests once more before it takes the lock, when there is one.\<close>

(* pyuring/async_file.py:306-314 AsyncFile.aclose *)
definition AsyncFile_aclose :: "'w file_env \<Rightarrow> ('w, unit) fmeth" where
  "AsyncFile_aclose F = (\<lambda>s.
     if f_closed (fw_self s) then (Inr (), s) else AsyncFile_aclose_unlocked F s)"

(* pyuring/async_file.py:197-198 AsyncFile.__aexit__ *)
definition AsyncFile_aexit :: "'w file_env \<Rightarrow> ('w, unit) fmeth" where
  "AsyncFile_aexit F = AsyncFile_aclose F"

end
