(* ===== verification/Async_File_Props.thy ===== *)
theory Async_File_Props
  imports Async_File "HOL-Library.Multiset"
begin

unbundle bit_operations_syntax

text \<open>
  What \<open>AsyncFile\<close> reads, what its modes mean, what closing releases, and two histories that go
  wrong: a cancelled read, and appending to something that cannot seek.
\<close>

subsection \<open>A regular file behind the ring\<close>

text \<open>
  The documented behaviour of reads on a regular file nobody else changes: each read delivers
  all the bytes there are up to the requested length, into the object that was handed over, and
  its completion is the next one \<open>await\<close> returns.  \<open>content\<close> reads the file.
\<close>

definition reads_regular ::
  "'w file_env \<Rightarrow> int \<Rightarrow> ('w aio \<Rightarrow> int list) \<Rightarrow> ('w aio \<Rightarrow> bool) \<Rightarrow> bool" where
  "reads_regular F fd content ready \<longleftrightarrow>
     (\<forall>a n off ud. ready a \<longrightarrow> 0 < n \<longrightarrow> n \<le> READ_SLICE \<longrightarrow> int off < 2 ^ 63 \<longrightarrow> 0 < ud \<longrightarrow> ud < 2 ^ 63
       \<longrightarrow> (\<exists>b w r a1 a2 m.
          fe_alloc F (replicate n 0) (as_world a) = (b, w)
        \<and> on_ctx (UringCtx_read_async (f_env F) fd (Buf (bytearray_obj b n)) (int off) ud)
            (a\<lparr>as_world := w\<rparr>) = (Inr r, a1)
        \<and> fe_await F a1 = (Inr (ud, int m), a2)
        \<and> ready a2 \<and> content a2 = content a
        \<and> m = min n (length (content a) - off)
        \<and> take m (fe_bytes F b (as_world a2)) = take m (drop off (content a))))"

definition reading ::
  "int \<Rightarrow> ('w aio \<Rightarrow> int list) \<Rightarrow> ('w aio \<Rightarrow> bool) \<Rightarrow> int list \<Rightarrow> nat \<Rightarrow> int \<Rightarrow> 'w fworld \<Rightarrow> bool" where
  "reading fd content ready c off ud s \<longleftrightarrow>
     f_fd (fw_self s) = Some fd \<and> f_ring (fw_self s) \<and> f_ua (fw_self s) \<and> f_fp (fw_self s) = None
   \<and> f_pos (fw_self s) = int off \<and> f_ud (fw_self s) = ud
   \<and> ready (fw_aio s) \<and> content (fw_aio s) = c"

lemmas fmeth_simps = py_bind_eq on_aio_def on_world_def py_alloc_def next_ud_def set_self_def

lemma read_once_spec:
  assumes "reads_regular F fd content ready" "reading fd content ready c off ud s"
    and "0 < n" "n \<le> READ_SLICE" "int off < 2 ^ 63" "0 < ud" "ud < 2 ^ 63"
  obtains s' where "AsyncFile_read_uring_once F (int n) s = (Inr (take n (drop off c)), s')"
    "reading fd content ready c (off + length (take n (drop off c))) (ud + 1) s'"
proof -
  have "ready (fw_aio s)" using assms(2) by (simp add: reading_def)
  then obtain b w r a1 a2 m where step:
    "fe_alloc F (replicate n 0) (as_world (fw_aio s)) = (b, w)"
    "on_ctx (UringCtx_read_async (f_env F) fd (Buf (bytearray_obj b n)) (int off) ud)
       ((fw_aio s)\<lparr>as_world := w\<rparr>) = (Inr r, a1)"
    "fe_await F a1 = (Inr (ud, int m), a2)" "ready a2" "content a2 = content (fw_aio s)"
    "m = min n (length (content (fw_aio s)) - off)"
    "take m (fe_bytes F b (as_world a2)) = take m (drop off (content (fw_aio s)))"
    using assms unfolding reads_regular_def by blast
  have c: "content (fw_aio s) = c" using assms(2) by (simp add: reading_def)
  have m: "take m (drop off c) = take n (drop off c)" "m = length (take n (drop off c))"
    using step(6) c by (auto simp: min_def)
  define s' where "s' = s\<lparr>fw_self := (fw_self s)\<lparr>f_ud := ud + 1, f_pos := int off + int m\<rparr>, fw_aio := a2\<rparr>"
  have "AsyncFile_read_uring_once F (int n) s = (Inr (take n (drop off c)), s')"
    using assms(2,3) step(1-3,7) c m(1)
    by (simp add: AsyncFile_read_uring_once_def fmeth_simps reading_def take_completion_def s'_def)
  moreover have "reading fd content ready c (off + length (take n (drop off c))) (ud + 1) s'"
    using assms(2) step(4,5) m(2) by (simp add: reading_def s'_def)
  ultimately show ?thesis by (rule that)
qed

text \<open>What a reader of the file gets for \<open>read(n)\<close> at offset \<open>off\<close>.\<close>

definition file_read :: "int list \<Rightarrow> nat \<Rightarrow> int \<Rightarrow> int list" where
  "file_read c off n = (if n < 0 then drop off c else take (nat n) (drop off c))"

lemma READ_SLICE_pos: "0 < READ_SLICE" by (simp add: READ_SLICE_def)

lemma until_eof_spec:
  assumes F: "reads_regular F fd content ready" and c: "int (length c) < 2 ^ 63"
  shows "reading fd content ready c off ud s \<Longrightarrow> int off < 2 ^ 63 \<Longrightarrow> 0 < ud
     \<Longrightarrow> ud + int (length c - off) < 2 ^ 63
     \<Longrightarrow> \<exists>s' ud'. AsyncFile_read_uring_until_eof F out s = Some (Inr (out @ drop off c), s')
        \<and> reading fd content ready c (off + length (drop off c)) ud' s'"
proof (induction "length c - off" arbitrary: off ud s out rule: less_induct)
  case less
  have "ud < 2 ^ 63" using less.prems(4) by linarith
  with less.prems obtain s1 where s1:
    "AsyncFile_read_uring_once F (int READ_SLICE) s = (Inr (take READ_SLICE (drop off c)), s1)"
    "reading fd content ready c (off + length (take READ_SLICE (drop off c))) (ud + 1) s1"
    using read_once_spec [OF F less.prems(1) READ_SLICE_pos order.refl] by blast
  show ?case
  proof (cases "length c - off < READ_SLICE")
    case True
    then have "take READ_SLICE (drop off c) = drop off c" by simp
    then show ?thesis using s1 True
      by (subst AsyncFile_read_uring_until_eof.simps) auto
  next
    case False
    let ?off = "off + READ_SLICE"
    have l: "length (take READ_SLICE (drop off c)) = READ_SLICE" "take READ_SLICE (drop off c) \<noteq> []"
      using False READ_SLICE_pos by auto
    have "length c - ?off < length c - off" using False READ_SLICE_pos by linarith
    moreover have "reading fd content ready c ?off (ud + 1) s1" using s1(2) l(1) by simp
    moreover have "int ?off < 2 ^ 63" using False READ_SLICE_pos c by linarith
    moreover have "ud + 1 + int (length c - ?off) < 2 ^ 63"
      using less.prems(4) False READ_SLICE_pos by linarith
    ultimately obtain s2 ud' where s2:
      "AsyncFile_read_uring_until_eof F (out @ take READ_SLICE (drop off c)) s1
        = Some (Inr ((out @ take READ_SLICE (drop off c)) @ drop ?off c), s2)"
      "reading fd content ready c (?off + length (drop ?off c)) ud' s2"
      using less.hyps [of ?off "ud + 1" s1 "out @ take READ_SLICE (drop off c)"] less.prems(3) by auto
    moreover have "drop off c = take READ_SLICE (drop off c) @ drop ?off c"
      by (metis append_take_drop_id drop_drop add.commute)
    ultimately have "AsyncFile_read_uring_until_eof F out s = Some (Inr (out @ drop off c), s2)"
      using s1(1) l by (subst AsyncFile_read_uring_until_eof.simps) simp
    moreover have "?off + length (drop ?off c) = off + length (drop off c)" using False by simp
    ultimately show ?thesis using s2(2) by metis
  qed
qed

lemma up_to_spec:
  assumes F: "reads_regular F fd content ready" and c: "int (length c) < 2 ^ 63"
  shows "reading fd content ready c off ud s \<Longrightarrow> int off < 2 ^ 63 \<Longrightarrow> 0 < ud
     \<Longrightarrow> ud + int (length c - off) < 2 ^ 63
     \<Longrightarrow> \<exists>s' ud'. AsyncFile_read_uring_up_to F (int n) out s = (Inr (out @ take n (drop off c)), s')
        \<and> reading fd content ready c (off + length (take n (drop off c))) ud' s'"
proof (induction n arbitrary: off ud s out rule: less_induct)
  case (less n)
  let ?k = "min n READ_SLICE" and ?piece = "take (min n READ_SLICE) (drop off c)"
  have k: "min (int n) (int READ_SLICE) = int ?k" by simp
  show ?case
  proof (cases "n = 0")
    case True
    then show ?thesis using less.prems(1)
      by (subst AsyncFile_read_uring_up_to.simps) (auto intro!: exI [of _ s])
  next
    case n: False
    have "ud < 2 ^ 63" using less.prems(4) by linarith
    with n less.prems obtain s1 where s1: "AsyncFile_read_uring_once F (int ?k) s = (Inr ?piece, s1)"
        "reading fd content ready c (off + length ?piece) (ud + 1) s1"
      using read_once_spec [OF F less.prems(1), of ?k] READ_SLICE_pos by auto
    have unfold: "AsyncFile_read_uring_up_to F (int n) out s =
       (if ?piece = [] then (Inr out, s1)
        else if length ?piece < ?k then (Inr (out @ ?piece), s1)
        else AsyncFile_read_uring_up_to F (int n - int (length ?piece)) (out @ ?piece) s1)"
      using n s1(1) by (subst AsyncFile_read_uring_up_to.simps) (simp add: k del: of_nat_min)
    show ?thesis
    proof (cases "length ?piece < ?k")
      case True
      then have "?piece = take n (drop off c)" by (simp add: min_def split: if_splits)
      then show ?thesis using unfold s1(2) True by auto
    next
      case False
      moreover have "length ?piece = min (length c - off) ?k" by simp
      ultimately have p: "length ?piece = ?k" "?k \<le> length c - off" by linarith+
      have k0: "0 < ?k" using n READ_SLICE_pos by simp
      then have ne: "?piece \<noteq> []" using p(1) by force
      have "n - ?k < n" using k0 by simp
      moreover have "reading fd content ready c (off + ?k) (ud + 1) s1" using s1(2) p(1) by simp
      moreover have "int (off + ?k) < 2 ^ 63" using p(2) c k0 by linarith
      moreover have "ud + 1 + int (length c - (off + ?k)) < 2 ^ 63" using less.prems(4) p(2) k0 by linarith
      ultimately obtain s2 ud' where s2:
        "AsyncFile_read_uring_up_to F (int (n - ?k)) (out @ ?piece) s1
          = (Inr ((out @ ?piece) @ take (n - ?k) (drop (off + ?k) c)), s2)"
        "reading fd content ready c (off + ?k + length (take (n - ?k) (drop (off + ?k) c))) ud' s2"
        using less.IH [of "n - ?k" "off + ?k" "ud + 1" s1 "out @ ?piece"] less.prems(3) by auto
      have split: "take n (drop off c) = ?piece @ take (n - ?k) (drop (off + ?k) c)"
        using take_add [of ?k "n - ?k" "drop off c"] by (simp add: ac_simps)
      then have "off + ?k + length (take (n - ?k) (drop (off + ?k) c)) = off + length (take n (drop off c))"
        using p(1) by (metis length_append add.assoc)
      note pos = s2(2) [unfolded this]
      have "int n - int (length ?piece) = int (n - ?k)" using p(1) by linarith
      note res = s2(1) [folded this]
      have "AsyncFile_read_uring_up_to F (int n) out s = (Inr (out @ take n (drop off c)), s2)"
        using unfold ne False res unfolding split append_assoc by (simp only: if_False)
      with pos show ?thesis by blast
    qed
  qed
qed

text \<open>
  C8: On a regular file \<open>read(n)\<close> through the ring returns, and what it returns is what the file
  holds at the position: at most \<open>n\<close> bytes, all that is left for a negative \<open>n\<close>, in one slice or
  many; the position moves past them.
\<close>

theorem reading_matches_the_file:
  assumes "reads_regular F fd content ready" "reading fd content ready c off ud s"
    and "int (length c) < 2 ^ 63" "int off < 2 ^ 63" "0 < ud" "ud + int (length c - off) < 2 ^ 63"
  shows "\<exists>s' ud'. AsyncFile_read_locked F n s = Some (Inr (file_read c off n), s')
     \<and> reading fd content ready c (off + length (file_read c off n)) ud' s'"
proof -
  have s: "f_fp (fw_self s) = None" "ring_mode (fw_self s)" using assms(2) by (auto simp: reading_def)
  consider "n = 0" | "n < 0" | "0 < n" by linarith
  then show ?thesis
  proof cases
    case 1
    then show ?thesis using s assms(2) by (auto simp: AsyncFile_read_locked_def file_read_def)
  next
    case 2
    then show ?thesis using s until_eof_spec [OF assms(1,3,2,4-6), of "[]"]
      by (auto simp: AsyncFile_read_locked_def file_read_def)
  next
    case 3
    then show ?thesis using s up_to_spec [OF assms(1,3,2,4-6), of "nat n" "[]"]
      by (auto simp: AsyncFile_read_locked_def file_read_def)
  qed
qed

text \<open>A file of five bytes whose reads complete at once.\<close>

record file_sim =
  fm_next :: nat
  fm_objs :: "nat \<Rightarrow> int list"
  fm_done :: "int \<times> int"

definition five :: "int list" where "five = [11, 12, 13, 14, 15]"

definition sim_native :: "string \<Rightarrow> cval list \<Rightarrow> file_sim \<Rightarrow> reply \<times> file_sim" where
  "sim_native f args w =
     (case args of
        [h, fd, CMem (Shared i k), CInt n, CInt off, CInt ud] \<Rightarrow>
          let part = take (nat n) (drop (nat off) five)
          in (\<lparr>rp_ret = ud, rp_out = [], rp_errno = 0\<rparr>,
              w\<lparr>fm_objs := (fm_objs w)(i := part @ drop (length part) (fm_objs w i)),
                fm_done := (ud, int (length part))\<rparr>)
      | _ \<Rightarrow> (\<lparr>rp_ret = - ENOSYS, rp_out = [], rp_errno = 0\<rparr>, w))"

definition sim_ctx :: uctx where
  "sim_ctx = \<lparr>u_ctx = Some 4096, u_owner_thread_id = Some 1, u_buffer_keepalive = [],
     u_async_io_keepalive = Map.empty\<rparr>"

definition sim_await :: "(file_sim, int \<times> int) aio_meth" where
  "sim_await a = (Inr (fm_done (as_world a)), a\<lparr>as_ctx := sim_ctx\<rparr>)"

definition sim_env :: "file_sim file_env" where
  "sim_env = \<lparr>
     fe_aio = \<lparr>ae_env = \<lparr>native = sim_native, thread_ident = 1, ct_errno = 0\<rparr>, ae_add_reader = (\<lambda>_. None)\<rparr>,
     fe_await = sim_await,
     fe_os_open = (\<lambda>p fl w. (Inr 3, w)), fe_lseek_end = (\<lambda>fd w. (Inl (OSError 29), w)),
     fe_os_close = (\<lambda>fd w. (Inr (), w)),
     fe_open = (\<lambda>p m w. (Inr 1, w)), fe_fp_read = (\<lambda>fp n w. (Inr [], w)),
     fe_fp_write = (\<lambda>fp bs w. (Inr 0, w)), fe_fp_close = (\<lambda>fp w. (Inr (), w)),
     fe_alloc = (\<lambda>bs w. (fm_next w, w\<lparr>fm_next := Suc (fm_next w), fm_objs := (fm_objs w)(fm_next w := bs)\<rparr>)),
     fe_bytes = (\<lambda>i w. fm_objs w i)\<rparr>"

lemma sim_reads_regular: "reads_regular sim_env 3 (\<lambda>_. five) (\<lambda>a. as_ctx a = sim_ctx)"
  unfolding reads_regular_def
proof (intro allI impI)
  fix a :: "file_sim aio" and n off :: nat and ud :: int
  assume a: "as_ctx a = sim_ctx" and n: "0 < n" "n \<le> READ_SLICE" and off: "int off < 2 ^ 63"
    and ud: "0 < ud" "ud < 2 ^ 63"
  define w where "w = (as_world a)\<lparr>fm_next := Suc (fm_next (as_world a)),
     fm_objs := (fm_objs (as_world a))(fm_next (as_world a) := replicate n 0)\<rparr>"
  let ?b = "fm_next (as_world a)" and ?part = "take n (drop off five)"
  define a1 where "a1 = a\<lparr>as_ctx := sim_ctx\<lparr>u_async_io_keepalive := [ud \<mapsto> KObj ?b]\<rparr>,
     as_world := w\<lparr>fm_objs := (fm_objs w)(?b := ?part @ drop (length ?part) (replicate n 0)),
        fm_done := (ud, int (length ?part))\<rparr>\<rparr>"
  have len: "take_bit 32 (int n) = int n" "take_bit 64 ud = ud" "signed_take_bit 63 ud = ud"
      "signed_take_bit 63 (int off) = int off"
    using n(2) off ud by (auto simp: READ_SLICE_def intro!: take_bit_id signed_take_bit_id)
  have sub: "on_ctx (UringCtx_read_async (f_env sim_env) 3 (Buf (bytearray_obj ?b n)) (int off) ud)
      (a\<lparr>as_world := w\<rparr>) = (Inr ud, a1)"
    using a n off ud len
    by (simp add: on_ctx_def UringCtx_read_async_def with_buffer_def from_buffer_def bytearray_obj_def
        submit_rw_def sync_call_info_def ring_call_eq usable_def sim_ctx_def sim_env_def
        invoke_native_def uring_read_async_def sim_native_def Let_def convert_ret_def
        raise_for_neg_errno_def py_defs UringCtx_track_async_io_buffer_def a1_def w_def)
  have alloc: "fe_alloc sim_env (replicate n 0) (as_world a) = (?b, w)"
    by (simp add: sim_env_def w_def)
  have aw: "fe_await sim_env a1 = (Inr (ud, int (length ?part)), a1\<lparr>as_ctx := sim_ctx\<rparr>)"
    by (simp add: sim_env_def sim_await_def a1_def)
  have mem: "take (length ?part) (fe_bytes sim_env ?b (as_world (a1\<lparr>as_ctx := sim_ctx\<rparr>)))
      = take (length ?part) (drop off five)"
    by (simp add: sim_env_def a1_def w_def)
  show "\<exists>b w r a1 a2 m. fe_alloc sim_env (replicate n 0) (as_world a) = (b, w)
        \<and> on_ctx (UringCtx_read_async (f_env sim_env) 3 (Buf (bytearray_obj b n)) (int off) ud)
            (a\<lparr>as_world := w\<rparr>) = (Inr r, a1)
        \<and> fe_await sim_env a1 = (Inr (ud, int m), a2)
        \<and> as_ctx a2 = sim_ctx \<and> five = five
        \<and> m = min n (length five - off)
        \<and> take m (fe_bytes sim_env b (as_world a2)) = take m (drop off five)"
    by (rule exI [of _ ?b], rule exI [of _ w], rule exI [of _ ud], rule exI [of _ a1],
        rule exI [of _ "a1\<lparr>as_ctx := sim_ctx\<rparr>"], rule exI [of _ "length ?part"])
      (use alloc sub aw mem in simp)
qed

definition sim_file :: "file_sim fworld" where
  "sim_file = \<lparr>fw_self = \<lparr>f_path = ''p'', f_mode = ''rb'', f_flags = 0, f_prefer_uring = True,
       f_use_uring = True, f_fd = Some 3, f_fp = None, f_ring = True, f_ua = True, f_pos = 1, f_ud = 1,
       f_closed = False, f_lock = True\<rparr>,
     fw_available = Some True,
     fw_aio = \<lparr>as_self = \<lparr>a_waiters = [], a_reader_active = False, a_loop = None, a_closed = False\<rparr>,
       as_ctx = sim_ctx, as_world = \<lparr>fm_next = 0, fm_objs = (\<lambda>_. []), fm_done = (0, 0)\<rparr>,
       as_futs = Map.empty, as_readers = {}\<rparr>\<rparr>"

theorem reading_matches_the_file_witness:
  "\<exists>s'. AsyncFile_read_locked sim_env 3 sim_file = Some (Inr [12, 13, 14], s')"
  using reading_matches_the_file [OF sim_reads_regular, of five 1 1 sim_file 3]
  by (auto simp: reading_def sim_file_def file_read_def five_def numeral_3_eq_3)

subsection \<open>A cancelled read\<close>



text \<open>The task is cancelled while it waits: \<open>await\<close> raises, and reaps nothing.\<close>

definition cancelled :: "'w file_env \<Rightarrow> 'w file_env" where
  "cancelled F = F\<lparr>fe_await := (\<lambda>a. (Inl CancelledError, a))\<rparr>"

lemma cancelled_sel [simp]:
  "fe_aio (cancelled F) = fe_aio F" "fe_alloc (cancelled F) = fe_alloc F"
  "fe_await (cancelled F) a = (Inl CancelledError, a)"
  by (simp_all add: cancelled_def)

















text \<open>Objects are numbered, and the oldest operation completes first.\<close>

definition seq_native :: "string \<Rightarrow> cval list \<Rightarrow> nat \<times> int list \<Rightarrow> reply \<times> (nat \<times> int list)" where
  "seq_native f args w = (case args of
      [h, fd, buf, n, off, CInt ud] \<Rightarrow>
        (\<lparr>rp_ret = ud, rp_out = [], rp_errno = 0\<rparr>, (fst w, snd w @ [ud]))
    | _ \<Rightarrow> (\<lparr>rp_ret = - ENOSYS, rp_out = [], rp_errno = 0\<rparr>, w))"

definition seq_env :: "(nat \<times> int list) file_env" where
  "seq_env = \<lparr>
     fe_aio = \<lparr>ae_env = \<lparr>native = seq_native, thread_ident = 1, ct_errno = 0\<rparr>, ae_add_reader = (\<lambda>_. None)\<rparr>,
     fe_await = (\<lambda>a. case as_world a of
         (i, []) \<Rightarrow> (Inl CancelledError, a)
       | (i, ts) \<Rightarrow> (let t = Min (set ts) in (Inr (t, 4), a\<lparr>as_world := (i, remove1 t ts)\<rparr>))),
     fe_os_open = (\<lambda>p fl w. (Inr 3, w)), fe_lseek_end = (\<lambda>fd w. (Inr 0, w)),
     fe_os_close = (\<lambda>fd w. (Inr (), w)),
     fe_open = (\<lambda>p m w. (Inr 1, w)), fe_fp_read = (\<lambda>fp n w. (Inr [], w)),
     fe_fp_write = (\<lambda>fp bs w. (Inr 0, w)), fe_fp_close = (\<lambda>fp w. (Inr (), w)),
     fe_alloc = (\<lambda>bs w. (fst w, (Suc (fst w), snd w))), fe_bytes = (\<lambda>i w. [])\<rparr>"





definition seq_file :: "(nat \<times> int list) fworld" where
  "seq_file = \<lparr>fw_self = \<lparr>f_path = ''p'', f_mode = ''rb'', f_flags = 0, f_prefer_uring = True,
       f_use_uring = True, f_fd = Some 3, f_fp = None, f_ring = True, f_ua = True, f_pos = 0, f_ud = 1,
       f_closed = False, f_lock = True\<rparr>,
     fw_available = Some True,
     fw_aio = \<lparr>as_self = \<lparr>a_waiters = [], a_reader_active = False, a_loop = None, a_closed = False\<rparr>,
       as_ctx = sim_ctx, as_world = (0, []), as_futs = Map.empty, as_readers = {}\<rparr>\<rparr>"


subsection \<open>Availability and modes\<close>

lemma probe_cached: "probe_io_uring E (Some b) w = (Inr b, Some b, w)"
  by (simp add: probe_io_uring_def)

text \<open>
  The probe answers whether a ring can be created and remembers the answer; it never
  raises, since every failed creation is reported as \<open>EOPNOTSUPP\<close>, so a failure that was
  only temporary disables io_uring for the life of the process.
\<close>

theorem probe_never_raises:
  assumes "ct_errno E = 0" "probe_io_uring E available w = (res, available', w')"
  shows "\<exists>b. res = Inr b \<and> available' = Some b
    \<and> probe_io_uring E available' w2 = (Inr b, available', w2)
    \<and> (available = None \<longrightarrow>
        b = (convert_ret (Some C_void_p)
          (rp_ret (fst (native E ''uring_create_ex'' [CInt 8, CInt 0, CInt (- 1), CInt 0] w))) \<noteq> 0))"
proof (cases available)
  case None
  obtain r w1 where r: "native E ''uring_create_ex'' [CInt 8, CInt 0, CInt (- 1), CInt 0] w = (r, w1)"
    by fastforce
  let ?h = "convert_ret (Some C_void_p) (rp_ret r)"
  have init: "UringCtx_init E 8 0 (- 1) 0 True w =
     (if ?h = 0 then (Inl (uring_error_detail EOPNOTSUPP ''uring_create_ex'' (create_failed_detail 0)), w1)
      else (Inr \<lparr>u_ctx = Some ?h, u_owner_thread_id = Some (thread_ident E), u_buffer_keepalive = [],
              u_async_io_keepalive = Map.empty\<rparr>, w1))"
    using r assms(1) by (simp add: UringCtx_init_def invoke_native_def uring_create_ex_def mask32_def
        get_errno_after_def CDLL_use_errno_def)
  obtain c w2 where close: "UringCtx_close E (\<lparr>u_ctx = Some ?h,
      u_owner_thread_id = Some (thread_ident E), u_buffer_keepalive = [],
      u_async_io_keepalive = Map.empty\<rparr>, w1) = (Inr (), (c, w2))"
    using UringCtx_close_never_raises [of E] by (metis prod.collapse)
  have "probe_io_uring E None w = (Inr (?h \<noteq> 0), Some (?h \<noteq> 0), if ?h = 0 then w1 else w2)"
    using close by (cases "?h = 0")
      (simp_all add: probe_io_uring_def init uring_error_detail_def unavailable_errnos_def)
  then have "res = Inr (?h \<noteq> 0)" "available' = Some (?h \<noteq> 0)" using None assms(2) by simp_all
  then show ?thesis by (intro exI [of _ "?h \<noteq> 0"]) (simp add: probe_cached r)
next
  case (Some b)
  then have "res = Inr b" "available' = Some b" using assms(2) by (simp_all add: probe_cached)
  then show ?thesis using Some by (intro exI [of _ b]) (simp add: probe_cached)
qed

theorem probe_never_raises_witness:
  "\<exists>b. fst (probe_io_uring (f_env sim_env) None (as_world (fw_aio sim_file))) = Inr b"
  using probe_never_raises [of "f_env sim_env" None "as_world (fw_aio sim_file)"]
  by (cases "probe_io_uring (f_env sim_env) None (as_world (fw_aio sim_file))") (auto simp: sim_env_def)

text \<open>
  Every mode the constructor accepts has flags, and they say what the mode says: the
  access mode, truncation for \<open>w\<close>, appending for \<open>a\<close>, creation for both.
\<close>

theorem modes_have_their_flags:
  assumes "normalize_mode repr mode = Inr m"
  shows "\<exists>flags. mode_to_flags repr m = Inr flags
     \<and> flags AND 3 = (if CHR ''+'' \<in> set m then O_RDWR else if CHR ''r'' \<in> set m then O_RDONLY else O_WRONLY)
     \<and> (flags AND O_TRUNC \<noteq> 0 \<longleftrightarrow> CHR ''w'' \<in> set m)
     \<and> (flags AND O_APPEND \<noteq> 0 \<longleftrightarrow> CHR ''a'' \<in> set m)
     \<and> (flags AND O_CREAT \<noteq> 0 \<longleftrightarrow> CHR ''r'' \<notin> set m)"
proof -
  have "m \<in> set VALID_BINARY_MODES"
    using assms by (simp add: normalize_mode_def Let_def split: if_splits)
  then show ?thesis by (auto simp: VALID_BINARY_MODES_def mode_to_flags_def)
qed

theorem modes_have_their_flags_witness:
  "\<exists>flags. mode_to_flags id ''ab+'' = Inr flags \<and> flags AND 3 = O_RDWR"
  using modes_have_their_flags [of id "'' ab+ ''" "''ab+''"]
  by (auto simp: normalize_mode_def py_strip_def py_space_def VALID_BINARY_MODES_def Let_def)

subsection \<open>Entering and leaving\<close>

lemma ring_fd_error:
  "\<exists>u w'. UringCtx_ring_fd E (c, w) = (Inl (UringError u), (c, w'))
     \<or> (\<exists>r. UringCtx_ring_fd E (c, w) = (Inr r, (c, w')))"
  by (auto simp: UringCtx_ring_fd_def sync_int_def sync_call_eq invoke_native_def uring_ring_fd_def
      guard_error_def uring_error_detail_def raise_for_neg_errno_def py_return_apply
      split: prod.split)

lemma async_close_returns:
  "\<exists>a'. UringAsync_close A a = (Inr (), a') \<and> as_ctx a' = as_ctx a \<and> a_closed (as_self a')"
proof -
  have "\<exists>a'. UringAsync_remove_reader A a = (Inr (), a') \<and> as_ctx a' = as_ctx a
      \<and> a_closed (as_self a') = a_closed (as_self a)" for a
    using ring_fd_error [of "ae_env A" "as_ctx a" "as_world a"]
    by (auto simp: UringAsync_remove_reader_def UringAsync_ring_fd_def on_ctx_def split: option.split)
  from this [of "a\<lparr>as_self := (as_self a)\<lparr>a_closed := True\<rparr>\<rparr>"]
  show ?thesis by (auto simp: UringAsync_close_def py_bind_eq)
qed

text \<open>
  C30: Closing an open file releases what it holds, in both modes.  With a ring, it ends the \<open>UringAsync\<close>, destroys
  the ring and closes the file descriptor; on the executor, it closes the Python file object; in both it forgets
  them even when the last step raises.  Afterwards every read and write raises
  \<open>ValueError\<close> (one that was waiting for the lock meanwhile raises \<open>AssertionError\<close>), none of them changes anything, and closing
  again does nothing.
\<close>

theorem closing_releases_the_file:
  assumes "f_lock (fw_self s)" "\<not> f_closed (fw_self s)" "uctx_inv (as_ctx (fw_aio s))"
    and "AsyncFile_aclose F s = (r, s')"
    and "f_ring (fw_self s) \<and> f_ua (fw_self s) \<and> f_fd (fw_self s) = Some fd \<and> f_fp (fw_self s) = None
       \<or> \<not> f_ring (fw_self s) \<and> \<not> f_ua (fw_self s) \<and> f_fd (fw_self s) = None \<and> f_fp (fw_self s) = Some fp"
  shows "f_fd (fw_self s') = None \<and> f_fp (fw_self s') = None \<and> \<not> f_ring (fw_self s') \<and> \<not> f_ua (fw_self s')
    \<and> (f_ring (fw_self s) \<longrightarrow> u_ctx (as_ctx (fw_aio s')) = None \<and> a_closed (as_self (fw_aio s'))
         \<and> (\<exists>w. fe_os_close F fd w = (r, as_world (fw_aio s'))))
    \<and> (\<not> f_ring (fw_self s) \<longrightarrow> fe_fp_close F fp (as_world (fw_aio s)) = (r, as_world (fw_aio s')))
    \<and> (- 1 \<le> n \<longrightarrow> AsyncFile_read_begin n s' = (Inl (ValueError ''I/O operation on closed file''), s'))
    \<and> AsyncFile_write_begin F data s' = (Inl (ValueError ''I/O operation on closed file''), s')
    \<and> AsyncFile_read_locked F n s' = Some (Inl AssertionError, s')
    \<and> AsyncFile_write_locked F b data s' = (Inl AssertionError, s')
    \<and> AsyncFile_aclose F s' = (Inr (), s')"
proof (cases "f_ring (fw_self s)")
  case True
  obtain a1 where ua: "UringAsync_close (fe_aio F) (fw_aio s) = (Inr (), a1)"
      "as_ctx a1 = as_ctx (fw_aio s)" "a_closed (as_self a1)"
    using async_close_returns by blast
  obtain c2 w2 where cl: "UringCtx_close (f_env F) (as_ctx a1, as_world a1) = (Inr (), (c2, w2))"
    using UringCtx_close_never_raises [of "f_env F"] by (metis prod.collapse)
  have c2: "u_ctx c2 = None" using UringCtx_close_closed cl assms(3) ua(2) by metis
  define s1 where "s1 = s\<lparr>fw_self := (fw_self s)\<lparr>f_closed := True, f_ua := False, f_ring := False\<rparr>,
     fw_aio := a1\<lparr>as_ctx := c2, as_world := w2\<rparr>\<rparr>"
  obtain r2 w3 where os: "fe_os_close F fd w2 = (r2, w3)" by fastforce
  define s2 where "s2 = s1\<lparr>fw_self := (fw_self s1)\<lparr>f_fd := None\<rparr>, fw_aio := (fw_aio s1)\<lparr>as_world := w3\<rparr>\<rparr>"
  have "AsyncFile_aclose F s = (r2, s2)"
    using assms(1,2,5) True ua(1) cl os
    by (simp add: AsyncFile_aclose_def AsyncFile_aclose_unlocked_def fmeth_simps on_ctx_def
        py_modify_def s1_def s2_def split: sum.split)
  then have r: "r = r2" "s' = s2" using assms(4) by simp_all
  then have "\<exists>w. fe_os_close F fd w = (r, as_world (fw_aio s'))" using os by (auto simp: s2_def)
  then show ?thesis
    using assms(1,5) True ua(3) c2
    by (auto simp: r(2) s1_def s2_def AsyncFile_read_begin_def AsyncFile_write_begin_def AsyncFile_ensure_open_def
        AsyncFile_read_locked_def AsyncFile_write_locked_def AsyncFile_aclose_def py_bind_eq)
next
  case False
  obtain r2 w2 where fp: "fe_fp_close F fp (as_world (fw_aio s)) = (r2, w2)" by fastforce
  define s2 where "s2 = s\<lparr>fw_self := (fw_self s)\<lparr>f_closed := True, f_fp := None\<rparr>,
     fw_aio := (fw_aio s)\<lparr>as_world := w2\<rparr>\<rparr>"
  have "AsyncFile_aclose F s = (r2, s2)"
    using assms(1,2,5) False fp
    by (simp add: AsyncFile_aclose_def AsyncFile_aclose_unlocked_def fmeth_simps py_modify_def s2_def)
  then have r: "r = r2" "s' = s2" using assms(4) by simp_all
  then show ?thesis
    using assms(1,5) False fp
    by (auto simp: r(2) s2_def AsyncFile_read_begin_def AsyncFile_write_begin_def AsyncFile_ensure_open_def
        AsyncFile_read_locked_def AsyncFile_write_locked_def AsyncFile_aclose_def py_bind_eq)
qed

theorem closing_releases_the_file_witness:
  "AsyncFile_write_locked seq_env 9 [1] (snd (AsyncFile_aclose seq_env seq_file))
     = (Inl AssertionError, snd (AsyncFile_aclose seq_env seq_file))"
  using closing_releases_the_file [of seq_file seq_env "fst (AsyncFile_aclose seq_env seq_file)"
      "snd (AsyncFile_aclose seq_env seq_file)" 3 0 4 "[1]" 9]
  by (simp add: seq_file_def sim_ctx_def uctx_inv_def)

text \<open>
  Entering a file for appending that cannot be positioned raises, and leaves its file
  descriptor open and its ring alive: the object counts as closed, so \<open>aclose\<close> does nothing.
\<close>

theorem unseekable_append_leaks:
  assumes "f_prefer_uring (fw_self s)" "fw_available s = Some True" "f_closed (fw_self s)"
    and "f_flags (fw_self s) AND O_APPEND \<noteq> 0"
    and "fe_os_open F (f_path (fw_self s)) (f_flags (fw_self s)) (as_world (fw_aio s)) = (Inr fd, w1)"
    and "UringCtx_init (f_env F) 64 0 (- 1) 0 True w1 = (Inr c, w2)"
    and "fe_lseek_end F fd w2 = (Inl (OSError e), w3)"
  shows "\<exists>s'. AsyncFile_aenter F s = (Inl (OSError e), s')
    \<and> f_fd (fw_self s') = Some fd \<and> f_ring (fw_self s') \<and> as_ctx (fw_aio s') = c
    \<and> as_world (fw_aio s') = w3 \<and> AsyncFile_aclose F s' = (Inr (), s')"
proof -
  have "truthy (u_ctx c)"
    using assms(6) by (auto simp: UringCtx_init_def Let_def split: sum.splits prod.splits if_splits)
  then obtain ua where ua: "UringAsync_init c = Inr ua" by (simp add: UringAsync_init_def)
  define s' where "s' = s\<lparr>fw_self := (fw_self s)\<lparr>f_lock := True, f_fd := Some fd, f_ring := True,
     f_ua := True, f_use_uring := True\<rparr>,
     fw_aio := (fw_aio s)\<lparr>as_self := ua, as_ctx := c, as_world := w3\<rparr>\<rparr>"
  have "AsyncFile_aenter F s = (Inl (OSError e), s')"
    using assms ua
    by (simp add: AsyncFile_aenter_def probe_cached fmeth_simps py_modify_def py_catch_def
        enter_ring_def new_ring_def is_uring_error_def s'_def)
  then show ?thesis using assms(3) by (simp add: s'_def AsyncFile_aclose_def)
qed

text \<open>A pipe opened for appending on a system where rings can be created.\<close>

definition pipe_env :: "(nat \<times> int list) file_env" where
  "pipe_env = seq_env\<lparr>
     fe_aio := \<lparr>ae_env = \<lparr>native = (\<lambda>f args w. (\<lparr>rp_ret = 4096, rp_out = [], rp_errno = 0\<rparr>, w)),
       thread_ident = 1, ct_errno = 0\<rparr>, ae_add_reader = (\<lambda>_. None)\<rparr>,
     fe_lseek_end := (\<lambda>fd w. (Inl (OSError 29), w))\<rparr>"

definition pipe_file :: "(nat \<times> int list) fworld" where
  "pipe_file = seq_file\<lparr>fw_self := (fw_self seq_file)\<lparr>f_mode := ''ab'', f_flags := 1089,
     f_use_uring := False, f_fd := None, f_ring := False, f_ua := False, f_closed := True\<rparr>\<rparr>"

theorem unseekable_append_leaks_witness:
  "\<exists>s'. AsyncFile_aenter pipe_env pipe_file = (Inl (OSError 29), s')
     \<and> f_fd (fw_self s') = Some 3 \<and> AsyncFile_aclose pipe_env s' = (Inr (), s')"
  using unseekable_append_leaks [of pipe_file pipe_env 3 "(0, [])" 
      "\<lparr>u_ctx = Some 4096, u_owner_thread_id = Some 1, u_buffer_keepalive = [],
         u_async_io_keepalive = Map.empty\<rparr>" "(0, [])" 29 "(0, [])"]
  by (auto simp: pipe_file_def seq_file_def pipe_env_def seq_env_def UringCtx_init_def
      invoke_native_def uring_create_ex_def convert_ret_def mask32_def)

end
