(* ===== verification/Ring_Pool.thy ===== *)
theory Ring_Pool
  imports Ctx_Misc Buffer_Pool
begin

text \<open>
  \<open>pyuring/pool.py\<close>, a list of independent rings, and \<open>pyuring/buffer_ring.py\<close>, a slab of memory
  provided to the kernel as a group of buffers.
\<close>

subsection \<open>Ring objects\<close>

text \<open>
  A pool shares its \<open>UringCtx\<close> objects with its callers, so they live in a heap and the pool
  holds references.  \<open>rh_next\<close> is the first reference that is not in use.
\<close>

record 'w ring_heap =
  rh_objs :: "nat \<Rightarrow> uctx"
  rh_next :: nat
  rh_world :: 'w

definition on_ring :: "nat \<Rightarrow> ('w, 'a) meth \<Rightarrow> ('w ring_heap, 'a) py" where
  "on_ring i m = (\<lambda>h. case m (rh_objs h i, rh_world h) of
     (r, (c, w)) \<Rightarrow> (r, h\<lparr>rh_objs := (rh_objs h)(i := c), rh_world := w\<rparr>))"

text \<open>The keyword arguments a pool hands on to every \<open>UringCtx\<close>.\<close>

record ctx_kwargs =
  kw_entries :: int
  kw_setup_flags :: int
  kw_sq_thread_cpu :: int
  kw_sq_thread_idle :: int
  kw_single_thread_check :: bool

definition new_ctx :: "'w env \<Rightarrow> ctx_kwargs \<Rightarrow> ('w ring_heap, nat) py" where
  "new_ctx E kw = (\<lambda>h.
     case UringCtx_init E (kw_entries kw) (kw_setup_flags kw) (kw_sq_thread_cpu kw)
            (kw_sq_thread_idle kw) (kw_single_thread_check kw) (rh_world h) of
       (Inl e, w) \<Rightarrow> (Inl e, h\<lparr>rh_world := w\<rparr>)
     | (Inr c, w) \<Rightarrow> (Inr (rh_next h), h\<lparr>rh_objs := (rh_objs h)(rh_next h := c),
          rh_next := Suc (rh_next h), rh_world := w\<rparr>))"

subsection \<open>UringPool\<close>

text \<open>The list comprehension: the objects are created one after the other.\<close>

(* pyuring/pool.py:23-23 UringPool.__init__ *)
fun new_ctxs :: "'w env \<Rightarrow> ctx_kwargs \<Rightarrow> nat \<Rightarrow> ('w ring_heap, nat list) py" where
  "new_ctxs E kw 0 = py_return []"
| "new_ctxs E kw (Suc n) =
     py_bind (new_ctx E kw) (\<lambda>r. py_map ((#) r) (new_ctxs E kw n))"

(* pyuring/pool.py:20-23 UringPool.__init__ *)
definition UringPool_init :: "'w env \<Rightarrow> int \<Rightarrow> ctx_kwargs \<Rightarrow> ('w ring_heap, nat list) py" where
  "UringPool_init E n kw =
     (if n \<le> 0 then py_raise (ValueError ''n must be positive'') else new_ctxs E kw (nat n))"

(* pyuring/pool.py:25-26 UringPool.__len__ *)
definition UringPool_len :: "nat list \<Rightarrow> int" where
  "UringPool_len rings = int (length rings)"

text \<open>Python's \<open>%\<close> has the sign of the divisor, as \<open>mod\<close> has.\<close>

(* pyuring/pool.py:28-29 UringPool.__getitem__ *)
definition UringPool_getitem :: "nat list \<Rightarrow> int \<Rightarrow> exn + nat" where
  "UringPool_getitem rings index =
     (if rings = [] then Inl ZeroDivisionError
      else Inr (rings ! nat (index mod int (length rings))))"

(* pyuring/pool.py:31-33 UringPool.rings *)
definition UringPool_rings :: "nat list \<Rightarrow> nat list" where
  "UringPool_rings rings = rings"

text \<open>\<open>close\<close> returns the list it leaves behind: every error of a ring is dropped.\<close>

(* pyuring/pool.py:35-41 UringPool.close *)
fun close_rings :: "'w env \<Rightarrow> nat list \<Rightarrow> ('w ring_heap, unit) py" where
  "close_rings E [] = py_return ()"
| "close_rings E (r # rs) =
     py_bind (py_catch (\<lambda>_. True) (on_ring r (UringCtx_close E)) (\<lambda>_. py_return ()))
       (\<lambda>_. close_rings E rs)"

(* pyuring/pool.py:35-41 UringPool.close *)
definition UringPool_close :: "'w env \<Rightarrow> nat list \<Rightarrow> ('w ring_heap, nat list) py" where
  "UringPool_close E rings = py_map (\<lambda>_. []) (close_rings E rings)"

(* pyuring/pool.py:43-44 UringPool.__enter__ *)
definition UringPool_enter :: "nat list \<Rightarrow> ('w ring_heap, nat list) py" where
  "UringPool_enter rings = py_return rings"

(* pyuring/pool.py:46-47 UringPool.__exit__ *)
definition UringPool_exit :: "'w env \<Rightarrow> nat list \<Rightarrow> ('w ring_heap, nat list) py" where
  "UringPool_exit E rings = UringPool_close E rings"

subsection \<open>BufferRing\<close>

(* pyuring/buffer_ring.py:18-18 BufferRing *)
record buffer_ring =
  br_storage :: pybuf
  br_buf_len :: int
  br_nr_buffers :: int
  br_bgid :: int
  br_bid :: int

definition slab :: "nat \<Rightarrow> nat \<Rightarrow> pybuf" where
  "slab i n = \<lparr>b_kind = Bytearray, b_id = i, b_len = n, b_nbytes = n, b_readonly = False,
     b_contiguous = True\<rparr>"

text \<open>\<open>i\<close> is the identity of the new \<open>bytearray\<close>.\<close>

(* pyuring/buffer_ring.py:20-37 BufferRing.__init__ *)
definition BufferRing_init ::
  "'w env \<Rightarrow> nat \<Rightarrow> int \<Rightarrow> int \<Rightarrow> int \<Rightarrow> int \<Rightarrow> ('w, buffer_ring) meth" where
  "BufferRing_init E i buf_len nr_buffers bgid bid =
     (if buf_len \<le> 0 \<or> nr_buffers \<le> 0
      then py_raise (ValueError ''buf_len and nr_buffers must be positive'')
      else let storage = slab i (nat (buf_len * nr_buffers))
           in py_bind (UringCtx_provide_buffers E storage buf_len nr_buffers bgid bid)
                (\<lambda>_. py_return \<lparr>br_storage = storage, br_buf_len = buf_len,
                   br_nr_buffers = nr_buffers, br_bgid = bgid, br_bid = bid\<rparr>))"

(* pyuring/buffer_ring.py:44-47 BufferRing.remove *)
definition BufferRing_remove :: "'w env \<Rightarrow> buffer_ring \<Rightarrow> int option \<Rightarrow> ('w, unit) meth" where
  "BufferRing_remove E self nr =
     UringCtx_remove_buffers E (case nr of None \<Rightarrow> br_nr_buffers self | Some n \<Rightarrow> n) (br_bgid self)"

(* pyuring/buffer_ring.py:49-54 BufferRing.close *)
definition BufferRing_close :: "'w env \<Rightarrow> buffer_ring \<Rightarrow> ('w, unit) meth" where
  "BufferRing_close E self =
     py_catch (\<lambda>_. True) (BufferRing_remove E self None) (\<lambda>_. py_return ())"

subsection \<open>Lemmas\<close>

lemma new_ctxs_spec:
  assumes "new_ctxs E kw n h = (r, h')"
  shows "rh_next h \<le> rh_next h'
    \<and> (\<forall>i < rh_next h. rh_objs h' i = rh_objs h i)
    \<and> (\<forall>i. rh_next h \<le> i \<longrightarrow> i < rh_next h' \<longrightarrow> truthy (u_ctx (rh_objs h' i)))
    \<and> (\<forall>rs. r = Inr rs \<longrightarrow> rs = [rh_next h..<rh_next h'] \<and> rh_next h' = rh_next h + n)
    \<and> (\<forall>e. r = Inl e \<longrightarrow> rh_next h' < rh_next h + n)"
  using assms
proof (induction n arbitrary: h r h')
  case 0
  then show ?case by (auto simp: py_return_apply)
next
  case (Suc n)
  show ?case
  proof (cases "fst (new_ctx E kw h)")
    case (Inl e)
    then show ?thesis using Suc.prems
      by (auto simp: py_bind_eq new_ctx_def split: prod.splits sum.splits)
  next
    case (Inr i)
    then obtain c w where c: "UringCtx_init E (kw_entries kw) (kw_setup_flags kw) (kw_sq_thread_cpu kw)
            (kw_sq_thread_idle kw) (kw_single_thread_check kw) (rh_world h) = (Inr c, w)"
      and i: "i = rh_next h"
      by (auto simp: new_ctx_def split: prod.splits sum.splits)
    define h1 where "h1 = h\<lparr>rh_objs := (rh_objs h)(rh_next h := c), rh_next := Suc (rh_next h), rh_world := w\<rparr>"
    have h1: "new_ctx E kw h = (Inr (rh_next h), h1)" by (simp add: new_ctx_def c h1_def)
    define r1 where "r1 = fst (new_ctxs E kw n h1)"
    have r1: "new_ctxs E kw n h1 = (r1, h')"
        "r = (case r1 of Inl e \<Rightarrow> Inl e | Inr rs \<Rightarrow> Inr (rh_next h # rs))"
      using Suc.prems
      by (auto simp: py_bind_eq h1 py_map_def py_return_apply r1_def prod_eq_iff split: sum.splits)
    have c0: "truthy (u_ctx c)"
      using c by (auto simp: UringCtx_init_def Let_def split: sum.splits prod.splits if_splits)
    have n1: "rh_next h1 = Suc (rh_next h)" "rh_objs h1 = (rh_objs h)(rh_next h := c)"
      by (simp_all add: h1_def)
    note ih = Suc.IH [OF r1(1), unfolded n1]
    have "truthy (u_ctx (rh_objs h' i))" if "rh_next h \<le> i" "i < rh_next h'" for i
      using ih that c0 by (cases "i = rh_next h") auto
    then show ?thesis
      using ih r1(2) by (cases r1) (auto simp: upt_conv_Cons)
  qed
qed

text \<open>The handles of open objects are destroyed one after the other.\<close>

definition destroy :: "'w env \<Rightarrow> int \<Rightarrow> 'w \<Rightarrow> 'w" where
  "destroy E handle w = snd (invoke_native E uring_destroy [PInt handle] w)"

lemma close_rings_spec:
  assumes "distinct rs" "\<forall>i \<in> set rs. truthy (u_ctx (rh_objs h i))"
  shows "\<exists>h'. close_rings E rs h = (Inr (), h')
     \<and> (\<forall>i \<in> set rs. u_ctx (rh_objs h' i) = None) \<and> (\<forall>i. i \<notin> set rs \<longrightarrow> rh_objs h' i = rh_objs h i)
     \<and> rh_next h' = rh_next h
     \<and> rh_world h' = fold (\<lambda>i. destroy E (the (u_ctx (rh_objs h i)))) rs (rh_world h)"
  using assms
proof (induction rs arbitrary: h)
  case Nil
  then show ?case by (simp add: py_return_apply)
next
  case (Cons r rs)
  obtain c w where c: "UringCtx_close E (rh_objs h r, rh_world h) = (Inr (), (c, w))" "u_ctx c = None"
      "w = destroy E (the (u_ctx (rh_objs h r))) (rh_world h)"
    using Cons.prems(2) UringCtx_close_never_raises [of E "(rh_objs h r, rh_world h)"]
    by (auto simp: UringCtx_close_def Let_def destroy_def split: prod.splits sum.splits)
  define h1 where "h1 = h\<lparr>rh_objs := (rh_objs h)(r := c), rh_world := w\<rparr>"
  have step: "close_rings E (r # rs) h = close_rings E rs h1"
    using c(1) by (simp add: py_bind_eq py_catch_def on_ring_def h1_def)
  have same: "fold (\<lambda>i. destroy E (the (u_ctx (rh_objs h1 i)))) rs v
      = fold (\<lambda>i. destroy E (the (u_ctx (rh_objs h i)))) rs v" for v
    using Cons.prems(1) by (intro fold_cong) (auto simp: h1_def)
  have "\<forall>i \<in> set rs. truthy (u_ctx (rh_objs h1 i))"
    using Cons.prems by (auto simp: h1_def)
  then obtain h' where "close_rings E rs h1 = (Inr (), h')"
     "\<forall>i \<in> set rs. u_ctx (rh_objs h' i) = None" "\<forall>i. i \<notin> set rs \<longrightarrow> rh_objs h' i = rh_objs h1 i"
     "rh_next h' = rh_next h1"
     "rh_world h' = fold (\<lambda>i. destroy E (the (u_ctx (rh_objs h1 i)))) rs (rh_world h1)"
    using Cons.IH [of h1] Cons.prems(1) by auto
  then show ?case using Cons.prems(1) step c(2,3) same by (auto simp: h1_def)
qed

end
