(* ===== verification/Capabilities.thy ===== *)
theory Capabilities
  imports Ctx_Sync Buffer_Pool
begin

text \<open>
  \<open>pyuring/capabilities.py\<close>, the cached probe of the supported operations, and
  \<open>pyuring/native/library.py\<close>, the search for the native library.
\<close>

subsection \<open>Finding the library\<close>

text \<open>
  \<open>exists\<close> is \<open>os.path.exists\<close>, \<open>loads\<close> tells whether \<open>ctypes.CDLL\<close> of a bare name succeeds
  (it raises \<open>OSError\<close> otherwise), and \<open>pkg_root\<close> and \<open>project_root\<close> are the directories computed
  from \<open>__file__\<close>.
\<close>

definition not_found_detail :: "string \<Rightarrow> string \<Rightarrow> string" where
  "not_found_detail installed build =
     ''Tried:'' @ newline @ ''  - '' @ installed @ newline @ ''  - '' @ build @ newline
       @ ''  - system library (ctypes CDLL)'' @ newline
       @ ''Ensure the package is built/installed so liburingwrap.so is available.''"

(* pyuring/native/library.py:11-38 _find_library *)
definition find_library ::
  "(string \<Rightarrow> bool) \<Rightarrow> (string \<Rightarrow> bool) \<Rightarrow> string \<Rightarrow> string \<Rightarrow> exn + string" where
  "find_library exists loads pkg_root project_root =
     (let installed_path = pkg_root @ ''/lib/liburingwrap.so'';
          build_path = project_root @ ''/build/liburingwrap.so''
      in if exists installed_path then Inr installed_path
         else if exists build_path then Inr build_path
         else if loads ''liburingwrap.so'' then Inr ''liburingwrap.so''
         else Inl (uring_error_detail ENOENT ''_find_library''
                (not_found_detail installed_path build_path)))"

text \<open>The name that \<open>ctypes.CDLL\<close> is called with.\<close>

(* pyuring/native/library.py:41-46 _get_lib *)
definition get_lib_path ::
  "(string \<Rightarrow> bool) \<Rightarrow> (string \<Rightarrow> bool) \<Rightarrow> (string \<Rightarrow> string) \<Rightarrow> string \<Rightarrow> string \<Rightarrow> exn + string" where
  "get_lib_path exists loads abspath pkg_root project_root =
     sum_bind (find_library exists loads pkg_root project_root)
       (\<lambda>p. Inr (if exists p then abspath p else p))"

lemma found_library_is_there:
  "find_library exists loads pkg project = Inr p \<Longrightarrow> exists p \<or> loads p"
  by (auto simp: find_library_def Let_def split: if_splits)

subsection \<open>The probe\<close>

(* pyuring/capabilities.py:20-26 IoUringProbeInfo *)
record IoUringProbeInfo =
  pi_last_op :: int
  pi_opcode_mask :: "int list"

text \<open>The module variable \<open>_cached_probe\<close> is an argument and part of the result.\<close>

(* pyuring/capabilities.py:29-44 get_probe_info *)
definition get_probe_info ::
  "'w env \<Rightarrow> bool \<Rightarrow> IoUringProbeInfo option \<Rightarrow> 'w
     \<Rightarrow> (exn + IoUringProbeInfo) \<times> IoUringProbeInfo option \<times> 'w" where
  "get_probe_info E refresh cached w =
     (if cached \<noteq> None \<and> \<not> refresh then (Inr (the cached), cached, w)
      else case UringCtx_init E 8 0 (- 1) 0 True w of
        (Inl e, w) \<Rightarrow> (Inl e, cached, w)
      | (Inr ctx, w) \<Rightarrow>
          (case py_with (UringCtx_enter E) (UringCtx_exit E)
                  (py_bind (UringCtx_probe_last_op E) (\<lambda>lo.
                   py_bind (UringCtx_probe_supported_mask E) (\<lambda>opmask. py_return (lo, opmask)))) (ctx, w) of
             (Inl e, (_, w)) \<Rightarrow> (Inl e, cached, w)
           | (Inr (lo, opmask), (_, w)) \<Rightarrow>
               (let info = \<lparr>pi_last_op = lo, pi_opcode_mask = opmask\<rparr> in (Inr info, Some info, w))))"

text \<open>Indexing past the end of a \<open>bytes\<close> object raises \<open>IndexError\<close>.\<close>

abbreviation "IndexError \<equiv> OtherException 1"

definition supported_in :: "IoUringProbeInfo \<Rightarrow> int \<Rightarrow> exn + bool" where
  "supported_in info opcode =
     (if opcode < 0 \<or> opcode > pi_last_op info then Inr False
      else if nat opcode < length (pi_opcode_mask info) then Inr (pi_opcode_mask info ! nat opcode \<noteq> 0)
      else Inl IndexError)"

(* pyuring/capabilities.py:47-52 opcode_supported *)
definition opcode_supported ::
  "'w env \<Rightarrow> int \<Rightarrow> bool \<Rightarrow> IoUringProbeInfo option \<Rightarrow> 'w
     \<Rightarrow> (exn + bool) \<times> IoUringProbeInfo option \<times> 'w" where
  "opcode_supported E opcode refresh cached w =
     (case get_probe_info E refresh cached w of (r, c, w) \<Rightarrow>
        (sum_bind r (\<lambda>info. supported_in info opcode), c, w))"

definition unsupported_detail :: "int \<Rightarrow> string" where
  "unsupported_detail opcode =
     ''io_uring opcode '' @ str_of_int opcode @ '' is not supported on this kernel.'' @ newline
       @ ''See '' @ IO_URING_KERNEL_DOC
       @ '' and probe helpers (get_probe_info, UringCtx.probe_opcode_supported).''"

(* pyuring/capabilities.py:55-68 require_opcode_supported *)
definition require_opcode_supported ::
  "'w env \<Rightarrow> int \<Rightarrow> string \<Rightarrow> IoUringProbeInfo option \<Rightarrow> 'w
     \<Rightarrow> (exn + unit) \<times> IoUringProbeInfo option \<times> 'w" where
  "require_opcode_supported E opcode operation cached w =
     (case opcode_supported E opcode False cached w of (r, c, w) \<Rightarrow>
        (sum_bind r (\<lambda>ok. if ok then Inr ()
           else Inl (uring_error_detail EOPNOTSUPP operation (unsupported_detail opcode))), c, w))"

subsection \<open>The ring of a probe is always destroyed\<close>

lemma new_ctx_usable:
  "UringCtx_init E n fl cpu idle True w = (Inr c, w') \<Longrightarrow> usable E c"
  by (auto simp: UringCtx_init_def usable_def Let_def split: sum.splits prod.splits if_splits)

lemma probe_with_eq:
  assumes "UringCtx_init E 8 0 (- 1) 0 True w = (Inr c, w1)"
  shows "py_with (UringCtx_enter E) (UringCtx_exit E) body (c, w1)
    = (fst (body (c, w1)), snd (UringCtx_close E (snd (body (c, w1)))))"
  using ctx_res.with_eq [of E "(c, w1)" body] new_ctx_usable [OF assms]
  by (simp add: UringCtx_exit_def)

lemma probe_caches:
  "get_probe_info E refresh cached w = (Inr info, cached', w') \<Longrightarrow> cached' = Some info"
  by (auto simp: get_probe_info_def Let_def split: if_splits sum.splits prod.splits)

end
