(* ===== verification/Ring_Props.thy ===== *)
theory Ring_Props
  imports Ring_Pool Capabilities
begin

text \<open>
  What \<open>UringPool\<close>, \<open>BufferRing\<close> and the cached probe guarantee, and what a pool whose
  construction fails leaves behind.
\<close>

subsection \<open>Pools of rings\<close>

text \<open>
  A pool holds as many different open rings as asked for, every index, negative or past the
  end, names one of them (with period \<open>n\<close>), and \<open>close\<close> destroys each of them exactly once, in
  order, empties the pool and never raises; indexing the empty pool raises
  \<open>ZeroDivisionError\<close>.
\<close>

theorem pool_rings_are_opened_and_closed:
  assumes "UringPool_init E n kw h = (Inr rings, h')"
  shows "UringPool_len rings = n \<and> distinct rings
    \<and> (\<forall>r \<in> set rings. truthy (u_ctx (rh_objs h' r)))
    \<and> (\<exists>r \<in> set rings. UringPool_getitem rings i = Inr r \<and> UringPool_getitem rings (i + n) = Inr r)
    \<and> (\<exists>h2. UringPool_close E rings h' = (Inr [], h2)
        \<and> (\<forall>r \<in> set rings. u_ctx (rh_objs h2 r) = None)
        \<and> rh_world h2 = fold (\<lambda>r. destroy E (the (u_ctx (rh_objs h' r)))) rings (rh_world h'))
    \<and> UringPool_getitem [] i = Inl ZeroDivisionError"
proof -
  have n: "0 < n" "new_ctxs E kw (nat n) h = (Inr rings, h')"
    using assms by (auto simp: UringPool_init_def py_raise_apply split: if_splits)
  note sp = new_ctxs_spec [OF n(2)]
  have len: "int (length rings) = n" and d: "distinct rings" and ne: "rings \<noteq> []"
    using sp n(1) by auto
  have op: "\<forall>r \<in> set rings. truthy (u_ctx (rh_objs h' r))" using sp by auto
  have i: "nat (i mod n) < length rings" using len n(1) by (metis nat_less_iff pos_mod_bound pos_mod_sign)
  obtain h2 where "close_rings E rings h' = (Inr (), h2)" "\<forall>r \<in> set rings. u_ctx (rh_objs h2 r) = None"
      "rh_world h2 = fold (\<lambda>i. destroy E (the (u_ctx (rh_objs h' i)))) rings (rh_world h')"
    using close_rings_spec [OF d op] by blast
  then show ?thesis
    using len d ne op i
    by (auto simp: UringPool_len_def UringPool_getitem_def UringPool_close_def py_map_def py_bind_eq
        py_return_apply intro!: bexI [of _ "rings ! nat (i mod n)"])
qed

text \<open>A library whose rings are numbered and that makes at most \<open>limit\<close> of them.\<close>

definition few_rings :: "nat \<Rightarrow> nat env" where
  "few_rings limit = \<lparr>native = (\<lambda>f args w.
      if f = ''uring_create_ex'' then
        (if w < limit then (\<lparr>rp_ret = 4096 + int w, rp_out = [], rp_errno = 0\<rparr>, Suc w)
         else (\<lparr>rp_ret = 0, rp_out = [], rp_errno = ENOMEM\<rparr>, w))
      else (\<lparr>rp_ret = 0, rp_out = [], rp_errno = 0\<rparr>, w)), thread_ident = 1, ct_errno = 0\<rparr>"

definition plain_kwargs :: ctx_kwargs where
  "plain_kwargs = \<lparr>kw_entries = 64, kw_setup_flags = 0, kw_sq_thread_cpu = - 1,
     kw_sq_thread_idle = 0, kw_single_thread_check = True\<rparr>"

definition no_rings :: "nat ring_heap" where
  "no_rings = \<lparr>rh_objs = (\<lambda>_. \<lparr>u_ctx = None, u_owner_thread_id = None, u_buffer_keepalive = [],
     u_async_io_keepalive = Map.empty\<rparr>), rh_next = 0, rh_world = 0\<rparr>"

lemmas few_simps = few_rings_def plain_kwargs_def no_rings_def UringPool_init_def new_ctx_def
  UringCtx_init_def invoke_native_def uring_create_ex_def mask32_def convert_ret_def py_bind_eq
  py_map_def py_return_apply get_errno_after_def CDLL_use_errno_def

lemma two_rings: "fst (UringPool_init (few_rings 5) 2 plain_kwargs no_rings) = Inr [0, 1]"
  by (simp add: few_simps numeral_2_eq_2)

theorem pool_rings_are_opened_and_closed_witness:
  "\<exists>r \<in> {0, 1}. UringPool_getitem [0, 1] (- 7) = Inr r \<and> UringPool_getitem [0, 1] (- 7 + 2) = Inr r"
  using pool_rings_are_opened_and_closed [of "few_rings 5" 2 plain_kwargs no_rings "[0, 1]"
      "snd (UringPool_init (few_rings 5) 2 plain_kwargs no_rings)" "- 7"] two_rings
  by (auto simp: prod_eq_iff)

text \<open>
  When one of the rings of a pool cannot be created, the constructor raises and the rings
  created before it stay open: there is no pool that could close them.
\<close>

theorem failed_pool_leaks_its_rings:
  assumes "UringPool_init E n kw h = (Inl e, h')" "0 < n" "rh_next h \<le> r" "r < rh_next h'"
  shows "truthy (u_ctx (rh_objs h' r)) \<and> rh_next h' < rh_next h + nat n"
proof -
  have "new_ctxs E kw (nat n) h = (Inl e, h')" using assms(1,2) by (simp add: UringPool_init_def)
  from new_ctxs_spec [OF this] show ?thesis using assms(3,4) by blast
qed

theorem failed_pool_leaks_its_rings_witness:
  "truthy (u_ctx (rh_objs (snd (UringPool_init (few_rings 2) 3 plain_kwargs no_rings)) 1))"
proof -
  have "is_uring_error (projl (fst (UringPool_init (few_rings 2) 3 plain_kwargs no_rings)))
      \<and> isl (fst (UringPool_init (few_rings 2) 3 plain_kwargs no_rings))
      \<and> rh_next (snd (UringPool_init (few_rings 2) 3 plain_kwargs no_rings)) = 2"
    by (simp add: few_simps numeral_3_eq_3 uring_error_detail_def is_uring_error_def)
  then show ?thesis
    using failed_pool_leaks_its_rings [of "few_rings 2" 3 plain_kwargs no_rings
        "projl (fst (UringPool_init (few_rings 2) 3 plain_kwargs no_rings))"
        "snd (UringPool_init (few_rings 2) 3 plain_kwargs no_rings)" 1]
    by (simp add: prod_eq_iff no_rings_def sum.collapse(1))
qed

subsection \<open>Groups of buffers\<close>

text \<open>The handle of a ring as the C functions receive it.\<close>

definition handle_arg :: "uctx \<Rightarrow> cval" where
  "handle_arg self = (let h = take_bit 64 (the (u_ctx self)) in if h = 0 then CNull else CInt h)"

text \<open>
  C40: A \<open>BufferRing\<close> whose constructor returns has registered its slab with the kernel by one native call:
  the memory handed over is all of the slab, which holds exactly \<open>nr\<close> buffers of \<open>buf_len\<close> bytes, so each buffer the kernel
  picks out of the group lies within it; the context keeps the slab alive.  \<open>close\<close> takes as many buffers out of
  the same group by one native call, and returns whatever the call answers.
\<close>

theorem buffer_ring_registers_its_slab:
  assumes "BufferRing_init E i buf_len nr bgid bid (self, w) = (Inr b, (self', w'))"
    and "buf_len < 2 ^ 31" "nr < 2 ^ 31" "- (2 ^ 31) \<le> bgid" "bgid < 2 ^ 31" "- (2 ^ 31) \<le> bid" "bid < 2 ^ 31"
  shows "(\<exists>r. native E ''uring_provide_buffers_sync''
          [handle_arg self, CMem (Shared i (b_nbytes (br_storage b))), CInt buf_len, CInt nr, CInt bgid, CInt bid] w = (r, w'))
    \<and> b_id (br_storage b) = i
    \<and> (\<forall>k. 0 \<le> k \<and> k < nr \<longrightarrow> k * buf_len + buf_len \<le> int (b_nbytes (br_storage b)))
    \<and> int (b_nbytes (br_storage b)) = nr * buf_len
    \<and> self' = self\<lparr>u_buffer_keepalive := u_buffer_keepalive self @ [KView (Shared i (b_nbytes (br_storage b)))]\<rparr>
    \<and> BufferRing_close E b (self', w')
        = (Inr (), (self', snd (native E ''uring_remove_buffers_sync'' [handle_arg self, CInt nr, CInt bgid] w')))"
proof -
  have pos: "0 < buf_len" "0 < nr" using assms by (auto simp: BufferRing_init_def py_raise_apply split: if_splits)
  have need: "0 < buf_len * nr" using pos by simp
  have b: "b = \<lparr>br_storage = slab i (nat (buf_len * nr)), br_buf_len = buf_len, br_nr_buffers = nr,
      br_bgid = bgid, br_bid = bid\<rparr>"
    using assms pos
    by (auto simp: BufferRing_init_def Let_def py_bind_eq py_return_apply split: sum.splits)
  have wide: "signed_take_bit 31 buf_len = buf_len" "signed_take_bit 31 nr = nr"
      "signed_take_bit 31 bgid = bgid" "signed_take_bit 31 bid = bid"
    using assms(2-7) pos by (simp_all add: signed_take_bit_id)
  define w1 where "w1 = native E ''uring_provide_buffers_sync''
      [handle_arg self, CMem (Shared i (nat (buf_len * nr))), CInt buf_len, CInt nr, CInt bgid, CInt bid] w"
  have run: "usable E self \<and> self' = self\<lparr>u_buffer_keepalive := u_buffer_keepalive self @ [KView (Shared i (nat (buf_len * nr)))]\<rparr>
      \<and> w' = snd w1"
    using assms(1) pos need wide
    by (auto simp: BufferRing_init_def py_bind_eq py_return_apply UringCtx_provide_buffers_def Let_def w1_def handle_arg_def
        slab_def with_buffer_def from_buffer_def sync_none_def sync_call_eq usable_def invoke_native_def
        uring_provide_buffers_sync_def split: sum.splits if_splits prod.splits option.splits)
  have k: "k * buf_len + buf_len \<le> buf_len * nr" if "k < nr" for k
    using mult_left_mono [of "k + 1" nr buf_len] that pos by (simp add: algebra_simps)
  have cl: "BufferRing_close E b (self', w')
      = (Inr (), (self', snd (native E ''uring_remove_buffers_sync'' [handle_arg self, CInt nr, CInt bgid] w')))"
    using run wide by (auto simp: BufferRing_close_def BufferRing_remove_def b py_catch_def py_return_apply handle_arg_def
        UringCtx_remove_buffers_def sync_none_def sync_call_eq usable_def invoke_native_def uring_remove_buffers_sync_def
        Let_def split: prod.split sum.split)
  show ?thesis using pos need k cl run
    by (auto simp: b slab_def w1_def mult.commute prod_eq_iff)
qed

definition open_ring :: uctx where
  "open_ring = \<lparr>u_ctx = Some 4096, u_owner_thread_id = None, u_buffer_keepalive = [],
     u_async_io_keepalive = Map.empty\<rparr>"

theorem buffer_ring_registers_its_slab_witness:
  "\<exists>b self'. BufferRing_init (few_rings 0) 7 2048 16 1 0 (open_ring, 0) = (Inr b, (self', 0))
     \<and> b_nbytes (br_storage b) = 32768 \<and> KView (Shared 7 32768) \<in> set (u_buffer_keepalive self')"
proof -
  have "\<exists>b self'. BufferRing_init (few_rings 0) 7 2048 16 1 0 (open_ring, 0) = (Inr b, (self', 0))"
    by (simp add: BufferRing_init_def Let_def py_bind_eq py_return_apply UringCtx_provide_buffers_def
        slab_def with_buffer_def from_buffer_def sync_none_def sync_call_eq usable_def open_ring_def
        invoke_native_def uring_provide_buffers_sync_def few_rings_def convert_ret_def
        raise_for_neg_errno_def)
  then obtain b self' where
    b: "BufferRing_init (few_rings 0) 7 2048 16 1 0 (open_ring, 0) = (Inr b, (self', 0))" by blast
  from buffer_ring_registers_its_slab [OF b] have "int (b_nbytes (br_storage b)) = 32768"
    "self' = open_ring\<lparr>u_buffer_keepalive := [KView (Shared 7 (b_nbytes (br_storage b)))]\<rparr>"
    by (simp_all add: open_ring_def)
  then have n: "b_nbytes (br_storage b) = 32768" by simp
  show ?thesis
    by (intro exI [of _ b] exI [of _ self']) (simp add: b n \<open>self' = _\<close>)
qed

subsection \<open>The cached probe\<close>

lemma sync_call_value:
  "fst (sync_call E b args k s) = Inr x \<Longrightarrow> \<exists>r s'. fst (k r s') = Inr x"
  by (cases s) (auto simp: sync_call_eq split: if_splits prod.splits sum.splits)

text \<open>
  Once a probe has succeeded, every later question about an opcode is answered from the
  cache: without a native call, for any integer and without \<open>IndexError\<close>, from the mask that
  covers exactly the opcodes up to the last; \<open>require_opcode_supported\<close> raises
  \<open>EOPNOTSUPP\<close> exactly for the others.
\<close>

theorem probe_answers_from_the_cache:
  assumes "\<And>args w. rp_ret (fst (native E ''uring_probe_last_op'' args w)) = lo"
    and "0 \<le> lo" "lo < 2 ^ 31"
    and "get_probe_info E refresh None w = (Inr info, cached, w1)"
  shows "pi_last_op info = lo \<and> length (pi_opcode_mask info) = nat lo + 1
    \<and> (let ok = (0 \<le> opcode \<and> opcode \<le> lo \<and> pi_opcode_mask info ! nat opcode \<noteq> 0)
       in opcode_supported E opcode False cached w2 = (Inr ok, cached, w2)
        \<and> require_opcode_supported E opcode operation cached w2
            = ((if ok then Inr ()
                else Inl (uring_error_detail EOPNOTSUPP operation (unsupported_detail opcode))), cached, w2))"
proof -
  have conv: "convert_ret (Some C_int) lo = lo"
    using assms(2,3) by (simp add: convert_ret_def signed_take_bit_id)
  have last: "fst (UringCtx_probe_last_op E s) = Inr x \<Longrightarrow> x = lo" for s x
    using assms(1,2) conv
    by (cases s) (auto simp: UringCtx_probe_last_op_def sync_int_def sync_call_eq invoke_native_def
        uring_probe_last_op_def py_return_apply split_beta split: if_splits)
  have mask_length: "fst (UringCtx_probe_supported_mask E s) = Inr m \<Longrightarrow> length m = nat lo + 1" for s m
    using last [of s] assms(2)
    by (auto simp: UringCtx_probe_supported_mask_def py_bind_eq Let_def with_buffer_def zeroed_buffer_def
        py_return_apply nat_add_distrib split: sum.splits if_splits dest!: sync_call_value)
  obtain c w0 where c: "UringCtx_init E 8 0 (- 1) 0 True w = (Inr c, w0)"
    using assms(4) by (auto simp: get_probe_info_def split: sum.splits prod.splits)
  let ?body = "py_bind (UringCtx_probe_last_op E) (\<lambda>lo.
     py_bind (UringCtx_probe_supported_mask E) (\<lambda>opmask. py_return (lo, opmask)))"
  have "\<exists>m. fst (?body (c, w0)) = Inr (pi_last_op info, m) \<and> pi_opcode_mask info = m"
    using assms(4) c probe_with_eq [OF c, of ?body]
    by (auto simp: get_probe_info_def Let_def split: sum.splits prod.splits)
  then have "pi_last_op info = lo \<and> length (pi_opcode_mask info) = nat lo + 1"
    using last [of "(c, w0)"] mask_length
    by (auto simp: py_bind_eq py_return_apply split: sum.splits)
  moreover have "cached = Some info" by (rule probe_caches [OF assms(4)])
  moreover note assms(2)
  ultimately show ?thesis
    by (auto simp: Let_def opcode_supported_def get_probe_info_def supported_in_def
        require_opcode_supported_def)
qed

text \<open>A kernel with opcodes 0 to 2, of which 1 is not supported.\<close>

definition probe_env :: "unit env" where
  "probe_env = \<lparr>native = (\<lambda>f args w.
      (if f = ''uring_create_ex'' then \<lparr>rp_ret = 4096, rp_out = [], rp_errno = 0\<rparr>
       else if f = ''uring_probe_last_op'' then \<lparr>rp_ret = 2, rp_out = [], rp_errno = 0\<rparr>
       else \<lparr>rp_ret = 0, rp_out = [1, 0, 1], rp_errno = 0\<rparr>, w)), thread_ident = 1, ct_errno = 0\<rparr>"

lemma probe_env_run:
  "get_probe_info probe_env False None ()
     = (Inr \<lparr>pi_last_op = 2, pi_opcode_mask = [1, 0, 1]\<rparr>,
        Some \<lparr>pi_last_op = 2, pi_opcode_mask = [1, 0, 1]\<rparr>, ())"
  by (simp add: get_probe_info_def UringCtx_init_def invoke_native_def uring_create_ex_def probe_env_def
      convert_ret_def mask32_def py_with_def UringCtx_enter_def UringCtx_exit_def ensure_open_eq usable_def
      py_bind_eq UringCtx_probe_last_op_def UringCtx_probe_supported_mask_def sync_int_def sync_call_eq
      uring_probe_last_op_def uring_probe_supported_mask_def raise_for_neg_errno_def py_return_apply
      Let_def with_buffer_def zeroed_buffer_def raw_after_def UringCtx_close_def uring_destroy_def)

theorem probe_answers_from_the_cache_witness:
  "opcode_supported probe_env 1 False (Some \<lparr>pi_last_op = 2, pi_opcode_mask = [1, 0, 1]\<rparr>) ()
     = (Inr False, Some \<lparr>pi_last_op = 2, pi_opcode_mask = [1, 0, 1]\<rparr>, ())"
  using probe_answers_from_the_cache [OF _ _ _ probe_env_run, of 2 1 "()" "''op''"]
  by (simp add: probe_env_def Let_def)

end
