(* ===== verification/Copy_Pipeline.thy ===== *)
theory Copy_Pipeline
  imports Pipeline_Size "HOL-Library.Word" "HOL-Library.Multiset"
begin

unbundle bit_operations_syntax

text \<open>
  The copy pipeline of \<open>csrc/uring_wrap.c\<close> (\<open>uring_copy_path_dynamic\<close>): the tags of its
  requests, the two places that schedule a read, the handler of a completion, the end of the
  function, and the whole loop as a step relation in which the kernel completes any request in
  flight.  The answers of liburing to the handler are arguments; sizes are natural numbers.
\<close>

subsection \<open>Tags\<close>

(* csrc/uring_wrap.c:666-668 pack_ud *)
definition pack_ud :: "32 word \<Rightarrow> 32 word \<Rightarrow> 64 word" where
  "pack_ud op slot = push_bit 32 (ucast op) OR ucast slot"

(* csrc/uring_wrap.c:669-669 ud_op *)
definition ud_op :: "64 word \<Rightarrow> 32 word" where
  "ud_op ud = ucast (drop_bit 32 ud)"

(* csrc/uring_wrap.c:670-670 ud_slot *)
definition ud_slot :: "64 word \<Rightarrow> 32 word" where
  "ud_slot ud = ucast (ud AND 0xffffffff)"

lemma ud_op_pack: "ud_op (pack_ud op slot) = op"
  unfolding ud_op_def pack_ud_def
  by (rule bit_word_eqI) (auto simp: bit_simps dest: bit_imp_le_length)

lemma ud_slot_pack: "ud_slot (pack_ud op slot) = slot"
proof -
  have "ud AND 0xffffffff = take_bit 32 ud" for ud :: "64 word"
    by (simp add: take_bit_eq_mask mask_eq_exp_minus_1)
  then show ?thesis unfolding ud_slot_def pack_ud_def
    by (intro bit_word_eqI) (auto simp: bit_simps)
qed

subsection \<open>State\<close>

type_synonym byte = "8 word"

(* csrc/uring_wrap.c:659-664 copy_slot *)
record copy_slot =
  ks_buf :: "byte list"
  ks_off :: nat
  ks_len :: nat
  ks_active :: bool

record pipe =
  pp_slots :: "copy_slot list"
  pp_next_off :: nat
  pp_inflight :: nat
  pp_copied :: nat

text \<open>What does not change while the function runs; \<open>cc_src\<close> is the content of the source.\<close>

record copy_call =
  cc_src :: "byte list"
  cc_block_size :: nat
  cc_size_cb :: "size_fn option"
  cc_max :: nat
  cc_progress :: "(nat \<Rightarrow> nat \<Rightarrow> int) option"

text \<open>A request in the ring, and the answers of \<open>io_uring_get_sqe\<close> and \<open>io_uring_submit\<close>.\<close>

record request =
  rq_ud :: "64 word"
  rq_slot :: nat
  rq_off :: nat
  rq_len :: nat

record answers =
  an_sqe :: bool
  an_submit :: int

abbreviation "file_size C \<equiv> length (cc_src C)"

subsection \<open>Scheduling\<close>

(* csrc/uring_wrap.c:878-890 uring_copy_path_dynamic *)
definition next_want :: "copy_call \<Rightarrow> pipe \<Rightarrow> nat" where
  "next_want C p = transfer_size (cc_size_cb C) (cc_max C) (file_size C) (cc_block_size C) (pp_next_off p)"

definition set_slot :: "nat \<Rightarrow> (copy_slot \<Rightarrow> copy_slot) \<Rightarrow> pipe \<Rightarrow> pipe" where
  "set_slot i f p = p\<lparr>pp_slots := (pp_slots p)[i := f (pp_slots p ! i)]\<rparr>"

definition read_request :: "nat \<Rightarrow> nat \<Rightarrow> nat \<Rightarrow> request" where
  "read_request i off len = \<lparr>rq_ud = pack_ud 0 (word_of_nat i), rq_slot = i, rq_off = off, rq_len = len\<rparr>"

definition write_request :: "nat \<Rightarrow> nat \<Rightarrow> nat \<Rightarrow> request" where
  "write_request i off len = \<lparr>rq_ud = pack_ud 1 (word_of_nat i), rq_slot = i, rq_off = off, rq_len = len\<rparr>"

text \<open>The slot is filled in before the request is taken, which may fail.\<close>

(* csrc/uring_wrap.c:891-902 uring_copy_path_dynamic *)
definition schedule_read :: "copy_call \<Rightarrow> answers \<Rightarrow> nat \<Rightarrow> pipe \<Rightarrow> int + (pipe \<times> request)" where
  "schedule_read C a i p =
     (let want = next_want C p;
          off = pp_next_off p;
          p = set_slot i (\<lambda>s. s\<lparr>ks_off := off, ks_len := want\<rparr>) p
      in if \<not> an_sqe a then Inl (- EAGAIN)
         else Inr (p\<lparr>pp_inflight := pp_inflight p + 1, pp_next_off := off + want\<rparr>,
                   read_request i off want))"

(* csrc/uring_wrap.c:788-816 uring_copy_path_dynamic *)
fun prime :: "copy_call \<Rightarrow> (nat \<Rightarrow> answers) \<Rightarrow> nat \<Rightarrow> nat \<Rightarrow> pipe \<Rightarrow> int + (pipe \<times> request list)" where
  "prime C a i 0 p = Inr (p, [])"
| "prime C a i (Suc n) p =
     (if pp_next_off p \<ge> file_size C then Inr (p, [])
      else sum_bind (schedule_read C (a i) i (set_slot i (\<lambda>s. s\<lparr>ks_active := True\<rparr>) p))
        (\<lambda>(p, q). sum_bind (prime C a (Suc i) n p) (\<lambda>(p, qs). Inr (p, q # qs))))"

subsection \<open>A completion\<close>

text \<open>\<open>Inl\<close> is the \<open>ret\<close> of \<open>goto out\<close>; otherwise the new state and the request it submitted.\<close>

(* csrc/uring_wrap.c:830-911 uring_copy_path_dynamic *)
definition on_cqe ::
  "copy_call \<Rightarrow> answers \<Rightarrow> 64 word \<Rightarrow> int \<Rightarrow> pipe \<Rightarrow> int + (pipe \<times> request option)" where
  "on_cqe C a ud res p =
     (let op = ud_op ud;
          slot = unat (ud_slot ud);
          p = p\<lparr>pp_inflight := pp_inflight p - 1\<rparr>
      in if slot \<ge> length (pp_slots p) \<or> \<not> ks_active (pp_slots p ! slot) then Inl (- EIO)
         else if res < 0 then Inl res
         else if op = 0 then
           (if res = 0 then Inr (set_slot slot (\<lambda>s. s\<lparr>ks_active := False\<rparr>) p, None)
            else if \<not> an_sqe a then Inl (- EAGAIN)
            else if an_submit a < 0 then Inl (an_submit a)
            else Inr (p\<lparr>pp_inflight := pp_inflight p + 1\<rparr>,
                      Some (write_request slot (ks_off (pp_slots p ! slot)) (nat res))))
         else
           (let p = p\<lparr>pp_copied := pp_copied p + nat res\<rparr>
            in if (case cc_progress C of None \<Rightarrow> False | Some f \<Rightarrow> f (pp_copied p) (file_size C) \<noteq> 0)
               then Inl (- ECANCELED)
               else if pp_next_off p < file_size C then
                 sum_bind (schedule_read C a slot p)
                   (\<lambda>(p, q). if an_submit a < 0 then Inl (an_submit a) else Inr (p, Some q))
               else Inr (set_slot slot (\<lambda>s. s\<lparr>ks_active := False\<rparr>) p, None)))"

subsection \<open>The destination\<close>

text \<open>The bytes written so far; what was skipped is a hole and reads as 0.\<close>

type_synonym disk = "nat \<rightharpoonup> byte"

definition write_at :: "nat \<Rightarrow> byte list \<Rightarrow> disk \<Rightarrow> disk" where
  "write_at off bs d = (\<lambda>x. if off \<le> x \<and> x < off + length bs then Some (bs ! (x - off)) else d x)"

definition file_of :: "nat \<Rightarrow> disk \<Rightarrow> byte list" where
  "file_of n d = map (\<lambda>x. case d x of Some b \<Rightarrow> b | None \<Rightarrow> 0) [0..<n]"

text \<open>
  The end after the loop: \<open>ftruncate\<close> to \<open>copied\<close> bytes (its failure is ignored), \<open>fsync\<close> with
  the result \<open>sync\<close> (0, or a negative errno), and the value returned.
\<close>

(* csrc/uring_wrap.c:914-937 uring_copy_path_dynamic *)
definition copy_end :: "bool \<Rightarrow> int \<Rightarrow> pipe \<Rightarrow> disk \<Rightarrow> int \<times> byte list" where
  "copy_end do_fsync sync p d =
     (if do_fsync \<and> sync < 0 then sync else int (pp_copied p), file_of (pp_copied p) d)"

subsection \<open>The loop\<close>

record copy_sys =
  sy_pipe :: pipe
  sy_queue :: "request multiset"
  sy_dst :: disk

definition set_buf :: "nat \<Rightarrow> byte list \<Rightarrow> pipe \<Rightarrow> pipe" where
  "set_buf i bs p = set_slot i (\<lambda>s. s\<lparr>ks_buf := bs @ drop (length bs) (ks_buf s)\<rparr>) p"

definition is_write :: "request \<Rightarrow> bool" where
  "is_write q \<longleftrightarrow> ud_op (rq_ud q) = 1"

text \<open>
  The kernel moves \<open>m\<close> bytes of the request \<open>q\<close> (all of them, when \<open>full\<close>): into the buffer of
  the slot, or from it to the destination.
\<close>

definition moved :: "bool \<Rightarrow> copy_call \<Rightarrow> request \<Rightarrow> nat \<Rightarrow> copy_sys \<Rightarrow> copy_sys" where
  "moved full C q m s =
     (if is_write q
      then s\<lparr>sy_dst := write_at (rq_off q) (take m (ks_buf (pp_slots (sy_pipe s) ! rq_slot q))) (sy_dst s)\<rparr>
      else s\<lparr>sy_pipe := set_buf (rq_slot q) (take m (drop (rq_off q) (cc_src C))) (sy_pipe s)\<rparr>)"

inductive copy_step :: "bool \<Rightarrow> copy_call \<Rightarrow> copy_sys \<Rightarrow> copy_sys \<Rightarrow> bool" for full C where
  completes: "q \<in># sy_queue s \<Longrightarrow> m \<le> rq_len q \<Longrightarrow> full \<longrightarrow> m = rq_len q
    \<Longrightarrow> (\<not> is_write q \<longrightarrow> m \<le> file_size C - rq_off q)
    \<Longrightarrow> s1 = moved full C q m s
    \<Longrightarrow> on_cqe C a (rq_ud q) (int m) (sy_pipe s1) = Inr (p, new)
    \<Longrightarrow> copy_step full C s
          (s1\<lparr>sy_pipe := p, sy_queue := sy_queue s - {#q#} + mset (case new of None \<Rightarrow> [] | Some q \<Rightarrow> [q])\<rparr>)"

inductive_cases copy_stepE: "copy_step full C s s'"

text \<open>The state before the loop: fresh slots, primed, with nothing written.\<close>

definition fresh_pipe :: "nat \<Rightarrow> copy_call \<Rightarrow> pipe" where
  "fresh_pipe qd C = \<lparr>pp_slots = replicate qd \<lparr>ks_buf = replicate (cc_max C) 0, ks_off = 0, ks_len = 0,
     ks_active = False\<rparr>, pp_next_off = 0, pp_inflight = 0, pp_copied = 0\<rparr>"

inductive copy_reach :: "bool \<Rightarrow> copy_call \<Rightarrow> nat \<Rightarrow> copy_sys \<Rightarrow> bool" for full C qd where
  primed: "prime C a 0 qd (fresh_pipe qd C) = Inr (p, qs)
    \<Longrightarrow> copy_reach full C qd \<lparr>sy_pipe = p, sy_queue = mset qs, sy_dst = Map.empty\<rparr>"
| stepped: "copy_reach full C qd s \<Longrightarrow> copy_step full C s s' \<Longrightarrow> copy_reach full C qd s'"

end
