(* ===== verification/Copy_Props.thy ===== *)
theory Copy_Props
  imports Copy_Pipeline
begin

unbundle bit_operations_syntax

text \<open>
  The copy pipeline against its specification: with a kernel that completes every request it
  accepts, in any order, the destination ends up equal to the source; every run is finite; and
  why the loop may give up.  What a short read or write does is in \<open>Copy_Short\<close>.
\<close>

subsection \<open>Calls and requests\<close>

text \<open>The arguments the function goes on with, and the buffers it allocates.\<close>

definition call_ok :: "copy_call \<Rightarrow> nat \<Rightarrow> bool" where
  "call_ok C qd \<longleftrightarrow> 0 < qd \<and> qd < 2 ^ 32 \<and> 0 < cc_block_size C \<and> cc_block_size C \<le> size_limit
     \<and> cc_max C = slot_buffer_size (cc_size_cb C) (file_size C) (cc_block_size C)"

lemma next_want:
  assumes "call_ok C qd" "pp_next_off p < file_size C"
  shows "0 < next_want C p" "next_want C p \<le> cc_max C" "pp_next_off p + next_want C p \<le> file_size C"
proof -
  show "0 < next_want C p" "pp_next_off p + next_want C p \<le> file_size C"
    using assms by (auto simp: next_want_def transfer_size_def call_ok_def Let_def split: option.split)
  show "next_want C p \<le> cc_max C"
    using assms transfer_fits [of "cc_block_size C"] by (auto simp: next_want_def call_ok_def)
qed

lemma request_sel [simp]:
  "rq_slot (read_request i off len) = i" "rq_off (read_request i off len) = off"
  "rq_len (read_request i off len) = len" "rq_ud (read_request i off len) = pack_ud 0 (word_of_nat i)"
  "rq_slot (write_request i off len) = i" "rq_off (write_request i off len) = off"
  "rq_len (write_request i off len) = len" "rq_ud (write_request i off len) = pack_ud 1 (word_of_nat i)"
  "\<not> is_write (read_request i off len)" "is_write (write_request i off len)"
  by (simp_all add: read_request_def write_request_def is_write_def ud_op_pack)

lemma slot_of_tag: "i < 2 ^ 32 \<Longrightarrow> unat (ud_slot (pack_ud op (word_of_nat i))) = i"
  by (simp add: ud_slot_pack unat_of_nat)

lemma set_slot_sel [simp]:
  "length (pp_slots (set_slot i f p)) = length (pp_slots p)"
  "pp_next_off (set_slot i f p) = pp_next_off p" "pp_inflight (set_slot i f p) = pp_inflight p"
  "pp_copied (set_slot i f p) = pp_copied p"
  "i < length (pp_slots p) \<Longrightarrow> pp_slots (set_slot i f p) ! j
     = (if j = i then f (pp_slots p ! i) else pp_slots p ! j)"
  by (auto simp: set_slot_def nth_list_update)

subsection \<open>The invariant\<close>

text \<open>
  A request in flight belongs to an active slot whose buffer is large enough; a write has the
  right bytes in it.
\<close>

definition req_ok :: "copy_call \<Rightarrow> pipe \<Rightarrow> request \<Rightarrow> bool" where
  "req_ok C p q \<longleftrightarrow>
     (q = read_request (rq_slot q) (rq_off q) (rq_len q) \<or> q = write_request (rq_slot q) (rq_off q) (rq_len q))
   \<and> rq_slot q < length (pp_slots p) \<and> 0 < rq_len q \<and> rq_off q + rq_len q \<le> pp_next_off p
   \<and> (let s = pp_slots p ! rq_slot q in ks_active s \<and> ks_off s = rq_off q
      \<and> rq_len q \<le> length (ks_buf s)
      \<and> (is_write q \<longrightarrow> take (rq_len q) (ks_buf s) = take (rq_len q) (drop (rq_off q) (cc_src C))))"

text \<open>Every byte scheduled so far is either under way or in place.\<close>

definition covered :: "request multiset \<Rightarrow> nat \<Rightarrow> bool" where
  "covered Q x \<longleftrightarrow> (\<exists>q. q \<in># Q \<and> rq_off q \<le> x \<and> x < rq_off q + rq_len q)"

definition in_place :: "byte list \<Rightarrow> disk \<Rightarrow> nat \<Rightarrow> bool" where
  "in_place src d x \<longleftrightarrow> d x = Some (src ! x)"

definition own_slots :: "request multiset \<Rightarrow> bool" where
  "own_slots Q \<longleftrightarrow> (\<forall>i. count (image_mset rq_slot Q) i \<le> 1)"

definition copy_core :: "copy_call \<Rightarrow> nat \<Rightarrow> copy_sys \<Rightarrow> bool" where
  "copy_core C qd s \<longleftrightarrow> (let p = sy_pipe s; Q = sy_queue s in
     length (pp_slots p) = qd \<and> (\<forall>i < qd. length (ks_buf (pp_slots p ! i)) = cc_max C)
   \<and> pp_inflight p = size Q \<and> (\<forall>q. q \<in># Q \<longrightarrow> req_ok C p q)
   \<and> own_slots Q
   \<and> pp_next_off p \<le> file_size C
   \<and> (\<forall>x < pp_next_off p. covered Q x \<or> in_place (cc_src C) (sy_dst s) x)
   \<and> pp_copied p + \<Sum>\<^sub># (image_mset rq_len Q) = pp_next_off p)"

definition copy_inv :: "copy_call \<Rightarrow> nat \<Rightarrow> copy_sys \<Rightarrow> bool" where
  "copy_inv C qd s \<longleftrightarrow> copy_core C qd s
     \<and> (pp_next_off (sy_pipe s) < file_size C \<longrightarrow> sy_queue s \<noteq> {#})"

lemma req_ok_other:
  assumes "req_ok C p r" "pp_slots p' ! rq_slot r = pp_slots p ! rq_slot r"
    and "length (pp_slots p') = length (pp_slots p)" "pp_next_off p \<le> pp_next_off p'"
  shows "req_ok C p' r"
  using assms by (auto simp: req_ok_def)

lemma covered_replace:
  assumes "q \<in># Q" "rq_off w = rq_off q" "rq_len w = rq_len q"
  shows "covered (add_mset w (Q - {#q#})) x \<longleftrightarrow> covered Q x"
proof -
  have "Q = add_mset q (Q - {#q#})" using assms(1) by simp
  then have "covered Q x \<longleftrightarrow> (rq_off q \<le> x \<and> x < rq_off q + rq_len q) \<or> covered (Q - {#q#}) x"
    unfolding covered_def by (metis add_mset_remove_trivial insert_iff set_mset_add_mset_insert)
  then show ?thesis using assms(2,3) by (auto simp: covered_def)
qed

lemma covered_remove:
  "covered Q x \<Longrightarrow> \<not> (rq_off q \<le> x \<and> x < rq_off q + rq_len q) \<Longrightarrow> covered (Q - {#q#}) x"
proof -
  assume "covered Q x" and no: "\<not> (rq_off q \<le> x \<and> x < rq_off q + rq_len q)"
  then obtain r where r: "r \<in># Q" "rq_off r \<le> x" "x < rq_off r + rq_len r" by (auto simp: covered_def)
  then have "r \<noteq> q" using no by blast
  then have "r \<in># Q - {#q#}" using r(1) by (simp add: in_diff_count)
  then show ?thesis using r(2,3) unfolding covered_def by blast
qed

lemma own_slots_remove: "own_slots Q \<Longrightarrow> own_slots (Q - {#q#})"
  unfolding own_slots_def by (metis diff_subset_eq_self image_mset_subseteq_mono le_trans mset_subset_eq_count)

lemma own_slots_replace:
  assumes "own_slots Q" "q \<in># Q" "rq_slot w = rq_slot q" shows "own_slots (add_mset w (Q - {#q#}))"
proof -
  have "image_mset rq_slot (add_mset w (Q - {#q#})) = image_mset rq_slot Q"
    using assms(2,3) by (metis image_mset_add_mset insert_DiffM)
  then show ?thesis using assms(1) unfolding own_slots_def by simp
qed

lemma own_slots_other:
  assumes "own_slots Q" "q \<in># Q" "r \<in># Q - {#q#}" shows "rq_slot r \<noteq> rq_slot q"
proof
  assume eq: "rq_slot r = rq_slot q"
  have q: "Q = add_mset q (Q - {#q#})" using assms(2) by (simp only: insert_DiffM)
  have r: "Q - {#q#} = add_mset r (Q - {#q#} - {#r#})" using assms(3) by (simp only: insert_DiffM)
  have "count (image_mset rq_slot Q) (rq_slot q) = Suc (count (image_mset rq_slot (Q - {#q#})) (rq_slot q))"
    by (subst q) simp
  moreover have "count (image_mset rq_slot (Q - {#q#})) (rq_slot q)
      = Suc (count (image_mset rq_slot (Q - {#q#} - {#r#})) (rq_slot q))"
    by (subst r) (simp add: eq)
  ultimately have "count (image_mset rq_slot Q) (rq_slot q)
      = Suc (Suc (count (image_mset rq_slot (Q - {#q#} - {#r#})) (rq_slot q)))" by simp
  then have "\<not> count (image_mset rq_slot Q) (rq_slot q) \<le> 1" by simp
  then show False using assms(1) unfolding own_slots_def by blast
qed

lemma core_own: "copy_core C qd s \<Longrightarrow> own_slots (sy_queue s)"
  by (simp add: copy_core_def Let_def)

lemma core_req: "copy_core C qd s \<Longrightarrow> q \<in># sy_queue s \<Longrightarrow> req_ok C (sy_pipe s) q"
  unfolding copy_core_def Let_def by blast

lemma sum_replace:
  "q \<in># Q \<Longrightarrow> \<Sum>\<^sub># (image_mset f (Q - {#q#})) + f q = \<Sum>\<^sub># (image_mset f Q)" for f :: "request \<Rightarrow> nat"
  by (metis add.commute image_mset_add_mset insert_DiffM sum_mset.add_mset)

lemma core_read:
  assumes inv: "copy_core C qd \<lparr>sy_pipe = p, sy_queue = Q, sy_dst = d\<rparr>"
    and q: "q \<in># Q" "q = read_request i off len"
  shows "copy_core C qd \<lparr>sy_pipe = set_buf i (take len (drop off (cc_src C))) p,
     sy_queue = add_mset (write_request i off len) (Q - {#q#}), sy_dst = d\<rparr>"
proof -
  let ?p = "set_buf i (take len (drop off (cc_src C))) p" and ?w = "write_request i off len"
  have ok: "req_ok C p q" "i < length (pp_slots p)" using inv q by (auto simp: copy_core_def req_ok_def)
  have fits: "off + len \<le> file_size C" "0 < len" "len \<le> length (ks_buf (pp_slots p ! i))"
    using inv ok q(2) by (auto simp: copy_core_def req_ok_def Let_def)
  have slots: "pp_slots ?p ! j = (if j = i then (pp_slots p ! i)\<lparr>ks_buf := take len (drop off (cc_src C))
      @ drop len (ks_buf (pp_slots p ! i))\<rparr> else pp_slots p ! j)" for j
    using ok(2) fits(1) by (simp add: set_buf_def min_absorb1)
  have other: "rq_slot r \<noteq> i" if "r \<in># Q - {#q#}" for r
    using own_slots_other [OF core_own [OF inv], of q r] q that by simp
  have w: "req_ok C ?p ?w"
    using ok(1) fits q(2) slots by (auto simp: req_ok_def set_buf_def Let_def)
  have r: "req_ok C ?p r" if "r \<in># Q - {#q#}" for r
  proof (rule req_ok_other [of C p])
    show "req_ok C p r" using inv that by (auto simp: copy_core_def Let_def dest: in_diffD)
  qed (use slots other [OF that] in \<open>auto simp: set_buf_def\<close>)
  have sz: "Suc (size (Q - {#q#})) = size Q" using q(1) by (metis size_Suc_Diff1)
  show ?thesis
    using inv w r sz covered_replace [OF q(1), of ?w] sum_replace [OF q(1), of rq_len] slots q(2) fits(1,3)
      own_slots_replace [OF _ q(1), of ?w]
    by (auto simp: copy_core_def Let_def set_buf_def)
qed

lemma write_in_place:
  assumes "bs = take n (drop off src)" "off + n \<le> length src" "off \<le> x \<and> x < off + n \<or> in_place src d x"
  shows "in_place src (write_at off bs d) x"
proof (cases "off \<le> x \<and> x < off + n")
  case True
  then have "x - off < n" "off + (x - off) = x" by auto
  then have "bs ! (x - off) = src ! x" unfolding assms(1) using assms(2) by simp
  then show ?thesis using True assms(1,2) unfolding in_place_def write_at_def by simp
next
  case False
  then show ?thesis using assms unfolding in_place_def write_at_def by auto
qed

text \<open>A copy whose bytes are all in place is the source.\<close>

lemma file_in_place: "\<forall>x < length src. in_place src d x \<Longrightarrow> file_of (length src) d = src"
  by (intro nth_equalityI) (auto simp: file_of_def in_place_def)

lemma still_covered:
  assumes "copy_core C qd \<lparr>sy_pipe = p, sy_queue = Q, sy_dst = d\<rparr>" "q \<in># Q" "is_write q" "x < pp_next_off p"
  shows "covered (Q - {#q#}) x
    \<or> in_place (cc_src C) (write_at (rq_off q) (take (rq_len q) (ks_buf (pp_slots p ! rq_slot q))) d) x"
proof -
  have ok: "req_ok C p q" and le: "pp_next_off p \<le> file_size C" and x: "covered Q x \<or> in_place (cc_src C) d x"
    using assms by (auto simp: copy_core_def Let_def)
  have w: "take (rq_len q) (ks_buf (pp_slots p ! rq_slot q)) = take (rq_len q) (drop (rq_off q) (cc_src C))"
    "rq_off q + rq_len q \<le> file_size C" using ok assms(3) le by (auto simp: req_ok_def Let_def)
  show ?thesis using x write_in_place [OF w] covered_remove [of Q x q] by blast
qed

lemma core_written:
  assumes inv: "copy_core C qd \<lparr>sy_pipe = p, sy_queue = Q, sy_dst = d\<rparr>" and q: "q \<in># Q" "is_write q"
  shows "copy_core C qd \<lparr>
     sy_pipe = p\<lparr>pp_inflight := pp_inflight p - 1, pp_copied := pp_copied p + rq_len q\<rparr>,
     sy_queue = Q - {#q#},
     sy_dst = write_at (rq_off q) (take (rq_len q) (ks_buf (pp_slots p ! rq_slot q))) d\<rparr>"
proof -
  let ?p = "p\<lparr>pp_inflight := pp_inflight p - 1, pp_copied := pp_copied p + rq_len q\<rparr>"
  have r: "req_ok C ?p r" if "r \<in># Q - {#q#}" for r
  proof (rule req_ok_other [of C p])
    show "req_ok C p r" using inv that by (auto simp: copy_core_def Let_def dest: in_diffD)
  qed auto
  have sz: "Suc (size (Q - {#q#})) = size Q" using q(1) by (metis size_Suc_Diff1)
  show ?thesis
    using inv r sz sum_replace [OF q(1), of rq_len] still_covered [OF inv q] own_slots_remove [of Q q]
    by (auto simp: copy_core_def Let_def)
qed

lemma core_slot:
  assumes inv: "copy_core C qd \<lparr>sy_pipe = p, sy_queue = Q, sy_dst = d\<rparr>"
    and i: "i < qd" "\<And>r. r \<in># Q \<Longrightarrow> rq_slot r \<noteq> i" and f: "\<And>s. ks_buf (f s) = ks_buf s"
  shows "copy_core C qd \<lparr>sy_pipe = set_slot i f p, sy_queue = Q, sy_dst = d\<rparr>"
proof -
  have len: "length (pp_slots p) = qd" using inv by (simp add: copy_core_def Let_def)
  have r: "req_ok C (set_slot i f p) r" if "r \<in># Q" for r
  proof (rule req_ok_other [of C p])
    show "req_ok C p r" using inv that by (auto simp: copy_core_def Let_def)
  qed (use i that len in auto)
  show ?thesis using inv r i(1) len f by (auto simp: copy_core_def Let_def)
qed

lemma core_schedule:
  assumes C: "call_ok C qd" and inv: "copy_core C qd \<lparr>sy_pipe = p, sy_queue = Q, sy_dst = d\<rparr>"
    and i: "i < qd" "\<And>r. r \<in># Q \<Longrightarrow> rq_slot r \<noteq> i" "ks_active (pp_slots p ! i)"
    and more: "pp_next_off p < file_size C"
    and sched: "schedule_read C a i p = Inr (p', n)"
  shows "copy_core C qd \<lparr>sy_pipe = p', sy_queue = add_mset n Q, sy_dst = d\<rparr>" "rq_slot n = i"
proof -
  define want where "want = next_want C p"
  note want = next_want [OF C more, folded want_def]
  have p': "p' = (set_slot i (\<lambda>s. s\<lparr>ks_off := pp_next_off p, ks_len := want\<rparr>) p)
      \<lparr>pp_inflight := pp_inflight p + 1, pp_next_off := pp_next_off p + want\<rparr>"
    and n: "n = read_request i (pp_next_off p) want"
    using sched unfolding schedule_read_def Let_def want_def by (auto split: if_splits)
  have len: "length (pp_slots p) = qd" "length (ks_buf (pp_slots p ! i)) = cc_max C"
    using inv i(1) by (auto simp: copy_core_def Let_def)
  have new: "req_ok C p' n" using i want len by (simp add: p' n req_ok_def Let_def)
  have r: "req_ok C p' r" if "r \<in># Q" for r
  proof (rule req_ok_other [of C p])
    show "req_ok C p r" using inv that by (auto simp: copy_core_def Let_def)
  qed (use i that len p' in auto)
  have cov: "covered (add_mset n Q) x \<or> in_place (cc_src C) d x" if "x < pp_next_off p + want" for x
  proof (cases "x < pp_next_off p")
    case True
    then show ?thesis using inv by (auto simp: copy_core_def Let_def covered_def)
  next
    case False
    then show ?thesis using that by (auto simp: covered_def n)
  qed
  have own: "own_slots (add_mset n Q)"
    using inv i(2) by (auto simp: own_slots_def copy_core_def Let_def n count_image_mset vimage_def)
  show "copy_core C qd \<lparr>sy_pipe = p', sy_queue = add_mset n Q, sy_dst = d\<rparr>"
    using inv new r cov own want(1,3) i(1) len by (auto simp: copy_core_def Let_def p' n)
  show "rq_slot n = i" by (simp add: n)
qed

subsection \<open>The loop keeps the invariant\<close>

lemma prime_core:
  assumes "call_ok C qd"
  shows "prime C a i n p = Inr (p', qs) \<Longrightarrow> copy_core C qd \<lparr>sy_pipe = p, sy_queue = Q, sy_dst = d\<rparr>
    \<Longrightarrow> i + n \<le> qd \<Longrightarrow> (\<And>r. r \<in># Q \<Longrightarrow> rq_slot r < i)
    \<Longrightarrow> copy_core C qd \<lparr>sy_pipe = p', sy_queue = Q + mset qs, sy_dst = d\<rparr>
      \<and> (0 < n \<and> pp_next_off p < file_size C \<longrightarrow> qs \<noteq> [])"
proof (induction n arbitrary: i p p' qs Q)
  case (Suc n)
  show ?case
  proof (cases "pp_next_off p < file_size C")
    case True
    let ?p = "set_slot i (\<lambda>s. s\<lparr>ks_active := True\<rparr>) p"
    obtain p1 n1 qs1 where s: "schedule_read C (a i) i ?p = Inr (p1, n1)"
      and t: "prime C a (Suc i) n p1 = Inr (p', qs1)" and qs: "qs = n1 # qs1"
      using Suc.prems(1) True by (auto simp: sum_bind_def split: sum.splits)
    have len: "length (pp_slots p) = qd" using Suc.prems(2) by (simp add: copy_core_def Let_def)
    have "copy_core C qd \<lparr>sy_pipe = ?p, sy_queue = Q, sy_dst = d\<rparr>"
      using Suc.prems by (intro core_slot) force+
    then have c: "copy_core C qd \<lparr>sy_pipe = p1, sy_queue = add_mset n1 Q, sy_dst = d\<rparr>" "rq_slot n1 = i"
      using core_schedule [OF assms, of ?p Q d i "a i" p1 n1] s Suc.prems(3,4) True len by force+
    have "copy_core C qd \<lparr>sy_pipe = p', sy_queue = add_mset n1 Q + mset qs1, sy_dst = d\<rparr>"
      using Suc.IH [OF t c(1)] Suc.prems(3,4) c(2) by (auto simp: less_Suc_eq)
    then show ?thesis by (simp add: qs)
  next
    case False
    then show ?thesis using Suc.prems by simp
  qed
qed simp

lemma fresh_core: "copy_core C qd \<lparr>sy_pipe = fresh_pipe qd C, sy_queue = {#}, sy_dst = Map.empty\<rparr>"
  by (simp add: copy_core_def fresh_pipe_def own_slots_def)

lemma primed_inv:
  assumes "call_ok C qd" "prime C a 0 qd (fresh_pipe qd C) = Inr (p, qs)"
  shows "copy_inv C qd \<lparr>sy_pipe = p, sy_queue = mset qs, sy_dst = Map.empty\<rparr>"
proof -
  have c: "copy_core C qd \<lparr>sy_pipe = p, sy_queue = mset qs, sy_dst = Map.empty\<rparr>"
    "0 < file_size C \<longrightarrow> qs \<noteq> []"
    using prime_core [OF assms fresh_core] assms(1) by (auto simp: call_ok_def fresh_pipe_def)
  then show ?thesis by (auto simp: copy_inv_def)
qed

lemma slot_in_tag:
  assumes "call_ok C qd" "copy_core C qd s" "q \<in># sy_queue s"
  shows "unat (ud_slot (rq_ud q)) = rq_slot q" "rq_slot q < length (pp_slots (sy_pipe s))"
    "ks_active (pp_slots (sy_pipe s) ! rq_slot q)" "ks_off (pp_slots (sy_pipe s) ! rq_slot q) = rq_off q"
    "0 < rq_len q" "q = read_request (rq_slot q) (rq_off q) (rq_len q) \<or> q = write_request (rq_slot q) (rq_off q) (rq_len q)"
    "length (pp_slots (sy_pipe s)) = qd"
proof -
  have q: "req_ok C (sy_pipe s) q" using core_req assms(2,3) by blast
  then show slot: "rq_slot q < length (pp_slots (sy_pipe s))"
    "ks_active (pp_slots (sy_pipe s) ! rq_slot q)" "ks_off (pp_slots (sy_pipe s) ! rq_slot q) = rq_off q"
    "0 < rq_len q" "q = read_request (rq_slot q) (rq_off q) (rq_len q) \<or> q = write_request (rq_slot q) (rq_off q) (rq_len q)"
    by (simp_all add: req_ok_def Let_def)
  show len: "length (pp_slots (sy_pipe s)) = qd" using assms(2) by (simp add: copy_core_def Let_def)
  have "rq_slot q < 2 ^ 32" using slot(1) len assms(1) by (simp add: call_ok_def)
  then show "unat (ud_slot (rq_ud q)) = rq_slot q" using slot(5) slot_of_tag by (metis request_sel(4,8))
qed

lemma queued_inflight: "copy_core C qd s \<Longrightarrow> q \<in># sy_queue s \<Longrightarrow> 0 < pp_inflight (sy_pipe s)"
  by (auto simp: copy_core_def Let_def nonempty_has_size [symmetric])

lemma read_completes:
  assumes ok: "call_ok C qd" "copy_core C qd s" "q \<in># sy_queue s" and "\<not> is_write q"
    and r: "on_cqe C a (rq_ud q) (int (rq_len q)) (sy_pipe (moved full C q (rq_len q) s)) = Inr (p, new)"
  shows "p = set_buf (rq_slot q) (take (rq_len q) (drop (rq_off q) (cc_src C))) (sy_pipe s)"
    and "new = Some (write_request (rq_slot q) (rq_off q) (rq_len q))"
    and "q = read_request (rq_slot q) (rq_off q) (rq_len q)"
proof -
  note slot = slot_in_tag [OF ok]
  show q: "q = read_request (rq_slot q) (rq_off q) (rq_len q)"
    using slot(6) assms(4) by (metis request_sel(10))
  have op: "ud_op (rq_ud q) = 0" by (subst q) (simp add: ud_op_pack)
  have "0 < pp_inflight (sy_pipe s)" using queued_inflight ok(2,3) .
  then show "p = set_buf (rq_slot q) (take (rq_len q) (drop (rq_off q) (cc_src C))) (sy_pipe s)"
    "new = Some (write_request (rq_slot q) (rq_off q) (rq_len q))"
    using r slot(1-5) assms(4)
    by (auto simp: on_cqe_def moved_def op Let_def set_buf_def split: if_splits)
qed

lemma write_completes:
  assumes ok: "call_ok C qd" "copy_core C qd s" "q \<in># sy_queue s" and "is_write q"
    and r: "on_cqe C a (rq_ud q) (int (rq_len q)) (sy_pipe (moved full C q (rq_len q) s)) = Inr (p, new)"
  defines "p1 \<equiv> (sy_pipe s)\<lparr>pp_inflight := pp_inflight (sy_pipe s) - 1, pp_copied := pp_copied (sy_pipe s) + rq_len q\<rparr>"
  shows "(\<exists>n. pp_next_off (sy_pipe s) < file_size C \<and> schedule_read C a (rq_slot q) p1 = Inr (p, n) \<and> new = Some n)
       \<or> (\<not> pp_next_off (sy_pipe s) < file_size C \<and> new = None
          \<and> p = set_slot (rq_slot q) (\<lambda>s. s\<lparr>ks_active := False\<rparr>) p1)"
proof -
  note slot = slot_in_tag [OF ok]
  have op: "ud_op (rq_ud q) = 1" using assms(4) by (simp add: is_write_def)
  show ?thesis
    using r slot(1-5) assms(4) unfolding p1_def
    by (auto simp: on_cqe_def moved_def op Let_def sum_bind_def split: if_splits sum.splits)
qed

lemma step_inv:
  assumes C: "call_ok C qd" and inv: "copy_inv C qd s" and step: "copy_step True C s s'"
  shows "copy_inv C qd s'"
  using step
proof (cases rule: copy_step.cases)
  case (completes q m s1 a p new)
  obtain p0 Q d where s: "s = \<lparr>sy_pipe = p0, sy_queue = Q, sy_dst = d\<rparr>" by (cases s) auto
  have core: "copy_core C qd s" using inv by (simp add: copy_inv_def)
  have m: "m = rq_len q" using completes by simp
  note r = completes(7) [unfolded completes(6) m]
  show ?thesis
  proof (cases "is_write q")
    case False
    note rd = read_completes [OF C core completes(2) False r]
    have "copy_core C qd \<lparr>sy_pipe = p, sy_queue = add_mset (write_request (rq_slot q) (rq_off q) (rq_len q)) (Q - {#q#}), sy_dst = d\<rparr>"
      using core_read [OF core [unfolded s] _ rd(3)] completes(2) rd(1) s by simp
    then show ?thesis using completes(1,6) rd(2) False m by (simp add: copy_inv_def moved_def s)
  next
    case True
    let ?d = "write_at (rq_off q) (take (rq_len q) (ks_buf (pp_slots p0 ! rq_slot q))) d"
    let ?p1 = "p0\<lparr>pp_inflight := pp_inflight p0 - 1, pp_copied := pp_copied p0 + rq_len q\<rparr>"
    have q: "q \<in># Q" using completes(2) s by simp
    have w: "copy_core C qd \<lparr>sy_pipe = ?p1, sy_queue = Q - {#q#}, sy_dst = ?d\<rparr>"
      using core_written [OF core [unfolded s] q True] .
    note slot = slot_in_tag [OF C core completes(2), unfolded s, simplified]
    have free: "rq_slot r \<noteq> rq_slot q" if "r \<in># Q - {#q#}" for r
      using own_slots_other [OF core_own [OF core [unfolded s], simplified] q that] .
    have s': "s' = \<lparr>sy_pipe = p, sy_queue = Q - {#q#} + mset (case new of None \<Rightarrow> [] | Some q \<Rightarrow> [q]), sy_dst = ?d\<rparr>"
      using completes(1,6) True m by (simp add: moved_def s)
    from write_completes [OF C core completes(2) True r] show ?thesis
    proof (elim disjE exE conjE)
      fix n assume n: "pp_next_off (sy_pipe s) < file_size C" "new = Some n"
        "schedule_read C a (rq_slot q) ((sy_pipe s)\<lparr>pp_inflight := pp_inflight (sy_pipe s) - 1,
           pp_copied := pp_copied (sy_pipe s) + rq_len q\<rparr>) = Inr (p, n)"
      have "copy_core C qd \<lparr>sy_pipe = p, sy_queue = add_mset n (Q - {#q#}), sy_dst = ?d\<rparr>"
        using core_schedule(1) [OF C w _ free _ _ n(3) [unfolded s copy_sys.simps]] n(1) slot s by simp
      then show ?thesis by (simp add: s' n(2) copy_inv_def)
    next
      assume n: "\<not> pp_next_off (sy_pipe s) < file_size C" "new = None"
        "p = set_slot (rq_slot q) (\<lambda>s. s\<lparr>ks_active := False\<rparr>) ((sy_pipe s)\<lparr>pp_inflight :=
           pp_inflight (sy_pipe s) - 1, pp_copied := pp_copied (sy_pipe s) + rq_len q\<rparr>)"
      have "copy_core C qd \<lparr>sy_pipe = p, sy_queue = Q - {#q#}, sy_dst = ?d\<rparr>"
        unfolding n(3) s copy_sys.simps by (rule core_slot [OF w _ free]) (use slot in auto)
      then show ?thesis using n(1,3) by (simp add: s' n(2) copy_inv_def s)
    qed
  qed
qed

lemma reach_inv: "call_ok C qd \<Longrightarrow> copy_reach True C qd s \<Longrightarrow> copy_inv C qd s"
  by (rotate_tac, induction rule: copy_reach.induct) (auto intro: primed_inv step_inv)

subsection \<open>Runs\<close>

text \<open>Serving given requests one after the other, for runs on concrete files.\<close>

fun serve :: "bool \<Rightarrow> copy_call \<Rightarrow> (request \<times> nat) list \<Rightarrow> copy_sys \<Rightarrow> copy_sys option" where
  "serve full C [] s = Some s"
| "serve full C ((q, m) # qs) s =
     (if q \<in># sy_queue s \<and> m \<le> rq_len q \<and> (full \<longrightarrow> m = rq_len q)
         \<and> (\<not> is_write q \<longrightarrow> m \<le> file_size C - rq_off q)
      then case on_cqe C \<lparr>an_sqe = True, an_submit = 1\<rparr> (rq_ud q) (int m) (sy_pipe (moved full C q m s)) of
             Inl e \<Rightarrow> None
           | Inr (p, new) \<Rightarrow> serve full C qs ((moved full C q m s)\<lparr>sy_pipe := p,
               sy_queue := sy_queue s - {#q#} + mset (case new of None \<Rightarrow> [] | Some q \<Rightarrow> [q])\<rparr>)
      else None)"

lemma serve_reach: "serve full C qs s = Some s' \<Longrightarrow> copy_reach full C qd s \<Longrightarrow> copy_reach full C qd s'"
proof (induction qs arbitrary: s)
  case (Cons x qs)
  obtain q m where x: "x = (q, m)" by (cases x)
  obtain p new where r: "on_cqe C \<lparr>an_sqe = True, an_submit = 1\<rparr> (rq_ud q) (int m) (sy_pipe (moved full C q m s)) = Inr (p, new)"
    and q: "q \<in># sy_queue s" "m \<le> rq_len q" "full \<longrightarrow> m = rq_len q" "\<not> is_write q \<longrightarrow> m \<le> file_size C - rq_off q"
    and t: "serve full C qs ((moved full C q m s)\<lparr>sy_pipe := p,
       sy_queue := sy_queue s - {#q#} + mset (case new of None \<Rightarrow> [] | Some q \<Rightarrow> [q])\<rparr>) = Some s'"
    using Cons.prems(1) by (auto simp: x split: if_splits sum.splits)
  show ?case
    by (rule Cons.IH [OF t], rule copy_reach.stepped [OF Cons.prems(2)]) (rule copy_step.completes [OF q refl r])
qed simp

definition run :: "bool \<Rightarrow> copy_call \<Rightarrow> nat \<Rightarrow> (request \<times> nat) list \<Rightarrow> copy_sys option" where
  "run full C qd rs = (case prime C (\<lambda>i. \<lparr>an_sqe = True, an_submit = 1\<rparr>) 0 qd (fresh_pipe qd C) of
       Inl e \<Rightarrow> None
     | Inr (p, qs) \<Rightarrow> serve full C rs \<lparr>sy_pipe = p, sy_queue = mset qs, sy_dst = Map.empty\<rparr>)"

lemma run_reach: "run full C qd rs = Some s \<Longrightarrow> copy_reach full C qd s"
  using serve_reach copy_reach.primed by (fastforce simp: run_def split: sum.splits)

lemma run_found:
  "(case run full C qd rs of None \<Rightarrow> False | Some s \<Rightarrow> P s) \<Longrightarrow> \<exists>s. copy_reach full C qd s \<and> P s"
  using run_reach [of full C qd rs] by (auto split: option.splits)

lemma pack_ud_eq: "pack_ud op i = pack_ud op' i' \<longleftrightarrow> op = op' \<and> i = i'"
  by (metis ud_op_pack ud_slot_pack)

lemmas run_eval = run_def serve.simps prime.simps fresh_pipe_def schedule_read_def next_want_def transfer_size_def
  set_slot_def set_buf_def moved_def on_cqe_def read_request_def write_request_def is_write_def
  ud_op_pack ud_slot_pack pack_ud_eq sum_bind_def copy_end_def file_of_def write_at_def eval_nat_numeral Let_def

text \<open>How many steps are left.\<close>

definition work :: "copy_call \<Rightarrow> copy_sys \<Rightarrow> nat" where
  "work C s = 2 * (file_size C - pp_next_off (sy_pipe s))
     + \<Sum>\<^sub># (image_mset (\<lambda>q. if is_write q then 1 else 2) (sy_queue s))"

lemma work_bound: "copy_inv C qd s \<Longrightarrow> work C s \<le> 2 * file_size C"
proof -
  assume inv: "copy_inv C qd s"
  have "(if is_write q then 1 else 2) \<le> 2 * rq_len q" if "q \<in># sy_queue s" for q
    using inv that core_req [of C qd s q] by (auto simp: copy_inv_def req_ok_def)
  then have "\<Sum>\<^sub># (image_mset (\<lambda>q. if is_write q then 1 else 2) (sy_queue s))
      \<le> \<Sum>\<^sub># (image_mset (\<lambda>q. 2 * rq_len q) (sy_queue s))" by (intro sum_mset_mono) auto
  also have "\<dots> = 2 * \<Sum>\<^sub># (image_mset rq_len (sy_queue s))" by (simp add: sum_mset_distrib_left)
  finally show ?thesis using inv by (auto simp: work_def copy_inv_def copy_core_def Let_def)
qed

lemma work_decreases:
  assumes C: "call_ok C qd" and inv: "copy_inv C qd s" and step: "copy_step True C s s'"
  shows "work C s' < work C s"
  using step
proof (cases rule: copy_step.cases)
  case (completes q m s1 a p new)
  have core: "copy_core C qd s" using inv by (simp add: copy_inv_def)
  have m: "m = rq_len q" using completes by simp
  note r = completes(7) [unfolded completes(6) m]
  note w = sum_replace [OF completes(2), of "\<lambda>q. if is_write q then 1 else 2"]
  show ?thesis
  proof (cases "is_write q")
    case False
    note rd = read_completes [OF C core completes(2) False r]
    show ?thesis using completes(1,6) rd(1,2) w False by (simp add: work_def moved_def set_buf_def)
  next
    case True
    have want: "pp_next_off (sy_pipe s) < file_size C \<Longrightarrow> 0 < next_want C (sy_pipe s)
        \<and> pp_next_off (sy_pipe s) + next_want C (sy_pipe s) \<le> file_size C"
      using next_want [OF C] by blast
    show ?thesis using write_completes [OF C core completes(2) True r] completes(1,6) w True want
      by (auto simp: work_def moved_def schedule_read_def Let_def next_want_def split: if_splits)
  qed
qed

lemma steps_bound:
  "call_ok C qd \<Longrightarrow> copy_inv C qd s \<Longrightarrow> (copy_step True C ^^ n) s s' \<Longrightarrow> n + work C s' \<le> work C s \<and> copy_inv C qd s'"
proof (induction n arbitrary: s')
  case (Suc n)
  then obtain t where "(copy_step True C ^^ n) s t" "copy_step True C t s'" by auto
  then show ?case using Suc work_decreases [of C qd t s'] step_inv [of C qd t s'] by force
qed simp

text \<open>With requests in flight and no progress callback to object, the kernel has a next step.\<close>

lemma not_stuck:
  assumes C: "call_ok C qd" "cc_progress C = None" and inv: "copy_inv C qd s" and fl: "0 < pp_inflight (sy_pipe s)"
  shows "\<exists>s'. copy_step True C s s'"
proof -
  have core: "copy_core C qd s" using inv by (simp add: copy_inv_def)
  then obtain q where q: "q \<in># sy_queue s" using fl by (auto simp: copy_core_def Let_def nonempty_has_size [symmetric])
  note slot = slot_in_tag [OF C(1) core q]
  let ?a = "\<lparr>an_sqe = True, an_submit = 1\<rparr>"
  have bound: "rq_len q \<le> file_size C - rq_off q"
    using core core_req [OF core q] by (auto simp: copy_core_def req_ok_def Let_def)
  have op: "ud_op (rq_ud q) = 0 \<or> ud_op (rq_ud q) = 1"
    using slot(6) by (metis request_sel(4,8) ud_op_pack)
  have "\<exists>p new. on_cqe C ?a (rq_ud q) (int (rq_len q)) (sy_pipe (moved True C q (rq_len q) s)) = Inr (p, new)"
    using slot(1-5,7) C(2)
    by (cases "is_write q") (auto simp: on_cqe_def moved_def set_buf_def Let_def schedule_read_def sum_bind_def)
  then show ?thesis using copy_step.completes [OF q order_refl _ _ refl] bound by blast
qed

lemma runs_to_the_end:
  assumes C: "call_ok C qd" "cc_progress C = None"
  shows "copy_inv C qd s \<Longrightarrow> \<exists>s'. (copy_step True C)\<^sup>*\<^sup>* s s' \<and> pp_inflight (sy_pipe s') = 0"
proof (induction "work C s" arbitrary: s rule: less_induct)
  case less
  show ?case
  proof (cases "pp_inflight (sy_pipe s) = 0")
    case False
    then obtain t where t: "copy_step True C s t" using not_stuck [OF C less.prems] by auto
    then obtain s' where "(copy_step True C)\<^sup>*\<^sup>* t s'" "pp_inflight (sy_pipe s') = 0"
      using less.hyps [OF work_decreases] step_inv C(1) less.prems by blast
    then show ?thesis using t by (meson converse_rtranclp_into_rtranclp)
  qed auto
qed

lemma done_exact:
  assumes "copy_inv C qd s" "pp_inflight (sy_pipe s) = 0"
  shows "copy_end do_fsync 0 (sy_pipe s) (sy_dst s) = (int (file_size C), cc_src C)"
proof -
  have Q: "sy_queue s = {#}" and e: "pp_next_off (sy_pipe s) = file_size C"
    "pp_copied (sy_pipe s) = pp_next_off (sy_pipe s)"
    using assms by (auto simp: copy_inv_def copy_core_def Let_def)
  have "\<forall>x < file_size C. in_place (cc_src C) (sy_dst s) x"
    using assms(1) Q e(1) by (auto simp: copy_inv_def copy_core_def Let_def covered_def)
  then have "file_of (file_size C) (sy_dst s) = cc_src C" by (rule file_in_place)
  then show ?thesis using e by (simp add: copy_end_def)
qed

subsection \<open>Properties\<close>

text \<open>A small file for the runs below: four bytes.\<close>

definition small_call :: "nat \<Rightarrow> copy_call" where
  "small_call bs = \<lparr>cc_src = [1, 2, 3, 4], cc_block_size = bs, cc_size_cb = None, cc_max = bs, cc_progress = None\<rparr>"

lemma small_call_ok: "0 < qd \<Longrightarrow> qd < 2 ^ 32 \<Longrightarrow> 0 < bs \<Longrightarrow> bs \<le> size_limit \<Longrightarrow> call_ok (small_call bs) qd"
  by (simp add: call_ok_def small_call_def slot_buffer_size_def)

text \<open>
  C2: The copy is exact whatever the order of the completions.  With \<open>qd\<close> slots and buffers
  allocated by the probe, every state the loop can reach when the kernel serves each request in
  full, in any order, with nothing left in flight, ends in a destination equal to the source and
  returns its size.
\<close>

theorem copy_is_exact_in_any_order:
  assumes "call_ok C qd" "copy_reach True C qd s" "pp_inflight (sy_pipe s) = 0"
  shows "copy_end do_fsync 0 (sy_pipe s) (sy_dst s) = (int (file_size C), cc_src C)"
  using reach_inv [OF assms(1,2)] assms(3) by (rule done_exact)

text \<open>Three blocks on two slots; the second read is answered first.\<close>

lemma swapped_run:
  "case run True (small_call 2) 2 [(read_request 1 2 2, 2), (write_request 1 2 2, 2), (read_request 0 0 2, 2),
     (write_request 0 0 2, 2)] of None \<Rightarrow> False | Some s \<Rightarrow> pp_inflight (sy_pipe s) = 0"
  by (simp add: run_eval small_call_def)

text \<open>The witness serves the second read, and its write, before the first.\<close>

lemma copy_is_exact_in_any_order_witness:
  "\<exists>s. copy_reach True (small_call 2) 2 s \<and> copy_end False 0 (sy_pipe s) (sy_dst s) = (4, [1, 2, 3, 4])"
proof -
  obtain s where s: "copy_reach True (small_call 2) 2 s" "pp_inflight (sy_pipe s) = 0"
    using run_found [OF swapped_run] by blast
  have ok: "call_ok (small_call 2) 2" by (rule small_call_ok) (simp_all add: size_limit_def)
  have "cc_src (small_call 2) = [1, 2, 3, 4]" by (simp add: small_call_def)
  then show ?thesis using copy_is_exact_in_any_order [OF ok s, of False] s(1) by auto
qed

text \<open>
  C14: A copy always ends.  From every reachable state, no more than twice the size of the file
  in completions can follow, whatever the order; and when no progress callback cancels, the loop
  reaches the state with nothing in flight.
\<close>

theorem copy_ends:
  assumes "call_ok C qd" "copy_reach True C qd s"
  shows "((copy_step True C ^^ n) s s' \<longrightarrow> n \<le> 2 * file_size C)
    \<and> (cc_progress C = None \<longrightarrow> (\<exists>t. (copy_step True C)\<^sup>*\<^sup>* s t \<and> pp_inflight (sy_pipe t) = 0))"
proof -
  have inv: "copy_inv C qd s" using reach_inv assms by blast
  have "n \<le> 2 * file_size C" if "(copy_step True C ^^ n) s s'"
    using steps_bound [OF assms(1) inv that] work_bound [OF inv] by simp
  then show ?thesis using runs_to_the_end [OF assms(1) _ inv] by blast
qed

lemma copy_ends_witness:
  "\<exists>s t. copy_reach True (small_call 2) 2 s \<and> pp_inflight (sy_pipe s) = 2
     \<and> (copy_step True (small_call 2))\<^sup>*\<^sup>* s t \<and> pp_inflight (sy_pipe t) = 0"
proof -
  have "case run True (small_call 2) 2 [] of None \<Rightarrow> False | Some s \<Rightarrow> pp_inflight (sy_pipe s) = 2"
    by (simp add: run_eval small_call_def)
  then obtain s where s: "copy_reach True (small_call 2) 2 s" "pp_inflight (sy_pipe s) = 2"
    using run_found by blast
  have ok: "call_ok (small_call 2) 2" by (rule small_call_ok) (simp_all add: size_limit_def)
  have "cc_progress (small_call 2) = None" by (simp add: small_call_def)
  then show ?thesis using copy_ends [OF ok s(1)] s by blast
qed

text \<open>
  Tags lose nothing.  The operation and the slot packed into \<open>user_data\<close> come back from it, and
  every 64-bit value is the tag of its own operation and slot.
\<close>

theorem copy_tags_round_trip:
  "ud_op (pack_ud op slot) = op \<and> ud_slot (pack_ud op slot) = slot \<and> pack_ud (ud_op ud) (ud_slot ud) = ud"
proof -
  have "ud AND 0xffffffff = take_bit 32 ud" by (simp add: take_bit_eq_mask mask_eq_exp_minus_1)
  then have "pack_ud (ud_op ud) (ud_slot ud) = ud" unfolding pack_ud_def ud_op_def ud_slot_def
    by (intro bit_word_eqI) (auto simp: bit_simps)
  then show ?thesis by (simp add: ud_op_pack ud_slot_pack)
qed

text \<open>
  The reasons for which a copy fails.  When a request in flight completes with \<open>res\<close>, the loop
  gives up only with that negative \<open>res\<close>, with \<open>EAGAIN\<close> when no request is free, with the error
  of \<open>io_uring_submit\<close>, or with \<open>ECANCELED\<close> when the progress callback returned nonzero: its own
  check of the slot (\<open>EIO\<close>) never fails.
\<close>

theorem copy_fails_for_a_reason:
  assumes "call_ok C qd" "copy_reach True C qd s" "q \<in># sy_queue s"
    and "on_cqe C a (rq_ud q) res (sy_pipe s) = Inl e"
  shows "(e = res \<and> res < 0) \<or> (e = - EAGAIN \<and> \<not> an_sqe a) \<or> (e = an_submit a \<and> e < 0)
    \<or> (e = - ECANCELED \<and> cc_progress C \<noteq> None)"
proof -
  have core: "copy_core C qd s" using reach_inv [OF assms(1,2)] by (simp add: copy_inv_def)
  show ?thesis using assms(4) slot_in_tag [OF assms(1) core assms(3)]
    by (auto simp: on_cqe_def schedule_read_def Let_def sum_bind_def split: if_splits option.splits)
qed

lemma copy_fails_for_a_reason_witness:
  "\<exists>s. copy_reach True (small_call 2) 2 s \<and> read_request 0 0 2 \<in># sy_queue s
     \<and> on_cqe (small_call 2) \<lparr>an_sqe = False, an_submit = 0\<rparr> (pack_ud 0 0) 2 (sy_pipe s) = Inl (- EAGAIN)
     \<and> - EAGAIN \<noteq> (2 :: int)"
proof -
  let ?a = "\<lparr>an_sqe = False, an_submit = 0\<rparr>"
  have "case run True (small_call 2) 2 [] of None \<Rightarrow> False
    | Some s \<Rightarrow> read_request 0 0 2 \<in># sy_queue s
        \<and> on_cqe (small_call 2) ?a (pack_ud 0 0) 2 (sy_pipe s) = Inl (- EAGAIN)"
    by (simp add: run_eval small_call_def)
  then obtain s where s: "copy_reach True (small_call 2) 2 s" "read_request 0 0 2 \<in># sy_queue s"
    "on_cqe (small_call 2) ?a (pack_ud 0 0) 2 (sy_pipe s) = Inl (- EAGAIN)"
    using run_found by blast
  have ok: "call_ok (small_call 2) 2" by (rule small_call_ok) (simp_all add: size_limit_def)
  show ?thesis using copy_fails_for_a_reason [OF ok s(1,2), of ?a 2 "- EAGAIN"] s by auto
qed

end
