(* ===== verification/Copy_Short.thy ===== *)
theory Copy_Short
  imports Copy_Props
begin

unbundle bit_operations_syntax

text \<open>
  The copy pipeline of \<open>csrc/uring_wrap.c\<close> when the kernel moves fewer bytes than a request asks for:
  what is left out is never asked for again.
\<close>

subsection \<open>Requests do not overlap\<close>

definition covers :: "request \<Rightarrow> nat \<Rightarrow> bool" where
  "covers q x \<longleftrightarrow> rq_off q \<le> x \<and> x < rq_off q + rq_len q"

definition slot_ok :: "pipe \<Rightarrow> request \<Rightarrow> bool" where
  "slot_ok p q \<longleftrightarrow>
     (q = read_request (rq_slot q) (rq_off q) (rq_len q) \<or> q = write_request (rq_slot q) (rq_off q) (rq_len q))
   \<and> rq_slot q < length (pp_slots p) \<and> rq_off q + rq_len q \<le> pp_next_off p
   \<and> ks_active (pp_slots p ! rq_slot q) \<and> ks_off (pp_slots p ! rq_slot q) = rq_off q"

text \<open>Each byte position is asked for by at most one request at a time, and by none once it is written.\<close>

definition apart :: "copy_call \<Rightarrow> nat \<Rightarrow> copy_sys \<Rightarrow> bool" where
  "apart C qd s \<longleftrightarrow> length (pp_slots (sy_pipe s)) = qd
     \<and> (\<forall>q. q \<in># sy_queue s \<longrightarrow> slot_ok (sy_pipe s) q) \<and> own_slots (sy_queue s)
     \<and> (\<forall>q x. q \<in># sy_queue s \<longrightarrow> covers q x \<longrightarrow> sy_dst s x = None \<and> (\<forall>r. r \<in># sy_queue s - {#q#} \<longrightarrow> \<not> covers r x))
     \<and> (\<forall>x. pp_next_off (sy_pipe s) \<le> x \<longrightarrow> sy_dst s x = None)"

text \<open>A position that has been asked for, is not written, and that no request asks for any more.\<close>

definition skipped :: "nat \<Rightarrow> copy_sys \<Rightarrow> bool" where
  "skipped x s \<longleftrightarrow> x < pp_next_off (sy_pipe s) \<and> sy_dst s x = None \<and> (\<forall>q. q \<in># sy_queue s \<longrightarrow> \<not> covers q x)"

lemma slot_ok_other:
  assumes "slot_ok p r" "length (pp_slots p') = length (pp_slots p)" "pp_next_off p \<le> pp_next_off p'"
    and "ks_active (pp_slots p' ! rq_slot r) = ks_active (pp_slots p ! rq_slot r)"
    and "ks_off (pp_slots p' ! rq_slot r) = ks_off (pp_slots p ! rq_slot r)"
  shows "slot_ok p' r"
  using assms by (auto simp: slot_ok_def)

lemma slot_ok_tag:
  assumes "slot_ok p q" "length (pp_slots p) < 2 ^ 32"
  shows "unat (ud_slot (rq_ud q)) = rq_slot q" "ud_op (rq_ud q) = (if is_write q then 1 else 0)"
proof -
  have q: "q = read_request (rq_slot q) (rq_off q) (rq_len q) \<or> q = write_request (rq_slot q) (rq_off q) (rq_len q)"
    "rq_slot q < 2 ^ 32" using assms by (auto simp: slot_ok_def)
  show "unat (ud_slot (rq_ud q)) = rq_slot q" using q slot_of_tag by (metis request_sel(4,8))
  show "ud_op (rq_ud q) = (if is_write q then 1 else 0)" using q(1) by (metis request_sel(4,8,9,10) ud_op_pack)
qed

subsection \<open>What a completion leaves\<close>

text \<open>The new request continues the old one or starts at the next offset; other slots keep their requests.\<close>

definition follows :: "pipe \<Rightarrow> request \<Rightarrow> nat \<Rightarrow> pipe \<Rightarrow> request option \<Rightarrow> bool" where
  "follows p0 q m p new \<longleftrightarrow> length (pp_slots p) = length (pp_slots p0) \<and> pp_next_off p0 \<le> pp_next_off p
     \<and> (\<forall>j. j \<noteq> rq_slot q \<longrightarrow> ks_active (pp_slots p ! j) = ks_active (pp_slots p0 ! j)
          \<and> ks_off (pp_slots p ! j) = ks_off (pp_slots p0 ! j))
     \<and> (case new of None \<Rightarrow> True | Some n \<Rightarrow> slot_ok p n \<and> rq_slot n = rq_slot q
          \<and> (rq_off n = rq_off q \<and> rq_len n = m \<and> \<not> is_write q \<or> pp_next_off p0 \<le> rq_off n))"

lemma schedule_follows:
  assumes "call_ok C qd" "pp_next_off p < file_size C" "i < length (pp_slots p)" "ks_active (pp_slots p ! i)"
    and "schedule_read C a i p = Inr (p', n)"
  shows "slot_ok p' n \<and> rq_slot n = i \<and> rq_off n = pp_next_off p \<and> pp_next_off p \<le> pp_next_off p'
    \<and> length (pp_slots p') = length (pp_slots p) \<and> (\<forall>j. j \<noteq> i \<longrightarrow> pp_slots p' ! j = pp_slots p ! j)"
  using assms by (auto simp: schedule_read_def Let_def slot_ok_def split: if_splits)

lemma completion_follows:
  assumes C: "call_ok C qd" and q: "slot_ok p0 q" "length (pp_slots p0) = qd" "m \<le> rq_len q"
    and s: "sy_pipe s = p0"
    and r: "on_cqe C a (rq_ud q) (int m) (sy_pipe (moved full C q m s)) = Inr (p, new)"
  shows "follows p0 q m p new"
proof -
  have "length (pp_slots p0) < 2 ^ 32" using C q(2) by (simp add: call_ok_def)
  note tag = slot_ok_tag [OF q(1) this]
  have slot: "rq_slot q < length (pp_slots p0)" "ks_active (pp_slots p0 ! rq_slot q)"
      "ks_off (pp_slots p0 ! rq_slot q) = rq_off q" "rq_off q + rq_len q \<le> pp_next_off p0"
    using q(1) by (auto simp: slot_ok_def)
  show ?thesis
  proof (cases "is_write q")
    case False
    then show ?thesis
      using r slot q(3) s
      by (auto simp: on_cqe_def moved_def tag Let_def set_buf_def follows_def slot_ok_def split: if_splits)
  next
    case True
    define p1 where "p1 = p0\<lparr>pp_inflight := pp_inflight p0 - 1, pp_copied := pp_copied p0 + m\<rparr>"
    have p1: "pp_slots p1 = pp_slots p0" "pp_next_off p1 = pp_next_off p0" by (simp_all add: p1_def)
    have "(\<exists>n. pp_next_off p0 < file_size C \<and> schedule_read C a (rq_slot q) p1 = Inr (p, n) \<and> new = Some n)
       \<or> new = None \<and> p = set_slot (rq_slot q) (\<lambda>s. s\<lparr>ks_active := False\<rparr>) p1"
      using r slot True s unfolding p1_def
      by (auto simp: on_cqe_def moved_def tag Let_def sum_bind_def split: if_splits sum.splits)
    then show ?thesis
    proof (elim disjE exE conjE)
      fix n assume n: "pp_next_off p0 < file_size C" "schedule_read C a (rq_slot q) p1 = Inr (p, n)" "new = Some n"
      show ?thesis
        using schedule_follows [OF C _ _ _ n(2)] n(1,3) slot(1,2) p1 by (simp add: follows_def)
    next
      assume "new = None" "p = set_slot (rq_slot q) (\<lambda>s. s\<lparr>ks_active := False\<rparr>) p1"
      then show ?thesis using slot(1) p1 by (simp add: follows_def)
    qed
  qed
qed

lemma moved_dst:
  "sy_dst (moved full C q m s) x = None \<longleftrightarrow>
     sy_dst s x = None \<and> \<not> (is_write q \<and> rq_off q \<le> x
        \<and> x < rq_off q + min m (length (ks_buf (pp_slots (sy_pipe s) ! rq_slot q))))"
  by (auto simp: moved_def write_at_def)

subsection \<open>The invariant\<close>

lemma queue_after:
  assumes "r \<in># sy_queue s - {#q#} + mset (case new of None \<Rightarrow> [] | Some n \<Rightarrow> [n])"
  shows "r \<in># sy_queue s - {#q#} \<or> new = Some r"
  using assms by (cases new) auto

lemma after_completion:
  assumes C: "call_ok C qd" and inv: "apart C qd s" and q: "q \<in># sy_queue s" "m \<le> rq_len q"
    and r: "on_cqe C a (rq_ud q) (int m) (sy_pipe (moved full C q m s)) = Inr (p, new)"
  defines "s' \<equiv> (moved full C q m s)\<lparr>sy_pipe := p,
      sy_queue := sy_queue s - {#q#} + mset (case new of None \<Rightarrow> [] | Some n \<Rightarrow> [n])\<rparr>"
  shows "apart C qd s'" "skipped x s \<Longrightarrow> skipped x s'"
    "rq_off q + m \<le> x \<Longrightarrow> x < rq_off q + rq_len q \<Longrightarrow> skipped x s'"
proof -
  let ?p = "sy_pipe s" and ?Q = "sy_queue s - {#q#}"
  have okq: "slot_ok ?p q" "length (pp_slots ?p) = qd" using inv q(1) by (auto simp: apart_def)
  have f: "follows ?p q m p new" by (rule completion_follows [OF C okq q(2) refl r])
  have len: "length (pp_slots p) = qd" "pp_next_off ?p \<le> pp_next_off p" using f okq(2) by (simp_all add: follows_def)
  have s': "sy_pipe s' = p" "sy_dst s' = sy_dst (moved full C q m s)"
      "sy_queue s' = ?Q + mset (case new of None \<Rightarrow> [] | Some n \<Rightarrow> [n])" by (simp_all add: s'_def)
  have in_Q: "r \<in># sy_queue s" if "r \<in># ?Q" for r using that by (rule in_diffD)
  have slots: "slot_ok p r" if "r \<in># ?Q" for r
    using slot_ok_other [of ?p r p] inv in_Q [OF that] f own_slots_other [OF _ q(1) that]
    by (auto simp: apart_def follows_def)
  have old: "sy_dst s y = None" "\<not> covers r y" if "covers q y" "r \<in># ?Q" for y r
    using inv q(1) that unfolding apart_def by blast+
  have empty: "sy_dst s y = None" if "covers q y" for y
    using inv q(1) that unfolding apart_def by blast
  have beyond: "\<not> covers r y" if "r \<in># sy_queue s" "pp_next_off ?p \<le> y" for r y
    using inv that by (auto simp: apart_def slot_ok_def covers_def)
  have new: "slot_ok p n" "rq_slot n = rq_slot q"
      "covers n y \<Longrightarrow> (covers q y \<and> y < rq_off q + m \<and> \<not> is_write q) \<or> pp_next_off ?p \<le> y"
    if "new = Some n" for n y
    using f that q(2) by (auto simp: follows_def covers_def)
  have dst: "sy_dst s' y = None" if "sy_dst s y = None" "\<not> (is_write q \<and> rq_off q \<le> y \<and> y < rq_off q + m)" for y
    using that moved_dst [of full C q m s y] by (auto simp: s'(2))
  have dst_free: "sy_dst s' y = None" if "sy_dst s y = None" "\<not> covers q y" for y
    using dst that q(2) by (auto simp: covers_def)
  have dst_beyond: "sy_dst s' y = None" if "pp_next_off ?p \<le> y" for y
    using dst_free [of y] inv that beyond [OF q(1) that] by (auto simp: apart_def)
  have own: "own_slots (sy_queue s')"
    using own_slots_replace [of "sy_queue s" q] own_slots_remove [of "sy_queue s" q] inv q(1) new(2)
    by (cases new) (auto simp: s'(3) apart_def)
  have queue: "r \<in># ?Q \<or> new = Some r" if "r \<in># sy_queue s'" for r using queue_after that s'(3) by auto
  have ok: "slot_ok p r" if "r \<in># sy_queue s'" for r using queue [OF that] slots new(1) by blast
  have once: "sy_dst s' y = None \<and> (\<forall>r'. r' \<in># sy_queue s' - {#r#} \<longrightarrow> \<not> covers r' y)"
    if r: "r \<in># sy_queue s'" "covers r y" for r y
  proof (cases "new = Some r")
    case True
    then have Q': "sy_queue s' - {#r#} = ?Q" by (simp add: s'(3))
    from new(3) [OF True r(2)] show ?thesis
    proof
      assume c: "covers q y \<and> y < rq_off q + m \<and> \<not> is_write q"
      then have "sy_dst s' y = None" using dst [of y] empty [of y] by simp
      then show ?thesis using old(2) [of y] c Q' by auto
    next
      assume b: "pp_next_off ?p \<le> y"
      then show ?thesis using dst_beyond [OF b] beyond [OF _ b] in_Q Q' by auto
    qed
  next
    case False
    then have rQ: "r \<in># ?Q" using queue [OF r(1)] by blast
    have nq: "\<not> covers q y" using old(2) [OF _ rQ, of y] r(2) by blast
    have "sy_dst s y = None" "\<And>r'. r' \<in># sy_queue s - {#r#} \<Longrightarrow> \<not> covers r' y"
      using inv in_Q [OF rQ] r(2) unfolding apart_def by blast+
    moreover have "r' \<in># sy_queue s - {#r#} \<or> new = Some r'" if "r' \<in># sy_queue s' - {#r#}" for r'
    proof -
      have "sy_queue s' - {#r#} = ?Q - {#r#} + mset (case new of None \<Rightarrow> [] | Some n \<Rightarrow> [n])"
        unfolding s'(3) using rQ by (metis mset_subset_eq_single subset_mset.add_diff_assoc2)
      then have "r' \<in># ?Q - {#r#} \<or> new = Some r'" using that by (cases new) auto
      moreover have "?Q - {#r#} = sy_queue s - {#r#} - {#q#}" by (rule diff_right_commute)
      ultimately show ?thesis by (metis in_diffD)
    qed
    moreover have "\<not> covers n y" if "new = Some n" for n
      using new(3) [OF that, of y] nq beyond [OF in_Q [OF rQ], of y] r(2) by blast
    ultimately show ?thesis using dst_free [OF _ nq] by blast
  qed
  show "apart C qd s'"
    unfolding apart_def using len own ok once dst_beyond by (auto simp: s'(1))
  have skip: "skipped y s'" if "sy_dst s' y = None" "y < pp_next_off ?p" "\<And>r. r \<in># ?Q \<Longrightarrow> \<not> covers r y"
      "\<not> (covers q y \<and> y < rq_off q + m)" for y
    unfolding skipped_def
  proof (intro conjI allI impI)
    show "y < pp_next_off (sy_pipe s')" using that(2) len(2) by (simp add: s'(1))
    show "\<not> covers r y" if "r \<in># sy_queue s'" for r
      using queue [OF that] new(3) [of r y] \<open>\<And>r. r \<in># ?Q \<Longrightarrow> \<not> covers r y\<close>
        \<open>\<not> (covers q y \<and> y < rq_off q + m)\<close> \<open>y < pp_next_off ?p\<close> by auto
  qed (rule that(1))
  show "skipped x s \<Longrightarrow> skipped x s'"
    using skip [of x] dst_free [of x] q(1) in_Q by (auto simp: skipped_def)
  show "rq_off q + m \<le> x \<Longrightarrow> x < rq_off q + rq_len q \<Longrightarrow> skipped x s'"
  proof (rule skip)
    assume x: "rq_off q + m \<le> x" "x < rq_off q + rq_len q"
    then have c: "covers q x" by (simp add: covers_def)
    show "sy_dst s' x = None" using dst [of x] empty [OF c] x by simp
    show "x < pp_next_off ?p" using okq(1) x by (auto simp: slot_ok_def)
    show "\<not> covers r x" if "r \<in># ?Q" for r using old(2) [OF c that] .
    show "\<not> (covers q x \<and> x < rq_off q + m)" using x by simp
  qed
qed

lemma step_apart:
  assumes "call_ok C qd" "copy_step full C s s'" "apart C qd s"
  shows "apart C qd s'" "skipped x s \<Longrightarrow> skipped x s'"
  using assms(2) by (cases rule: copy_step.cases; use after_completion [OF assms(1,3)] in blast)+

lemma prime_apart:
  assumes "call_ok C qd"
  shows "prime C a i n p = Inr (p', qs) \<Longrightarrow> apart C qd \<lparr>sy_pipe = p, sy_queue = Q, sy_dst = Map.empty\<rparr>
    \<Longrightarrow> i + n \<le> qd \<Longrightarrow> (\<And>r. r \<in># Q \<Longrightarrow> rq_slot r < i)
    \<Longrightarrow> apart C qd \<lparr>sy_pipe = p', sy_queue = Q + mset qs, sy_dst = Map.empty\<rparr>"
proof (induction n arbitrary: i p p' qs Q)
  case (Suc n)
  show ?case
  proof (cases "pp_next_off p < file_size C")
    case True
    let ?p = "set_slot i (\<lambda>s. s\<lparr>ks_active := True\<rparr>) p"
    obtain p1 n1 qs1 where s: "schedule_read C (a i) i ?p = Inr (p1, n1)"
      and t: "prime C a (Suc i) n p1 = Inr (p', qs1)" and qs: "qs = n1 # qs1"
      using Suc.prems(1) True by (auto simp: sum_bind_def split: sum.splits)
    have len: "length (pp_slots p) = qd" "i < qd" using Suc.prems(2,3) by (simp_all add: apart_def)
    have f: "slot_ok p1 n1 \<and> rq_slot n1 = i \<and> rq_off n1 = pp_next_off ?p \<and> pp_next_off ?p \<le> pp_next_off p1
      \<and> length (pp_slots p1) = length (pp_slots ?p) \<and> (\<forall>j. j \<noteq> i \<longrightarrow> pp_slots p1 ! j = pp_slots ?p ! j)"
      by (rule schedule_follows [OF assms _ _ _ s]) (use True len in simp_all)
    have ok: "slot_ok p1 r" if "r \<in># Q" for r
      using slot_ok_other [of p r p1] Suc.prems(2) Suc.prems(4) [OF that] that f len by (auto simp: apart_def)
    have before: "\<not> covers r x" if "r \<in># Q" "covers n1 x" for r x
      using Suc.prems(2) that f by (auto simp: apart_def slot_ok_def covers_def)
    have once: "\<not> covers r' x" if "r \<in># add_mset n1 Q" "covers r x" "r' \<in># add_mset n1 Q - {#r#}" for r r' x
    proof (cases "r = n1")
      case True
      then show ?thesis using that before by auto
    next
      case False
      then have r: "r \<in># Q" using that(1) by simp
      then have "r' = n1 \<or> r' \<in># Q - {#r#}" using that(3) False by (auto simp: add_mset_remove_trivial_If)
      then show ?thesis
      proof
        assume "r' = n1" then show ?thesis using before [OF r] that(2) by blast
      next
        assume r': "r' \<in># Q - {#r#}"
        have "\<forall>q x. q \<in># Q \<longrightarrow> covers q x \<longrightarrow> (\<forall>r. r \<in># Q - {#q#} \<longrightarrow> \<not> covers r x)"
          using Suc.prems(2) by (simp add: apart_def)
        then show ?thesis using r that(2) r' by blast
      qed
    qed
    have own: "own_slots (add_mset n1 Q)"
      using Suc.prems(2,4) f by (fastforce simp: own_slots_def apart_def count_image_mset vimage_def)
    have "apart C qd \<lparr>sy_pipe = p1, sy_queue = add_mset n1 Q, sy_dst = Map.empty\<rparr>"
      unfolding apart_def using f ok once own len by auto
    then have "apart C qd \<lparr>sy_pipe = p', sy_queue = add_mset n1 Q + mset qs1, sy_dst = Map.empty\<rparr>"
      using Suc.prems(3,4) f by (intro Suc.IH [OF t]) (auto simp: less_Suc_eq)
    then show ?thesis by (simp add: qs)
  next
    case False
    then show ?thesis using Suc.prems by simp
  qed
qed simp

lemma reach_apart: "call_ok C qd \<Longrightarrow> copy_reach full C qd s \<Longrightarrow> apart C qd s"
proof (rotate_tac, induction rule: copy_reach.induct)
  case (primed a p qs)
  have "apart C qd \<lparr>sy_pipe = fresh_pipe qd C, sy_queue = {#}, sy_dst = Map.empty\<rparr>"
    by (simp add: apart_def fresh_pipe_def own_slots_def)
  from prime_apart [OF primed(2,1) this] show ?case by simp
next
  case (stepped s s')
  then show ?case using step_apart(1) by blast
qed

lemma steps_skipped:
  assumes "call_ok C qd" "(copy_step full C)\<^sup>*\<^sup>* s t" "apart C qd s" "skipped x s"
  shows "skipped x t"
proof -
  have "apart C qd t \<and> skipped x t"
    using assms(2)
    by (induction rule: rtranclp_induct) (use assms(3,4) step_apart [OF assms(1)] in blast)+
  then show ?thesis ..
qed

subsection \<open>Short reads and writes\<close>

text \<open>
  C36: A short read or write corrupts a copy without an error.  In any copy, whatever happened before and
  in whatever order requests complete, when the kernel moves only \<open>m\<close> bytes of a request, the loop never asks for the
  other bytes again: in every later state they are not written and no request in flight covers them, so at the
  end each of them that lies before the number of copied bytes is 0 in the destination, and the
  function still returns that number as its result.
\<close>

theorem short_transfer_leaves_a_hole:
  assumes "call_ok C qd" "copy_reach False C qd s" "q \<in># sy_queue s" "m \<le> rq_len q"
    and "on_cqe C a (rq_ud q) (int m) (sy_pipe (moved False C q m s)) = Inr (p, new)"
    and "(copy_step False C)\<^sup>*\<^sup>* ((moved False C q m s)\<lparr>sy_pipe := p,
      sy_queue := sy_queue s - {#q#} + mset (case new of None \<Rightarrow> [] | Some n \<Rightarrow> [n])\<rparr>) t"
    and "rq_off q + m \<le> x" "x < rq_off q + rq_len q" "0 \<le> sync"
  shows "sy_dst t x = None \<and> \<not> covered (sy_queue t) x
    \<and> fst (copy_end do_fsync sync (sy_pipe t) (sy_dst t)) = int (pp_copied (sy_pipe t))
    \<and> (x < pp_copied (sy_pipe t) \<longrightarrow> snd (copy_end do_fsync sync (sy_pipe t) (sy_dst t)) ! x = 0)"
proof -
  note inv = reach_apart [OF assms(1,2)]
  note after = after_completion [OF assms(1) inv assms(3,4,5)]
  have "skipped x t" by (rule steps_skipped [OF assms(1,6) after(1) after(3) [OF assms(7,8)]])
  then show ?thesis using assms(9)
    by (auto simp: skipped_def covered_def covers_def copy_end_def file_of_def)
qed

text \<open>
  Four bytes copied in blocks of two, the first read returning one byte: a copy of three bytes whose second is a hole.
\<close>

lemma short_run:
  "\<exists>s. copy_reach False (small_call 2) 1 s \<and> pp_inflight (sy_pipe s) = 0
     \<and> copy_end True 0 (sy_pipe s) (sy_dst s) = (3, [1, 0, 3])"
proof -
  have "case run False (small_call 2) 1 [(read_request 0 0 2, 1), (write_request 0 0 1, 1),
      (read_request 0 2 2, 2), (write_request 0 2 2, 2)] of None \<Rightarrow> False
    | Some s \<Rightarrow> pp_inflight (sy_pipe s) = 0 \<and> copy_end True 0 (sy_pipe s) (sy_dst s) = (3, [1, 0, 3])"
    by (simp add: run_eval small_call_def)
  then show ?thesis by (rule run_found)
qed

lemma short_transfer_leaves_a_hole_witness:
  "\<exists>s p new. copy_reach False (small_call 2) 1 s \<and> read_request 0 0 2 \<in># sy_queue s
     \<and> on_cqe (small_call 2) \<lparr>an_sqe = True, an_submit = 1\<rparr> (rq_ud (read_request 0 0 2)) 1
         (sy_pipe (moved False (small_call 2) (read_request 0 0 2) 1 s)) = Inr (p, new)
     \<and> (\<forall>t. (copy_step False (small_call 2))\<^sup>*\<^sup>* ((moved False (small_call 2) (read_request 0 0 2) 1 s)\<lparr>sy_pipe := p,
           sy_queue := sy_queue s - {#read_request 0 0 2#} + mset (case new of None \<Rightarrow> [] | Some n \<Rightarrow> [n])\<rparr>) t
         \<longrightarrow> sy_dst t 1 = None)"
proof -
  have "case run False (small_call 2) 1 [] of None \<Rightarrow> False
    | Some s \<Rightarrow> read_request 0 0 2 \<in># sy_queue s
       \<and> (case on_cqe (small_call 2) \<lparr>an_sqe = True, an_submit = 1\<rparr> (rq_ud (read_request 0 0 2)) 1
         (sy_pipe (moved False (small_call 2) (read_request 0 0 2) 1 s)) of Inl e \<Rightarrow> False | Inr pn \<Rightarrow> True)"
    by (simp add: run_eval small_call_def)
  from run_found [OF this] obtain s where s: "copy_reach False (small_call 2) 1 s" "read_request 0 0 2 \<in># sy_queue s"
    and run: "case on_cqe (small_call 2) \<lparr>an_sqe = True, an_submit = 1\<rparr> (rq_ud (read_request 0 0 2)) 1
         (sy_pipe (moved False (small_call 2) (read_request 0 0 2) 1 s)) of Inl e \<Rightarrow> False | Inr pn \<Rightarrow> True"
    by (elim exE conjE) (rule that)
  obtain p new where r: "on_cqe (small_call 2) \<lparr>an_sqe = True, an_submit = 1\<rparr> (rq_ud (read_request 0 0 2)) 1
         (sy_pipe (moved False (small_call 2) (read_request 0 0 2) 1 s)) = Inr (p, new)"
    using run by (cases "on_cqe (small_call 2) \<lparr>an_sqe = True, an_submit = 1\<rparr> (rq_ud (read_request 0 0 2)) 1
         (sy_pipe (moved False (small_call 2) (read_request 0 0 2) 1 s))") (simp, rename_tac pn, case_tac pn, simp)
  have ok: "call_ok (small_call 2) 1" by (rule small_call_ok) (simp_all add: size_limit_def)
  have "sy_dst t 1 = None"
    if "(copy_step False (small_call 2))\<^sup>*\<^sup>* ((moved False (small_call 2) (read_request 0 0 2) 1 s)\<lparr>sy_pipe := p,
           sy_queue := sy_queue s - {#read_request 0 0 2#} + mset (case new of None \<Rightarrow> [] | Some n \<Rightarrow> [n])\<rparr>) t" for t
    using short_transfer_leaves_a_hole [OF ok s(1,2) _ _ that, of "\<lparr>an_sqe = True, an_submit = 1\<rparr>" 1 0] r by simp
  with s r show ?thesis by blast
qed

end
