(* ===== verification/Batch_Read.thy ===== *)
theory Batch_Read
  imports Ctx_Sync "HOL-Library.Multiset"
begin

text \<open>
  The C functions \<open>uring_read_batch_sync\<close> and \<open>uring_read_offsets_sync\<close> of
  \<open>csrc/uring_wrap.c\<close>: they queue one read per block, submit them with one call, and reap the
  completions in batches of up to 256.  liburing is an argument.  A signed \<open>int\<close> wraps around, as
  it does in the code that compilers generate for the sum of the results.
\<close>

subsection \<open>The ring\<close>

record read_sqe =
  rd_fd :: int
  rd_dst :: nat
  rd_len :: nat
  rd_off :: int
  rd_tag :: nat

text \<open>
  \<open>bk_ready\<close> lists the results of the completions that \<open>io_uring_peek_batch_cqe\<close> would find, the
  oldest first; \<open>bk_advance\<close> is \<open>io_uring_cq_advance\<close> (with 1, \<open>io_uring_cqe_seen\<close>).  \<open>bk_attach\<close>
  makes a buffer of zero bytes the target of the reads, \<open>bk_mem\<close> is its content.
\<close>

record 'k batch_ring =
  bk_get_sqe :: "'k \<Rightarrow> bool \<times> 'k"
  bk_prep_read :: "read_sqe \<Rightarrow> 'k \<Rightarrow> 'k"
  bk_submit_and_wait :: "nat \<Rightarrow> 'k \<Rightarrow> int \<times> 'k"
  bk_ready :: "'k \<Rightarrow> int list"
  bk_wait_cqe :: "'k \<Rightarrow> (int \<times> int) \<times> 'k"
  bk_advance :: "nat \<Rightarrow> 'k \<Rightarrow> 'k"
  bk_attach :: "nat \<Rightarrow> 'k \<Rightarrow> 'k"
  bk_mem :: "'k \<Rightarrow> int list"

subsection \<open>The functions\<close>

definition add_res :: "int \<Rightarrow> int \<Rightarrow> int" where
  "add_res total_read res = signed_take_bit 31 (total_read + res)"

text \<open>The loop that queues the reads; the list holds the offsets from block \<open>i\<close> on.\<close>

(* csrc/uring_wrap.c:603-611 uring_read_offsets_sync *)
fun enqueue_reads :: "'k batch_ring \<Rightarrow> int \<Rightarrow> nat \<Rightarrow> nat \<Rightarrow> int list \<Rightarrow> 'k \<Rightarrow> int \<times> 'k" where
  "enqueue_reads R fd bs i [] k = (0, k)"
| "enqueue_reads R fd bs i (off # offs) k =
     (case bk_get_sqe R k of
        (False, k) \<Rightarrow> (- EAGAIN, k)
      | (True, k) \<Rightarrow> enqueue_reads R fd bs (Suc i) offs
          (bk_prep_read R \<lparr>rd_fd = fd, rd_dst = i * bs, rd_len = bs, rd_off = off, rd_tag = Suc i\<rparr> k))"

text \<open>The inner loop: the new sum, or the first error with the number of completions looked at.\<close>

(* csrc/uring_wrap.c:644-651 uring_read_offsets_sync *)
fun take_results :: "int \<Rightarrow> int list \<Rightarrow> nat \<Rightarrow> (int \<times> nat) + int" where
  "take_results total_read [] i = Inr total_read"
| "take_results total_read (res # rs) i =
     (if res < 0 then Inl (res, Suc i) else take_results (add_res total_read res) rs (Suc i))"

(* csrc/uring_wrap.c:620-656 uring_read_offsets_sync *)
function harvest :: "'k batch_ring \<Rightarrow> nat \<Rightarrow> int \<Rightarrow> 'k \<Rightarrow> int \<times> 'k" where
  "harvest R remaining total_read k =
     (if remaining = 0 then (total_read, k)
      else let cqes = take (min remaining 256) (bk_ready R k) in
        if cqes = [] then
          (case bk_wait_cqe R k of ((ret, res), k) \<Rightarrow>
             if ret < 0 then (ret, k)
             else let k = bk_advance R 1 k in
               if res < 0 then (res, k) else harvest R (remaining - 1) (add_res total_read res) k)
        else
          (case take_results total_read cqes 0 of
             Inl (res, seen) \<Rightarrow> (res, bk_advance R seen k)
           | Inr total_read \<Rightarrow> harvest R (remaining - length cqes) total_read (bk_advance R (length cqes) k)))"
  by pat_completeness auto
termination by (relation "measure (\<lambda>(R, remaining, total_read, k). remaining)") (auto simp: min_def)

declare harvest.simps [simp del]

text \<open>\<open>ctx\<close> is \<open>None\<close> for \<open>NULL\<close>, otherwise the number of its entries; \<open>buf\<close> tells whether there is a buffer.\<close>

(* csrc/uring_wrap.c:595-657 uring_read_offsets_sync *)
definition uring_read_offsets_sync_c ::
  "'k batch_ring \<Rightarrow> nat option \<Rightarrow> int \<Rightarrow> bool \<Rightarrow> nat \<Rightarrow> int list option \<Rightarrow> nat \<Rightarrow> 'k \<Rightarrow> int \<times> 'k" where
  "uring_read_offsets_sync_c R ctx fd buf bs offsets blocks k =
     (case (ctx, offsets) of
        (Some entries, Some offs) \<Rightarrow>
          if \<not> buf \<or> bs = 0 \<or> blocks = 0 then (- EINVAL, k)
          else if blocks > entries then (- EINVAL, k)
          else (case enqueue_reads R fd bs 0 (take blocks offs) k of (ret, k) \<Rightarrow>
            if ret < 0 then (ret, k)
            else (case bk_submit_and_wait R blocks k of (ret, k) \<Rightarrow>
              if ret < 0 then (ret, k) else harvest R blocks 0 k))
      | _ \<Rightarrow> (- EINVAL, k))"

(* csrc/uring_wrap.c:521-588 uring_read_batch_sync *)
definition uring_read_batch_sync_c ::
  "'k batch_ring \<Rightarrow> nat option \<Rightarrow> int \<Rightarrow> bool \<Rightarrow> nat \<Rightarrow> nat \<Rightarrow> int \<Rightarrow> 'k \<Rightarrow> int \<times> 'k" where
  "uring_read_batch_sync_c R ctx fd buf bs blocks offset k =
     (case ctx of
        None \<Rightarrow> (- EINVAL, k)
      | Some entries \<Rightarrow>
          if \<not> buf \<or> bs = 0 \<or> blocks = 0 then (- EINVAL, k)
          else if blocks > entries then (- EINVAL, k)
          else (case enqueue_reads R fd bs 0
                  (map (\<lambda>i. signed_take_bit 63 (offset + int i * int bs)) [0..<blocks]) k of (ret, k) \<Rightarrow>
            if ret < 0 then (ret, k)
            else (case bk_submit_and_wait R blocks k of (ret, k) \<Rightarrow>
              if ret < 0 then (ret, k) else harvest R blocks 0 k)))"

text \<open>Both as the native library of a context with \<open>entries\<close> entries.\<close>

fun arg_int :: "cval \<Rightarrow> int" where
  "arg_int (CInt n) = n"
| "arg_int _ = 0"

fun long_array :: "cval \<Rightarrow> int list option" where
  "long_array (CMem (LongArr xs)) = Some xs"
| "long_array _ = None"

definition batch_reply :: "'k batch_ring \<Rightarrow> int \<times> 'k \<Rightarrow> reply \<times> 'k" where
  "batch_reply R rk = (\<lparr>rp_ret = fst rk, rp_out = bk_mem R (snd rk), rp_errno = 0\<rparr>, snd rk)"

definition batch_native :: "'k batch_ring \<Rightarrow> nat \<Rightarrow> string \<Rightarrow> cval list \<Rightarrow> 'k \<Rightarrow> reply \<times> 'k" where
  "batch_native R entries f args k =
     (let k = (case args ! 2 of CMem (Zeroed n) \<Rightarrow> bk_attach R n k | _ \<Rightarrow> k);
          bs = nat (arg_int (args ! 3))
      in if f = ''uring_read_batch_sync'' then batch_reply R
           (uring_read_batch_sync_c R (Some entries) (arg_int (args ! 1)) (args ! 2 \<noteq> CNull) bs
             (nat (arg_int (args ! 4))) (arg_int (args ! 5)) k)
         else batch_reply R
           (uring_read_offsets_sync_c R (Some entries) (arg_int (args ! 1)) (args ! 2 \<noteq> CNull) bs
             (long_array (args ! 4)) (nat (arg_int (args ! 5))) k))"

definition batch_env :: "'k batch_ring \<Rightarrow> nat \<Rightarrow> int \<Rightarrow> 'k env" where
  "batch_env R entries tid = \<lparr>native = batch_native R entries, thread_ident = tid, ct_errno = 0\<rparr>"

end
