(* ===== verification/Batch_Props.thy ===== *)
theory Batch_Props
  imports Batch_Read
begin

text \<open>
  Batched reads: the reaping loop against a reference that knows no batches; \<open>read_offsets\<close>
  returns the blocks it was asked for; and what short blocks and 2 GiB of blocks do.
\<close>

subsection \<open>Reaping\<close>

text \<open>
  The documented behaviour of the completion queue: \<open>pending\<close> are the results not yet reaped, a
  prefix of which is ready; advancing drops them; waiting makes the first one ready.
\<close>

definition reap_ok :: "'k batch_ring \<Rightarrow> ('k \<Rightarrow> int list) \<Rightarrow> bool" where
  "reap_ok R pending \<longleftrightarrow>
     (\<forall>k. \<exists>m. bk_ready R k = take m (pending k))
   \<and> (\<forall>k n. n \<le> length (bk_ready R k) \<longrightarrow> pending (bk_advance R n k) = drop n (pending k)
        \<and> bk_mem R (bk_advance R n k) = bk_mem R k)
   \<and> (\<forall>k. pending k \<noteq> [] \<longrightarrow> (\<exists>k'. bk_wait_cqe R k = ((0, hd (pending k)), k') \<and> pending k' = pending k
        \<and> bk_ready R k' \<noteq> [] \<and> bk_mem R k' = bk_mem R k))"

lemma reap_advance:
  "reap_ok R pending \<Longrightarrow> n \<le> length (bk_ready R k) \<Longrightarrow> pending (bk_advance R n k) = drop n (pending k)
    \<and> bk_mem R (bk_advance R n k) = bk_mem R k"
  unfolding reap_ok_def by blast

lemma reap_wait:
  "reap_ok R pending \<Longrightarrow> pending k \<noteq> [] \<Longrightarrow> \<exists>k'. bk_wait_cqe R k = ((0, hd (pending k)), k')
     \<and> pending k' = pending k \<and> bk_ready R k' \<noteq> [] \<and> bk_mem R k' = bk_mem R k"
  unfolding reap_ok_def by blast

text \<open>The reference: the sum of the results as an \<open>int\<close>, or the first error and what follows it.\<close>

definition batch_spec :: "int list \<Rightarrow> int \<times> int list" where
  "batch_spec rs = (if \<forall>r \<in> set rs. 0 \<le> r then (signed_take_bit 31 (sum_list rs), [])
     else (hd (dropWhile (\<lambda>r. 0 \<le> r) rs), tl (dropWhile (\<lambda>r. 0 \<le> r) rs)))"

fun sum_results :: "int \<Rightarrow> int list \<Rightarrow> int \<times> int list" where
  "sum_results t [] = (t, [])"
| "sum_results t (r # rs) = (if r < 0 then (r, rs) else sum_results (add_res t r) rs)"

lemma sum_results_add:
  "signed_take_bit 31 t = t \<Longrightarrow> sum_results t rs = (if \<forall>r \<in> set rs. 0 \<le> r
     then (signed_take_bit 31 (t + sum_list rs), [])
     else (hd (dropWhile (\<lambda>r. 0 \<le> r) rs), tl (dropWhile (\<lambda>r. 0 \<le> r) rs)))"
proof (induction rs arbitrary: t)
  case (Cons r rs)
  have "signed_take_bit 31 (add_res t r) = add_res t r" by (simp add: add_res_def)
  moreover have "signed_take_bit 31 (add_res t r + s) = signed_take_bit 31 (t + (r + s))" for s
    unfolding add_res_def by (metis add.assoc signed_take_bit_add signed_take_bit_signed_take_bit min.idem)
  ultimately show ?case using Cons by auto
qed simp

lemma sum_results_spec: "sum_results 0 rs = batch_spec rs"
  using sum_results_add [of 0 rs] unfolding batch_spec_def by simp

lemma take_results_sum:
  "case take_results t cs i of
     Inl (e, m) \<Rightarrow> i < m \<and> m \<le> i + length cs \<and> sum_results t (cs @ ds) = (e, drop (m - i) cs @ ds)
   | Inr t' \<Rightarrow> sum_results t (cs @ ds) = sum_results t' ds"
proof (induction cs arbitrary: t i)
  case (Cons c cs)
  show ?case using Cons.IH [where t = "add_res t c" and i = "Suc i"]
    by (auto split: sum.splits simp: Suc_diff_le drop_Cons')
qed simp

lemma harvest_step:
  assumes R: "reap_ok R pending" and n: "n \<noteq> 0" "n \<le> length (pending k)"
    and cqes: "cqes = take (min n 256) (bk_ready R k)"
  obtains ds where "take n (pending k) = cqes @ ds" "length cqes \<le> n"
    "drop (length cqes) (pending k) = ds @ drop n (pending k)"
    "take (n - length cqes) (drop (length cqes) (pending k)) = ds"
    "\<And>m. m \<le> length cqes \<Longrightarrow> pending (bk_advance R m k) = drop m (pending k) \<and> bk_mem R (bk_advance R m k) = bk_mem R k"
proof -
  obtain m where m: "bk_ready R k = take m (pending k)" using R unfolding reap_ok_def by blast
  let ?j = "min (min n 256) m"
  have c: "cqes = take ?j (pending k)" "length cqes = ?j" using m n(2) cqes by (auto simp: min.assoc)
  have "take n (pending k) = cqes @ drop ?j (take n (pending k))"
    using append_take_drop_id [of ?j "take n (pending k)"] c(1) by (simp add: min.absorb1)
  moreover have "drop ?j (pending k) = drop ?j (take n (pending k)) @ drop n (pending k)"
    using append_take_drop_id [of n "pending k"] n(2)
    by (metis c(2) calculation drop_append append_eq_conv_conj length_take min.absorb1 append_assoc)
  moreover have "take (n - ?j) (drop ?j (pending k)) = drop ?j (take n (pending k))" by (simp add: drop_take)
  moreover have "length cqes \<le> length (bk_ready R k)" using cqes by simp
  then have "pending (bk_advance R i k) = drop i (pending k) \<and> bk_mem R (bk_advance R i k) = bk_mem R k"
    if "i \<le> length cqes" for i
    using reap_advance [OF R] that by (meson le_trans)
  ultimately show ?thesis using that [of "drop ?j (take n (pending k))"] c(2) by simp
qed

lemma harvest_eq:
  "reap_ok R pending \<Longrightarrow> n \<le> length (pending k) \<Longrightarrow> harvest R n t k = (v, k')
    \<Longrightarrow> (v, pending k') = (case sum_results t (take n (pending k)) of (v, later) \<Rightarrow> (v, later @ drop n (pending k)))
      \<and> bk_mem R k' = bk_mem R k"
proof (induction R n t k rule: harvest.induct)
  case (1 R n t k)
  note R = "1.prems"(1) and n = "1.prems"(2) and h = "1.prems"(3)
  let ?cqes = "take (min n 256) (bk_ready R k)"
  show ?case
  proof (cases "n = 0")
    case True
    then show ?thesis using h by (simp add: harvest.simps [of R 0 t k])
  next
    case False
    show ?thesis
    proof (cases "?cqes = []")
      case True
      obtain r ps where p: "pending k = r # ps" using n False by (cases "pending k") auto
      obtain k1 where w: "bk_wait_cqe R k = ((0, r), k1)" "pending k1 = r # ps" "bk_ready R k1 \<noteq> []"
        "bk_mem R k1 = bk_mem R k" using reap_wait [OF R, of k] p by auto
      have adv: "pending (bk_advance R 1 k1) = ps" "bk_mem R (bk_advance R 1 k1) = bk_mem R k"
        using reap_advance [OF R, of 1 k1] w(2-4) by (simp_all add: Suc_le_eq)
      have step: "harvest R n t k = (if r < 0 then (r, bk_advance R 1 k1)
          else harvest R (n - 1) (add_res t r) (bk_advance R 1 k1))"
        using False True w(1) by (simp add: harvest.simps [of R n t k] Let_def)
      obtain n' where n': "n = Suc n'" using False by (cases n) auto
      show ?thesis
      proof (cases "r < 0")
        case True
        then show ?thesis using h step p adv n' by simp
      next
        case r: False
        have "n - 1 \<le> length (pending (bk_advance R 1 k1))" using n p adv n' by simp
        from "1.IH"(1) [OF False refl True w(1) [symmetric] _ _ refl r R this] show ?thesis
          using h step r p adv n' by simp
      qed
    next
      case cq: False
      obtain ds where d: "take n (pending k) = ?cqes @ ds" "length ?cqes \<le> n"
        "drop (length ?cqes) (pending k) = ds @ drop n (pending k)"
        "take (n - length ?cqes) (drop (length ?cqes) (pending k)) = ds"
        and adv: "\<And>m. m \<le> length ?cqes \<Longrightarrow> pending (bk_advance R m k) = drop m (pending k) \<and> bk_mem R (bk_advance R m k) = bk_mem R k"
        using harvest_step [OF R False n refl] by blast
      note tr = take_results_sum [where t = t and cs = ?cqes and i = 0 and ds = ds]
      show ?thesis
      proof (cases "take_results t ?cqes 0")
        case (Inl em)
        obtain e m where em: "em = (e, m)" by (cases em)
        have "harvest R n t k = (e, bk_advance R m k)" using False cq Inl em by (simp add: harvest.simps [of R n t k] Let_def min_def split: if_splits)
        moreover have "pending k = ?cqes @ (ds @ drop n (pending k))"
          using append_take_drop_id [of n "pending k"] unfolding d(1) by (simp only: append_assoc)
        then have "drop m (pending k) = drop m (?cqes @ (ds @ drop n (pending k)))" by (rule arg_cong)
        moreover have "m \<le> length ?cqes" using tr Inl em by simp
        then have "drop m (?cqes @ (ds @ drop n (pending k))) = drop m ?cqes @ (ds @ drop n (pending k))" by simp
        ultimately show ?thesis using h d(1) tr Inl em adv [of m] by simp
      next
        case (Inr t')
        have step: "harvest R n t k = harvest R (n - length ?cqes) t' (bk_advance R (length ?cqes) k)"
          using False cq Inr by (simp add: harvest.simps [of R n t k] Let_def min_def split: if_splits)
        have p: "pending (bk_advance R (length ?cqes) k) = ds @ drop n (pending k)"
          "bk_mem R (bk_advance R (length ?cqes) k) = bk_mem R k" using adv [of "length ?cqes"] d(3) by auto
        have le: "n - length ?cqes \<le> length (pending (bk_advance R (length ?cqes) k))" using n d(3) p(1) by (metis length_drop diff_le_mono)
        have "length ds = n - length ?cqes" using arg_cong [OF d(1), of length] n by simp
        then have j: "take (n - length ?cqes) (ds @ drop n (pending k)) = ds"
          "drop (n - length ?cqes) (ds @ drop n (pending k)) = drop n (pending k)" by simp_all
        note ih = "1.IH"(2) [OF False refl cq Inr R le h [unfolded step], unfolded p j]
        then show ?thesis using tr Inr unfolding d(1) by simp
      qed
    qed
  qed
qed

subsection \<open>Reading a file\<close>

text \<open>
  The documented behaviour of reads on a file nobody changes: submitting serves what is queued,
  each read delivering the bytes there are, and their results arrive in some order.
\<close>

definition read_bytes :: "int list \<Rightarrow> read_sqe \<Rightarrow> int list" where
  "read_bytes file q = take (rd_len q) (drop (nat (rd_off q)) file)"

definition store :: "int list \<Rightarrow> int list \<Rightarrow> read_sqe \<Rightarrow> int list" where
  "store file mem q = take (rd_dst q) mem @ read_bytes file q @ drop (rd_dst q + length (read_bytes file q)) mem"

definition batch_ok ::
  "'k batch_ring \<Rightarrow> nat \<Rightarrow> int list \<Rightarrow> ('k \<Rightarrow> read_sqe list) \<Rightarrow> ('k \<Rightarrow> int list) \<Rightarrow> bool" where
  "batch_ok R entries file queued pending \<longleftrightarrow> reap_ok R pending
   \<and> (\<forall>k. length (queued k) < entries \<longrightarrow> (\<exists>k'. bk_get_sqe R k = (True, k') \<and> queued k' = queued k
        \<and> pending k' = pending k \<and> bk_mem R k' = bk_mem R k))
   \<and> (\<forall>k q. queued (bk_prep_read R q k) = queued k @ [q] \<and> pending (bk_prep_read R q k) = pending k
        \<and> bk_mem R (bk_prep_read R q k) = bk_mem R k)
   \<and> (\<forall>k n. \<exists>r k' rs. bk_submit_and_wait R n k = (r, k') \<and> 0 \<le> r \<and> queued k' = []
        \<and> bk_mem R k' = foldl (store file) (bk_mem R k) (queued k) \<and> pending k' = pending k @ rs
        \<and> mset rs = mset (map (\<lambda>q. int (length (read_bytes file q))) (queued k)))
   \<and> (\<forall>k n. queued (bk_attach R n k) = queued k \<and> pending (bk_attach R n k) = pending k
        \<and> bk_mem R (bk_attach R n k) = replicate n 0)"

lemma batch_reap: "batch_ok R entries file queued pending \<Longrightarrow> reap_ok R pending"
  by (simp add: batch_ok_def)

lemma batch_get: "batch_ok R entries file queued pending \<Longrightarrow> length (queued k) < entries
    \<Longrightarrow> \<exists>k'. bk_get_sqe R k = (True, k') \<and> queued k' = queued k \<and> pending k' = pending k \<and> bk_mem R k' = bk_mem R k"
  unfolding batch_ok_def by blast

lemma batch_prep [simp]:
  assumes "batch_ok R entries file queued pending"
  shows "queued (bk_prep_read R q k) = queued k @ [q]" "pending (bk_prep_read R q k) = pending k"
    "bk_mem R (bk_prep_read R q k) = bk_mem R k"
    "queued (bk_attach R n k) = queued k" "pending (bk_attach R n k) = pending k"
    "bk_mem R (bk_attach R n k) = replicate n 0"
  using assms unfolding batch_ok_def by blast+

lemma batch_submit: "batch_ok R entries file queued pending \<Longrightarrow> \<exists>r k' rs. bk_submit_and_wait R n k = (r, k')
    \<and> 0 \<le> r \<and> queued k' = [] \<and> bk_mem R k' = foldl (store file) (bk_mem R k) (queued k) \<and> pending k' = pending k @ rs
    \<and> mset rs = mset (map (\<lambda>q. int (length (read_bytes file q))) (queued k))"
  unfolding batch_ok_def by blast

fun requests :: "int \<Rightarrow> nat \<Rightarrow> nat \<Rightarrow> int list \<Rightarrow> read_sqe list" where
  "requests fd bs i [] = []"
| "requests fd bs i (off # offs) =
     \<lparr>rd_fd = fd, rd_dst = i * bs, rd_len = bs, rd_off = off, rd_tag = Suc i\<rparr> # requests fd bs (Suc i) offs"

lemma length_requests [simp]: "length (requests fd bs i offs) = length offs"
  by (induction offs arbitrary: i) auto

lemma enqueue_ok:
  assumes ok: "batch_ok R entries file queued pending"
  shows "length (queued k) + length offs \<le> entries \<Longrightarrow> \<exists>k'. enqueue_reads R fd bs i offs k = (0, k')
    \<and> queued k' = queued k @ requests fd bs i offs \<and> pending k' = pending k \<and> bk_mem R k' = bk_mem R k"
proof (induction offs arbitrary: i k)
  case (Cons off offs)
  obtain k1 where g: "bk_get_sqe R k = (True, k1)" "queued k1 = queued k" "pending k1 = pending k"
    "bk_mem R k1 = bk_mem R k" using batch_get [OF ok, of k] Cons.prems by auto
  then show ?case using Cons.prems
      Cons.IH [of "bk_prep_read R \<lparr>rd_fd = fd, rd_dst = i * bs, rd_len = bs, rd_off = off, rd_tag = Suc i\<rparr> k1" "Suc i"] ok
    by simp
qed simp

abbreviation in_file :: "int list \<Rightarrow> nat \<Rightarrow> int \<Rightarrow> bool" where
  "in_file file bs off \<equiv> 0 \<le> off \<and> off + int bs \<le> int (length file)"

abbreviation block :: "int list \<Rightarrow> nat \<Rightarrow> int \<Rightarrow> int list" where
  "block file bs off \<equiv> take bs (drop (nat off) file)"

lemma full_results:
  "\<forall>off \<in> set offs. in_file file bs off
    \<Longrightarrow> map (\<lambda>q. int (length (read_bytes file q))) (requests fd bs i offs) = replicate (length offs) (int bs)"
  by (induction offs arbitrary: i) (auto simp: read_bytes_def)

lemma full_stores:
  "\<forall>off \<in> set offs. in_file file bs off \<Longrightarrow> (i + length offs) * bs \<le> length mem
    \<Longrightarrow> foldl (store file) mem (requests fd bs i offs)
      = take (i * bs) mem @ concat (map (block file bs) offs) @ drop ((i + length offs) * bs) mem"
proof (induction offs arbitrary: i mem)
  case (Cons off offs)
  let ?q = "\<lparr>rd_fd = fd, rd_dst = i * bs, rd_len = bs, rd_off = off, rd_tag = Suc i\<rparr>"
  have len: "length (block file bs off) = bs" using Cons.prems(1) by auto
  have i: "i * bs + bs \<le> length mem" using Cons.prems(2) by (simp add: algebra_simps)
  have st: "store file mem ?q = take (i * bs) mem @ block file bs off @ drop (i * bs + bs) mem"
    using len by (simp add: store_def read_bytes_def)
  then have l: "length (store file mem ?q) = length mem" using len i by simp
  have t: "take (Suc i * bs) (store file mem ?q) = take (i * bs) mem @ block file bs off"
    "drop ((Suc i + length offs) * bs) (store file mem ?q) = drop ((i + length (off # offs)) * bs) mem"
    using len i Cons.prems(2) unfolding st by (simp_all add: algebra_simps)
  have "foldl (store file) (store file mem ?q) (requests fd bs (Suc i) offs)
      = take (Suc i * bs) (store file mem ?q) @ concat (map (block file bs) offs)
        @ drop ((Suc i + length offs) * bs) (store file mem ?q)"
    using Cons.prems l by (intro Cons.IH) simp_all
  then show ?case unfolding t by simp
qed simp

lemma all_same: "mset rs = mset (replicate n x) \<Longrightarrow> rs = replicate n x"
  by (metis mset_replicate mset_eq_setD length_replicate mset_eq_length replicate_length_same set_replicate_conv_if
    empty_iff insert_iff)

lemma read_offsets_call:
  assumes ok: "batch_ok R entries file queued pending" and k: "queued k = []" "pending k = []"
    and bs: "0 < bs" "offs \<noteq> []" "length offs \<le> entries" "\<forall>off \<in> set offs. in_file file bs off"
    and mem: "bk_mem R k = replicate (bs * length offs) 0"
  shows "\<exists>k'. uring_read_offsets_sync_c R (Some entries) fd True bs (Some offs) (length offs) k
      = (signed_take_bit 31 (int (bs * length offs)), k') \<and> bk_mem R k' = concat (map (block file bs) offs)
    \<and> pending k' = []"
proof -
  let ?n = "length offs"
  obtain k1 where e: "enqueue_reads R fd bs 0 offs k = (0, k1)" "queued k1 = requests fd bs 0 offs"
    "pending k1 = []" "bk_mem R k1 = replicate (bs * ?n) 0"
    using enqueue_ok [OF ok, of k offs fd bs 0] k bs(3) mem by auto
  obtain r k2 rs where s: "bk_submit_and_wait R ?n k1 = (r, k2)" "0 \<le> r"
    "bk_mem R k2 = foldl (store file) (bk_mem R k1) (queued k1)" "pending k2 = pending k1 @ rs"
    "mset rs = mset (map (\<lambda>q. int (length (read_bytes file q))) (queued k1))"
    using batch_submit [OF ok] by blast
  have rs: "pending k2 = replicate ?n (int bs)"
    using s(4,5) full_results [OF bs(4)] e(2,3) all_same by (metis append_Nil)
  obtain v k3 where h: "harvest R ?n 0 k2 = (v, k3)" by (cases "harvest R ?n 0 k2")
  have "(v, pending k3) = batch_spec (replicate ?n (int bs)) \<and> bk_mem R k3 = bk_mem R k2"
    using harvest_eq [OF batch_reap [OF ok] _ h] rs by (auto simp: sum_results_spec split: prod.splits)
  moreover have "batch_spec (replicate ?n (int bs)) = (signed_take_bit 31 (int (bs * ?n)), [])"
    by (simp add: batch_spec_def sum_list_replicate mult.commute)
  moreover have "bk_mem R k2 = concat (map (block file bs) offs)"
    using full_stores [OF bs(4), of 0 "replicate (bs * ?n) 0" fd] e(2,4) s(3) by (simp add: mult.commute)
  ultimately show ?thesis using e(1) s(1,2) h bs(1-3) by (simp add: uring_read_offsets_sync_c_def)
qed

lemma wrap_high: "2 ^ 31 \<le> x \<Longrightarrow> x < 2 ^ 32 \<Longrightarrow> signed_take_bit 31 x = x - 2 ^ 32" for x :: int
proof -
  assume x: "2 ^ 31 \<le> x" "x < 2 ^ 32"
  have "(x + 2 ^ 31) mod 2 ^ 32 = (x - 2 ^ 31 + 2 ^ 32) mod 2 ^ 32" by (simp add: add.commute)
  also have "\<dots> = (x - 2 ^ 31) mod 2 ^ 32" by (simp only: mod_add_self2)
  also have "\<dots> = x - 2 ^ 31" using x by (intro mod_pos_pos_trivial) auto
  finally show ?thesis by (simp add: signed_take_bit_eq_take_bit_shift take_bit_eq_mod add.commute)
qed

lemma read_offsets_python:
  assumes ok: "batch_ok R entries file queued pending" and k: "queued k = []" "pending k = []"
    and bs: "0 < bs" "offs \<noteq> []" "length offs \<le> entries" "\<forall>off \<in> set offs. in_file file bs off"
    and size: "bs * length offs < 2 ^ 32" "int (length file) < 2 ^ 63" and self: "usable (batch_env R entries tid) self"
  shows "\<exists>k'. UringCtx_read_offsets (batch_env R entries tid) fd (int bs) offs True (self, k)
      = ((let n = signed_take_bit 31 (int (bs * length offs)) in
          if n < 0 then Inl (UringError (UringError_init (- n) ''uring_read_offsets_sync'' None None None None))
          else Inr (take (nat n) (concat (map (block file bs) offs)))), (self, k'))"
proof -
  let ?n = "length offs" and ?E = "batch_env R entries tid"
  let ?k = "bk_attach R (bs * ?n) k"
  obtain k' where c: "uring_read_offsets_sync_c R (Some entries) (signed_take_bit 31 fd) True bs (Some offs) ?n ?k
      = (signed_take_bit 31 (int (bs * ?n)), k')" "bk_mem R k' = concat (map (block file bs) offs)"
    using read_offsets_call [OF ok, of ?k bs offs] ok k bs by force
  have offs: "map (signed_take_bit 63) offs = offs"
  proof (rule map_idI)
    fix x assume "x \<in> set offs"
    then have "0 \<le> x" "x < 2 ^ 63" using bs(4) size(2) by force+
    then show "signed_take_bit 63 x = x" by (intro signed_take_bit_id) auto
  qed
  have "1 \<le> ?n" "1 \<le> bs" using bs(1,2) by (cases offs; simp)+
  then have "bs \<le> bs * ?n" "?n \<le> bs * ?n" by simp_all
  then have "bs < 2 ^ 32" "?n < 2 ^ 32" using size(1) by linarith+
  then have "int bs < 2 ^ 32" "int ?n < 2 ^ 32" by simp_all
  then have take: "take_bit 32 (int bs) = int bs" "take_bit 32 (int ?n) = int ?n"
    by (intro take_bit_id; simp)+
  have len: "length (concat (map (block file bs) offs)) = bs * ?n"
    using bs(4) by (induction offs) (auto simp: algebra_simps)
  have nsize: "nat (int bs * int ?n) = bs * ?n" by (simp add: nat_mult_distrib)
  have out: "take m (concat (map (block file bs) offs) @ replicate (bs * ?n) 0)
      = take m (concat (map (block file bs) offs))" if "m \<le> bs * ?n" for m
    using that len by simp
  have range: "nat (signed_take_bit 31 (int (bs * ?n))) \<le> bs * ?n"
  proof (cases "int (bs * ?n) < 2 ^ 31")
    case True
    then have "signed_take_bit 31 (int (bs * ?n)) = int (bs * ?n)"
      using of_nat_0_le_iff [of "bs * ?n"] by (intro signed_take_bit_id) linarith+
    then show ?thesis by (simp only: nat_int)
  next
    case False
    moreover have "int (bs * ?n) < int (2 ^ 32)" using size(1) by (simp only: of_nat_less_iff)
    then have "int (bs * ?n) < 2 ^ 32" by simp
    ultimately have "signed_take_bit 31 (int (bs * ?n)) < 0" using wrap_high [of "int (bs * ?n)"] by linarith
    then show ?thesis by linarith
  qed
  have ret: "convert_ret (Some C_int) (signed_take_bit 31 m) = signed_take_bit 31 m" for m
    by (simp add: convert_ret_def)
  have nonneg: "\<not> int bs * int ?n < 0" by (simp add: mult_less_0_iff)
  show ?thesis
    using self c take nsize out range nonneg
    by (simp add: UringCtx_read_offsets_def zeroed_buffer_def with_buffer_def sync_call_eq invoke_native_def
      uring_read_offsets_sync_def batch_env_def batch_native_def batch_reply_def ret offs py_defs raw_after_def
      raise_for_neg_errno_def Let_def)
qed

subsection \<open>Properties\<close>

text \<open>
  C18: The reaping loop does what a loop over one completion at a time does.  However the ring
  makes the completions available, in batches or one by one, the result for \<open>n\<close> completions is
  their sum as an \<open>int\<close>, or the first negative one; exactly the completions after that one are
  left in the ring.
\<close>

theorem harvest_is_the_sum_or_the_first_error:
  assumes "reap_ok R pending" "n \<le> length (pending k)" "harvest R n 0 k = (v, k')"
  shows "v = fst (batch_spec (take n (pending k)))
    \<and> pending k' = snd (batch_spec (take n (pending k))) @ drop n (pending k)"
  using harvest_eq [OF assms] by (simp add: sum_results_spec split: prod.splits)

text \<open>
  C17: \<open>read_offsets\<close> returns the blocks at the given offsets, in their order, whatever the order
  in which the kernel completes the reads, on a ring with nothing queued or in flight.  The conditions are
  part of the claim: at least one offset and at most as many as the ring has entries, every block within the
  file, less than 2 GiB together, and a file whose offsets fit 64 bits.  \<open>short_block_shifts_the_data\<close> and
  \<open>batch_of_two_gib_raises\<close> show what happens beyond the third and the fourth.
\<close>

theorem read_offsets_returns_the_blocks:
  assumes "batch_ok R entries file queued pending" "queued k = []" "pending k = []"
    and "0 < bs" "offs \<noteq> []" "length offs \<le> entries" "\<forall>off \<in> set offs. in_file file bs off"
    and "bs * length offs < 2 ^ 31" "int (length file) < 2 ^ 63" "usable (batch_env R entries tid) self"
  shows "\<exists>k'. UringCtx_read_offsets (batch_env R entries tid) fd (int bs) offs True (self, k)
      = (Inr (concat (map (block file bs) offs)), (self, k'))"
proof -
  let ?n = "int (bs * length offs)"
  have "?n < int (2 ^ 31)" using assms(8) by (simp only: of_nat_less_iff)
  then have "?n < 2 ^ 31" by simp
  then have "signed_take_bit 31 ?n = ?n" using of_nat_0_le_iff [of "bs * length offs"]
    by (intro signed_take_bit_id) linarith+
  moreover have "length (concat (map (block file bs) offs)) = bs * length offs"
    using assms(7) by (induction offs) (auto simp: algebra_simps)
  ultimately show ?thesis
    using read_offsets_python [OF assms(1-7) _ assms(9,10), of fd] assms(8) by (simp add: Let_def del: of_nat_mult)
qed

text \<open>
  A batch of 2 GiB or more fails although every block was read: the C function sums the results
  in an \<open>int\<close>, which wraps around to a negative number, and \<open>read_offsets\<close> raises it as an errno.
\<close>

theorem batch_of_two_gib_raises:
  assumes "batch_ok R entries file queued pending" "queued k = []" "pending k = []"
    and "0 < bs" "offs \<noteq> []" "length offs \<le> entries" "\<forall>off \<in> set offs. in_file file bs off"
    and "2 ^ 31 \<le> bs * length offs" "bs * length offs < 2 ^ 32" "int (length file) < 2 ^ 63"
    and "usable (batch_env R entries tid) self"
  shows "\<exists>u s. UringCtx_read_offsets (batch_env R entries tid) fd (int bs) offs True (self, k) = (Inl (UringError u), s)
    \<and> ue_errno u = 2 ^ 32 - int (bs * length offs)"
proof -
  let ?n = "int (bs * length offs)"
  have n: "int (2 ^ 31) \<le> ?n" "?n < int (2 ^ 32)" using assms(8,9) by (simp_all only: of_nat_less_iff of_nat_le_iff)
  then have "signed_take_bit 31 ?n = ?n - 2 ^ 32" by (intro wrap_high) simp_all
  then show ?thesis
    using read_offsets_python [OF assms(1-7) assms(9-11), of fd] n
    by (auto simp: Let_def UringError_init_def simp del: of_nat_mult)
qed

subsection \<open>A ring over a file\<close>

text \<open>A ring whose reads finish in reverse order and that shows one completion at a time.\<close>

record file_ring_state =
  fr_queue :: "read_sqe list"
  fr_done :: "int list"
  fr_buf :: "int list"

definition file_ring :: "int list \<Rightarrow> nat \<Rightarrow> file_ring_state batch_ring" where
  "file_ring file entries = \<lparr>
     bk_get_sqe = (\<lambda>k. (length (fr_queue k) < entries, k)),
     bk_prep_read = (\<lambda>q k. k\<lparr>fr_queue := fr_queue k @ [q]\<rparr>),
     bk_submit_and_wait = (\<lambda>n k. (1, k\<lparr>fr_queue := [], fr_buf := foldl (store file) (fr_buf k) (fr_queue k),
        fr_done := fr_done k @ rev (map (\<lambda>q. int (length (read_bytes file q))) (fr_queue k))\<rparr>)),
     bk_ready = (\<lambda>k. take 1 (fr_done k)),
     bk_wait_cqe = (\<lambda>k. ((0, hd (fr_done k)), k)),
     bk_advance = (\<lambda>n k. k\<lparr>fr_done := drop n (fr_done k)\<rparr>),
     bk_attach = (\<lambda>n k. k\<lparr>fr_buf := replicate n 0\<rparr>),
     bk_mem = fr_buf\<rparr>"

definition idle_ring :: file_ring_state where
  "idle_ring = \<lparr>fr_queue = [], fr_done = [], fr_buf = []\<rparr>"

definition batch_ctx :: uctx where
  "batch_ctx = \<lparr>u_ctx = Some 4096, u_owner_thread_id = None, u_buffer_keepalive = [], u_async_io_keepalive = Map.empty\<rparr>"

lemma file_ring_ok: "batch_ok (file_ring file entries) entries file fr_queue fr_done"
  by (auto simp: batch_ok_def reap_ok_def file_ring_def intro: exI [of _ 1])

lemma batch_ctx_usable: "usable (batch_env R entries tid) batch_ctx"
  by (simp add: usable_def batch_ctx_def)

lemma harvest_is_the_sum_or_the_first_error_witness:
  "\<exists>v k'. harvest (file_ring [] 8) 3 0 (idle_ring\<lparr>fr_done := [2, - 5, 4]\<rparr>) = (v, k') \<and> v = - 5 \<and> fr_done k' = [4]"
proof -
  let ?k = "idle_ring\<lparr>fr_done := [2, - 5, 4]\<rparr>"
  obtain v k' where h: "harvest (file_ring [] 8) 3 0 ?k = (v, k')" by (cases "harvest (file_ring [] 8) 3 0 ?k")
  show ?thesis
    using harvest_is_the_sum_or_the_first_error [OF batch_reap [OF file_ring_ok] _ h] h
    by (simp add: batch_spec_def)
qed

lemma read_offsets_returns_the_blocks_witness:
  "\<exists>k'. UringCtx_read_offsets (batch_env (file_ring [1, 2, 3, 4] 8) 8 1) 3 2 [2, 0] True (batch_ctx, idle_ring)
    = (Inr [3, 4, 1, 2], (batch_ctx, k'))"
  using read_offsets_returns_the_blocks [OF file_ring_ok, of idle_ring 2 "[2, 0]" 8 "[1, 2, 3, 4]" 1 batch_ctx 3]
  by (simp add: batch_ctx_usable idle_ring_def)

lemma batch_of_two_gib_raises_witness:
  "\<exists>u s. UringCtx_read_offsets (batch_env (file_ring (replicate (2 ^ 30) 7) 8) 8 1) 3 (2 ^ 30) [0, 0] True (batch_ctx, idle_ring)
    = (Inl (UringError u), s) \<and> ue_errno u = 2 ^ 31"
  using batch_of_two_gib_raises [OF file_ring_ok, of idle_ring "2 ^ 30" "[0, 0]" 8 "replicate (2 ^ 30) 7" 1 batch_ctx 3]
  by (simp add: batch_ctx_usable idle_ring_def)

text \<open>
  A short block shifts the data of \<open>read_offsets\<close>.  The bytes of the blocks are where full blocks
  would be, but the result is cut after as many bytes as were read: reading the
  blocks at 2 and 0 of a file of three bytes gives the third byte, a zero, and the first byte.
\<close>

theorem short_block_shifts_the_data:
  "\<exists>s. UringCtx_read_offsets (batch_env (file_ring [11, 12, 13] 8) 8 1) 3 2 [2, 0] True (batch_ctx, idle_ring)
    = (Inr [13, 0, 11], s)"
  by (simp add: UringCtx_read_offsets_def zeroed_buffer_def with_buffer_def sync_call_eq invoke_native_def
      uring_read_offsets_sync_def batch_env_def batch_native_def batch_reply_def convert_ret_def py_defs raw_after_def
      raise_for_neg_errno_def batch_ctx_def usable_def idle_ring_def file_ring_def uring_read_offsets_sync_c_def
      store_def read_bytes_def harvest.simps add_res_def eval_nat_numeral Let_def)

end
