(* ===== verification/Write_Pipeline.thy ===== *)
theory Write_Pipeline
  imports Copy_Pipeline
begin

text \<open>
  The pipeline of \<open>csrc/uring_wrap.c\<close> that writes a new file (\<open>uring_write_newfile_dynamic\<close>): it
  keeps up to \<open>qd\<close> writes under way, submits them together and reaps completions in batches.  The
  buffers hold letters and never change, so a slot may serve two writes at a time; the fields \<open>off\<close>
  and \<open>len\<close> of a slot are set but never read, and left out.
\<close>

subsection \<open>State\<close>

(* csrc/uring_wrap.c:1022-1025 uring_write_newfile_dynamic *)
record wpipe =
  wp_next_off :: nat
  wp_inflight :: nat
  wp_pending :: nat
  wp_written :: nat

record write_call =
  wc_total :: nat
  wc_block_size :: nat
  wc_size_cb :: "size_fn option"
  wc_max :: nat
  wc_qd :: nat
  wc_progress :: "(nat \<Rightarrow> nat \<Rightarrow> int) option"

(* csrc/uring_wrap.c:961-964 uring_write_newfile_dynamic *)
definition total_bytes :: "nat \<Rightarrow> nat \<Rightarrow> nat" where
  "total_bytes total_mb block_size =
     (let t = total_mb * 1024 * 1024 in if t < block_size then block_size else t)"

text \<open>The letters of a slot's buffer; the sum \<open>i + k\<close> is an \<open>unsigned\<close> and wraps.\<close>

(* csrc/uring_wrap.c:1015-1019 uring_write_newfile_dynamic *)
definition fill_pattern :: "nat \<Rightarrow> nat \<Rightarrow> byte list" where
  "fill_pattern i n = map (\<lambda>k. word_of_nat (65 + (i + k) mod 2 ^ 32 mod 26)) [0..<n]"

subsection \<open>Queueing\<close>

(* csrc/uring_wrap.c:1033-1035 uring_write_newfile_dynamic *)
definition wslot :: "write_call \<Rightarrow> nat \<Rightarrow> nat" where
  "wslot C off = off div wc_block_size C mod wc_qd C"

(* csrc/uring_wrap.c:1037-1049 uring_write_newfile_dynamic *)
definition wwant :: "write_call \<Rightarrow> nat \<Rightarrow> nat" where
  "wwant C off = transfer_size (wc_size_cb C) (wc_max C) (wc_total C) (wc_block_size C) off"

text \<open>
  The inner loop; \<open>sqe n\<close> tells whether \<open>io_uring_get_sqe\<close> finds an entry when \<open>n\<close> are pending.  It
  returns the requests in the order in which they were queued.
\<close>

(* csrc/uring_wrap.c:1032-1064 uring_write_newfile_dynamic *)
function queue_writes :: "write_call \<Rightarrow> (nat \<Rightarrow> bool) \<Rightarrow> wpipe \<Rightarrow> wpipe \<times> request list" where
  "queue_writes C sqe p =
     (if wp_next_off p < wc_total C \<and> wp_inflight p + wp_pending p < wc_qd C \<and> sqe (wp_pending p)
      then let off = wp_next_off p;
               (p', qs) = queue_writes C sqe
                 (p\<lparr>wp_pending := wp_pending p + 1, wp_next_off := off + wwant C off\<rparr>)
           in (p', write_request (wslot C off) off (wwant C off) # qs)
      else (p, []))"
  by pat_completeness auto
termination by (relation "measure (\<lambda>(C, sqe, p). wc_qd C - (wp_inflight p + wp_pending p))") auto

declare queue_writes.simps [simp del]

(* csrc/uring_wrap.c:1066-1074 uring_write_newfile_dynamic *)
definition submit_pending :: "int \<Rightarrow> wpipe \<Rightarrow> int + wpipe" where
  "submit_pending ret p =
     (if wp_pending p = 0 then Inr p
      else if ret < 0 then Inl ret
      else Inr (p\<lparr>wp_inflight := wp_inflight p + wp_pending p, wp_pending := 0\<rparr>))"

subsection \<open>Reaping\<close>

text \<open>One batch: the completions as pairs of \<open>user_data\<close> and result.\<close>

(* csrc/uring_wrap.c:1092-1117 uring_write_newfile_dynamic *)
fun reap_writes :: "write_call \<Rightarrow> (64 word \<times> int) list \<Rightarrow> wpipe \<Rightarrow> int + wpipe" where
  "reap_writes C [] p = Inr p"
| "reap_writes C ((ud, res) # cs) p =
     (if ud_op ud \<noteq> 1 \<or> wc_qd C \<le> unat (ud_slot ud) then Inl (- EIO)
      else if res < 0 then Inl res
      else let p = p\<lparr>wp_written := wp_written p + nat res\<rparr>
        in if (case wc_progress C of None \<Rightarrow> False | Some f \<Rightarrow> f (wp_written p) (wc_total C) \<noteq> 0)
           then Inl (- ECANCELED) else reap_writes C cs p)"

(* csrc/uring_wrap.c:1086-1121 uring_write_newfile_dynamic *)
fun reap_batches :: "write_call \<Rightarrow> (64 word \<times> int) list list \<Rightarrow> wpipe \<Rightarrow> int + wpipe" where
  "reap_batches C [] p = Inr p"
| "reap_batches C (b # bs) p =
     (if wp_inflight p = 0 then Inr p
      else sum_bind (reap_writes C b p)
        (\<lambda>p. reap_batches C bs (p\<lparr>wp_inflight := wp_inflight p - length b\<rparr>)))"

text \<open>\<open>fsync\<close> with its result (0, or a negative errno), and the value returned.\<close>

(* csrc/uring_wrap.c:1124-1142 uring_write_newfile_dynamic *)
definition write_end :: "bool \<Rightarrow> int \<Rightarrow> wpipe \<Rightarrow> int" where
  "write_end do_fsync sync p = (if do_fsync \<and> sync < 0 then sync else int (wp_written p))"

subsection \<open>The loop\<close>

record write_sys =
  ws_pipe :: wpipe
  ws_queue :: "request multiset"
  ws_dst :: disk

(* csrc/uring_wrap.c:1030-1030 uring_write_newfile_dynamic *)
definition goes_on :: "write_call \<Rightarrow> wpipe \<Rightarrow> bool" where
  "goes_on C p \<longleftrightarrow> wp_next_off p < wc_total C \<or> 0 < wp_inflight p \<or> 0 < wp_pending p"

text \<open>The kernel wrote the first \<open>m\<close> bytes of the request, in the order of the list.\<close>

definition put :: "write_call \<Rightarrow> disk \<Rightarrow> request \<times> nat \<Rightarrow> disk" where
  "put C d qm = write_at (rq_off (fst qm)) (take (snd qm) (fill_pattern (rq_slot (fst qm)) (wc_max C))) d"

definition completion :: "request \<times> nat \<Rightarrow> 64 word \<times> int" where
  "completion qm = (rq_ud (fst qm), int (snd qm))"

definition served :: "bool \<Rightarrow> request multiset \<Rightarrow> (request \<times> nat) list \<Rightarrow> bool" where
  "served full Q done_list \<longleftrightarrow> mset (map fst done_list) \<subseteq># Q \<and> done_list \<noteq> []
     \<and> (\<forall>qm \<in> set done_list. snd qm \<le> rq_len (fst qm) \<and> (full \<longrightarrow> snd qm = rq_len (fst qm)))"

definition after_round :: "write_call \<Rightarrow> wpipe \<Rightarrow> request list \<Rightarrow> (request \<times> nat) list \<Rightarrow> write_sys \<Rightarrow> write_sys" where
  "after_round C p new done_list s = \<lparr>ws_pipe = p,
     ws_queue = ws_queue s + mset new - mset (map fst done_list),
     ws_dst = foldl (put C) (ws_dst s) done_list\<rparr>"

definition finds_one :: "(nat \<Rightarrow> bool) \<Rightarrow> bool" where
  "finds_one sqe \<longleftrightarrow> sqe 0"

text \<open>
  One round of the main loop.  The kernel completes any of the requests submitted, at least one
  since the loop waits for it, and hands the completions over in any batches.
\<close>

inductive write_step :: "bool \<Rightarrow> write_call \<Rightarrow> write_sys \<Rightarrow> write_sys \<Rightarrow> bool" for full C where
  round: "goes_on C (ws_pipe s)
    \<Longrightarrow> finds_one sqe
    \<Longrightarrow> queue_writes C sqe (ws_pipe s) = (p1, new)
    \<Longrightarrow> submit_pending ret p1 = Inr p2
    \<Longrightarrow> served full (ws_queue s + mset new) (concat bs)
    \<Longrightarrow> reap_batches C (map (map completion) bs) p2 = Inr p3
    \<Longrightarrow> s' = after_round C p3 new (concat bs) s
    \<Longrightarrow> write_step full C s s'"

definition fresh_write :: write_sys where
  "fresh_write = \<lparr>ws_pipe = \<lparr>wp_next_off = 0, wp_inflight = 0, wp_pending = 0, wp_written = 0\<rparr>,
     ws_queue = {#}, ws_dst = Map.empty\<rparr>"

abbreviation write_reach :: "bool \<Rightarrow> write_call \<Rightarrow> write_sys \<Rightarrow> bool" where
  "write_reach full C \<equiv> (write_step full C)\<^sup>*\<^sup>* fresh_write"

end
