(* ===== verification/Write_Props.thy ===== *)
theory Write_Props
  imports Write_Pipeline Copy_Props
begin

text \<open>
  The pipeline that writes a new file, against a writer that writes one chunk after the other:
  the same bytes whatever the order and the batches of the completions, in finitely many rounds;
  and what a short write does.
\<close>

subsection \<open>The sequential writer\<close>

definition write_ok :: "write_call \<Rightarrow> bool" where
  "write_ok C \<longleftrightarrow> 0 < wc_qd C \<and> wc_qd C < 2 ^ 32 \<and> 0 < wc_block_size C \<and> wc_block_size C \<le> size_limit
     \<and> wc_max C = slot_buffer_size (wc_size_cb C) (wc_total C) (wc_block_size C)"

definition chunk :: "write_call \<Rightarrow> nat \<Rightarrow> byte list" where
  "chunk C off = take (wwant C off) (fill_pattern (wslot C off) (wc_max C))"

function seq_write :: "write_call \<Rightarrow> nat \<Rightarrow> byte list" where
  "seq_write C off =
     (if off < wc_total C \<and> 0 < wwant C off then chunk C off @ seq_write C (off + wwant C off) else [])"
  by pat_completeness auto
termination by (relation "measure (\<lambda>(C, off). wc_total C - off)") auto

declare seq_write.simps [simp del]

abbreviation written_file :: "write_call \<Rightarrow> byte list" where
  "written_file C \<equiv> seq_write C 0"

lemma length_fill_pattern [simp]: "length (fill_pattern i n) = n"
  by (simp add: fill_pattern_def)

lemma wwant:
  assumes "write_ok C" "off < wc_total C"
  shows "0 < wwant C off" "wwant C off \<le> wc_max C" "off + wwant C off \<le> wc_total C"
    "length (chunk C off) = wwant C off" "wslot C off < wc_qd C"
proof -
  show "0 < wwant C off" "off + wwant C off \<le> wc_total C"
    using assms by (auto simp: wwant_def transfer_size_def write_ok_def Let_def split: option.split)
  show le: "wwant C off \<le> wc_max C"
    using assms transfer_fits [of "wc_block_size C"] by (auto simp: wwant_def write_ok_def)
  show "length (chunk C off) = wwant C off" using le by (simp add: chunk_def)
  show "wslot C off < wc_qd C" using assms(1) by (simp add: wslot_def write_ok_def)
qed

lemma seq_write_step:
  "write_ok C \<Longrightarrow> off < wc_total C \<Longrightarrow> seq_write C off = chunk C off @ seq_write C (off + wwant C off)"
  using wwant(1) [of C off] by (simp add: seq_write.simps [of C off])

lemma length_seq_write: "write_ok C \<Longrightarrow> length (seq_write C off) = wc_total C - off"
proof (induction C off rule: seq_write.induct)
  case (1 C off)
  show ?case
  proof (cases "off < wc_total C")
    case True
    have "length (seq_write C (off + wwant C off)) = wc_total C - (off + wwant C off)"
      using 1 True wwant(1) by blast
    then show ?thesis using wwant(3,4) [OF 1(2) True] by (simp add: seq_write_step [OF 1(2) True])
  qed (simp add: seq_write.simps [of C off])
qed

text \<open>Without a callback the letters follow from the position alone.\<close>

lemma plain_letter:
  "write_ok C \<Longrightarrow> wc_size_cb C = None \<Longrightarrow> off mod wc_block_size C = 0 \<Longrightarrow> off + x < wc_total C
    \<Longrightarrow> seq_write C off ! x = word_of_nat (65 + ((off + x) div wc_block_size C mod wc_qd C
          + (off + x) mod wc_block_size C) mod 2 ^ 32 mod 26)"
proof (induction C off arbitrary: x rule: seq_write.induct)
  case (1 C off)
  let ?b = "wc_block_size C" and ?w = "wwant C off"
  have off: "off < wc_total C" using "1.prems"(4) by simp
  note w = wwant [OF "1.prems"(1) off]
  have wb: "?w = min ?b (wc_total C - off)" "wc_max C = ?b"
    using "1.prems"(1,2) by (auto simp: wwant_def transfer_size_def write_ok_def slot_buffer_size_def Let_def)
  have b: "0 < ?b" using "1.prems"(1) by (simp add: write_ok_def)
  obtain j where j: "off = j * ?b" using "1.prems"(3) by (metis mod_0_imp_dvd dvdE mult.commute)
  show ?case
  proof (cases "x < ?w")
    case True
    then have x: "x < ?b" using wb(1) by simp
    have "(off + x) div ?b = off div ?b" "(off + x) mod ?b = x" using x b by (simp_all add: j)
    moreover have "chunk C off ! x = word_of_nat (65 + (wslot C off + x) mod 2 ^ 32 mod 26)"
      using True x wb(2) by (simp add: chunk_def fill_pattern_def)
    ultimately show ?thesis
      using True w(4) by (simp add: seq_write_step [OF "1.prems"(1) off] nth_append wslot_def)
  next
    case False
    then have "?w = ?b" using wb(1) "1.prems"(4) by linarith
    then have "(off + ?w) mod ?b = 0" "off + ?w + (x - ?w) = off + x" using False by (simp_all add: j)
    then show ?thesis
      using "1.IH" [OF conjI [OF off w(1)] "1.prems"(1,2), of "x - ?w"] False w(4) "1.prems"(4)
      by (simp add: seq_write_step [OF "1.prems"(1) off] nth_append)
  qed
qed

subsection \<open>The invariant\<close>

definition wreq_ok :: "write_call \<Rightarrow> nat \<Rightarrow> request \<Rightarrow> bool" where
  "wreq_ok C next_off q \<longleftrightarrow> q = write_request (rq_slot q) (rq_off q) (rq_len q) \<and> rq_slot q < wc_qd C
     \<and> 0 < rq_len q \<and> rq_off q + rq_len q \<le> next_off
     \<and> take (rq_len q) (fill_pattern (rq_slot q) (wc_max C)) = take (rq_len q) (drop (rq_off q) (written_file C))"

text \<open>The next chunk starts where a chunk of the sequential writer does.\<close>

definition write_core :: "write_call \<Rightarrow> request multiset \<Rightarrow> disk \<Rightarrow> wpipe \<Rightarrow> bool" where
  "write_core C Q d p \<longleftrightarrow> wp_next_off p \<le> wc_total C
   \<and> seq_write C (wp_next_off p) = drop (wp_next_off p) (written_file C)
   \<and> (\<forall>q. q \<in># Q \<longrightarrow> wreq_ok C (wp_next_off p) q)
   \<and> (\<forall>x < wp_next_off p. covered Q x \<or> in_place (written_file C) d x)
   \<and> wp_written p + \<Sum>\<^sub># (image_mset rq_len Q) = wp_next_off p"

lemma write_core_counters [simp]:
  "write_core C Q d (p\<lparr>wp_inflight := a\<rparr>) = write_core C Q d p"
  "write_core C Q d (p\<lparr>wp_pending := a\<rparr>) = write_core C Q d p"
  by (simp_all add: write_core_def)

lemma queue_one:
  assumes C: "write_ok C" and core: "write_core C Q d p" and more: "wp_next_off p < wc_total C"
  defines "off \<equiv> wp_next_off p"
  shows "write_core C (add_mset (write_request (wslot C off) off (wwant C off)) Q) d (p\<lparr>wp_next_off := off + wwant C off\<rparr>)"
proof -
  let ?q = "write_request (wslot C off) off (wwant C off)" and ?p = "p\<lparr>wp_next_off := off + wwant C off\<rparr>"
  note w = wwant [OF C more, folded off_def]
  have step: "drop off (written_file C) = chunk C off @ seq_write C (off + wwant C off)"
    using core seq_write_step [OF C more] by (simp add: write_core_def off_def)
  have "drop (wwant C off) (drop off (written_file C)) = seq_write C (off + wwant C off)"
    unfolding step using w(4) by simp
  then have bd: "seq_write C (off + wwant C off) = drop (off + wwant C off) (written_file C)"
    by (simp add: add.commute)
  have "take (wwant C off) (drop off (written_file C)) = chunk C off" unfolding step using w(4) by simp
  then have new: "wreq_ok C (off + wwant C off) ?q" using w by (simp add: wreq_ok_def chunk_def)
  have old: "wreq_ok C (off + wwant C off) q" if "q \<in># Q" for q
    using core that by (auto simp: write_core_def wreq_ok_def off_def)
  have cov: "covered (add_mset ?q Q) x \<or> in_place (written_file C) d x" if "x < off + wwant C off" for x
  proof (cases "x < off")
    case True
    then show ?thesis using core by (auto simp: write_core_def covered_def off_def)
  next
    case False
    then show ?thesis using that by (auto simp: covered_def)
  qed
  show ?thesis using core w(3) bd new old cov by (auto simp: write_core_def off_def)
qed

lemma queue_core:
  "write_ok C \<Longrightarrow> write_core C Q d p \<Longrightarrow> queue_writes C sqe p = (p', qs)
    \<Longrightarrow> write_core C (Q + mset qs) d p' \<and> wp_inflight p' = wp_inflight p
      \<and> wp_pending p' = wp_pending p + length qs \<and> wp_written p' = wp_written p
      \<and> (wp_next_off p < wc_total C \<and> wp_inflight p + wp_pending p < wc_qd C \<and> sqe (wp_pending p) \<longrightarrow> qs \<noteq> [])"
proof (induction C sqe p arbitrary: Q p' qs rule: queue_writes.induct)
  case (1 C sqe p)
  let ?off = "wp_next_off p"
  let ?q = "write_request (wslot C ?off) ?off (wwant C ?off)"
  let ?p = "p\<lparr>wp_pending := wp_pending p + 1, wp_next_off := ?off + wwant C ?off\<rparr>"
  show ?case
  proof (cases "?off < wc_total C \<and> wp_inflight p + wp_pending p < wc_qd C \<and> sqe (wp_pending p)")
    case True
    obtain p1 qs1 where r: "queue_writes C sqe ?p = (p1, qs1)" by (cases "queue_writes C sqe ?p")
    have "write_core C (add_mset ?q Q) d (p\<lparr>wp_next_off := ?off + wwant C ?off\<rparr>)"
      using queue_one 1(2,3) True by blast
    then have "write_core C (add_mset ?q Q) d ?p" by (simp add: write_core_def)
    note ih = 1(1) [OF True refl 1(2) this r]
    moreover have "p' = p1" "qs = ?q # qs1"
      using 1(4) True r by (auto simp: queue_writes.simps [of C sqe p] Let_def)
    ultimately show ?thesis by simp
  next
    case False
    then have "p' = p" "qs = []" using 1(4) by (auto simp: queue_writes.simps [of C sqe p])
    then show ?thesis using 1(3) False by auto
  qed
qed

subsection \<open>Completions\<close>

lemma completion_pair [simp]: "completion (q, m) = (rq_ud q, int m)"
  by (simp add: completion_def)

lemma put_core:
  assumes core: "write_core C Q d p" and q: "q \<in># Q" and C: "write_ok C"
  shows "write_core C (Q - {#q#}) (put C d (q, rq_len q)) (p\<lparr>wp_written := wp_written p + rq_len q\<rparr>)"
proof -
  have ok: "wreq_ok C (wp_next_off p) q" and le: "wp_next_off p \<le> wc_total C"
    using core q by (auto simp: write_core_def)
  have w: "take (rq_len q) (fill_pattern (rq_slot q) (wc_max C)) = take (rq_len q) (drop (rq_off q) (written_file C))"
    "rq_off q + rq_len q \<le> length (written_file C)"
    using ok le length_seq_write [OF C, of 0] by (auto simp: wreq_ok_def)
  have "covered (Q - {#q#}) x \<or> in_place (written_file C) (put C d (q, rq_len q)) x" if "x < wp_next_off p" for x
    using core that write_in_place [OF w] covered_remove [of Q x q] by (auto simp: write_core_def put_def)
  then show ?thesis using core sum_replace [OF q, of rq_len] by (auto simp: write_core_def dest: in_diffD)
qed

lemma reap_core:
  assumes C: "write_ok C"
  shows "reap_writes C (map completion done_list) p = Inr p' \<Longrightarrow> write_core C Q d p
    \<Longrightarrow> mset (map fst done_list) \<subseteq># Q \<Longrightarrow> \<forall>qm \<in> set done_list. snd qm = rq_len (fst qm)
    \<Longrightarrow> write_core C (Q - mset (map fst done_list)) (foldl (put C) d done_list) p'
      \<and> wp_inflight p' = wp_inflight p \<and> wp_pending p' = wp_pending p
      \<and> wp_next_off p' = wp_next_off p"
proof (induction done_list arbitrary: p Q d)
  case (Cons qm done_list)
  obtain q where qm: "qm = (q, rq_len q)" using Cons.prems(4) by (cases qm) auto
  let ?p = "p\<lparr>wp_written := wp_written p + rq_len q\<rparr>"
  have q: "q \<in># Q" using Cons.prems(3) qm by (auto dest: mset_subset_eqD)
  have "reap_writes C (map completion done_list) ?p = Inr p'"
    using Cons.prems(1) by (auto simp: qm Let_def split: if_splits)
  moreover have "mset (map fst done_list) \<subseteq># Q - {#q#}"
    using Cons.prems(3) qm by (simp add: insert_subset_eq_iff)
  ultimately show ?case
    using Cons.IH [of ?p "Q - {#q#}" "put C d (q, rq_len q)"] put_core [OF Cons.prems(2) q C] Cons.prems(4)
    by (simp add: qm)
qed simp

lemma add_subset: "X + Y \<subseteq># Q \<Longrightarrow> X \<subseteq># Q \<and> Y \<subseteq># Q - X"
proof -
  assume "X + Y \<subseteq># Q"
  then have le: "count X a + count Y a \<le> count Q a" for a by (metis count_union subseteq_mset_def)
  have "count X a \<le> count Q a" "count Y a \<le> count Q a - count X a" for a using le [of a] by linarith+
  then show ?thesis by (simp add: subseteq_mset_def)
qed

lemma batches_core:
  assumes C: "write_ok C"
  shows "reap_batches C (map (map completion) bs) p = Inr p' \<Longrightarrow> write_core C Q d p
    \<Longrightarrow> mset (map fst (concat bs)) \<subseteq># Q \<Longrightarrow> \<forall>qm \<in> set (concat bs). snd qm = rq_len (fst qm)
    \<Longrightarrow> wp_inflight p = size Q
    \<Longrightarrow> write_core C (Q - mset (map fst (concat bs))) (foldl (put C) d (concat bs)) p'
      \<and> wp_inflight p' = size (Q - mset (map fst (concat bs))) \<and> wp_pending p' = wp_pending p
      \<and> wp_next_off p' = wp_next_off p"
proof (induction bs arbitrary: p Q d)
  case (Cons b bs)
  show ?case
  proof (cases "wp_inflight p = 0")
    case True
    then have "Q = {#}" using Cons.prems(5) by simp
    then have "concat (b # bs) = []" using Cons.prems(3) by (simp add: subset_mset.le_zero_eq)
    then show ?thesis using Cons.prems True \<open>Q = {#}\<close> by (simp del: concat_eq_Nil_conv)
  next
    case False
    obtain p1 where r: "reap_writes C (map completion b) p = Inr p1"
      and t: "reap_batches C (map (map completion) bs) (p1\<lparr>wp_inflight := wp_inflight p1 - length b\<rparr>) = Inr p'"
      using Cons.prems(1) False by (auto simp: sum_bind_def split: sum.splits)
    let ?Q = "Q - mset (map fst b)"
    have sub: "mset (map fst b) \<subseteq># Q" "mset (map fst (concat bs)) \<subseteq># ?Q"
      using add_subset [of "mset (map fst b)" "mset (map fst (concat bs))" Q] Cons.prems(3) by simp_all
    have c: "write_core C ?Q (foldl (put C) d b) p1" "wp_inflight p1 = wp_inflight p" "wp_pending p1 = wp_pending p"
      "wp_next_off p1 = wp_next_off p" using reap_core [OF C r Cons.prems(2) sub(1)] Cons.prems(4) by auto
    have "size ?Q = size Q - length b" using sub(1) by (simp add: size_Diff_submset)
    then show ?thesis
      using Cons.IH [OF t _ sub(2)] c Cons.prems(4,5) by (simp add: diff_diff_add)
  qed
qed simp

subsection \<open>Rounds\<close>

definition write_inv :: "write_call \<Rightarrow> write_sys \<Rightarrow> bool" where
  "write_inv C s \<longleftrightarrow> write_core C (ws_queue s) (ws_dst s) (ws_pipe s)
     \<and> wp_pending (ws_pipe s) = 0 \<and> wp_inflight (ws_pipe s) = size (ws_queue s)"

lemma fresh_write_inv: "write_inv C fresh_write"
  by (simp add: write_inv_def fresh_write_def write_core_def)

text \<open>After submitting, every request queued is in flight.\<close>

lemma submitted_core:
  assumes C: "write_ok C" and inv: "write_inv C s"
    and queue: "queue_writes C sqe (ws_pipe s) = (p1, new)" and sub: "submit_pending ret p1 = Inr p2"
  shows "write_core C (ws_queue s + mset new) (ws_dst s) p2" "wp_pending p2 = 0"
    "wp_inflight p2 = size (ws_queue s + mset new)" "wp_written p2 = wp_written (ws_pipe s)"
proof -
  note q = queue_core [OF C _ queue]
  have p1: "write_core C (ws_queue s + mset new) (ws_dst s) p1" "wp_pending p1 = length new"
    "wp_inflight p1 = size (ws_queue s)" "wp_written p1 = wp_written (ws_pipe s)" using q inv by (auto simp: write_inv_def)
  moreover have "p2 = p1\<lparr>wp_inflight := wp_inflight p1 + wp_pending p1, wp_pending := 0\<rparr>"
    using sub by (auto simp: submit_pending_def split: if_splits)
  ultimately show "write_core C (ws_queue s + mset new) (ws_dst s) p2" "wp_pending p2 = 0"
    "wp_inflight p2 = size (ws_queue s + mset new)" "wp_written p2 = wp_written (ws_pipe s)"
    by (simp_all add: write_core_def)
qed

lemma write_step_inv:
  assumes C: "write_ok C" and inv: "write_inv C s" and step: "write_step True C s s'"
  shows "write_inv C s' \<and> wp_written (ws_pipe s) < wp_written (ws_pipe s')"
  using step
proof (cases rule: write_step.cases)
  case (round sqe p1 new ret p2 bs p3)
  let ?Q = "ws_queue s + mset new" and ?done = "concat bs"
  note sub = submitted_core [OF C inv round(3,4)]
  have served: "mset (map fst ?done) \<subseteq># ?Q" "\<forall>qm \<in> set ?done. snd qm = rq_len (fst qm)" "?done \<noteq> []"
    using round(5) by (auto simp: served_def)
  note b = batches_core [OF C round(6) sub(1) served(1,2) sub(3)]
  have inv': "write_inv C s'" using b sub(2) by (simp add: round(7) after_round_def write_inv_def)
  obtain q m where q: "(q, m) \<in> set ?done" using served(3) by (metis list.set_sel(1) surj_pair)
  then have "q \<in># mset (map fst ?done)" by force
  then have "q \<in># ?Q" by (rule mset_subset_eqD [OF served(1)])
  have "0 < \<Sum>\<^sub># (image_mset rq_len (mset (map fst ?done)))"
  proof -
    have "0 < rq_len q" using sub(1) \<open>q \<in># ?Q\<close> by (auto simp: write_core_def wreq_ok_def)
    then show ?thesis using \<open>q \<in># mset (map fst ?done)\<close> by (metis gr0I image_eqI in_image_mset sum_mset_0_iff)
  qed
  moreover have "\<Sum>\<^sub># (image_mset rq_len ?Q)
      = \<Sum>\<^sub># (image_mset rq_len (?Q - mset (map fst ?done))) + \<Sum>\<^sub># (image_mset rq_len (mset (map fst ?done)))"
    using served(1) by (metis image_mset_union subset_mset.diff_add sum_mset.union)
  ultimately have "wp_written p2 < wp_written p3" using b sub(1) unfolding write_core_def by linarith
  then show ?thesis using inv' sub(4) by (simp add: round(7) after_round_def)
qed

lemma write_reach_inv: "write_ok C \<Longrightarrow> write_reach True C s \<Longrightarrow> write_inv C s"
  by (rotate_tac, induction rule: rtranclp_induct) (auto simp: fresh_write_inv dest: write_step_inv)

lemma rounds_bound:
  "write_ok C \<Longrightarrow> (write_step True C ^^ n) fresh_write s \<Longrightarrow> write_inv C s \<and> n \<le> wp_written (ws_pipe s)"
proof (induction n arbitrary: s)
  case (Suc n)
  then obtain t where "(write_step True C ^^ n) fresh_write t" "write_step True C t s" by auto
  then show ?case using Suc write_step_inv [of C t s] by fastforce
qed (auto simp: fresh_write_inv)

text \<open>As long as the loop goes on and no callback objects, the kernel has a next round.\<close>

lemma next_round:
  assumes C: "write_ok C" "wc_progress C = None" and inv: "write_inv C s" and on: "goes_on C (ws_pipe s)"
  shows "\<exists>s'. write_step True C s s'"
proof -
  obtain p1 new where queue: "queue_writes C (\<lambda>_. True) (ws_pipe s) = (p1, new)"
    by (cases "queue_writes C (\<lambda>_. True) (ws_pipe s)")
  obtain p2 where sub: "submit_pending 1 p1 = Inr p2"
    by (cases "wp_pending p1 = 0") (auto simp: submit_pending_def)
  note c = submitted_core [OF C(1) inv queue sub]
  let ?Q = "ws_queue s + mset new"
  have "ws_queue s = {#} \<Longrightarrow> new \<noteq> []"
    using queue_core [OF C(1) _ queue] inv on C(1) by (auto simp: write_inv_def goes_on_def write_ok_def)
  then have "?Q \<noteq> {#}" by auto
  then obtain q where q: "q \<in># ?Q" by (rule multiset_nonemptyE)
  have ok: "wreq_ok C (wp_next_off p2) q" using c(1) q by (auto simp: write_core_def)
  then have "rq_slot q < 2 ^ 32" "q = write_request (rq_slot q) (rq_off q) (rq_len q)"
    using C(1) by (simp_all add: wreq_ok_def write_ok_def)
  then have tag: "rq_ud q = pack_ud 1 (word_of_nat (rq_slot q))" "rq_slot q < 2 ^ 32"
    by (metis request_sel(8), simp)
  have "0 < wp_inflight p2" using c(3) q by (metis nonempty_has_size empty_iff set_mset_empty)
  then have "\<exists>p3. reap_batches C (map (map completion) [[(q, rq_len q)]]) p2 = Inr p3"
    using tag ok C(2) slot_of_tag [of "rq_slot q" 1] by (simp add: ud_op_pack wreq_ok_def sum_bind_def Let_def)
  moreover have "served True ?Q (concat [[(q, rq_len q)]])" using q by (simp add: served_def)
  ultimately show ?thesis using write_step.round [OF on _ queue sub _ _ refl, of True "[[(q, rq_len q)]]"]
    by (auto simp: finds_one_def)
qed

lemma write_finishes:
  assumes C: "write_ok C" "wc_progress C = None"
  shows "write_inv C s \<Longrightarrow> \<exists>t. (write_step True C)\<^sup>*\<^sup>* s t \<and> \<not> goes_on C (ws_pipe t)"
proof (induction "wc_total C - wp_written (ws_pipe s)" arbitrary: s rule: less_induct)
  case less
  show ?case
  proof (cases "goes_on C (ws_pipe s)")
    case True
    then obtain s' where s': "write_step True C s s'" using next_round [OF C less.prems] by auto
    note inv = write_step_inv [OF C(1) less.prems s']
    have "wp_written (ws_pipe s') \<le> wc_total C" using inv by (auto simp: write_inv_def write_core_def)
    then obtain t where "(write_step True C)\<^sup>*\<^sup>* s' t" "\<not> goes_on C (ws_pipe t)"
      using less.hyps [of s'] inv by force
    then show ?thesis using s' by (meson converse_rtranclp_into_rtranclp)
  qed auto
qed

subsection \<open>Properties\<close>

text \<open>One MiB in blocks of \<open>bs\<close> bytes.\<close>

definition one_mib :: "nat \<Rightarrow> nat \<Rightarrow> write_call" where
  "one_mib bs qd = \<lparr>wc_total = total_bytes 1 bs, wc_block_size = bs, wc_size_cb = None, wc_max = bs,
     wc_qd = qd, wc_progress = None\<rparr>"

lemma one_mib_ok: "write_ok (one_mib 524288 2)" "wc_total (one_mib 524288 2) = 1048576"
  "wc_size_cb (one_mib 524288 2) = None" "wc_progress (one_mib 524288 2) = None"
  "wc_block_size (one_mib 524288 2) = 524288" "wc_qd (one_mib 524288 2) = 2"
  by (simp_all add: write_ok_def one_mib_def total_bytes_def slot_buffer_size_def size_limit_def)

text \<open>
  C3: The pipelined writer writes the file the sequential writer would.  When its loop ends, with a
  kernel that writes each request in full, in any order and any batches, the file has the
  bytes of the chunks one after the other, and their number is returned; with blocks of a fixed
  size the letter at every position is determined by its block and its place in it.
\<close>

theorem new_file_is_written:
  assumes "write_ok C" "write_reach True C s" "\<not> goes_on C (ws_pipe s)"
  shows "write_end do_fsync 0 (ws_pipe s) = int (wc_total C)
    \<and> file_of (wc_total C) (ws_dst s) = written_file C
    \<and> (wc_size_cb C = None \<longrightarrow> (\<forall>x < wc_total C. written_file C ! x
        = word_of_nat (65 + (x div wc_block_size C mod wc_qd C + x mod wc_block_size C) mod 2 ^ 32 mod 26)))"
proof -
  have inv: "write_inv C s" using write_reach_inv assms(1,2) .
  have e: "ws_queue s = {#}" "wp_next_off (ws_pipe s) = wc_total C"
    using inv assms(3) by (auto simp: write_inv_def goes_on_def write_core_def)
  then have "\<forall>x < length (written_file C). in_place (written_file C) (ws_dst s) x"
    using inv length_seq_write [OF assms(1), of 0] by (auto simp: write_inv_def write_core_def covered_def)
  from file_in_place [OF this] have "file_of (wc_total C) (ws_dst s) = written_file C"
    using length_seq_write [OF assms(1), of 0] by simp
  moreover have "write_end do_fsync 0 (ws_pipe s) = int (wc_total C)"
    using inv e by (simp add: write_inv_def write_core_def write_end_def)
  ultimately show ?thesis using plain_letter [OF assms(1), of 0] by simp
qed

lemma new_file_is_written_witness:
  "\<exists>s :: write_sys. file_of 1048576 (ws_dst s) = written_file (one_mib 524288 2)
     \<and> written_file (one_mib 524288 2) ! 600000 = 66"
proof -
  obtain s where "write_reach True (one_mib 524288 2) s" "\<not> goes_on (one_mib 524288 2) (ws_pipe s)"
    using write_finishes [OF one_mib_ok(1,4) fresh_write_inv] by blast
  from new_file_is_written [OF one_mib_ok(1) this, of False]
  show ?thesis by (intro exI [of _ s]) (simp add: one_mib_ok)
qed

text \<open>
  C26: Writing a new file always ends: no more rounds than bytes can be made, and without a progress
  callback that cancels the loop reaches its end from every reachable state.
\<close>

theorem new_file_ends:
  assumes "write_ok C"
  shows "((write_step True C ^^ n) fresh_write s \<longrightarrow> n \<le> wc_total C)
    \<and> (wc_progress C = None \<and> write_reach True C t
        \<longrightarrow> (\<exists>t'. (write_step True C)\<^sup>*\<^sup>* t t' \<and> \<not> goes_on C (ws_pipe t')))"
  using rounds_bound [OF assms, of n s] write_finishes [OF assms, of t] write_reach_inv [OF assms, of t]
  by (force simp: write_inv_def write_core_def)


lemma new_file_ends_witness:
  "\<exists>t. (write_step True (one_mib 524288 2))\<^sup>*\<^sup>* fresh_write t \<and> \<not> goes_on (one_mib 524288 2) (ws_pipe t)"
  using new_file_ends [OF one_mib_ok(1), of 0 fresh_write fresh_write] one_mib_ok(4) by blast

text \<open>
  A short write goes unnoticed.  One MiB in one block, of which the kernel writes one byte: the
  loop ends, nothing is written again, and the function returns 1 without an error.
\<close>

theorem short_write_goes_unnoticed:
  "\<exists>s. write_reach False (one_mib (2 ^ 20) 1) s \<and> \<not> goes_on (one_mib (2 ^ 20) 1) (ws_pipe s)
     \<and> wc_total (one_mib (2 ^ 20) 1) = 2 ^ 20 \<and> write_end True 0 (ws_pipe s) = 1 \<and> ws_dst s 1 = None"
proof -
  let ?C = "one_mib (2 ^ 20) 1" and ?p = "ws_pipe fresh_write"
  let ?q = "write_request 0 0 (2 ^ 20)"
  let ?p3 = "\<lparr>wp_next_off = 2 ^ 20, wp_inflight = 0, wp_pending = 0, wp_written = 1\<rparr>"
  let ?s = "after_round ?C ?p3 [?q] (concat [[(?q, 1)]]) fresh_write"
  have queue: "queue_writes ?C (\<lambda>_. True) ?p = (?p\<lparr>wp_pending := 1, wp_next_off := 2 ^ 20\<rparr>, [?q])"
    by (simp add: queue_writes.simps fresh_write_def one_mib_def total_bytes_def wslot_def wwant_def
        transfer_size_def Let_def)
  have "write_step False ?C fresh_write ?s"
  proof (rule write_step.round [OF _ _ queue _ _ _ refl])
    show "goes_on ?C ?p" by (simp add: goes_on_def fresh_write_def one_mib_def total_bytes_def)
    show "finds_one (\<lambda>_. True)" by (simp add: finds_one_def)
    show "submit_pending 1 (?p\<lparr>wp_pending := 1, wp_next_off := 2 ^ 20\<rparr>)
        = Inr \<lparr>wp_next_off = 2 ^ 20, wp_inflight = 1, wp_pending = 0, wp_written = 0\<rparr>"
      by (simp add: submit_pending_def fresh_write_def)
    show "served False (ws_queue fresh_write + mset [?q]) (concat [[(?q, 1)]])"
      by (simp add: served_def fresh_write_def)
    show "reap_batches ?C (map (map completion) [[(?q, 1)]])
        \<lparr>wp_next_off = 2 ^ 20, wp_inflight = 1, wp_pending = 0, wp_written = 0\<rparr> = Inr ?p3"
      by (simp add: sum_bind_def ud_op_pack ud_slot_pack one_mib_def)
  qed
  then have "write_reach False ?C ?s" by blast
  then show ?thesis
    by (intro exI [of _ ?s]) (simp add: after_round_def goes_on_def write_end_def one_mib_def total_bytes_def
        fresh_write_def put_def write_at_def fill_pattern_def)
qed

end
