(* ===== verification/Many_Files.thy ===== *)
theory Many_Files
  imports Copy_Pipeline Uring_Errors
begin

text \<open>
  The pipeline of \<open>csrc/uring_wrap.c\<close> that writes many new files at once
  (\<open>uring_write_manyfiles\<close>): the names and the opening of the files, the round-robin choice of the
  next block, the stack of free slots, and the main loop as a step relation in which the kernel
  completes any of the writes in flight.  The buffers hold letters and never change; the fields
  \<open>slot_file\<close>, \<open>off\<close> and \<open>len\<close> of a slot are set but never read, and left out.
\<close>

subsection \<open>Files\<close>

abbreviation "ENAMETOOLONG \<equiv> (36::int)"

(* csrc/uring_wrap.c:1164-1166 uring_write_manyfiles *)
definition many_path :: "string \<Rightarrow> nat \<Rightarrow> string" where
  "many_path dir i = (let d = digits_of_nat i
     in dir @ ''/file_'' @ replicate (6 - length d) (CHR ''0'') @ d @ ''.dat'')"

text \<open>
  \<open>opened\<close> is what \<open>open\<close> returns for a path: a descriptor, or the negated errno.  A failure comes with
  the descriptors that are closed, a success with those that are open.
\<close>

(* csrc/uring_wrap.c:1163-1182 uring_write_manyfiles *)
fun open_files :: "(string \<Rightarrow> int) \<Rightarrow> string \<Rightarrow> nat \<Rightarrow> nat \<Rightarrow> int list \<Rightarrow> (int \<times> int list) + int list" where
  "open_files opened dir i 0 fds = Inr fds"
| "open_files opened dir i (Suc n) fds =
     (if 512 \<le> length (many_path dir i) then Inl (- ENAMETOOLONG, fds)
      else let fd = opened (many_path dir i)
        in if fd < 0 then Inl (fd, fds) else open_files opened dir (Suc i) n (fds @ [fd]))"

subsection \<open>State\<close>

(* csrc/uring_wrap.c:1274-1277 uring_write_manyfiles *)
record many =
  mf_off :: "nat list"
  mf_done :: "bool list"
  mf_free :: "nat list"
  mf_inflight :: nat
  mf_written :: nat
  mf_done_files :: nat
  mf_rr :: nat

record many_call =
  mc_nfiles :: nat
  mc_per_file :: nat
  mc_block :: nat
  mc_qd :: nat

(* csrc/uring_wrap.c:1154-1154 uring_write_manyfiles *)
definition mib :: "nat \<Rightarrow> nat" where
  "mib mb_per_file = mb_per_file * 1024 * 1024"

(* csrc/uring_wrap.c:1155-1155 uring_write_manyfiles *)
definition all_bytes :: "many_call \<Rightarrow> nat" where
  "all_bytes C = mc_per_file C * mc_nfiles C mod 2 ^ 64"

text \<open>The letters of a slot's buffer; the sum \<open>i + k\<close> is an \<open>unsigned\<close> and wraps.\<close>

(* csrc/uring_wrap.c:1223-1225 uring_write_manyfiles *)
definition letters :: "nat \<Rightarrow> nat \<Rightarrow> byte list" where
  "letters i n = map (\<lambda>k. word_of_nat (97 + (i + k) mod 2 ^ 32 mod 26)) [0..<n]"

text \<open>The top of the stack of free slots comes first; it starts as \<open>qd - 1, ..., 0\<close>.\<close>

(* csrc/uring_wrap.c:1268-1277 uring_write_manyfiles *)
definition fresh_many :: "many_call \<Rightarrow> many" where
  "fresh_many C = \<lparr>mf_off = replicate (mc_nfiles C) 0, mf_done = replicate (mc_nfiles C) False,
     mf_free = rev [0..<mc_qd C], mf_inflight = 0, mf_written = 0, mf_done_files = 0, mf_rr = 0\<rparr>"

subsection \<open>The next block\<close>

(* csrc/uring_wrap.c:1297-1298 uring_write_manyfiles *)
definition mark_done :: "nat \<Rightarrow> many \<Rightarrow> many" where
  "mark_done i p = p\<lparr>mf_done := (mf_done p)[i := True], mf_done_files := mf_done_files p + 1\<rparr>"

text \<open>The loop over \<open>tries\<close>; the cursor \<open>rr\<close> is a C \<open>unsigned\<close>.  It finds a file, an offset and a length.\<close>

(* csrc/uring_wrap.c:1285-1318 uring_write_manyfiles *)
fun find_block :: "many_call \<Rightarrow> nat \<Rightarrow> many \<Rightarrow> many \<times> (nat \<times> nat \<times> nat) option" where
  "find_block C 0 p = (p, None)"
| "find_block C (Suc tries) p =
     (let idx = mf_rr p mod mc_nfiles C;
          p = p\<lparr>mf_rr := (mf_rr p + 1) mod 2 ^ 32\<rparr>;
          off = mf_off p ! idx;
          want = min (mc_block C) (mc_per_file C - off)
      in if mf_done p ! idx then find_block C tries p
         else if mc_per_file C \<le> off then find_block C tries (mark_done idx p)
         else (let p = p\<lparr>mf_off := (mf_off p)[idx := off + want]\<rparr>
               in (if mc_per_file C \<le> off + want then mark_done idx p else p, Some (idx, off, want))))"

lemma mark_done_free [simp]: "mf_free (mark_done i p) = mf_free p" by (simp add: mark_done_def)

lemma find_block_free [simp]: "mf_free (fst (find_block C n p)) = mf_free p"
  by (induction C n p rule: find_block.induct) (simp_all add: Let_def)

text \<open>
  The inner loop; \<open>sqe n\<close> tells whether \<open>io_uring_get_sqe\<close> finds an entry when \<open>n\<close> have been queued
  in this round.  When it does not the slot goes back to the stack.
\<close>

(* csrc/uring_wrap.c:1284-1335 uring_write_manyfiles *)
function queue_blocks :: "many_call \<Rightarrow> (nat \<Rightarrow> bool) \<Rightarrow> nat \<Rightarrow> many \<Rightarrow> many \<times> (nat \<times> request) list" where
  "queue_blocks C sqe n p =
     (if mf_free p = [] \<or> mc_nfiles C \<le> mf_done_files p then (p, [])
      else case find_block C (mc_nfiles C) p of
        (p', None) \<Rightarrow> (p', [])
      | (p', Some (f, off, len)) \<Rightarrow>
          if \<not> sqe n then (p', [])
          else let slot = hd (mf_free p');
                   (p'', qs) = queue_blocks C sqe (Suc n)
                     (p'\<lparr>mf_free := tl (mf_free p'), mf_inflight := mf_inflight p' + 1\<rparr>)
               in (p'', (f, write_request slot off len) # qs))"
  by pat_completeness auto
termination
proof (relation "measure (\<lambda>(C, sqe, n, p). length (mf_free p))", goal_cases)
  case (2 C sqe n p p' r x y z)
  have "mf_free p' = mf_free p" using find_block_free [of C "mc_nfiles C" p] 2(2) by (metis fst_conv)
  then show ?case using 2(1) by simp
qed simp

declare queue_blocks.simps [simp del]

subsection \<open>Completions\<close>

text \<open>The completions of one batch as pairs of \<open>user_data\<close> and result.\<close>

(* csrc/uring_wrap.c:1365-1383 uring_write_manyfiles *)
fun reap_many :: "many_call \<Rightarrow> (64 word \<times> int) list \<Rightarrow> many \<Rightarrow> int + many" where
  "reap_many C [] p = Inr p"
| "reap_many C ((ud, res) # cs) p =
     (if ud_op ud \<noteq> 1 \<or> mc_qd C \<le> unat (ud_slot ud) then Inl (- EIO)
      else if res < 0 then Inl res
      else reap_many C cs (p\<lparr>mf_written := mf_written p + nat res, mf_inflight := mf_inflight p - 1,
        mf_free := unat (ud_slot ud) # mf_free p\<rparr>))"

text \<open>\<open>fsync\<close> of the files one after the other, with their results, and the value returned.\<close>

(* csrc/uring_wrap.c:1387-1411 uring_write_manyfiles *)
fun many_end :: "bool \<Rightarrow> int list \<Rightarrow> many \<Rightarrow> int" where
  "many_end True (r # rs) p = (if r < 0 then r else many_end True rs p)"
| "many_end _ _ p = int (mf_written p)"

subsection \<open>The loop\<close>

record many_sys =
  ms_pipe :: many
  ms_queue :: "(nat \<times> request) multiset"
  ms_files :: "nat \<Rightarrow> disk"

text \<open>
  The loop ends at its condition, or when nothing is in flight after queueing; \<open>sqe\<close> are the
  answers of the last round.
\<close>

(* csrc/uring_wrap.c:1280-1280 uring_write_manyfiles *)
definition many_on :: "many_call \<Rightarrow> many \<Rightarrow> bool" where
  "many_on C p \<longleftrightarrow> mf_written p < all_bytes C \<or> 0 < mf_inflight p"

(* csrc/uring_wrap.c:1344-1346 uring_write_manyfiles *)
definition many_over :: "many_call \<Rightarrow> (nat \<Rightarrow> bool) \<Rightarrow> many \<Rightarrow> bool" where
  "many_over C sqe p \<longleftrightarrow> \<not> many_on C p \<or> mf_inflight (fst (queue_blocks C sqe 0 p)) = 0"

text \<open>The kernel wrote the first \<open>m\<close> bytes of the request \<open>q\<close> for the file \<open>f\<close>.\<close>

definition put_block :: "many_call \<Rightarrow> (nat \<Rightarrow> disk) \<Rightarrow> (nat \<times> request) \<times> nat \<Rightarrow> nat \<Rightarrow> disk" where
  "put_block C d = (\<lambda>((f, q), m). d(f := write_at (rq_off q) (take m (letters (rq_slot q) (mc_block C))) (d f)))"

definition done_block :: "(nat \<times> request) \<times> nat \<Rightarrow> 64 word \<times> int" where
  "done_block = (\<lambda>((f, q), m). (rq_ud q, int m))"

text \<open>At least one completion, at most the 256 that \<open>cqes\<close> has room for.\<close>

definition many_served :: "bool \<Rightarrow> (nat \<times> request) multiset \<Rightarrow> ((nat \<times> request) \<times> nat) list \<Rightarrow> bool" where
  "many_served full Q ds \<longleftrightarrow> mset (map fst ds) \<subseteq># Q \<and> ds \<noteq> [] \<and> length ds \<le> 256
     \<and> (\<forall>((f, q), m) \<in> set ds. m \<le> rq_len q \<and> (full \<longrightarrow> m = rq_len q))"

definition entries :: "bool \<Rightarrow> (nat \<Rightarrow> bool) \<Rightarrow> bool" where
  "entries full sqe \<longleftrightarrow> (full \<longrightarrow> (\<forall>n. sqe n))"

text \<open>
  One round.  With \<open>full\<close> every write is done in full and every request finds an entry (the ring
  has one for each slot).
\<close>

inductive many_step :: "bool \<Rightarrow> many_call \<Rightarrow> many_sys \<Rightarrow> many_sys \<Rightarrow> bool" for full C where
  round: "many_on C (ms_pipe s)
    \<Longrightarrow> entries full sqe
    \<Longrightarrow> queue_blocks C sqe 0 (ms_pipe s) = (p1, new)
    \<Longrightarrow> many_served full (ms_queue s + mset new) ds
    \<Longrightarrow> reap_many C (map done_block ds) p1 = Inr p2
    \<Longrightarrow> s' = \<lparr>ms_pipe = p2, ms_queue = ms_queue s + mset new - mset (map fst ds),
               ms_files = foldl (put_block C) (ms_files s) ds\<rparr>
    \<Longrightarrow> many_step full C s s'"

definition fresh_files :: "many_call \<Rightarrow> many_sys" where
  "fresh_files C = \<lparr>ms_pipe = fresh_many C, ms_queue = {#}, ms_files = (\<lambda>_. Map.empty)\<rparr>"

abbreviation many_reach :: "bool \<Rightarrow> many_call \<Rightarrow> many_sys \<Rightarrow> bool" where
  "many_reach full C \<equiv> (many_step full C)\<^sup>*\<^sup>* (fresh_files C)"

end
