(* ===== verification/Many_Props.thy ===== *)
theory Many_Props
  imports Many_Files Copy_Props
begin

text \<open>
  The pipeline that writes many files: the files have different names; the cursor spreads the
  blocks evenly; no buffer is lent twice; with a kernel that writes each request in full, in any order,
  every block of every file ends up as the letters of one buffer, in finitely many rounds; and
  what becomes of a block for which the ring has no entry, or whose write is short.
\<close>

subsection \<open>Names\<close>

fun decimal_value :: "string \<Rightarrow> nat" where
  "decimal_value s = foldl (\<lambda>v c. 10 * v + (of_char c - 48)) 0 s"

lemma decimal_value_digits: "decimal_value (replicate z (CHR ''0'') @ digits_of_nat n) = n"
proof (induction n rule: digits_of_nat.induct)
  case (1 n)
  have z: "foldl (\<lambda>v c. 10 * v + (of_char c - 48)) 0 (replicate z (CHR ''0'')) = (0 :: nat)"
    by (induction z) simp_all
  show ?case
    using 1 z by (cases "n < 10") (simp_all add: digits_of_nat.simps [of n])
qed

lemma many_path_inj: "many_path dir i = many_path dir j \<Longrightarrow> i = j"
  using decimal_value_digits [of "6 - length (digits_of_nat i)" i] decimal_value_digits [of "6 - length (digits_of_nat j)" j]
  by (simp add: many_path_def Let_def)

lemma upt_first: "[i..<i + Suc n] = i # [Suc i..<Suc i + n]" "{i..<i + Suc n} = insert i {Suc i..<Suc i + n}"
  by (auto simp: upt_conv_Cons simp del: upt_Suc)

lemma open_files_ok:
  "open_files opened dir i n fds = Inr fds' \<Longrightarrow>
     fds' = fds @ map (\<lambda>k. opened (many_path dir k)) [i..<i + n] \<and> (\<forall>k \<in> {i..<i + n}. 0 \<le> opened (many_path dir k))"
proof (induction n arbitrary: i fds)
  case (Suc n)
  then have "open_files opened dir (Suc i) n (fds @ [opened (many_path dir i)]) = Inr fds'"
    and fd: "0 \<le> opened (many_path dir i)"
    by (auto simp: Let_def split: if_splits)
  from Suc.IH [OF this(1)] show ?case using fd unfolding upt_first by simp
qed simp

lemma open_files_failed:
  "open_files opened dir i n fds = Inl (e, closed) \<Longrightarrow>
     e < 0 \<and> (\<exists>m < n. closed = fds @ map (\<lambda>k. opened (many_path dir k)) [i..<i + m]
       \<and> (\<forall>k \<in> {i..<i + m}. 0 \<le> opened (many_path dir k)))"
proof (induction n arbitrary: i fds)
  case (Suc n)
  show ?case
  proof (cases "512 \<le> length (many_path dir i) \<or> opened (many_path dir i) < 0")
    case True
    then have "e < 0" "closed = fds" using Suc.prems by (auto simp: Let_def split: if_splits)
    then show ?thesis by (intro conjI exI [of _ 0]) auto
  next
    case False
    then have "open_files opened dir (Suc i) n (fds @ [opened (many_path dir i)]) = Inl (e, closed)"
      using Suc.prems by (auto simp: Let_def split: if_splits)
    from Suc.IH [OF this] obtain m where m: "e < 0" "m < n"
      "closed = (fds @ [opened (many_path dir i)]) @ map (\<lambda>k. opened (many_path dir k)) [Suc i..<Suc i + m]"
      "\<forall>k \<in> {Suc i..<Suc i + m}. 0 \<le> opened (many_path dir k)" by blast
    have "closed = fds @ map (\<lambda>k. opened (many_path dir k)) [i..<i + Suc m]"
      using m(3) unfolding upt_first by simp
    moreover have "\<forall>k \<in> {i..<i + Suc m}. 0 \<le> opened (many_path dir k)"
      using m(4) False unfolding upt_first by auto
    ultimately show ?thesis using m(1,2) by (intro conjI exI [of _ "Suc m"]) auto
  qed
qed simp

subsection \<open>The cursor\<close>

text \<open>
  The number of blocks of a file, and the calls considered: sizes that do not overflow and a cursor that does
  not come round.
\<close>

definition nblocks :: "many_call \<Rightarrow> nat" where
  "nblocks C = (mc_per_file C + mc_block C - 1) div mc_block C"

definition many_ok :: "many_call \<Rightarrow> bool" where
  "many_ok C \<longleftrightarrow> 0 < mc_nfiles C \<and> 0 < mc_per_file C \<and> 0 < mc_block C \<and> 0 < mc_qd C \<and> mc_qd C < 2 ^ 32
     \<and> mc_nfiles C * nblocks C < 2 ^ 32 \<and> mc_per_file C * mc_nfiles C < 2 ^ 64"

text \<open>How often the cursor has come to file \<open>i\<close> when it stands at \<open>rr\<close>, and how far the file is then.\<close>

definition visits :: "many_call \<Rightarrow> nat \<Rightarrow> nat \<Rightarrow> nat" where
  "visits C rr i = (rr + mc_nfiles C - 1 - i) div mc_nfiles C"

definition offset_at :: "many_call \<Rightarrow> nat \<Rightarrow> nat \<Rightarrow> nat" where
  "offset_at C rr i = min (mc_per_file C) (mc_block C * visits C rr i)"

definition cursor_ok :: "many_call \<Rightarrow> many \<Rightarrow> bool" where
  "cursor_ok C p \<longleftrightarrow> length (mf_off p) = mc_nfiles C \<and> (\<forall>i < mc_nfiles C. mf_off p ! i = offset_at C (mf_rr p) i)
     \<and> mf_done p = map (\<lambda>x. x = mc_per_file C) (mf_off p)
     \<and> mf_done_files p = length (filter id (mf_done p)) \<and> mf_rr p \<le> mc_nfiles C * nblocks C"

lemma div_bounds: "0 < n \<Longrightarrow> n * (x div n) \<le> x \<and> x < n * (x div n) + n" for n x :: nat
  by (metis add_less_cancel_left le_add1 mod_less_divisor mult_div_mod_eq)

lemma visits_Suc:
  assumes "i < mc_nfiles C"
  shows "visits C (Suc rr) i = visits C rr i + (if rr mod mc_nfiles C = i then 1 else 0)"
    "rr mod mc_nfiles C = i \<Longrightarrow> visits C rr i = rr div mc_nfiles C"
proof -
  let ?n = "mc_nfiles C"
  obtain q r where rr: "rr = q * ?n + r" "r < ?n" "rr mod ?n = r" "rr div ?n = q"
    using assms by (metis div_mult_mod_eq mod_less_divisor not_less_zero linorder_neqE_nat)
  have v: "visits C rr i = q + (r + ?n - 1 - i) div ?n" "visits C (Suc rr) i = q + (r + ?n - i) div ?n"
  proof -
    have "rr + ?n - 1 - i = q * ?n + (r + ?n - 1 - i)" "Suc rr + ?n - 1 - i = q * ?n + (r + ?n - i)"
      using assms rr(1) by auto
    moreover have "(q * ?n + y) div ?n = q + y div ?n" for y using assms by simp
    ultimately show "visits C rr i = q + (r + ?n - 1 - i) div ?n" "visits C (Suc rr) i = q + (r + ?n - i) div ?n"
      unfolding visits_def by metis+
  qed
  have small: "(r + ?n - 1 - i) div ?n = (if i < r then 1 else 0)" "(r + ?n - i) div ?n = (if i \<le> r then 1 else 0)"
    using rr(2) assms by (auto simp: div_eq_0_iff intro: div_nat_eqI)
  show "visits C (Suc rr) i = visits C rr i + (if rr mod ?n = i then 1 else 0)"
    "rr mod ?n = i \<Longrightarrow> visits C rr i = rr div ?n" using v small rr by auto
qed

text \<open>The next tick for file \<open>i\<close> comes within one round of the cursor.\<close>

lemma next_tick:
  fixes rr :: nat
  assumes "i < mc_nfiles C"
  defines "t \<equiv> mc_nfiles C * visits C rr i + i"
  shows "rr \<le> t" "t < rr + mc_nfiles C" "t mod mc_nfiles C = i"
proof -
  let ?n = "mc_nfiles C" and ?x = "rr + mc_nfiles C - 1 - i"
  have "?n * (?x div ?n) \<le> ?x" "?x < ?n * (?x div ?n) + ?n"
    using assms(1) div_bounds [of ?n ?x] by auto
  then show "rr \<le> t" "t < rr + ?n" using assms(1) unfolding t_def visits_def by linarith+
  show "t mod ?n = i" using assms(1) by (simp add: t_def)
qed

lemma nblocks_bound:
  "0 < mc_block C \<Longrightarrow> mc_per_file C \<le> mc_block C * nblocks C"
  "0 < mc_block C \<Longrightarrow> mc_block C * v < mc_per_file C \<Longrightarrow> v < nblocks C"
proof -
  assume b: "0 < mc_block C"
  let ?x = "mc_per_file C + mc_block C - 1"
  have "?x < mc_block C * (?x div mc_block C) + mc_block C"
    using b div_bounds [of "mc_block C" ?x] by blast
  then show le: "mc_per_file C \<le> mc_block C * nblocks C" by (simp add: nblocks_def)
  assume "mc_block C * v < mc_per_file C"
  then have "mc_block C * v < mc_block C * nblocks C" using le by linarith
  then show "v < nblocks C" by simp
qed

lemma offset_at_Suc:
  "i < mc_nfiles C \<Longrightarrow> rr mod mc_nfiles C \<noteq> i \<Longrightarrow> offset_at C (Suc rr) i = offset_at C rr i"
  "i < mc_nfiles C \<Longrightarrow> rr mod mc_nfiles C = i \<Longrightarrow> offset_at C (Suc rr) i
     = offset_at C rr i + min (mc_block C) (mc_per_file C - offset_at C rr i)"
  by (auto simp: offset_at_def visits_Suc min_def algebra_simps)

lemma offset_at_le [simp]: "offset_at C rr i \<le> mc_per_file C"
  by (simp add: offset_at_def)

lemma count_update:
  "i < length xs \<Longrightarrow> \<not> xs ! i \<Longrightarrow> length (filter id (xs[i := True])) = Suc (length (filter id xs))"
proof (induction xs arbitrary: i)
  case (Cons x xs)
  then show ?case by (cases i) auto
qed simp

definition block_of :: "many_call \<Rightarrow> many \<Rightarrow> nat \<Rightarrow> nat" where
  "block_of C p i = min (mc_block C) (mc_per_file C - mf_off p ! i)"

text \<open>\<open>find_block\<close> moves the cursor to the tick it stops at and that file by one block; nothing else.\<close>

definition found_block :: "many_call \<Rightarrow> many \<Rightarrow> many \<Rightarrow> nat \<Rightarrow> bool" where
  "found_block C p p' f \<longleftrightarrow> f < mc_nfiles C \<and> mf_off p ! f < mc_per_file C
     \<and> (\<exists>v. mf_off p ! f = mc_block C * v)
     \<and> cursor_ok C p' \<and> mf_off p' = (mf_off p)[f := mf_off p ! f + block_of C p f]
     \<and> mf_free p' = mf_free p \<and> mf_inflight p' = mf_inflight p \<and> mf_written p' = mf_written p"

lemma cursor_skip:
  assumes "cursor_ok C p" "0 < mc_nfiles C" "mf_rr p < mc_nfiles C * nblocks C" "mf_done p ! (mf_rr p mod mc_nfiles C)"
  shows "cursor_ok C (p\<lparr>mf_rr := Suc (mf_rr p)\<rparr>)"
proof -
  let ?f = "mf_rr p mod mc_nfiles C"
  have f: "?f < mc_nfiles C" using assms(2) by simp
  then have "offset_at C (mf_rr p) ?f = mc_per_file C" using assms(1,4) by (simp add: cursor_ok_def)
  then have "offset_at C (Suc (mf_rr p)) i = offset_at C (mf_rr p) i" if "i < mc_nfiles C" for i
    using that by (cases "i = ?f") (auto simp: offset_at_Suc)
  then show ?thesis using assms by (simp add: cursor_ok_def)
qed

lemma cursor_take:
  assumes ok: "cursor_ok C p" and n: "0 < mc_nfiles C" and rr: "mf_rr p < mc_nfiles C * nblocks C"
    and f: "f = mf_rr p mod mc_nfiles C" and open_file: "\<not> mf_done p ! f"
  defines "off \<equiv> mf_off p ! f + block_of C p f"
  defines "p1 \<equiv> p\<lparr>mf_rr := Suc (mf_rr p), mf_off := (mf_off p)[f := off]\<rparr>"
  shows "found_block C p (if mc_per_file C \<le> off then mark_done f p1 else p1) f"
proof -
  have fn: "f < mc_nfiles C" using n f by simp
  have at: "mf_off p ! f = offset_at C (mf_rr p) f" using ok fn by (simp add: cursor_ok_def)
  have lt: "mf_off p ! f < mc_per_file C"
    using ok fn open_file by (simp add: cursor_ok_def) (metis le_neq_implies_less offset_at_le)
  have off: "off = offset_at C (Suc (mf_rr p)) f" "off \<le> mc_per_file C"
    using offset_at_Suc(2) [OF fn f [symmetric]] at lt by (auto simp: off_def block_of_def)
  have offs: "(mf_off p)[f := off] ! i = offset_at C (Suc (mf_rr p)) i" if "i < mc_nfiles C" for i
    using that ok off(1) offset_at_Suc(1) [OF that] f by (cases "i = f") (auto simp: cursor_ok_def)
  let ?p = "if mc_per_file C \<le> off then mark_done f p1 else p1"
  have done_list: "mf_done ?p = map (\<lambda>x. x = mc_per_file C) ((mf_off p)[f := off])"
  proof -
    have m: "map (\<lambda>x. x = mc_per_file C) ((mf_off p)[f := off]) = (mf_done p)[f := (off = mc_per_file C)]"
      using ok by (simp add: cursor_ok_def map_update)
    have "(mf_done p)[f := False] = mf_done p" using open_file by (metis (full_types) list_update_id)
    then show ?thesis using off(2) by (auto simp: m mark_done_def p1_def)
  qed
  have "mf_done_files ?p = length (filter id (mf_done ?p))"
    using ok fn open_file count_update [of f "mf_done p"]
    by (auto simp: cursor_ok_def mark_done_def p1_def)
  then have "cursor_ok C ?p"
    using ok rr offs done_list by (auto simp: cursor_ok_def mark_done_def p1_def)
  moreover have "\<exists>v. mf_off p ! f = mc_block C * v"
    using lt at by (metis offset_at_def min_def order_less_irrefl)
  ultimately show ?thesis
    using fn lt by (auto simp: found_block_def mark_done_def p1_def off_def)
qed

lemma find_block_finds:
  "many_ok C \<Longrightarrow> cursor_ok C p \<Longrightarrow> mf_rr p \<le> t \<Longrightarrow> t < mf_rr p + k \<Longrightarrow> t < mc_nfiles C * nblocks C
    \<Longrightarrow> \<not> mf_done p ! (t mod mc_nfiles C)
    \<Longrightarrow> \<exists>f p'. find_block C k p = (p', Some (f, mf_off p ! f, block_of C p f)) \<and> found_block C p p' f"
proof (induction k arbitrary: p)
  case (Suc k)
  let ?f = "mf_rr p mod mc_nfiles C" and ?p = "p\<lparr>mf_rr := Suc (mf_rr p)\<rparr>"
  have n: "0 < mc_nfiles C" and bound: "mc_nfiles C * nblocks C < 2 ^ 32" using Suc.prems(1) by (auto simp: many_ok_def)
  have rr: "mf_rr p < mc_nfiles C * nblocks C" using Suc.prems(3,5) by simp
  have wrap: "(mf_rr p + 1) mod 2 ^ 32 = Suc (mf_rr p)" using rr bound by simp
  show ?case
  proof (cases "mf_done p ! ?f")
    case True
    then have t: "Suc (mf_rr p) \<le> t" using Suc.prems(3,6) by (cases "mf_rr p = t") auto
    have "cursor_ok C ?p" using cursor_skip [OF Suc.prems(2) n rr True] .
    from Suc.IH [OF Suc.prems(1) this] obtain f p' where "find_block C k ?p = (p', Some (f, mf_off ?p ! f, block_of C ?p f))"
      "found_block C ?p p' f" using Suc.prems(4-6) t by auto
    then show ?thesis using True wrap by (auto simp: Let_def found_block_def block_of_def)
  next
    case False
    let ?off = "mf_off p ! ?f + block_of C p ?f"
    have "\<not> mc_per_file C \<le> mf_off p ! ?f"
      using cursor_take [OF Suc.prems(2) n rr refl False] by (auto simp: found_block_def)
    then have "find_block C (Suc k) p = (if mc_per_file C \<le> ?off
        then mark_done ?f (?p\<lparr>mf_off := (mf_off p)[?f := ?off]\<rparr>) else ?p\<lparr>mf_off := (mf_off p)[?f := ?off]\<rparr>,
        Some (?f, mf_off p ! ?f, block_of C p ?f))"
      using False wrap by (simp add: Let_def block_of_def)
    then show ?thesis using cursor_take [OF Suc.prems(2) n rr refl False] by auto
  qed
qed simp

lemma find_block_works:
  assumes C: "many_ok C" and ok: "cursor_ok C p" and open_files: "mf_done_files p < mc_nfiles C"
  shows "\<exists>f p'. find_block C (mc_nfiles C) p = (p', Some (f, mf_off p ! f, block_of C p f)) \<and> found_block C p p' f"
proof -
  have len: "length (mf_done p) = mc_nfiles C" using ok by (simp add: cursor_ok_def)
  have "\<exists>i < mc_nfiles C. \<not> mf_done p ! i"
  proof (rule ccontr)
    assume "\<not> (\<exists>i < mc_nfiles C. \<not> mf_done p ! i)"
    then have "filter id (mf_done p) = mf_done p" using len by (auto simp: filter_id_conv in_set_conv_nth)
    then show False using ok open_files len by (simp add: cursor_ok_def)
  qed
  then obtain i where i: "i < mc_nfiles C" "\<not> mf_done p ! i" by blast
  let ?v = "visits C (mf_rr p) i"
  have "offset_at C (mf_rr p) i \<noteq> mc_per_file C" using ok i by (simp add: cursor_ok_def)
  then have "mc_block C * ?v < mc_per_file C" by (auto simp: offset_at_def min_def split: if_splits)
  then have "?v < nblocks C" using nblocks_bound(2) C by (simp add: many_ok_def)
  then have "mc_nfiles C * ?v + mc_nfiles C \<le> mc_nfiles C * nblocks C"
    by (metis Suc_leI add.commute mult_Suc_right mult_le_mono2)
  then have "mc_nfiles C * ?v + i < mc_nfiles C * nblocks C" using i(1) by linarith
  from find_block_finds [OF C ok next_tick(1,2) [OF i(1)] this] show ?thesis
    using next_tick(3) [OF i(1)] i(2) by simp
qed

subsection \<open>The invariant\<close>

text \<open>Block \<open>v\<close> of file \<open>f\<close> holds the letters of one of the buffers.\<close>

definition block_there :: "many_call \<Rightarrow> (nat \<Rightarrow> disk) \<Rightarrow> nat \<Rightarrow> nat \<Rightarrow> bool" where
  "block_there C d f v \<longleftrightarrow> (\<exists>slot < mc_qd C. \<forall>k < mc_block C. mc_block C * v + k < mc_per_file C
     \<longrightarrow> d f (mc_block C * v + k) = Some (letters slot (mc_block C) ! k))"

definition block_queued :: "many_call \<Rightarrow> (nat \<times> request) multiset \<Rightarrow> nat \<Rightarrow> nat \<Rightarrow> bool" where
  "block_queued C Q f v \<longleftrightarrow> (\<exists>q. (f, q) \<in># Q \<and> rq_off q = mc_block C * v)"

definition many_req :: "many_call \<Rightarrow> many \<Rightarrow> nat \<times> request \<Rightarrow> bool" where
  "many_req C p = (\<lambda>(f, q). f < mc_nfiles C \<and> q = write_request (rq_slot q) (rq_off q) (rq_len q)
     \<and> (\<exists>v. rq_off q = mc_block C * v) \<and> rq_off q < mc_per_file C
     \<and> rq_len q = min (mc_block C) (mc_per_file C - rq_off q) \<and> rq_off q + rq_len q \<le> mf_off p ! f)"

definition many_core :: "many_call \<Rightarrow> (nat \<times> request) multiset \<Rightarrow> (nat \<Rightarrow> disk) \<Rightarrow> many \<Rightarrow> bool" where
  "many_core C Q d p \<longleftrightarrow> cursor_ok C p
     \<and> mset (mf_free p) + image_mset (\<lambda>(f, q). rq_slot q) Q = mset [0..<mc_qd C]
     \<and> (\<forall>fq. fq \<in># Q \<longrightarrow> many_req C p fq)
     \<and> (\<forall>f < mc_nfiles C. \<forall>v. mc_block C * v < mf_off p ! f \<longrightarrow> block_queued C Q f v \<or> block_there C d f v)
     \<and> mf_written p + \<Sum>\<^sub># (image_mset (\<lambda>(f, q). rq_len q) Q) = sum_list (mf_off p)
     \<and> mf_inflight p = size Q"

lemma cursor_ok_other [simp]:
  "cursor_ok C (p\<lparr>mf_free := a\<rparr>) = cursor_ok C p" "cursor_ok C (p\<lparr>mf_inflight := b\<rparr>) = cursor_ok C p"
  "cursor_ok C (p\<lparr>mf_written := b\<rparr>) = cursor_ok C p"
  by (simp_all add: cursor_ok_def)

lemma fresh_many_core: "many_ok C \<Longrightarrow> many_core C {#} d (fresh_many C)"
  by (simp add: many_core_def cursor_ok_def fresh_many_def offset_at_def visits_def many_ok_def
      sum_list_replicate filter_replicate map_replicate)

lemma slots_below: "many_core C Q d p \<Longrightarrow> (f, q) \<in># Q \<Longrightarrow> rq_slot q < mc_qd C"
proof -
  assume core: "many_core C Q d p" and q: "(f, q) \<in># Q"
  have "rq_slot q \<in># image_mset (\<lambda>(f, q). rq_slot q) Q" using q by force
  then have "rq_slot q \<in># mset [0..<mc_qd C]" using core by (metis many_core_def union_iff)
  then show ?thesis by simp
qed

lemma queue_block_core:
  assumes C: "many_ok C" and core: "many_core C Q d p" and found: "found_block C p p1 f" and free: "mf_free p = slot # rest"
  shows "many_core C (add_mset (f, write_request slot (mf_off p ! f) (block_of C p f)) Q) d
    (p1\<lparr>mf_free := rest, mf_inflight := mf_inflight p1 + 1\<rparr>)"
proof -
  let ?w = "write_request slot (mf_off p ! f) (block_of C p f)" and ?Q = "add_mset (f, write_request slot (mf_off p ! f) (block_of C p f)) Q"
  let ?p = "p1\<lparr>mf_free := rest, mf_inflight := mf_inflight p1 + 1\<rparr>"
  have f: "f < length (mf_off p)" "f < mc_nfiles C" using core found by (auto simp: many_core_def cursor_ok_def found_block_def)
  have off: "mf_off ?p = (mf_off p)[f := mf_off p ! f + block_of C p f]" using found by (simp add: found_block_def)
  then have mono: "mf_off p ! g \<le> mf_off ?p ! g" for g by (cases "g = f") (use f in auto)
  have old: "many_req C ?p (g, q)" if "(g, q) \<in># Q" for g q
    using core that mono [of g] unfolding many_core_def many_req_def by fastforce
  have new: "many_req C ?p (f, ?w)" using found f off by (auto simp: many_req_def found_block_def block_of_def)
  have cov: "block_queued C ?Q g v \<or> block_there C d g v" if "g < mc_nfiles C" "mc_block C * v < mf_off ?p ! g" for g v
  proof (cases "mc_block C * v < mf_off p ! g")
    case True
    then show ?thesis using core that(1) unfolding many_core_def block_queued_def by fastforce
  next
    case False
    then have gf: "g = f" using that(2) off by (metis nth_list_update_neq)
    obtain u where u: "mf_off p ! f = mc_block C * u" using found by (auto simp: found_block_def)
    have "mc_block C * v < mc_block C * u + mc_block C"
      using that(2) off gf f(1) u by (simp add: block_of_def)
    then have "mc_block C * v < mc_block C * Suc u" by simp
    then have "v < Suc u" by (simp only: mult_less_cancel1)
    moreover have "u \<le> v" using False gf u C by (simp add: many_ok_def)
    ultimately have "v = u" by simp
    then show ?thesis using u gf unfolding block_queued_def by (intro disjI1 exI [of _ ?w]) simp
  qed
  have "sum_list (mf_off ?p) = sum_list (mf_off p) + block_of C p f"
    unfolding off using f(1) by (simp add: sum_list_update)
  then show ?thesis
    using core found free old new cov unfolding many_core_def found_block_def by auto
qed

lemma queue_blocks_core:
  "many_ok C \<Longrightarrow> many_core C Q d p \<Longrightarrow> \<forall>n. sqe n \<Longrightarrow> queue_blocks C sqe n p = (p', qs)
    \<Longrightarrow> many_core C (Q + mset qs) d p' \<and> mf_written p' = mf_written p
      \<and> (mf_free p \<noteq> [] \<and> mf_done_files p < mc_nfiles C \<longrightarrow> qs \<noteq> [])"
proof (induction "mf_free p" arbitrary: n p Q p' qs)
  case Nil
  show ?case using Nil.hyps [symmetric] Nil.prems(2,4) by (simp add: queue_blocks.simps [of C sqe n p])
next
  case (Cons slot rest)
  note free = Cons.hyps(2) [symmetric]
  show ?case
  proof (cases "mc_nfiles C \<le> mf_done_files p")
    case True
    then show ?thesis using Cons.prems(2,4) by (auto simp: queue_blocks.simps [of C sqe n p])
  next
    case False
    have "cursor_ok C p" using Cons.prems(2) by (simp add: many_core_def)
    from find_block_works [OF Cons.prems(1) this] obtain f p1 where find:
      "find_block C (mc_nfiles C) p = (p1, Some (f, mf_off p ! f, block_of C p f))" "found_block C p p1 f"
      using False by auto
    let ?w = "(f, write_request slot (mf_off p ! f) (block_of C p f))"
    let ?p = "p1\<lparr>mf_free := rest, mf_inflight := mf_inflight p1 + 1\<rparr>"
    have free1: "mf_free p1 = slot # rest" using find(2) free by (simp add: found_block_def)
    obtain p2 qs2 where r: "queue_blocks C sqe (Suc n) ?p = (p2, qs2)" by (cases "queue_blocks C sqe (Suc n) ?p")
    have eq: "p' = p2" "qs = ?w # qs2"
      using spec [OF Cons.prems(3), of n] Cons.prems(4) False find(1) r free1 free
      by (auto simp: queue_blocks.simps [of C sqe n p] Let_def)
    have core: "many_core C (add_mset ?w Q) d ?p" using queue_block_core [OF Cons.prems(1,2) find(2) free] .
    have "mf_written ?p = mf_written p" using find(2) by (simp add: found_block_def)
    then show ?thesis
      using Cons.hyps(1) [OF _ Cons.prems(1) core Cons.prems(3) r] eq by simp
  qed
qed

subsection \<open>Completions\<close>

lemma letters_sel [simp]: "length (letters i n) = n" "k < n \<Longrightarrow> letters i n ! k = word_of_nat (97 + (i + k) mod 2 ^ 32 mod 26)"
  by (simp_all add: letters_def)

lemma sum_remove: "x \<in># Q \<Longrightarrow> \<Sum>\<^sub># (image_mset g Q) = \<Sum>\<^sub># (image_mset g (Q - {#x#})) + g x" for g :: "'a \<Rightarrow> nat"
  by (metis add.commute image_mset_add_mset insert_DiffM sum_mset.add_mset)

lemma in_remove: "x \<in># Q \<Longrightarrow> x \<noteq> y \<Longrightarrow> x \<in># Q - {#y#}"
  by (simp add: in_diff_count)

lemma disjoint_blocks:
  assumes "b * u + k = b * v + l" "k < b" "l < b" shows "u = v \<and> k = (l :: nat)"
proof -
  have "(b * u + k) div b = u" "(b * v + l) div b = v" using assms(2,3) by simp_all
  then have "u = v" using assms(1) by simp
  then show ?thesis using assms(1) by simp
qed

lemma put_block_there:
  assumes C: "many_ok C" and req: "many_req C p (f, q)" and slot: "rq_slot q < mc_qd C" and v: "rq_off q = mc_block C * v"
  shows "block_there C (put_block C d ((f, q), rq_len q)) f v"
    "block_there C d g u \<Longrightarrow> block_there C (put_block C d ((f, q), rq_len q)) g u"
proof -
  let ?b = "mc_block C" and ?d = "put_block C d ((f, q), rq_len q)"
  have len: "rq_len q = min ?b (mc_per_file C - rq_off q)" using req by (auto simp: many_req_def)
  have new: "?d f (?b * v + k) = Some (letters (rq_slot q) ?b ! k)" if "k < ?b" "?b * v + k < mc_per_file C" for k
  proof -
    have "k < rq_len q" unfolding len v using that by auto
    then show ?thesis using that v by (simp add: put_block_def write_at_def)
  qed
  then show there: "block_there C ?d f v" using slot by (auto simp: block_there_def)
  assume old: "block_there C d g u"
  show "block_there C ?d g u"
  proof (cases "g = f \<and> u = v")
    case False
    have "?d g (?b * u + k) = d g (?b * u + k)" if "k < ?b" for k
    proof -
      have "\<not> (g = f \<and> rq_off q \<le> ?b * u + k \<and> ?b * u + k < rq_off q + rq_len q)"
      proof
        assume in_range: "g = f \<and> rq_off q \<le> ?b * u + k \<and> ?b * u + k < rq_off q + rq_len q"
        then obtain l where "?b * u + k = ?b * v + l" "l < ?b" using v len by (metis le_Suc_ex min.strict_boundedE
              nat_add_left_cancel_less)
        then show False using disjoint_blocks [of ?b u k v l] that False in_range by simp
      qed
      then show ?thesis using len by (auto simp: put_block_def write_at_def)
    qed
    then show ?thesis using old by (auto simp: block_there_def)
  qed (use there in simp)
qed

abbreviation wrote :: "request \<Rightarrow> many \<Rightarrow> many" where
  "wrote q p \<equiv> p\<lparr>mf_written := mf_written p + rq_len q, mf_inflight := mf_inflight p - 1,
     mf_free := rq_slot q # mf_free p\<rparr>"

lemma put_block_core:
  assumes C: "many_ok C" and core: "many_core C Q d p" and q: "(f, q) \<in># Q"
  shows "many_core C (Q - {#(f, q)#}) (put_block C d ((f, q), rq_len q)) (wrote q p)"
proof -
  let ?Q = "Q - {#(f, q)#}" and ?d = "put_block C d ((f, q), rq_len q)"
  have req: "many_req C p (f, q)" using core q by (auto simp: many_core_def)
  obtain v where v: "rq_off q = mc_block C * v" using req by (auto simp: many_req_def)
  note there = put_block_there [OF C req slots_below [OF core q] v, of d]
  have cov: "block_queued C ?Q g u \<or> block_there C ?d g u" if "g < mc_nfiles C" "mc_block C * u < mf_off p ! g" for g u
  proof (cases "(f, q) = (g, q) \<and> rq_off q = mc_block C * u")
    case True
    then have "u = v" using v C by (simp add: many_ok_def)
    then show ?thesis using there(1) True by simp
  next
    case False
    have "block_queued C Q g u \<or> block_there C d g u" using core that by (simp add: many_core_def)
    moreover have "block_queued C Q g u \<Longrightarrow> block_queued C ?Q g u"
      using False unfolding block_queued_def by (metis in_remove prod.inject)
    ultimately show ?thesis using there(2) by blast
  qed
  have reqs: "many_req C (wrote q p) fq" if "fq \<in># ?Q" for fq
    using core in_diffD [OF that] by (auto simp: many_core_def many_req_def)
  have sz: "size Q = Suc (size ?Q)" using q by (metis size_Suc_Diff1)
  have im: "image_mset (\<lambda>(f, q). rq_slot q) Q = add_mset (rq_slot q) (image_mset (\<lambda>(f, q). rq_slot q) ?Q)"
    using q by (metis (mono_tags, lifting) image_mset_add_mset insert_DiffM case_prod_conv)
  show ?thesis
    using core cov reqs sz im sum_remove [OF q, of "\<lambda>(f, q). rq_len q"] by (simp add: many_core_def)
qed

lemma many_tag:
  assumes "many_ok C" "many_core C Q d p" "(f, q) \<in># Q"
  shows "ud_op (rq_ud q) = 1" "unat (ud_slot (rq_ud q)) = rq_slot q" "rq_slot q < mc_qd C"
proof -
  have "many_req C p (f, q)" using assms(2,3) by (auto simp: many_core_def)
  then have "q = write_request (rq_slot q) (rq_off q) (rq_len q)" unfolding many_req_def case_prod_conv by blast
  then have ud: "rq_ud q = pack_ud 1 (word_of_nat (rq_slot q))" by (metis request_sel(8))
  show "rq_slot q < mc_qd C" using slots_below [OF assms(2,3)] .
  then have "rq_slot q < 2 ^ 32" using assms(1) by (auto simp: many_ok_def)
  then show "ud_op (rq_ud q) = 1" "unat (ud_slot (rq_ud q)) = rq_slot q"
    using slot_of_tag by (simp_all add: ud ud_op_pack)
qed

lemma reap_many_one:
  assumes "many_ok C" "many_core C Q d p" "(f, q) \<in># Q"
  shows "reap_many C (done_block ((f, q), rq_len q) # cs) p = reap_many C cs (wrote q p)"
  using many_tag [OF assms] by (simp add: done_block_def)

lemma reap_many_core:
  "many_ok C \<Longrightarrow> reap_many C (map done_block ds) p = Inr p' \<Longrightarrow> many_core C Q d p
    \<Longrightarrow> mset (map fst ds) \<subseteq># Q \<Longrightarrow> \<forall>((f, q), m) \<in> set ds. m = rq_len q
    \<Longrightarrow> many_core C (Q - mset (map fst ds)) (foldl (put_block C) d ds) p'"
proof (induction ds arbitrary: p Q d)
  case (Cons dq ds)
  obtain f q where dq: "dq = ((f, q), rq_len q)" using Cons.prems(5) by (cases dq) auto
  have q: "(f, q) \<in># Q" using Cons.prems(4) dq by (auto dest: mset_subset_eqD)
  have "reap_many C (map done_block ds) (wrote q p) = Inr p'"
    using Cons.prems(2) reap_many_one [OF Cons.prems(1,3) q] by (simp add: dq)
  moreover have "mset (map fst ds) \<subseteq># Q - {#(f, q)#}"
    using Cons.prems(4) dq by (simp add: insert_subset_eq_iff)
  ultimately show ?case
    using Cons.IH [OF Cons.prems(1) _ put_block_core [OF Cons.prems(1,3) q]] Cons.prems(5) by (simp add: dq)
qed simp

subsection \<open>Rounds\<close>

definition many_inv :: "many_call \<Rightarrow> many_sys \<Rightarrow> bool" where
  "many_inv C s \<longleftrightarrow> many_core C (ms_queue s) (ms_files s) (ms_pipe s)"

lemma reap_many_offsets: "reap_many C cs p = Inr p' \<Longrightarrow> mf_off p' = mf_off p"
proof (induction C cs p rule: reap_many.induct)
  case (2 C ud res cs p)
  then show ?case by (fastforce split: if_splits)
qed simp

lemma many_step_inv:
  assumes C: "many_ok C" and inv: "many_inv C s" and step: "many_step True C s s'"
  shows "many_inv C s' \<and> mf_written (ms_pipe s) < mf_written (ms_pipe s')"
  using step
proof (cases rule: many_step.cases)
  case (round sqe p1 new ds p2)
  let ?Q = "ms_queue s + mset new" and ?D = "mset (map fst ds)" and ?len = "\<lambda>(f, q). rq_len q"
  have queued: "many_core C ?Q (ms_files s) p1" "mf_written p1 = mf_written (ms_pipe s)"
    using queue_blocks_core [OF C _ _ round(3)] inv round(2) by (auto simp: many_inv_def entries_def)
  have served: "?D \<subseteq># ?Q" "ds \<noteq> []" "\<forall>((f, q), m) \<in> set ds. m = rq_len q"
    using round(4) by (auto simp: many_served_def)
  have core: "many_core C (?Q - ?D) (foldl (put_block C) (ms_files s) ds) p2"
    using reap_many_core [OF C round(5) queued(1) served(1,3)] .
  obtain f q m where "((f, q), m) \<in> set ds" using served(2) by (metis list.set_sel(1) surj_pair)
  then have fq: "(f, q) \<in># ?D" by force
  then have "many_req C p1 (f, q)" using queued(1) mset_subset_eqD [OF served(1)] unfolding many_core_def by blast
  then have "0 < ?len (f, q)" using C by (auto simp: many_req_def many_ok_def)
  then have "0 < \<Sum>\<^sub># (image_mset ?len ?D)" using sum_remove [OF fq, of ?len] by simp
  moreover have "\<Sum>\<^sub># (image_mset ?len ?Q) = \<Sum>\<^sub># (image_mset ?len (?Q - ?D)) + \<Sum>\<^sub># (image_mset ?len ?D)"
    using served(1) by (metis image_mset_union subset_mset.diff_add sum_mset.union)
  ultimately have "mf_written p1 < mf_written p2"
    using core queued(1) arg_cong [OF reap_many_offsets [OF round(5)], of sum_list]
    unfolding many_core_def by linarith
  then show ?thesis using core queued(2) by (simp add: round(6) many_inv_def)
qed

lemma many_reach_inv: "many_ok C \<Longrightarrow> many_reach True C s \<Longrightarrow> many_inv C s"
  by (rotate_tac, induction rule: rtranclp_induct) (auto simp: fresh_files_def fresh_many_core many_inv_def dest: many_step_inv)

lemma full_sum:
  "\<forall>x \<in> set xs. x \<le> b \<Longrightarrow> length xs * b \<le> sum_list xs \<Longrightarrow> \<forall>x \<in> set xs. x = b" for b :: nat
proof (induction xs)
  case (Cons x xs)
  have "sum_list xs \<le> length xs * b" using Cons.prems(1) sum_list_mono [of xs "\<lambda>x. x" "\<lambda>_. b"] by (simp add: sum_list_triv)
  then have "x = b" "length xs * b \<le> sum_list xs" using Cons.prems by auto
  then show ?case using Cons by simp
qed simp

lemma offsets_bound: "many_core C Q d p \<Longrightarrow> sum_list (mf_off p) \<le> mc_nfiles C * mc_per_file C"
proof -
  assume "many_core C Q d p"
  then have "length (mf_off p) = mc_nfiles C" "\<forall>x \<in> set (mf_off p). x \<le> mc_per_file C"
    by (auto simp: many_core_def cursor_ok_def in_set_conv_nth)
  then show ?thesis using sum_list_mono [of "mf_off p" "\<lambda>x. x" "\<lambda>_. mc_per_file C"] by (simp add: sum_list_triv)
qed

lemma many_inv_written: "many_inv C s \<Longrightarrow> mf_written (ms_pipe s) \<le> mc_nfiles C * mc_per_file C"
  using offsets_bound [of C "ms_queue s" "ms_files s" "ms_pipe s"] by (simp add: many_inv_def many_core_def)

lemma many_rounds_bound:
  "many_ok C \<Longrightarrow> (many_step True C ^^ n) (fresh_files C) s \<Longrightarrow> many_inv C s \<and> n \<le> mf_written (ms_pipe s)"
proof (induction n arbitrary: s)
  case (Suc n)
  then obtain t where "(many_step True C ^^ n) (fresh_files C) t" "many_step True C t s" by auto
  then show ?case using Suc many_step_inv [of C t s] by fastforce
qed (auto simp: fresh_files_def fresh_many_core many_inv_def)

lemma many_next_round:
  assumes C: "many_ok C" and inv: "many_inv C s" and going: "\<not> many_over C (\<lambda>_. True) (ms_pipe s)"
  shows "\<exists>s'. many_step True C s s'"
proof -
  obtain p1 new where queue: "queue_blocks C (\<lambda>_. True) 0 (ms_pipe s) = (p1, new)"
    by (cases "queue_blocks C (\<lambda>_. True) 0 (ms_pipe s)")
  let ?Q = "ms_queue s + mset new"
  have core: "many_core C ?Q (ms_files s) p1"
    using queue_blocks_core [OF C _ _ queue] inv by (simp add: many_inv_def)
  then have "?Q \<noteq> {#}" using going queue by (auto simp: many_over_def many_core_def)
  then obtain f q where q: "(f, q) \<in># ?Q" by (metis multiset_nonemptyE surj_pair)
  have "many_step True C s \<lparr>ms_pipe = wrote q p1, ms_queue = ?Q - mset (map fst [((f, q), rq_len q)]),
      ms_files = foldl (put_block C) (ms_files s) [((f, q), rq_len q)]\<rparr>"
  proof (rule many_step.round [OF _ _ queue _ _ refl])
    show "many_on C (ms_pipe s)" using going by (simp add: many_over_def)
    show "entries True (\<lambda>_. True)" by (simp add: entries_def)
    show "many_served True ?Q [((f, q), rq_len q)]" using q by (simp add: many_served_def)
    show "reap_many C (map done_block [((f, q), rq_len q)]) p1 = Inr (wrote q p1)"
      using reap_many_one [OF C core q] by simp
  qed
  then show ?thesis by blast
qed

lemma many_finishes:
  "many_ok C \<Longrightarrow> many_inv C s \<Longrightarrow> \<exists>t. (many_step True C)\<^sup>*\<^sup>* s t \<and> many_over C (\<lambda>_. True) (ms_pipe t)"
proof (induction "mc_nfiles C * mc_per_file C - mf_written (ms_pipe s)" arbitrary: s rule: less_induct)
  case less
  show ?case
  proof (cases "many_over C (\<lambda>_. True) (ms_pipe s)")
    case False
    then obtain s' where s': "many_step True C s s'" using many_next_round [OF less.prems] by auto
    note inv = many_step_inv [OF less.prems s']
    then have "mf_written (ms_pipe s') \<le> mc_nfiles C * mc_per_file C" by (simp add: many_inv_written)
    then obtain t where "(many_step True C)\<^sup>*\<^sup>* s' t" "many_over C (\<lambda>_. True) (ms_pipe t)"
      using less.hyps [of s'] less.prems(1) inv by force
    then show ?thesis using s' by (meson converse_rtranclp_into_rtranclp)
  qed auto
qed

text \<open>When the loop is over nothing is in flight and every file has its full length.\<close>

lemma over_complete:
  assumes C: "many_ok C" and inv: "many_inv C s" and over: "many_over C sqe (ms_pipe s)" and sqe: "\<forall>n. sqe n"
  shows "ms_queue s = {#}" "mf_written (ms_pipe s) = mc_nfiles C * mc_per_file C"
    "\<forall>f < mc_nfiles C. mf_off (ms_pipe s) ! f = mc_per_file C"
proof -
  let ?p = "ms_pipe s"
  have core: "many_core C (ms_queue s) (ms_files s) ?p" using inv by (simp add: many_inv_def)
  have cur: "length (mf_off ?p) = mc_nfiles C" "\<forall>f < mc_nfiles C. mf_off ?p ! f \<le> mc_per_file C"
    using core by (auto simp: many_core_def cursor_ok_def)
  show full: "\<forall>f < mc_nfiles C. mf_off ?p ! f = mc_per_file C" and "ms_queue s = {#}"
  proof -
    obtain p1 new where queue: "queue_blocks C sqe 0 ?p = (p1, new)" by (cases "queue_blocks C sqe 0 ?p")
    note q = queue_blocks_core [OF C core sqe queue]
    consider "\<not> many_on C ?p" | "mf_inflight p1 = 0" using over queue by (auto simp: many_over_def)
    then have "(\<forall>f < mc_nfiles C. mf_off ?p ! f = mc_per_file C) \<and> ms_queue s = {#}"
    proof cases
      case 1
      then have e: "ms_queue s = {#}" "mc_nfiles C * mc_per_file C \<le> sum_list (mf_off ?p)"
        using core C by (auto simp: many_on_def many_core_def all_bytes_def many_ok_def mult.commute)
      then have "\<forall>x \<in> set (mf_off ?p). x = mc_per_file C"
        using cur by (intro full_sum) (auto simp: in_set_conv_nth)
      then show ?thesis using e(1) cur(1) by simp
    next
      case 2
      then have e: "ms_queue s = {#}" "new = []" using q by (auto simp: many_core_def)
      then have "mset (mf_free ?p) = mset [0..<mc_qd C]" using core by (simp add: many_core_def)
      then have "size (mset (mf_free ?p)) = mc_qd C" by simp
      then have "mf_free ?p \<noteq> []" using C by (auto simp: many_ok_def)
      then have "mc_nfiles C \<le> mf_done_files ?p" using q e(2) by auto
      then have "length (mf_done ?p) \<le> length (filter id (mf_done ?p))"
        using core cur(1) by (simp add: many_core_def cursor_ok_def)
      then have "filter id (mf_done ?p) = mf_done ?p"
        by (metis filter_id_conv leD length_filter_less)
      then have "\<forall>x \<in> set (mf_off ?p). x = mc_per_file C"
        using core by (simp add: many_core_def cursor_ok_def filter_id_conv)
      then show ?thesis using e(1) cur(1) by simp
    qed
    then show "\<forall>f < mc_nfiles C. mf_off ?p ! f = mc_per_file C" "ms_queue s = {#}" by blast+
  qed
  have "map (\<lambda>f. mf_off ?p ! f) [0..<mc_nfiles C] = map (\<lambda>_. mc_per_file C) [0..<mc_nfiles C]" using full by simp
  then have "mf_off ?p = replicate (mc_nfiles C) (mc_per_file C)" using cur(1) by (metis map_nth map_replicate_const length_upt diff_zero)
  then show "mf_written ?p = mc_nfiles C * mc_per_file C"
    using core \<open>ms_queue s = {#}\<close> by (simp add: many_core_def sum_list_replicate)
qed

subsection \<open>Properties\<close>

text \<open>Three files of one MiB in blocks of half a MiB, with two slots.\<close>

definition three_files :: many_call where
  "three_files = \<lparr>mc_nfiles = 3, mc_per_file = mib 1, mc_block = 524288, mc_qd = 2\<rparr>"

lemma three_files_sel:
  "many_ok three_files" "mc_per_file three_files = 1048576" "mc_block three_files = 524288"
  "mc_nfiles three_files = 3" "mc_qd three_files = 2"
  by (simp_all add: many_ok_def nblocks_def three_files_def mib_def)

lemma offset_near:
  assumes "f < mc_nfiles C" "g < mc_nfiles C"
  shows "offset_at C rr f \<le> offset_at C rr g + mc_block C"
proof -
  have "rr + mc_nfiles C - 1 - f \<le> rr + mc_nfiles C - 1 - g + mc_nfiles C" using assms by linarith
  then have "visits C rr f \<le> (rr + mc_nfiles C - 1 - g + mc_nfiles C) div mc_nfiles C"
    unfolding visits_def by (rule div_le_mono)
  also have "\<dots> = visits C rr g + 1" unfolding visits_def using assms by (intro div_add_self2) simp
  finally have "mc_block C * visits C rr f \<le> mc_block C * (visits C rr g + 1)" by (rule mult_le_mono2)
  then show ?thesis by (auto simp: offset_at_def)
qed

lemma block_of_file:
  assumes "block_there C d f v" "mc_block C * v < mc_per_file C"
  shows "\<exists>slot < mc_qd C. take (mc_block C) (drop (mc_block C * v) (file_of (mc_per_file C) (d f)))
    = take (mc_per_file C - mc_block C * v) (letters slot (mc_block C))"
proof -
  obtain slot where slot: "slot < mc_qd C" "\<forall>k < mc_block C. mc_block C * v + k < mc_per_file C
      \<longrightarrow> d f (mc_block C * v + k) = Some (letters slot (mc_block C) ! k)"
    using assms(1) by (auto simp: block_there_def)
  show ?thesis
    using slot assms(2) by (intro exI [of _ slot] conjI nth_equalityI) (auto simp: file_of_def less_diff_conv add.commute)
qed

lemma many_end_synced: "\<forall>r \<in> set rs. 0 \<le> r \<Longrightarrow> many_end sync rs p = int (mf_written p)"
  by (induction sync rs p rule: many_end.induct) auto

text \<open>
  C4: Writing many files writes all of them.  When the loop ends, with a kernel that writes each request in
  full, in any order and any batches, and the files can be synced, the number of all bytes is
  returned, and every block of every file holds the letters of one of the buffers.
\<close>

theorem many_files_are_written:
  assumes "many_ok C" "many_reach True C s" "many_over C (\<lambda>_. True) (ms_pipe s)" "\<forall>r \<in> set syncs. 0 \<le> r"
  shows "many_end do_fsync syncs (ms_pipe s) = int (mc_nfiles C * mc_per_file C)
    \<and> (\<forall>f < mc_nfiles C. \<forall>v. mc_block C * v < mc_per_file C \<longrightarrow> (\<exists>slot < mc_qd C.
        take (mc_block C) (drop (mc_block C * v) (file_of (mc_per_file C) (ms_files s f)))
        = take (mc_per_file C - mc_block C * v) (letters slot (mc_block C))))"
proof -
  have inv: "many_inv C s" using many_reach_inv assms(1,2) .
  note over = over_complete [OF assms(1) inv assms(3)]
  have "block_there C (ms_files s) f v" if "f < mc_nfiles C" "mc_block C * v < mc_per_file C" for f v
    using inv over(1,3) that by (auto simp: many_inv_def many_core_def block_queued_def)
  then have "\<exists>slot < mc_qd C. take (mc_block C) (drop (mc_block C * v) (file_of (mc_per_file C) (ms_files s f)))
        = take (mc_per_file C - mc_block C * v) (letters slot (mc_block C))"
    if "f < mc_nfiles C" "mc_block C * v < mc_per_file C" for f v
    using that block_of_file by blast
  then show ?thesis using over(2) many_end_synced [OF assms(4)] by auto
qed

lemma many_files_are_written_witness:
  "\<exists>s :: many_sys. \<exists>slot < 2. take 524288 (drop 524288 (file_of 1048576 (ms_files s 2))) = letters slot 524288"
proof -
  obtain s where s: "many_reach True three_files s" "many_over three_files (\<lambda>_. True) (ms_pipe s)"
    using many_finishes [OF three_files_sel(1), of "fresh_files three_files"] fresh_many_core [OF three_files_sel(1)]
    by (auto simp: many_inv_def fresh_files_def)
  have "\<forall>r \<in> set ([] :: int list). 0 \<le> r" by simp
  note written = many_files_are_written [OF three_files_sel(1) s this, unfolded three_files_sel]
  have "\<exists>slot < 2. take 524288 (drop (524288 * 1) (file_of 1048576 (ms_files s 2)))
      = take (1048576 - 524288 * 1) (letters slot 524288)"
    by (rule conjunct2 [OF written, rule_format]) simp_all
  then show ?thesis by auto
qed

text \<open>
  C15: Writing many files always ends: no more rounds than bytes can be made, and the loop reaches its end from
  every reachable state.
\<close>

theorem many_files_end:
  assumes "many_ok C"
  shows "((many_step True C ^^ n) (fresh_files C) s \<longrightarrow> n \<le> mc_nfiles C * mc_per_file C)
    \<and> (many_reach True C t \<longrightarrow> (\<exists>t'. (many_step True C)\<^sup>*\<^sup>* t t' \<and> many_over C (\<lambda>_. True) (ms_pipe t')))"
  using many_rounds_bound [OF assms, of n s] many_inv_written [of C s] many_reach_inv [OF assms, of t]
    many_finishes [OF assms, of t] by force

lemma many_files_end_witness:
  "\<exists>t. (many_step True three_files)\<^sup>*\<^sup>* (fresh_files three_files) t \<and> many_over three_files (\<lambda>_. True) (ms_pipe t)"
  using many_files_end [OF three_files_sel(1), of 0 "fresh_files three_files" "fresh_files three_files"] by blast

text \<open>
  C25: The writer spreads its work and shares no buffer.  At every moment any two files are at most one block
  apart, and every slot is either free or lent to exactly one write in flight.
\<close>

theorem files_grow_evenly:
  assumes "many_ok C" "many_reach True C s"
  shows "(\<forall>f < mc_nfiles C. \<forall>g < mc_nfiles C. mf_off (ms_pipe s) ! f \<le> mf_off (ms_pipe s) ! g + mc_block C)
    \<and> mset (mf_free (ms_pipe s)) + image_mset (\<lambda>(f, q). rq_slot q) (ms_queue s) = mset [0..<mc_qd C]"
proof -
  have core: "many_core C (ms_queue s) (ms_files s) (ms_pipe s)"
    using many_reach_inv [OF assms] by (simp add: many_inv_def)
  have "mf_off (ms_pipe s) ! f \<le> mf_off (ms_pipe s) ! g + mc_block C" if "f < mc_nfiles C" "g < mc_nfiles C" for f g
    using core that offset_near [OF that] by (auto simp: many_core_def cursor_ok_def)
  then show ?thesis using core by (simp add: many_core_def)
qed

lemma files_grow_evenly_witness:
  "mf_off (ms_pipe (fresh_files three_files)) ! 0 \<le> mf_off (ms_pipe (fresh_files three_files)) ! 2 + 524288"
proof -
  have "many_reach True three_files (fresh_files three_files)" by simp
  from files_grow_evenly [OF three_files_sel(1) this] show ?thesis unfolding three_files_sel by force
qed

text \<open>
  A block for which the ring has no entry is lost: the file has already been moved past it when the
  slot goes back.  One file of one MiB in two blocks: the loop ends with half the file, and returns
  its size without an error.
\<close>

theorem block_without_entry_is_lost:
  "\<exists>s. many_reach False \<lparr>mc_nfiles = 1, mc_per_file = mib 1, mc_block = 524288, mc_qd = 2\<rparr> s
     \<and> many_over \<lparr>mc_nfiles = 1, mc_per_file = mib 1, mc_block = 524288, mc_qd = 2\<rparr> (\<lambda>_. True) (ms_pipe s)
     \<and> many_end True [0] (ms_pipe s) = 524288 \<and> ms_files s 0 524288 = None"
proof -
  let ?C = "\<lparr>mc_nfiles = 1, mc_per_file = mib 1, mc_block = 524288, mc_qd = 2\<rparr>"
  let ?q = "write_request 1 0 524288"
  let ?p1 = "\<lparr>mf_off = [1048576], mf_done = [True], mf_free = [0], mf_inflight = 1, mf_written = 0,
      mf_done_files = 1, mf_rr = 2\<rparr>"
  let ?p2 = "\<lparr>mf_off = [1048576], mf_done = [True], mf_free = [1, 0], mf_inflight = 0, mf_written = 524288,
      mf_done_files = 1, mf_rr = 2\<rparr>"
  let ?ds = "[((0 :: nat, ?q), 524288 :: nat)]"
  let ?s = "\<lparr>ms_pipe = ?p2, ms_queue = ms_queue (fresh_files ?C) + mset [(0, ?q)] - mset (map fst ?ds),
      ms_files = foldl (put_block ?C) (ms_files (fresh_files ?C)) ?ds\<rparr>"
  have slots: "rev [0..<2] = [1, 0 :: nat]" by (simp add: upt_rec)
  have queue: "queue_blocks ?C (\<lambda>n. n = 0) 0 (ms_pipe (fresh_files ?C)) = (?p1, [(0, ?q)])"
    by (simp add: queue_blocks.simps fresh_files_def fresh_many_def mib_def mark_done_def Let_def
        slots)
  have "many_step False ?C (fresh_files ?C) ?s"
  proof (rule many_step.round [OF _ _ queue _ _ refl])
    show "many_on ?C (ms_pipe (fresh_files ?C))"
      by (simp add: many_on_def fresh_files_def fresh_many_def all_bytes_def mib_def)
    show "entries False (\<lambda>n. n = 0)" by (simp add: entries_def)
    show "many_served False (ms_queue (fresh_files ?C) + mset [(0, ?q)]) ?ds"
      by (simp add: many_served_def fresh_files_def)
    show "reap_many ?C (map done_block ?ds) ?p1 = Inr ?p2"
      by (simp add: done_block_def ud_op_pack ud_slot_pack)
  qed
  then have "many_reach False ?C ?s" by blast
  moreover have "many_over ?C (\<lambda>_. True) ?p2" by (simp add: many_over_def queue_blocks.simps)
  ultimately show ?thesis
    by (intro exI [of _ ?s]) (simp add: put_block_def write_at_def fresh_files_def)
qed

end
