(* ===== verification/Sync_Wrappers.thy ===== *)
theory Sync_Wrappers
  imports Async_Ring
begin

unbundle bit_operations_syntax

text \<open>
  The synchronous part of the native library (\<open>csrc/uring_wrap.c\<close>, lines 26 to 273, 1414 to 2061 and
  2118 to 2623): creating and probing a ring, and the functions that prepare a request, submit it and
  return the result of the next completion, over the record of liburing functions of the
  theory \<open>Async_Ring\<close>.  A parameter is the C value the caller passes.
\<close>

subsection \<open>The ring\<close>

record ring_params =
  rp_flags :: int
  rp_sq_thread_cpu :: int
  rp_sq_thread_idle :: int

text \<open>
  \<open>init\<close> is \<open>io_uring_queue_init_params\<close>.  The result is the errno of a NULL return, or the
  entries and the parameters of the ring.
\<close>

(* csrc/uring_wrap.c:37-61 uring_create_ex *)
definition uring_create_ex_c ::
  "(int \<Rightarrow> ring_params \<Rightarrow> int) \<Rightarrow> bool \<Rightarrow> int \<Rightarrow> int \<Rightarrow> int \<Rightarrow> int \<Rightarrow> int + (int \<times> ring_params)" where
  "uring_create_ex_c init allocated entries flags sq_thread_cpu sq_thread_idle =
     (if \<not> allocated then Inl ENOMEM
      else let p = \<lparr>rp_flags = flags,
                 rp_sq_thread_cpu = (if sq_thread_cpu \<ge> 0 then take_bit 32 sq_thread_cpu else 0),
                 rp_sq_thread_idle = (if sq_thread_idle > 0 \<or> flags AND 2 \<noteq> 0 then sq_thread_idle else 0)\<rparr>;
               ret = init entries p
           in if ret < 0 then Inl (- ret) else Inr (entries, p))"

(* csrc/uring_wrap.c:34-34 uring_create *)
definition uring_create_c :: "(int \<Rightarrow> ring_params \<Rightarrow> int) \<Rightarrow> bool \<Rightarrow> int \<Rightarrow> int + (int \<times> ring_params)" where
  "uring_create_c init allocated entries = uring_create_ex_c init allocated entries 0 (- 1) 0"

(* csrc/uring_wrap.c:63-69 uring_destroy *)
definition uring_destroy_c :: "('k \<Rightarrow> 'k) \<Rightarrow> cval \<Rightarrow> 'k \<Rightarrow> 'k" where
  "uring_destroy_c queue_exit ctx k = (if ctx = CNull then k else queue_exit k)"

(* csrc/uring_wrap.c:72-77 uring_ring_fd *)
definition uring_ring_fd_c :: "int \<Rightarrow> cval \<Rightarrow> int" where
  "uring_ring_fd_c ring_fd ctx = (if ctx = CNull then - EINVAL else ring_fd)"

text \<open>\<open>register\<close> is the liburing function of the same name.\<close>

(* csrc/uring_wrap.c:79-84 uring_register_files *)
definition uring_register_files_c ::
  "(cval \<Rightarrow> int \<Rightarrow> 'k \<Rightarrow> int \<times> 'k) \<Rightarrow> cval \<Rightarrow> cval \<Rightarrow> cval \<Rightarrow> 'k \<Rightarrow> int \<times> 'k" where
  "uring_register_files_c register ctx fds nr k =
     (if ctx = CNull \<or> (fds = CNull \<and> cint nr > 0) then (- EINVAL, k) else register fds (cint nr) k)"

(* csrc/uring_wrap.c:86-91 uring_unregister_files *)
definition uring_unregister_files_c :: "('k \<Rightarrow> int \<times> 'k) \<Rightarrow> cval \<Rightarrow> 'k \<Rightarrow> int \<times> 'k" where
  "uring_unregister_files_c unregister ctx k = (if ctx = CNull then (- EINVAL, k) else unregister k)"

(* csrc/uring_wrap.c:93-98 uring_register_buffers *)
definition uring_register_buffers_c ::
  "(cval \<Rightarrow> int \<Rightarrow> 'k \<Rightarrow> int \<times> 'k) \<Rightarrow> cval \<Rightarrow> cval \<Rightarrow> cval \<Rightarrow> 'k \<Rightarrow> int \<times> 'k" where
  "uring_register_buffers_c register ctx iovecs nr k =
     (if ctx = CNull \<or> (iovecs = CNull \<and> cint nr > 0) then (- EINVAL, k)
      else register iovecs (cint nr) k)"

(* csrc/uring_wrap.c:100-105 uring_unregister_buffers *)
definition uring_unregister_buffers_c :: "('k \<Rightarrow> int \<times> 'k) \<Rightarrow> cval \<Rightarrow> 'k \<Rightarrow> int \<times> 'k" where
  "uring_unregister_buffers_c unregister ctx k = (if ctx = CNull then (- EINVAL, k) else unregister k)"

subsection \<open>Probing\<close>

text \<open>
  What \<open>io_uring_get_probe_ring\<close> returns: the \<open>errno\<close> it leaves, or the last opcode and whether an
  opcode is supported (\<open>io_uring_opcode_supported\<close>, false for a number beyond the last).
\<close>

type_synonym probe_reply = "int + (nat \<times> (int \<Rightarrow> bool))"

definition probe_failed :: "int \<Rightarrow> int" where
  "probe_failed e = (if e \<noteq> 0 then - e else - ENOMEM)"

(* csrc/uring_wrap.c:165-177 uring_probe_opcode_supported *)
definition uring_probe_opcode_supported_c :: "probe_reply \<Rightarrow> cval \<Rightarrow> cval \<Rightarrow> int" where
  "uring_probe_opcode_supported_c probe ctx opcode =
     (if ctx = CNull then - EINVAL
      else case probe of Inl e \<Rightarrow> probe_failed e
        | Inr (last_op, supported) \<Rightarrow> if supported (cint opcode) then 1 else 0)"

text \<open>The second component is what is written through \<open>out\<close>.\<close>

(* csrc/uring_wrap.c:180-199 uring_probe_supported_mask *)
definition uring_probe_supported_mask_c :: "probe_reply \<Rightarrow> cval \<Rightarrow> cval \<Rightarrow> cval \<Rightarrow> int \<times> int list" where
  "uring_probe_supported_mask_c probe ctx out out_cap =
     (if ctx = CNull \<or> out = CNull then (- EINVAL, [])
      else case probe of Inl e \<Rightarrow> (probe_failed e, [])
        | Inr (last_op, supported) \<Rightarrow>
            (let n = last_op + 1
             in if cint out_cap < int n then (- EINVAL, [])
                else (int n, map (\<lambda>i. if supported (int i) then 1 else 0) [0..<n])))"

(* csrc/uring_wrap.c:201-213 uring_probe_last_op *)
definition uring_probe_last_op_c :: "probe_reply \<Rightarrow> cval \<Rightarrow> int" where
  "uring_probe_last_op_c probe ctx =
     (if ctx = CNull then - EINVAL
      else case probe of Inl e \<Rightarrow> probe_failed e | Inr (last_op, supported) \<Rightarrow> int last_op)"

subsection \<open>One request\<close>

(* csrc/uring_wrap.c:1418-1434 uring_submit_wait_one *)
definition uring_submit_wait_one_c :: "'k liburing \<Rightarrow> cval \<Rightarrow> 'k \<Rightarrow> int \<times> 'k" where
  "uring_submit_wait_one_c L ctx k =
     (if ctx = CNull then (- EINVAL, k)
      else case lu_submit L k of (ret, k) \<Rightarrow>
        if ret < 0 then (ret, k)
        else case lu_wait_cqe L k of (ret, cqe, k) \<Rightarrow>
          if ret < 0 then (ret, k) else (cqe_res cqe, lu_cqe_seen L cqe k))"

text \<open>
  What every function below does, once its argument check (\<open>bad\<close>) is passed: take an entry, fill
  it in, submit and wait.
\<close>

definition one_request :: "'k liburing \<Rightarrow> cval \<Rightarrow> bool \<Rightarrow> sqe \<Rightarrow> 'k \<Rightarrow> int \<times> 'k" where
  "one_request L ctx bad q k =
     (if ctx = CNull \<or> bad then (- EINVAL, k)
      else case lu_get_sqe L k of
        (None, k) \<Rightarrow> (- EAGAIN, k)
      | (Some i, k) \<Rightarrow> uring_submit_wait_one_c L ctx (lu_set_sqe L i q k))"

text \<open>An entry filled in by an \<open>io_uring_prep_\<close> function, and its tag; \<open>IOSQE_FIXED_FILE\<close> is 1.\<close>

definition prep :: "string \<Rightarrow> cval list \<Rightarrow> int \<Rightarrow> sqe" where
  "prep f args ud = \<lparr>sqe_kind = K_prep f args, sqe_fd = 0, sqe_buf = CNull, sqe_len = 0, sqe_off = 0,
     sqe_extra = [], sqe_ud = ud\<rparr>"

definition fixed_file :: "sqe \<Rightarrow> sqe" where
  "fixed_file q = q\<lparr>sqe_extra := [1]\<rparr>"

text \<open>The cast to \<open>int\<close>.\<close>

fun as_int :: "cval \<Rightarrow> cval" where
  "as_int (CInt n) = CInt (signed_take_bit 31 n)"
| "as_int v = v"

subsection \<open>Files with registered buffers, reads and writes\<close>

text \<open>These four have the body of \<open>uring_submit_wait_one\<close> written out.\<close>

(* csrc/uring_wrap.c:108-134 uring_read_fixed_sync *)
definition uring_read_fixed_sync_c ::
  "'k liburing \<Rightarrow> cval \<Rightarrow> cval \<Rightarrow> cval \<Rightarrow> cval \<Rightarrow> cval \<Rightarrow> cval \<Rightarrow> 'k \<Rightarrow> int \<times> 'k" where
  "uring_read_fixed_sync_c L ctx file_index buf len offset buf_index =
     one_request L ctx False
       (fixed_file (prep ''io_uring_prep_read_fixed'' [as_int file_index, buf, len, offset, as_int buf_index] 3))"

(* csrc/uring_wrap.c:136-162 uring_write_fixed_sync *)
definition uring_write_fixed_sync_c ::
  "'k liburing \<Rightarrow> cval \<Rightarrow> cval \<Rightarrow> cval \<Rightarrow> cval \<Rightarrow> cval \<Rightarrow> cval \<Rightarrow> 'k \<Rightarrow> int \<times> 'k" where
  "uring_write_fixed_sync_c L ctx file_index buf len offset buf_index =
     one_request L ctx False
       (fixed_file (prep ''io_uring_prep_write_fixed'' [as_int file_index, buf, len, offset, as_int buf_index] 4))"

(* csrc/uring_wrap.c:217-244 uring_read_sync *)
definition uring_read_sync_c ::
  "'k liburing \<Rightarrow> cval \<Rightarrow> cval \<Rightarrow> cval \<Rightarrow> cval \<Rightarrow> cval \<Rightarrow> 'k \<Rightarrow> int \<times> 'k" where
  "uring_read_sync_c L ctx fd buf len offset =
     one_request L ctx False
       \<lparr>sqe_kind = K_read, sqe_fd = cint fd, sqe_buf = buf, sqe_len = cint len,
         sqe_off = cint offset, sqe_extra = [], sqe_ud = 1\<rparr>"

(* csrc/uring_wrap.c:246-273 uring_write_sync *)
definition uring_write_sync_c ::
  "'k liburing \<Rightarrow> cval \<Rightarrow> cval \<Rightarrow> cval \<Rightarrow> cval \<Rightarrow> cval \<Rightarrow> 'k \<Rightarrow> int \<times> 'k" where
  "uring_write_sync_c L ctx fd buf len offset =
     one_request L ctx False
       \<lparr>sqe_kind = K_write, sqe_fd = cint fd, sqe_buf = buf, sqe_len = cint len,
         sqe_off = cint offset, sqe_extra = [], sqe_ud = 2\<rparr>"

subsection \<open>The other operations\<close>

text \<open>
  A \<open>struct msghdr\<close> built on the stack is its two fields; \<open>statx\<close> also clears the buffer first.
\<close>

(* csrc/uring_wrap.c:1436-1447 uring_nop_sync *)
definition uring_nop_sync_c ::
  "'k liburing \<Rightarrow> cval \<Rightarrow> 'k \<Rightarrow> int \<times> 'k" where
  "uring_nop_sync_c L ctx =
     one_request L ctx False (prep ''io_uring_prep_nop'' [] 199)"

(* csrc/uring_wrap.c:1449-1460 uring_readv_sync *)
definition uring_readv_sync_c ::
  "'k liburing \<Rightarrow> cval \<Rightarrow> cval \<Rightarrow> cval \<Rightarrow> cval \<Rightarrow> cval \<Rightarrow> 'k \<Rightarrow> int \<times> 'k" where
  "uring_readv_sync_c L ctx fd iov iovcnt offset =
     one_request L ctx (iov = CNull \<or> cint iovcnt = 0)
       (prep ''io_uring_prep_readv'' [fd, iov, iovcnt, offset] 200)"

(* csrc/uring_wrap.c:1462-1473 uring_writev_sync *)
definition uring_writev_sync_c ::
  "'k liburing \<Rightarrow> cval \<Rightarrow> cval \<Rightarrow> cval \<Rightarrow> cval \<Rightarrow> cval \<Rightarrow> 'k \<Rightarrow> int \<times> 'k" where
  "uring_writev_sync_c L ctx fd iov iovcnt offset =
     one_request L ctx (iov = CNull \<or> cint iovcnt = 0)
       (prep ''io_uring_prep_writev'' [fd, iov, iovcnt, offset] 201)"

(* csrc/uring_wrap.c:1475-1486 uring_openat_sync *)
definition uring_openat_sync_c ::
  "'k liburing \<Rightarrow> cval \<Rightarrow> cval \<Rightarrow> cval \<Rightarrow> cval \<Rightarrow> cval \<Rightarrow> 'k \<Rightarrow> int \<times> 'k" where
  "uring_openat_sync_c L ctx dfd path flags mode =
     one_request L ctx (path = CNull) (prep ''io_uring_prep_openat'' [dfd, path, flags, mode] 202)"

(* csrc/uring_wrap.c:1488-1499 uring_close_sync *)
definition uring_close_sync_c ::
  "'k liburing \<Rightarrow> cval \<Rightarrow> cval \<Rightarrow> 'k \<Rightarrow> int \<times> 'k" where
  "uring_close_sync_c L ctx fd =
     one_request L ctx False (prep ''io_uring_prep_close'' [fd] 203)"

(* csrc/uring_wrap.c:1501-1512 uring_fsync_sync *)
definition uring_fsync_sync_c ::
  "'k liburing \<Rightarrow> cval \<Rightarrow> cval \<Rightarrow> cval \<Rightarrow> 'k \<Rightarrow> int \<times> 'k" where
  "uring_fsync_sync_c L ctx fd fsync_flags =
     one_request L ctx False (prep ''io_uring_prep_fsync'' [fd, fsync_flags] 204)"

(* csrc/uring_wrap.c:1514-1525 uring_fallocate_sync *)
definition uring_fallocate_sync_c ::
  "'k liburing \<Rightarrow> cval \<Rightarrow> cval \<Rightarrow> cval \<Rightarrow> cval \<Rightarrow> cval \<Rightarrow> 'k \<Rightarrow> int \<times> 'k" where
  "uring_fallocate_sync_c L ctx fd mode offset len =
     one_request L ctx False (prep ''io_uring_prep_fallocate'' [fd, mode, offset, len] 205)"

(* csrc/uring_wrap.c:1527-1540 uring_statx_sync *)
definition uring_statx_sync_c ::
  "'k liburing \<Rightarrow> cval \<Rightarrow> cval \<Rightarrow> cval \<Rightarrow> cval \<Rightarrow> cval \<Rightarrow> cval \<Rightarrow> 'k \<Rightarrow> int \<times> 'k" where
  "uring_statx_sync_c L ctx dfd path flags mask' statxbuf =
     one_request L ctx (path = CNull \<or> statxbuf = CNull)
       (prep ''io_uring_prep_statx'' [dfd, path, flags, mask', statxbuf] 206)"

(* csrc/uring_wrap.c:1542-1554 uring_renameat_sync *)
definition uring_renameat_sync_c ::
  "'k liburing \<Rightarrow> cval \<Rightarrow> cval \<Rightarrow> cval \<Rightarrow> cval \<Rightarrow> cval \<Rightarrow> cval \<Rightarrow> 'k \<Rightarrow> int \<times> 'k" where
  "uring_renameat_sync_c L ctx olddfd oldpath newdfd newpath flags =
     one_request L ctx (oldpath = CNull \<or> newpath = CNull)
       (prep ''io_uring_prep_renameat'' [olddfd, oldpath, newdfd, newpath, flags] 207)"

(* csrc/uring_wrap.c:1556-1567 uring_unlinkat_sync *)
definition uring_unlinkat_sync_c ::
  "'k liburing \<Rightarrow> cval \<Rightarrow> cval \<Rightarrow> cval \<Rightarrow> cval \<Rightarrow> 'k \<Rightarrow> int \<times> 'k" where
  "uring_unlinkat_sync_c L ctx dfd path flags =
     one_request L ctx (path = CNull) (prep ''io_uring_prep_unlinkat'' [dfd, path, flags] 208)"

(* csrc/uring_wrap.c:1569-1580 uring_mkdirat_sync *)
definition uring_mkdirat_sync_c ::
  "'k liburing \<Rightarrow> cval \<Rightarrow> cval \<Rightarrow> cval \<Rightarrow> cval \<Rightarrow> 'k \<Rightarrow> int \<times> 'k" where
  "uring_mkdirat_sync_c L ctx dfd path mode =
     one_request L ctx (path = CNull) (prep ''io_uring_prep_mkdirat'' [dfd, path, mode] 209)"

(* csrc/uring_wrap.c:1582-1593 uring_send_sync *)
definition uring_send_sync_c ::
  "'k liburing \<Rightarrow> cval \<Rightarrow> cval \<Rightarrow> cval \<Rightarrow> cval \<Rightarrow> cval \<Rightarrow> 'k \<Rightarrow> int \<times> 'k" where
  "uring_send_sync_c L ctx sockfd buf len flags =
     one_request L ctx (buf = CNull \<and> cint len > 0)
       (prep ''io_uring_prep_send'' [sockfd, buf, len, as_int flags] 210)"

(* csrc/uring_wrap.c:1595-1606 uring_recv_sync *)
definition uring_recv_sync_c ::
  "'k liburing \<Rightarrow> cval \<Rightarrow> cval \<Rightarrow> cval \<Rightarrow> cval \<Rightarrow> cval \<Rightarrow> 'k \<Rightarrow> int \<times> 'k" where
  "uring_recv_sync_c L ctx sockfd buf len flags =
     one_request L ctx (buf = CNull \<and> cint len > 0)
       (prep ''io_uring_prep_recv'' [sockfd, buf, len, as_int flags] 211)"

(* csrc/uring_wrap.c:1608-1619 uring_accept_sync *)
definition uring_accept_sync_c ::
  "'k liburing \<Rightarrow> cval \<Rightarrow> cval \<Rightarrow> cval \<Rightarrow> cval \<Rightarrow> cval \<Rightarrow> 'k \<Rightarrow> int \<times> 'k" where
  "uring_accept_sync_c L ctx fd addr addrlen flags =
     one_request L ctx (addrlen = CNull)
       (prep ''io_uring_prep_accept'' [fd, addr, addrlen, flags] 212)"

(* csrc/uring_wrap.c:1621-1632 uring_connect_sync *)
definition uring_connect_sync_c ::
  "'k liburing \<Rightarrow> cval \<Rightarrow> cval \<Rightarrow> cval \<Rightarrow> cval \<Rightarrow> 'k \<Rightarrow> int \<times> 'k" where
  "uring_connect_sync_c L ctx fd addr addrlen =
     one_request L ctx (addr = CNull) (prep ''io_uring_prep_connect'' [fd, addr, addrlen] 213)"

(* csrc/uring_wrap.c:1634-1645 uring_shutdown_sync *)
definition uring_shutdown_sync_c ::
  "'k liburing \<Rightarrow> cval \<Rightarrow> cval \<Rightarrow> cval \<Rightarrow> 'k \<Rightarrow> int \<times> 'k" where
  "uring_shutdown_sync_c L ctx fd how =
     one_request L ctx False (prep ''io_uring_prep_shutdown'' [fd, how] 214)"

(* csrc/uring_wrap.c:1647-1659 uring_splice_sync *)
definition uring_splice_sync_c ::
  "'k liburing \<Rightarrow> cval \<Rightarrow> cval \<Rightarrow> cval \<Rightarrow> cval \<Rightarrow> cval \<Rightarrow> cval \<Rightarrow> cval \<Rightarrow> 'k \<Rightarrow> int \<times> 'k" where
  "uring_splice_sync_c L ctx fd_in off_in fd_out off_out nbytes splice_flags =
     one_request L ctx False
       (prep ''io_uring_prep_splice'' [fd_in, off_in, fd_out, off_out, nbytes, splice_flags] 215)"

(* csrc/uring_wrap.c:1661-1672 uring_tee_sync *)
definition uring_tee_sync_c ::
  "'k liburing \<Rightarrow> cval \<Rightarrow> cval \<Rightarrow> cval \<Rightarrow> cval \<Rightarrow> cval \<Rightarrow> 'k \<Rightarrow> int \<times> 'k" where
  "uring_tee_sync_c L ctx fd_in fd_out nbytes splice_flags =
     one_request L ctx False
       (prep ''io_uring_prep_tee'' [fd_in, fd_out, nbytes, splice_flags] 228)"

(* csrc/uring_wrap.c:1674-1685 uring_poll_add_sync *)
definition uring_poll_add_sync_c ::
  "'k liburing \<Rightarrow> cval \<Rightarrow> cval \<Rightarrow> cval \<Rightarrow> cval \<Rightarrow> 'k \<Rightarrow> int \<times> 'k" where
  "uring_poll_add_sync_c L ctx fd poll_mask user_data =
     one_request L ctx False (prep ''io_uring_prep_poll_add'' [fd, poll_mask] (cint user_data))"

(* csrc/uring_wrap.c:1687-1698 uring_poll_remove_sync *)
definition uring_poll_remove_sync_c ::
  "'k liburing \<Rightarrow> cval \<Rightarrow> cval \<Rightarrow> 'k \<Rightarrow> int \<times> 'k" where
  "uring_poll_remove_sync_c L ctx target_user_data =
     one_request L ctx False (prep ''io_uring_prep_poll_remove'' [target_user_data] 229)"

(* csrc/uring_wrap.c:1700-1711 uring_symlinkat_sync *)
definition uring_symlinkat_sync_c ::
  "'k liburing \<Rightarrow> cval \<Rightarrow> cval \<Rightarrow> cval \<Rightarrow> cval \<Rightarrow> 'k \<Rightarrow> int \<times> 'k" where
  "uring_symlinkat_sync_c L ctx target newdirfd linkpath =
     one_request L ctx (target = CNull \<or> linkpath = CNull)
       (prep ''io_uring_prep_symlinkat'' [target, newdirfd, linkpath] 230)"

(* csrc/uring_wrap.c:1713-1724 uring_linkat_sync *)
definition uring_linkat_sync_c ::
  "'k liburing \<Rightarrow> cval \<Rightarrow> cval \<Rightarrow> cval \<Rightarrow> cval \<Rightarrow> cval \<Rightarrow> cval \<Rightarrow> 'k \<Rightarrow> int \<times> 'k" where
  "uring_linkat_sync_c L ctx olddfd oldpath newdfd newpath flags =
     one_request L ctx (oldpath = CNull \<or> newpath = CNull)
       (prep ''io_uring_prep_linkat'' [olddfd, oldpath, newdfd, newpath, flags] 231)"

(* csrc/uring_wrap.c:1726-1737 uring_sync_file_range_sync *)
definition uring_sync_file_range_sync_c ::
  "'k liburing \<Rightarrow> cval \<Rightarrow> cval \<Rightarrow> cval \<Rightarrow> cval \<Rightarrow> cval \<Rightarrow> 'k \<Rightarrow> int \<times> 'k" where
  "uring_sync_file_range_sync_c L ctx fd len offset flags =
     one_request L ctx False (prep ''io_uring_prep_sync_file_range'' [fd, len, offset, flags] 232)"

(* csrc/uring_wrap.c:1739-1750 uring_fadvise_sync *)
definition uring_fadvise_sync_c ::
  "'k liburing \<Rightarrow> cval \<Rightarrow> cval \<Rightarrow> cval \<Rightarrow> cval \<Rightarrow> cval \<Rightarrow> 'k \<Rightarrow> int \<times> 'k" where
  "uring_fadvise_sync_c L ctx fd offset len advice =
     one_request L ctx False (prep ''io_uring_prep_fadvise'' [fd, offset, len, advice] 233)"

(* csrc/uring_wrap.c:1752-1763 uring_madvise_sync *)
definition uring_madvise_sync_c ::
  "'k liburing \<Rightarrow> cval \<Rightarrow> cval \<Rightarrow> cval \<Rightarrow> cval \<Rightarrow> 'k \<Rightarrow> int \<times> 'k" where
  "uring_madvise_sync_c L ctx addr length' advice =
     one_request L ctx (addr = CNull \<or> cint length' = 0)
       (prep ''io_uring_prep_madvise'' [addr, length', advice] 234)"

(* csrc/uring_wrap.c:1765-1776 uring_async_cancel_fd_sync *)
definition uring_async_cancel_fd_sync_c ::
  "'k liburing \<Rightarrow> cval \<Rightarrow> cval \<Rightarrow> cval \<Rightarrow> 'k \<Rightarrow> int \<times> 'k" where
  "uring_async_cancel_fd_sync_c L ctx fd flags =
     one_request L ctx False (prep ''io_uring_prep_cancel_fd'' [fd, flags] 235)"

(* csrc/uring_wrap.c:1778-1793 uring_sendmsg_iov_sync *)
definition uring_sendmsg_iov_sync_c ::
  "'k liburing \<Rightarrow> cval \<Rightarrow> cval \<Rightarrow> cval \<Rightarrow> cval \<Rightarrow> cval \<Rightarrow> 'k \<Rightarrow> int \<times> 'k" where
  "uring_sendmsg_iov_sync_c L ctx fd iov iovcnt flags =
     one_request L ctx (iov = CNull \<or> cint iovcnt = 0)
       (prep ''io_uring_prep_sendmsg'' [fd, iov, as_int iovcnt, flags] 236)"

(* csrc/uring_wrap.c:1795-1810 uring_recvmsg_iov_sync *)
definition uring_recvmsg_iov_sync_c ::
  "'k liburing \<Rightarrow> cval \<Rightarrow> cval \<Rightarrow> cval \<Rightarrow> cval \<Rightarrow> cval \<Rightarrow> 'k \<Rightarrow> int \<times> 'k" where
  "uring_recvmsg_iov_sync_c L ctx fd iov iovcnt flags =
     one_request L ctx (iov = CNull \<or> cint iovcnt = 0)
       (prep ''io_uring_prep_recvmsg'' [fd, iov, as_int iovcnt, flags] 237)"

(* csrc/uring_wrap.c:1812-1823 uring_socket_sync *)
definition uring_socket_sync_c ::
  "'k liburing \<Rightarrow> cval \<Rightarrow> cval \<Rightarrow> cval \<Rightarrow> cval \<Rightarrow> cval \<Rightarrow> 'k \<Rightarrow> int \<times> 'k" where
  "uring_socket_sync_c L ctx domain typ protocol flags =
     one_request L ctx False (prep ''io_uring_prep_socket'' [domain, typ, protocol, flags] 238)"

(* csrc/uring_wrap.c:1825-1836 uring_pipe_sync *)
definition uring_pipe_sync_c ::
  "'k liburing \<Rightarrow> cval \<Rightarrow> cval \<Rightarrow> cval \<Rightarrow> 'k \<Rightarrow> int \<times> 'k" where
  "uring_pipe_sync_c L ctx fds pipe_flags =
     one_request L ctx (fds = CNull) (prep ''io_uring_prep_pipe'' [fds, pipe_flags] 239)"

(* csrc/uring_wrap.c:1838-1849 uring_bind_sync *)
definition uring_bind_sync_c ::
  "'k liburing \<Rightarrow> cval \<Rightarrow> cval \<Rightarrow> cval \<Rightarrow> cval \<Rightarrow> 'k \<Rightarrow> int \<times> 'k" where
  "uring_bind_sync_c L ctx fd addr addrlen =
     one_request L ctx (addr = CNull) (prep ''io_uring_prep_bind'' [fd, addr, addrlen] 240)"

(* csrc/uring_wrap.c:1851-1862 uring_listen_sync *)
definition uring_listen_sync_c ::
  "'k liburing \<Rightarrow> cval \<Rightarrow> cval \<Rightarrow> cval \<Rightarrow> 'k \<Rightarrow> int \<times> 'k" where
  "uring_listen_sync_c L ctx fd backlog =
     one_request L ctx False (prep ''io_uring_prep_listen'' [fd, backlog] 241)"

(* csrc/uring_wrap.c:1864-1875 uring_openat2_sync *)
definition uring_openat2_sync_c ::
  "'k liburing \<Rightarrow> cval \<Rightarrow> cval \<Rightarrow> cval \<Rightarrow> cval \<Rightarrow> 'k \<Rightarrow> int \<times> 'k" where
  "uring_openat2_sync_c L ctx dfd path how =
     one_request L ctx (path = CNull \<or> how = CNull)
       (prep ''io_uring_prep_openat2'' [dfd, path, how] 242)"

(* csrc/uring_wrap.c:1877-1888 uring_link_timeout_sync *)
definition uring_link_timeout_sync_c ::
  "'k liburing \<Rightarrow> cval \<Rightarrow> cval \<Rightarrow> cval \<Rightarrow> 'k \<Rightarrow> int \<times> 'k" where
  "uring_link_timeout_sync_c L ctx ts flags =
     one_request L ctx (ts = CNull) (prep ''io_uring_prep_link_timeout'' [ts, flags] 243)"

(* csrc/uring_wrap.c:1890-1901 uring_getxattr_sync *)
definition uring_getxattr_sync_c ::
  "'k liburing \<Rightarrow> cval \<Rightarrow> cval \<Rightarrow> cval \<Rightarrow> cval \<Rightarrow> cval \<Rightarrow> 'k \<Rightarrow> int \<times> 'k" where
  "uring_getxattr_sync_c L ctx name value path len =
     one_request L ctx (name = CNull \<or> value = CNull \<or> path = CNull)
       (prep ''io_uring_prep_getxattr'' [name, value, path, len] 244)"

(* csrc/uring_wrap.c:1903-1915 uring_setxattr_sync *)
definition uring_setxattr_sync_c ::
  "'k liburing \<Rightarrow> cval \<Rightarrow> cval \<Rightarrow> cval \<Rightarrow> cval \<Rightarrow> cval \<Rightarrow> cval \<Rightarrow> 'k \<Rightarrow> int \<times> 'k" where
  "uring_setxattr_sync_c L ctx name value path flags len =
     one_request L ctx (name = CNull \<or> value = CNull \<or> path = CNull)
       (prep ''io_uring_prep_setxattr'' [name, value, path, flags, len] 245)"

(* csrc/uring_wrap.c:1917-1928 uring_fgetxattr_sync *)
definition uring_fgetxattr_sync_c ::
  "'k liburing \<Rightarrow> cval \<Rightarrow> cval \<Rightarrow> cval \<Rightarrow> cval \<Rightarrow> cval \<Rightarrow> 'k \<Rightarrow> int \<times> 'k" where
  "uring_fgetxattr_sync_c L ctx fd name value len =
     one_request L ctx (name = CNull \<or> value = CNull)
       (prep ''io_uring_prep_fgetxattr'' [fd, name, value, len] 246)"

(* csrc/uring_wrap.c:1930-1942 uring_fsetxattr_sync *)
definition uring_fsetxattr_sync_c ::
  "'k liburing \<Rightarrow> cval \<Rightarrow> cval \<Rightarrow> cval \<Rightarrow> cval \<Rightarrow> cval \<Rightarrow> cval \<Rightarrow> 'k \<Rightarrow> int \<times> 'k" where
  "uring_fsetxattr_sync_c L ctx fd name value flags len =
     one_request L ctx (name = CNull \<or> value = CNull)
       (prep ''io_uring_prep_fsetxattr'' [fd, name, value, flags, len] 247)"

(* csrc/uring_wrap.c:1944-1955 uring_epoll_ctl_sync *)
definition uring_epoll_ctl_sync_c ::
  "'k liburing \<Rightarrow> cval \<Rightarrow> cval \<Rightarrow> cval \<Rightarrow> cval \<Rightarrow> cval \<Rightarrow> 'k \<Rightarrow> int \<times> 'k" where
  "uring_epoll_ctl_sync_c L ctx epfd fd op' ev =
     one_request L ctx False (prep ''io_uring_prep_epoll_ctl'' [epfd, fd, op', ev] 248)"

(* csrc/uring_wrap.c:1957-1968 uring_provide_buffers_sync *)
definition uring_provide_buffers_sync_c ::
  "'k liburing \<Rightarrow> cval \<Rightarrow> cval \<Rightarrow> cval \<Rightarrow> cval \<Rightarrow> cval \<Rightarrow> cval \<Rightarrow> 'k \<Rightarrow> int \<times> 'k" where
  "uring_provide_buffers_sync_c L ctx addr len nr bgid bid =
     one_request L ctx (addr = CNull \<or> cint len \<le> 0 \<or> cint nr \<le> 0)
       (prep ''io_uring_prep_provide_buffers'' [addr, len, nr, bgid, bid] 249)"

(* csrc/uring_wrap.c:1970-1981 uring_remove_buffers_sync *)
definition uring_remove_buffers_sync_c ::
  "'k liburing \<Rightarrow> cval \<Rightarrow> cval \<Rightarrow> cval \<Rightarrow> 'k \<Rightarrow> int \<times> 'k" where
  "uring_remove_buffers_sync_c L ctx nr bgid =
     one_request L ctx (cint nr \<le> 0) (prep ''io_uring_prep_remove_buffers'' [nr, bgid] 250)"

(* csrc/uring_wrap.c:1983-1994 uring_msg_ring_sync *)
definition uring_msg_ring_sync_c ::
  "'k liburing \<Rightarrow> cval \<Rightarrow> cval \<Rightarrow> cval \<Rightarrow> cval \<Rightarrow> cval \<Rightarrow> 'k \<Rightarrow> int \<times> 'k" where
  "uring_msg_ring_sync_c L ctx fd len data flags =
     one_request L ctx False (prep ''io_uring_prep_msg_ring'' [fd, len, data, flags] 251)"

(* csrc/uring_wrap.c:1996-2007 uring_ftruncate_sync *)
definition uring_ftruncate_sync_c ::
  "'k liburing \<Rightarrow> cval \<Rightarrow> cval \<Rightarrow> cval \<Rightarrow> 'k \<Rightarrow> int \<times> 'k" where
  "uring_ftruncate_sync_c L ctx fd len =
     one_request L ctx False (prep ''io_uring_prep_ftruncate'' [fd, len] 252)"

(* csrc/uring_wrap.c:2009-2020 uring_nop128_sync *)
definition uring_nop128_sync_c ::
  "'k liburing \<Rightarrow> cval \<Rightarrow> 'k \<Rightarrow> int \<times> 'k" where
  "uring_nop128_sync_c L ctx =
     one_request L ctx False (prep ''io_uring_prep_nop128'' [] 260)"

(* csrc/uring_wrap.c:2022-2034 uring_poll_update_sync *)
definition uring_poll_update_sync_c ::
  "'k liburing \<Rightarrow> cval \<Rightarrow> cval \<Rightarrow> cval \<Rightarrow> cval \<Rightarrow> cval \<Rightarrow> 'k \<Rightarrow> int \<times> 'k" where
  "uring_poll_update_sync_c L ctx old_user_data new_user_data poll_mask flags =
     one_request L ctx False
       (prep ''io_uring_prep_poll_update'' [old_user_data, new_user_data, poll_mask, flags] 261)"

(* csrc/uring_wrap.c:2036-2048 uring_timeout_update_sync *)
definition uring_timeout_update_sync_c ::
  "'k liburing \<Rightarrow> cval \<Rightarrow> cval \<Rightarrow> cval \<Rightarrow> cval \<Rightarrow> 'k \<Rightarrow> int \<times> 'k" where
  "uring_timeout_update_sync_c L ctx ts target_user_data flags =
     one_request L ctx (ts = CNull)
       (prep ''io_uring_prep_timeout_update'' [ts, target_user_data, flags] 262)"

(* csrc/uring_wrap.c:2050-2061 uring_recv_multishot_sync *)
definition uring_recv_multishot_sync_c ::
  "'k liburing \<Rightarrow> cval \<Rightarrow> cval \<Rightarrow> cval \<Rightarrow> cval \<Rightarrow> cval \<Rightarrow> 'k \<Rightarrow> int \<times> 'k" where
  "uring_recv_multishot_sync_c L ctx sockfd buf len msg_flags =
     one_request L ctx (buf = CNull \<and> cint len > 0)
       (prep ''io_uring_prep_recv_multishot'' [sockfd, buf, len, msg_flags] 263)"

(* csrc/uring_wrap.c:2118-2129 uring_send_zc_sync *)
definition uring_send_zc_sync_c ::
  "'k liburing \<Rightarrow> cval \<Rightarrow> cval \<Rightarrow> cval \<Rightarrow> cval \<Rightarrow> cval \<Rightarrow> cval \<Rightarrow> 'k \<Rightarrow> int \<times> 'k" where
  "uring_send_zc_sync_c L ctx sockfd buf len msg_flags zc_flags =
     one_request L ctx (buf = CNull \<and> cint len > 0)
       (prep ''io_uring_prep_send_zc'' [sockfd, buf, len, msg_flags, zc_flags] 264)"

(* csrc/uring_wrap.c:2131-2143 uring_send_zc_fixed_sync *)
definition uring_send_zc_fixed_sync_c ::
  "'k liburing \<Rightarrow> cval \<Rightarrow> cval \<Rightarrow> cval \<Rightarrow> cval \<Rightarrow> cval \<Rightarrow> cval \<Rightarrow> cval \<Rightarrow> 'k \<Rightarrow> int \<times> 'k" where
  "uring_send_zc_fixed_sync_c L ctx sockfd buf len msg_flags zc_flags buf_index =
     one_request L ctx (buf = CNull \<and> cint len > 0)
       (prep ''io_uring_prep_send_zc_fixed'' [sockfd, buf, len, msg_flags, zc_flags, buf_index] 265)"

(* csrc/uring_wrap.c:2145-2160 uring_sendmsg_zc_iov_sync *)
definition uring_sendmsg_zc_iov_sync_c ::
  "'k liburing \<Rightarrow> cval \<Rightarrow> cval \<Rightarrow> cval \<Rightarrow> cval \<Rightarrow> cval \<Rightarrow> 'k \<Rightarrow> int \<times> 'k" where
  "uring_sendmsg_zc_iov_sync_c L ctx fd iov iovcnt flags =
     one_request L ctx (iov = CNull \<or> cint iovcnt = 0)
       (prep ''io_uring_prep_sendmsg_zc'' [fd, iov, as_int iovcnt, flags] 266)"

(* csrc/uring_wrap.c:2162-2178 uring_sendmsg_zc_fixed_iov_sync *)
definition uring_sendmsg_zc_fixed_iov_sync_c ::
  "'k liburing \<Rightarrow> cval \<Rightarrow> cval \<Rightarrow> cval \<Rightarrow> cval \<Rightarrow> cval \<Rightarrow> cval \<Rightarrow> 'k \<Rightarrow> int \<times> 'k" where
  "uring_sendmsg_zc_fixed_iov_sync_c L ctx fd iov iovcnt flags buf_index =
     one_request L ctx (iov = CNull \<or> cint iovcnt = 0)
       (prep ''io_uring_prep_sendmsg_zc_fixed'' [fd, iov, as_int iovcnt, flags, buf_index] 267)"

(* csrc/uring_wrap.c:2180-2194 uring_recv_zc_sync *)
definition uring_recv_zc_sync_c ::
  "'k liburing \<Rightarrow> cval \<Rightarrow> cval \<Rightarrow> cval \<Rightarrow> cval \<Rightarrow> cval \<Rightarrow> cval \<Rightarrow> 'k \<Rightarrow> int \<times> 'k" where
  "uring_recv_zc_sync_c L ctx fd buf len msg_flags ioprio_zc =
     one_request L ctx False
       (prep ''io_uring_prep_rw'' [CInt 58, fd, buf, len, CInt 0, msg_flags, ioprio_zc] 268)"

(* csrc/uring_wrap.c:2196-2212 uring_recvmsg_multishot_iov_sync *)
definition uring_recvmsg_multishot_iov_sync_c ::
  "'k liburing \<Rightarrow> cval \<Rightarrow> cval \<Rightarrow> cval \<Rightarrow> cval \<Rightarrow> cval \<Rightarrow> 'k \<Rightarrow> int \<times> 'k" where
  "uring_recvmsg_multishot_iov_sync_c L ctx fd iov iovcnt flags =
     one_request L ctx (iov = CNull \<or> cint iovcnt = 0)
       (prep ''io_uring_prep_recvmsg_multishot'' [fd, iov, as_int iovcnt, flags] 269)"

(* csrc/uring_wrap.c:2214-2225 uring_epoll_wait_sync *)
definition uring_epoll_wait_sync_c ::
  "'k liburing \<Rightarrow> cval \<Rightarrow> cval \<Rightarrow> cval \<Rightarrow> cval \<Rightarrow> cval \<Rightarrow> 'k \<Rightarrow> int \<times> 'k" where
  "uring_epoll_wait_sync_c L ctx epfd events maxevents flags =
     one_request L ctx (events = CNull \<or> cint maxevents \<le> 0)
       (prep ''io_uring_prep_epoll_wait'' [epfd, events, maxevents, flags] 270)"

(* csrc/uring_wrap.c:2227-2238 uring_waitid_sync *)
definition uring_waitid_sync_c ::
  "'k liburing \<Rightarrow> cval \<Rightarrow> cval \<Rightarrow> cval \<Rightarrow> cval \<Rightarrow> cval \<Rightarrow> cval \<Rightarrow> 'k \<Rightarrow> int \<times> 'k" where
  "uring_waitid_sync_c L ctx idtype id' infop options flags =
     one_request L ctx False
       (prep ''io_uring_prep_waitid'' [idtype, id', infop, options, flags] 271)"

(* csrc/uring_wrap.c:2240-2252 uring_futex_wake_sync *)
definition uring_futex_wake_sync_c ::
  "'k liburing \<Rightarrow> cval \<Rightarrow> cval \<Rightarrow> cval \<Rightarrow> cval \<Rightarrow> cval \<Rightarrow> cval \<Rightarrow> 'k \<Rightarrow> int \<times> 'k" where
  "uring_futex_wake_sync_c L ctx futex val mask' futex_flags flags =
     one_request L ctx (futex = CNull)
       (prep ''io_uring_prep_futex_wake'' [futex, val, mask', futex_flags, flags] 272)"

(* csrc/uring_wrap.c:2254-2266 uring_futex_wait_sync *)
definition uring_futex_wait_sync_c ::
  "'k liburing \<Rightarrow> cval \<Rightarrow> cval \<Rightarrow> cval \<Rightarrow> cval \<Rightarrow> cval \<Rightarrow> cval \<Rightarrow> 'k \<Rightarrow> int \<times> 'k" where
  "uring_futex_wait_sync_c L ctx futex val mask' futex_flags flags =
     one_request L ctx (futex = CNull)
       (prep ''io_uring_prep_futex_wait'' [futex, val, mask', futex_flags, flags] 273)"

(* csrc/uring_wrap.c:2268-2279 uring_futex_waitv_sync *)
definition uring_futex_waitv_sync_c ::
  "'k liburing \<Rightarrow> cval \<Rightarrow> cval \<Rightarrow> cval \<Rightarrow> cval \<Rightarrow> 'k \<Rightarrow> int \<times> 'k" where
  "uring_futex_waitv_sync_c L ctx futex nr_futex flags =
     one_request L ctx (futex = CNull \<or> cint nr_futex = 0)
       (prep ''io_uring_prep_futex_waitv'' [futex, nr_futex, flags] 274)"

(* csrc/uring_wrap.c:2281-2292 uring_uring_cmd_sync *)
definition uring_uring_cmd_sync_c ::
  "'k liburing \<Rightarrow> cval \<Rightarrow> cval \<Rightarrow> cval \<Rightarrow> 'k \<Rightarrow> int \<times> 'k" where
  "uring_uring_cmd_sync_c L ctx cmd_op fd =
     one_request L ctx False (prep ''io_uring_prep_uring_cmd'' [cmd_op, fd] 275)"

(* csrc/uring_wrap.c:2294-2305 uring_uring_cmd128_sync *)
definition uring_uring_cmd128_sync_c ::
  "'k liburing \<Rightarrow> cval \<Rightarrow> cval \<Rightarrow> cval \<Rightarrow> 'k \<Rightarrow> int \<times> 'k" where
  "uring_uring_cmd128_sync_c L ctx cmd_op fd =
     one_request L ctx False (prep ''io_uring_prep_uring_cmd128'' [cmd_op, fd] 276)"

(* csrc/uring_wrap.c:2307-2318 uring_cmd_sock_sync *)
definition uring_cmd_sock_sync_c ::
  "'k liburing \<Rightarrow> cval \<Rightarrow> cval \<Rightarrow> cval \<Rightarrow> cval \<Rightarrow> cval \<Rightarrow> cval \<Rightarrow> cval \<Rightarrow> 'k \<Rightarrow> int \<times> 'k" where
  "uring_cmd_sock_sync_c L ctx cmd_op fd level optname optval optlen =
     one_request L ctx False
       (prep ''io_uring_prep_cmd_sock'' [cmd_op, fd, level, optname, optval, optlen] 277)"

(* csrc/uring_wrap.c:2320-2331 uring_cmd_getsockname_sync *)
definition uring_cmd_getsockname_sync_c ::
  "'k liburing \<Rightarrow> cval \<Rightarrow> cval \<Rightarrow> cval \<Rightarrow> cval \<Rightarrow> cval \<Rightarrow> 'k \<Rightarrow> int \<times> 'k" where
  "uring_cmd_getsockname_sync_c L ctx fd addr addrlen peer =
     one_request L ctx (addr = CNull \<or> addrlen = CNull)
       (prep ''io_uring_prep_cmd_getsockname'' [fd, addr, addrlen, peer] 278)"

(* csrc/uring_wrap.c:2333-2344 uring_fixed_fd_install_sync *)
definition uring_fixed_fd_install_sync_c ::
  "'k liburing \<Rightarrow> cval \<Rightarrow> cval \<Rightarrow> cval \<Rightarrow> 'k \<Rightarrow> int \<times> 'k" where
  "uring_fixed_fd_install_sync_c L ctx fd install_flags =
     one_request L ctx False (prep ''io_uring_prep_fixed_fd_install'' [fd, install_flags] 279)"

(* csrc/uring_wrap.c:2346-2358 uring_socket_direct_sync *)
definition uring_socket_direct_sync_c ::
  "'k liburing \<Rightarrow> cval \<Rightarrow> cval \<Rightarrow> cval \<Rightarrow> cval \<Rightarrow> cval \<Rightarrow> cval \<Rightarrow> 'k \<Rightarrow> int \<times> 'k" where
  "uring_socket_direct_sync_c L ctx domain typ protocol file_index flags =
     one_request L ctx False
       (prep ''io_uring_prep_socket_direct'' [domain, typ, protocol, file_index, flags] 280)"

(* csrc/uring_wrap.c:2360-2371 uring_socket_direct_alloc_sync *)
definition uring_socket_direct_alloc_sync_c ::
  "'k liburing \<Rightarrow> cval \<Rightarrow> cval \<Rightarrow> cval \<Rightarrow> cval \<Rightarrow> cval \<Rightarrow> 'k \<Rightarrow> int \<times> 'k" where
  "uring_socket_direct_alloc_sync_c L ctx domain typ protocol flags =
     one_request L ctx False
       (prep ''io_uring_prep_socket_direct_alloc'' [domain, typ, protocol, flags] 281)"

(* csrc/uring_wrap.c:2373-2384 uring_pipe_direct_sync *)
definition uring_pipe_direct_sync_c ::
  "'k liburing \<Rightarrow> cval \<Rightarrow> cval \<Rightarrow> cval \<Rightarrow> cval \<Rightarrow> 'k \<Rightarrow> int \<times> 'k" where
  "uring_pipe_direct_sync_c L ctx fds pipe_flags file_index =
     one_request L ctx (fds = CNull)
       (prep ''io_uring_prep_pipe_direct'' [fds, pipe_flags, file_index] 282)"

(* csrc/uring_wrap.c:2386-2397 uring_msg_ring_fd_sync *)
definition uring_msg_ring_fd_sync_c ::
  "'k liburing \<Rightarrow> cval \<Rightarrow> cval \<Rightarrow> cval \<Rightarrow> cval \<Rightarrow> cval \<Rightarrow> cval \<Rightarrow> 'k \<Rightarrow> int \<times> 'k" where
  "uring_msg_ring_fd_sync_c L ctx fd source_fd target_fd data flags =
     one_request L ctx False
       (prep ''io_uring_prep_msg_ring_fd'' [fd, source_fd, target_fd, data, flags] 283)"

(* csrc/uring_wrap.c:2399-2410 uring_msg_ring_fd_alloc_sync *)
definition uring_msg_ring_fd_alloc_sync_c ::
  "'k liburing \<Rightarrow> cval \<Rightarrow> cval \<Rightarrow> cval \<Rightarrow> cval \<Rightarrow> cval \<Rightarrow> 'k \<Rightarrow> int \<times> 'k" where
  "uring_msg_ring_fd_alloc_sync_c L ctx fd source_fd data flags =
     one_request L ctx False
       (prep ''io_uring_prep_msg_ring_fd_alloc'' [fd, source_fd, data, flags] 284)"

(* csrc/uring_wrap.c:2412-2424 uring_msg_ring_cqe_flags_sync *)
definition uring_msg_ring_cqe_flags_sync_c ::
  "'k liburing \<Rightarrow> cval \<Rightarrow> cval \<Rightarrow> cval \<Rightarrow> cval \<Rightarrow> cval \<Rightarrow> cval \<Rightarrow> 'k \<Rightarrow> int \<times> 'k" where
  "uring_msg_ring_cqe_flags_sync_c L ctx fd len data flags cqe_flags =
     one_request L ctx False
       (prep ''io_uring_prep_msg_ring_cqe_flags'' [fd, len, data, flags, cqe_flags] 285)"

(* csrc/uring_wrap.c:2426-2437 uring_files_update_sync *)
definition uring_files_update_sync_c ::
  "'k liburing \<Rightarrow> cval \<Rightarrow> cval \<Rightarrow> cval \<Rightarrow> cval \<Rightarrow> 'k \<Rightarrow> int \<times> 'k" where
  "uring_files_update_sync_c L ctx fds nr_fds offset =
     one_request L ctx (fds = CNull \<and> cint nr_fds > 0)
       (prep ''io_uring_prep_files_update'' [fds, nr_fds, offset] 286)"

(* csrc/uring_wrap.c:2439-2450 uring_send_bundle_sync *)
definition uring_send_bundle_sync_c ::
  "'k liburing \<Rightarrow> cval \<Rightarrow> cval \<Rightarrow> cval \<Rightarrow> cval \<Rightarrow> 'k \<Rightarrow> int \<times> 'k" where
  "uring_send_bundle_sync_c L ctx sockfd len msg_flags =
     one_request L ctx False (prep ''io_uring_prep_send_bundle'' [sockfd, len, msg_flags] 287)"

(* csrc/uring_wrap.c:2452-2464 uring_readv_fixed_sync *)
definition uring_readv_fixed_sync_c ::
  "'k liburing \<Rightarrow> cval \<Rightarrow> cval \<Rightarrow> cval \<Rightarrow> cval \<Rightarrow> cval \<Rightarrow> cval \<Rightarrow> cval \<Rightarrow> 'k \<Rightarrow> int \<times> 'k" where
  "uring_readv_fixed_sync_c L ctx fd iov iovcnt offset rw_flags buf_index =
     one_request L ctx (iov = CNull \<or> cint iovcnt = 0)
       (prep ''io_uring_prep_readv_fixed'' [fd, iov, iovcnt, offset, rw_flags, buf_index] 288)"

(* csrc/uring_wrap.c:2466-2478 uring_writev_fixed_sync *)
definition uring_writev_fixed_sync_c ::
  "'k liburing \<Rightarrow> cval \<Rightarrow> cval \<Rightarrow> cval \<Rightarrow> cval \<Rightarrow> cval \<Rightarrow> cval \<Rightarrow> cval \<Rightarrow> 'k \<Rightarrow> int \<times> 'k" where
  "uring_writev_fixed_sync_c L ctx fd iov iovcnt offset rw_flags buf_index =
     one_request L ctx (iov = CNull \<or> cint iovcnt = 0)
       (prep ''io_uring_prep_writev_fixed'' [fd, iov, iovcnt, offset, rw_flags, buf_index] 289)"

(* csrc/uring_wrap.c:2480-2492 uring_sendto_sync *)
definition uring_sendto_sync_c ::
  "'k liburing \<Rightarrow> cval \<Rightarrow> cval \<Rightarrow> cval \<Rightarrow> cval \<Rightarrow> cval \<Rightarrow> cval \<Rightarrow> cval \<Rightarrow> 'k \<Rightarrow> int \<times> 'k" where
  "uring_sendto_sync_c L ctx sockfd buf len msg_flags addr addrlen =
     one_request L ctx (buf = CNull \<and> cint len > 0)
       (prep ''io_uring_prep_sendto'' [sockfd, buf, len, msg_flags, addr, addrlen] 290)"

(* csrc/uring_wrap.c:2494-2506 uring_timeout_sync *)
definition uring_timeout_sync_c ::
  "'k liburing \<Rightarrow> cval \<Rightarrow> cval \<Rightarrow> cval \<Rightarrow> cval \<Rightarrow> cval \<Rightarrow> 'k \<Rightarrow> int \<times> 'k" where
  "uring_timeout_sync_c L ctx ts count' timeout_flags user_data =
     one_request L ctx (ts = CNull)
       (prep ''io_uring_prep_timeout'' [ts, count', timeout_flags] (cint user_data))"

(* csrc/uring_wrap.c:2508-2519 uring_timeout_remove_sync *)
definition uring_timeout_remove_sync_c ::
  "'k liburing \<Rightarrow> cval \<Rightarrow> cval \<Rightarrow> cval \<Rightarrow> 'k \<Rightarrow> int \<times> 'k" where
  "uring_timeout_remove_sync_c L ctx target_user_data flags =
     one_request L ctx False (prep ''io_uring_prep_timeout_remove'' [target_user_data, flags] 216)"

(* csrc/uring_wrap.c:2521-2532 uring_async_cancel_sync *)
definition uring_async_cancel_sync_c ::
  "'k liburing \<Rightarrow> cval \<Rightarrow> cval \<Rightarrow> cval \<Rightarrow> 'k \<Rightarrow> int \<times> 'k" where
  "uring_async_cancel_sync_c L ctx cancel_user_data flags =
     one_request L ctx False
       (prep ''io_uring_prep_cancel64'' [cancel_user_data, as_int flags] 217)"

subsection \<open>Two requests\<close>

text \<open>The linked requests carry \<open>IOSQE_IO_LINK\<close> (4) in their flags.\<close>

definition link_read :: "cval \<Rightarrow> cval \<Rightarrow> cval \<Rightarrow> cval \<Rightarrow> sqe" where
  "link_read fd_in buf len off_in = \<lparr>sqe_kind = K_read, sqe_fd = cint fd_in, sqe_buf = buf,
     sqe_len = cint len, sqe_off = cint off_in, sqe_extra = [4], sqe_ud = 301\<rparr>"

definition link_write :: "cval \<Rightarrow> cval \<Rightarrow> cval \<Rightarrow> cval \<Rightarrow> sqe" where
  "link_write fd_out buf len off_out = \<lparr>sqe_kind = K_write, sqe_fd = cint fd_out, sqe_buf = buf,
     sqe_len = cint len, sqe_off = cint off_out, sqe_extra = [], sqe_ud = 302\<rparr>"

text \<open>The loop over the two completions, from index \<open>i\<close> on.\<close>

(* csrc/uring_wrap.c:2556-2571 uring_link_read_write_sync *)
fun link_wait :: "'k liburing \<Rightarrow> nat \<Rightarrow> nat \<Rightarrow> 'k \<Rightarrow> int \<times> 'k" where
  "link_wait L i 0 k = (- EIO, k)"
| "link_wait L i (Suc n) k =
     (case lu_wait_cqe L k of (ret, cqe, k) \<Rightarrow>
        if ret < 0 then (ret, k)
        else let res = cqe_res cqe; ud = cqe_user_data cqe; k = lu_cqe_seen L cqe k
          in if res < 0 then (res, k)
             else if i = 1 \<and> ud = 302 then (res, k)
             else link_wait L (i + 1) n k)"

(* csrc/uring_wrap.c:2535-2573 uring_link_read_write_sync *)
definition uring_link_read_write_sync_c ::
  "'k liburing \<Rightarrow> cval \<Rightarrow> cval \<Rightarrow> cval \<Rightarrow> cval \<Rightarrow> cval \<Rightarrow> cval \<Rightarrow> cval \<Rightarrow> 'k \<Rightarrow> int \<times> 'k" where
  "uring_link_read_write_sync_c L ctx fd_in buf len off_in fd_out off_out k =
     (if ctx = CNull \<or> buf = CNull \<or> cint len = 0 then (- EINVAL, k)
      else case lu_get_sqe L k of (s1, k) \<Rightarrow>
        (case lu_get_sqe L k of (s2, k) \<Rightarrow>
          (case (s1, s2) of
            (Some i, Some j) \<Rightarrow>
              (let k = lu_set_sqe L i (link_read fd_in buf len off_in) k;
                   k = lu_set_sqe L j (link_write fd_out buf len off_out) k
               in case lu_submit L k of (ret, k) \<Rightarrow>
                 if ret < 0 then (ret, k) else link_wait L 0 2 k)
          | _ \<Rightarrow> (- EAGAIN, k))))"

(* csrc/uring_wrap.c:2610-2622 uring_timeout_arm_remove_pair_sync *)
fun timeout_wait :: "'k liburing \<Rightarrow> nat \<Rightarrow> 'k \<Rightarrow> int \<times> 'k" where
  "timeout_wait L 0 k = (0, k)"
| "timeout_wait L (Suc n) k =
     (case lu_wait_cqe L k of (ret, cqe, k) \<Rightarrow>
        if ret < 0 then (ret, k)
        else let res = cqe_res cqe; k = lu_cqe_seen L cqe k
          in if res < 0 \<and> res \<noteq> - ETIME \<and> res \<noteq> - ECANCELED then (res, k)
             else timeout_wait L n k)"

text \<open>The \<open>struct __kernel_timespec\<close> is a local variable of the function.\<close>

(* csrc/uring_wrap.c:2583-2624 uring_timeout_arm_remove_pair_sync *)
definition uring_timeout_arm_remove_pair_sync_c ::
  "'k liburing \<Rightarrow> cval \<Rightarrow> cval \<Rightarrow> cval \<Rightarrow> cval \<Rightarrow> 'k \<Rightarrow> int \<times> 'k" where
  "uring_timeout_arm_remove_pair_sync_c L ctx sec nsec timeout_user_data k =
     (if ctx = CNull then (- EINVAL, k)
      else case lu_get_sqe L k of
        (None, k) \<Rightarrow> (- EAGAIN, k)
      | (Some i, k) \<Rightarrow>
          (let k = lu_set_sqe L i (prep ''io_uring_prep_timeout''
                     [CMem (Timespec (cint sec) (cint nsec)), CInt 0, CInt 0] (cint timeout_user_data)) k
           in case lu_get_sqe L k of
             (None, k) \<Rightarrow> (- EAGAIN, k)
           | (Some j, k) \<Rightarrow>
               (let k = lu_set_sqe L j (prep ''io_uring_prep_timeout_remove''
                          [timeout_user_data, CInt 0] (take_bit 64 (cint timeout_user_data + 1))) k
                in case lu_submit L k of (ret, k) \<Rightarrow>
                  if ret < 0 then (ret, k) else timeout_wait L 2 k)))"

(* csrc/uring_wrap.c:2575-2580 uring_statx_stx_size *)
definition uring_statx_stx_size_c :: "(cval \<Rightarrow> int) \<Rightarrow> cval \<Rightarrow> int" where
  "uring_statx_stx_size_c stx_size sx = (if sx = CNull then 0 else stx_size sx)"

subsection \<open>The library\<close>

lemmas wrapper_defs = uring_read_fixed_sync_c_def uring_write_fixed_sync_c_def
  uring_read_sync_c_def uring_write_sync_c_def uring_nop_sync_c_def uring_readv_sync_c_def
  uring_writev_sync_c_def uring_openat_sync_c_def uring_close_sync_c_def uring_fsync_sync_c_def
  uring_fallocate_sync_c_def uring_statx_sync_c_def uring_renameat_sync_c_def
  uring_unlinkat_sync_c_def uring_mkdirat_sync_c_def uring_send_sync_c_def uring_recv_sync_c_def
  uring_accept_sync_c_def uring_connect_sync_c_def uring_shutdown_sync_c_def
  uring_splice_sync_c_def uring_tee_sync_c_def uring_poll_add_sync_c_def
  uring_poll_remove_sync_c_def uring_symlinkat_sync_c_def uring_linkat_sync_c_def
  uring_sync_file_range_sync_c_def uring_fadvise_sync_c_def uring_madvise_sync_c_def
  uring_async_cancel_fd_sync_c_def uring_sendmsg_iov_sync_c_def uring_recvmsg_iov_sync_c_def
  uring_socket_sync_c_def uring_pipe_sync_c_def uring_bind_sync_c_def uring_listen_sync_c_def
  uring_openat2_sync_c_def uring_link_timeout_sync_c_def uring_getxattr_sync_c_def
  uring_setxattr_sync_c_def uring_fgetxattr_sync_c_def uring_fsetxattr_sync_c_def
  uring_epoll_ctl_sync_c_def uring_provide_buffers_sync_c_def uring_remove_buffers_sync_c_def
  uring_msg_ring_sync_c_def uring_ftruncate_sync_c_def uring_nop128_sync_c_def
  uring_poll_update_sync_c_def uring_timeout_update_sync_c_def uring_recv_multishot_sync_c_def
  uring_send_zc_sync_c_def uring_send_zc_fixed_sync_c_def uring_sendmsg_zc_iov_sync_c_def
  uring_sendmsg_zc_fixed_iov_sync_c_def uring_recv_zc_sync_c_def
  uring_recvmsg_multishot_iov_sync_c_def uring_epoll_wait_sync_c_def uring_waitid_sync_c_def
  uring_futex_wake_sync_c_def uring_futex_wait_sync_c_def uring_futex_waitv_sync_c_def
  uring_uring_cmd_sync_c_def uring_uring_cmd128_sync_c_def uring_cmd_sock_sync_c_def
  uring_cmd_getsockname_sync_c_def uring_fixed_fd_install_sync_c_def
  uring_socket_direct_sync_c_def uring_socket_direct_alloc_sync_c_def uring_pipe_direct_sync_c_def
  uring_msg_ring_fd_sync_c_def uring_msg_ring_fd_alloc_sync_c_def
  uring_msg_ring_cqe_flags_sync_c_def uring_files_update_sync_c_def uring_send_bundle_sync_c_def
  uring_readv_fixed_sync_c_def uring_writev_fixed_sync_c_def uring_sendto_sync_c_def
  uring_timeout_sync_c_def uring_timeout_remove_sync_c_def uring_async_cancel_sync_c_def

text \<open>The functions by name, taking the list of the C arguments.\<close>

definition sync_functions :: "'k liburing \<Rightarrow> (string \<times> (cval list \<Rightarrow> 'k \<Rightarrow> int \<times> 'k)) list" where
  "sync_functions L = [
     (''uring_read_fixed_sync'', \<lambda>a. uring_read_fixed_sync_c L (a!0) (a!1) (a!2) (a!3) (a!4) (a!5)),
     (''uring_write_fixed_sync'', \<lambda>a. uring_write_fixed_sync_c L (a!0) (a!1) (a!2) (a!3) (a!4) (a!5)),
     (''uring_read_sync'', \<lambda>a. uring_read_sync_c L (a!0) (a!1) (a!2) (a!3) (a!4)),
     (''uring_write_sync'', \<lambda>a. uring_write_sync_c L (a!0) (a!1) (a!2) (a!3) (a!4)),
     (''uring_nop_sync'', \<lambda>a. uring_nop_sync_c L (a!0)),
     (''uring_readv_sync'', \<lambda>a. uring_readv_sync_c L (a!0) (a!1) (a!2) (a!3) (a!4)),
     (''uring_writev_sync'', \<lambda>a. uring_writev_sync_c L (a!0) (a!1) (a!2) (a!3) (a!4)),
     (''uring_openat_sync'', \<lambda>a. uring_openat_sync_c L (a!0) (a!1) (a!2) (a!3) (a!4)),
     (''uring_close_sync'', \<lambda>a. uring_close_sync_c L (a!0) (a!1)),
     (''uring_fsync_sync'', \<lambda>a. uring_fsync_sync_c L (a!0) (a!1) (a!2)),
     (''uring_fallocate_sync'', \<lambda>a. uring_fallocate_sync_c L (a!0) (a!1) (a!2) (a!3) (a!4)),
     (''uring_statx_sync'', \<lambda>a. uring_statx_sync_c L (a!0) (a!1) (a!2) (a!3) (a!4) (a!5)),
     (''uring_renameat_sync'', \<lambda>a. uring_renameat_sync_c L (a!0) (a!1) (a!2) (a!3) (a!4) (a!5)),
     (''uring_unlinkat_sync'', \<lambda>a. uring_unlinkat_sync_c L (a!0) (a!1) (a!2) (a!3)),
     (''uring_mkdirat_sync'', \<lambda>a. uring_mkdirat_sync_c L (a!0) (a!1) (a!2) (a!3)),
     (''uring_send_sync'', \<lambda>a. uring_send_sync_c L (a!0) (a!1) (a!2) (a!3) (a!4)),
     (''uring_recv_sync'', \<lambda>a. uring_recv_sync_c L (a!0) (a!1) (a!2) (a!3) (a!4)),
     (''uring_accept_sync'', \<lambda>a. uring_accept_sync_c L (a!0) (a!1) (a!2) (a!3) (a!4)),
     (''uring_connect_sync'', \<lambda>a. uring_connect_sync_c L (a!0) (a!1) (a!2) (a!3)),
     (''uring_shutdown_sync'', \<lambda>a. uring_shutdown_sync_c L (a!0) (a!1) (a!2)),
     (''uring_splice_sync'', \<lambda>a. uring_splice_sync_c L (a!0) (a!1) (a!2) (a!3) (a!4) (a!5) (a!6)),
     (''uring_tee_sync'', \<lambda>a. uring_tee_sync_c L (a!0) (a!1) (a!2) (a!3) (a!4)),
     (''uring_poll_add_sync'', \<lambda>a. uring_poll_add_sync_c L (a!0) (a!1) (a!2) (a!3)),
     (''uring_poll_remove_sync'', \<lambda>a. uring_poll_remove_sync_c L (a!0) (a!1)),
     (''uring_symlinkat_sync'', \<lambda>a. uring_symlinkat_sync_c L (a!0) (a!1) (a!2) (a!3)),
     (''uring_linkat_sync'', \<lambda>a. uring_linkat_sync_c L (a!0) (a!1) (a!2) (a!3) (a!4) (a!5)),
     (''uring_sync_file_range_sync'', \<lambda>a. uring_sync_file_range_sync_c L (a!0) (a!1) (a!2) (a!3) (a!4)),
     (''uring_fadvise_sync'', \<lambda>a. uring_fadvise_sync_c L (a!0) (a!1) (a!2) (a!3) (a!4)),
     (''uring_madvise_sync'', \<lambda>a. uring_madvise_sync_c L (a!0) (a!1) (a!2) (a!3)),
     (''uring_async_cancel_fd_sync'', \<lambda>a. uring_async_cancel_fd_sync_c L (a!0) (a!1) (a!2)),
     (''uring_sendmsg_iov_sync'', \<lambda>a. uring_sendmsg_iov_sync_c L (a!0) (a!1) (a!2) (a!3) (a!4)),
     (''uring_recvmsg_iov_sync'', \<lambda>a. uring_recvmsg_iov_sync_c L (a!0) (a!1) (a!2) (a!3) (a!4)),
     (''uring_socket_sync'', \<lambda>a. uring_socket_sync_c L (a!0) (a!1) (a!2) (a!3) (a!4)),
     (''uring_pipe_sync'', \<lambda>a. uring_pipe_sync_c L (a!0) (a!1) (a!2)),
     (''uring_bind_sync'', \<lambda>a. uring_bind_sync_c L (a!0) (a!1) (a!2) (a!3)),
     (''uring_listen_sync'', \<lambda>a. uring_listen_sync_c L (a!0) (a!1) (a!2)),
     (''uring_openat2_sync'', \<lambda>a. uring_openat2_sync_c L (a!0) (a!1) (a!2) (a!3)),
     (''uring_link_timeout_sync'', \<lambda>a. uring_link_timeout_sync_c L (a!0) (a!1) (a!2)),
     (''uring_getxattr_sync'', \<lambda>a. uring_getxattr_sync_c L (a!0) (a!1) (a!2) (a!3) (a!4)),
     (''uring_setxattr_sync'', \<lambda>a. uring_setxattr_sync_c L (a!0) (a!1) (a!2) (a!3) (a!4) (a!5)),
     (''uring_fgetxattr_sync'', \<lambda>a. uring_fgetxattr_sync_c L (a!0) (a!1) (a!2) (a!3) (a!4)),
     (''uring_fsetxattr_sync'', \<lambda>a. uring_fsetxattr_sync_c L (a!0) (a!1) (a!2) (a!3) (a!4) (a!5)),
     (''uring_epoll_ctl_sync'', \<lambda>a. uring_epoll_ctl_sync_c L (a!0) (a!1) (a!2) (a!3) (a!4)),
     (''uring_provide_buffers_sync'', \<lambda>a. uring_provide_buffers_sync_c L (a!0) (a!1) (a!2) (a!3) (a!4) (a!5)),
     (''uring_remove_buffers_sync'', \<lambda>a. uring_remove_buffers_sync_c L (a!0) (a!1) (a!2)),
     (''uring_msg_ring_sync'', \<lambda>a. uring_msg_ring_sync_c L (a!0) (a!1) (a!2) (a!3) (a!4)),
     (''uring_ftruncate_sync'', \<lambda>a. uring_ftruncate_sync_c L (a!0) (a!1) (a!2)),
     (''uring_nop128_sync'', \<lambda>a. uring_nop128_sync_c L (a!0)),
     (''uring_poll_update_sync'', \<lambda>a. uring_poll_update_sync_c L (a!0) (a!1) (a!2) (a!3) (a!4)),
     (''uring_timeout_update_sync'', \<lambda>a. uring_timeout_update_sync_c L (a!0) (a!1) (a!2) (a!3)),
     (''uring_recv_multishot_sync'', \<lambda>a. uring_recv_multishot_sync_c L (a!0) (a!1) (a!2) (a!3) (a!4)),
     (''uring_send_zc_sync'', \<lambda>a. uring_send_zc_sync_c L (a!0) (a!1) (a!2) (a!3) (a!4) (a!5)),
     (''uring_send_zc_fixed_sync'', \<lambda>a. uring_send_zc_fixed_sync_c L (a!0) (a!1) (a!2) (a!3) (a!4) (a!5) (a!6)),
     (''uring_sendmsg_zc_iov_sync'', \<lambda>a. uring_sendmsg_zc_iov_sync_c L (a!0) (a!1) (a!2) (a!3) (a!4)),
     (''uring_sendmsg_zc_fixed_iov_sync'', \<lambda>a. uring_sendmsg_zc_fixed_iov_sync_c L (a!0) (a!1) (a!2) (a!3) (a!4) (a!5)),
     (''uring_recv_zc_sync'', \<lambda>a. uring_recv_zc_sync_c L (a!0) (a!1) (a!2) (a!3) (a!4) (a!5)),
     (''uring_recvmsg_multishot_iov_sync'', \<lambda>a. uring_recvmsg_multishot_iov_sync_c L (a!0) (a!1) (a!2) (a!3) (a!4)),
     (''uring_epoll_wait_sync'', \<lambda>a. uring_epoll_wait_sync_c L (a!0) (a!1) (a!2) (a!3) (a!4)),
     (''uring_waitid_sync'', \<lambda>a. uring_waitid_sync_c L (a!0) (a!1) (a!2) (a!3) (a!4) (a!5)),
     (''uring_futex_wake_sync'', \<lambda>a. uring_futex_wake_sync_c L (a!0) (a!1) (a!2) (a!3) (a!4) (a!5)),
     (''uring_futex_wait_sync'', \<lambda>a. uring_futex_wait_sync_c L (a!0) (a!1) (a!2) (a!3) (a!4) (a!5)),
     (''uring_futex_waitv_sync'', \<lambda>a. uring_futex_waitv_sync_c L (a!0) (a!1) (a!2) (a!3)),
     (''uring_uring_cmd_sync'', \<lambda>a. uring_uring_cmd_sync_c L (a!0) (a!1) (a!2)),
     (''uring_uring_cmd128_sync'', \<lambda>a. uring_uring_cmd128_sync_c L (a!0) (a!1) (a!2)),
     (''uring_cmd_sock_sync'', \<lambda>a. uring_cmd_sock_sync_c L (a!0) (a!1) (a!2) (a!3) (a!4) (a!5) (a!6)),
     (''uring_cmd_getsockname_sync'', \<lambda>a. uring_cmd_getsockname_sync_c L (a!0) (a!1) (a!2) (a!3) (a!4)),
     (''uring_fixed_fd_install_sync'', \<lambda>a. uring_fixed_fd_install_sync_c L (a!0) (a!1) (a!2)),
     (''uring_socket_direct_sync'', \<lambda>a. uring_socket_direct_sync_c L (a!0) (a!1) (a!2) (a!3) (a!4) (a!5)),
     (''uring_socket_direct_alloc_sync'', \<lambda>a. uring_socket_direct_alloc_sync_c L (a!0) (a!1) (a!2) (a!3) (a!4)),
     (''uring_pipe_direct_sync'', \<lambda>a. uring_pipe_direct_sync_c L (a!0) (a!1) (a!2) (a!3)),
     (''uring_msg_ring_fd_sync'', \<lambda>a. uring_msg_ring_fd_sync_c L (a!0) (a!1) (a!2) (a!3) (a!4) (a!5)),
     (''uring_msg_ring_fd_alloc_sync'', \<lambda>a. uring_msg_ring_fd_alloc_sync_c L (a!0) (a!1) (a!2) (a!3) (a!4)),
     (''uring_msg_ring_cqe_flags_sync'', \<lambda>a. uring_msg_ring_cqe_flags_sync_c L (a!0) (a!1) (a!2) (a!3) (a!4) (a!5)),
     (''uring_files_update_sync'', \<lambda>a. uring_files_update_sync_c L (a!0) (a!1) (a!2) (a!3)),
     (''uring_send_bundle_sync'', \<lambda>a. uring_send_bundle_sync_c L (a!0) (a!1) (a!2) (a!3)),
     (''uring_readv_fixed_sync'', \<lambda>a. uring_readv_fixed_sync_c L (a!0) (a!1) (a!2) (a!3) (a!4) (a!5) (a!6)),
     (''uring_writev_fixed_sync'', \<lambda>a. uring_writev_fixed_sync_c L (a!0) (a!1) (a!2) (a!3) (a!4) (a!5) (a!6)),
     (''uring_sendto_sync'', \<lambda>a. uring_sendto_sync_c L (a!0) (a!1) (a!2) (a!3) (a!4) (a!5) (a!6)),
     (''uring_timeout_sync'', \<lambda>a. uring_timeout_sync_c L (a!0) (a!1) (a!2) (a!3) (a!4)),
     (''uring_timeout_remove_sync'', \<lambda>a. uring_timeout_remove_sync_c L (a!0) (a!1) (a!2)),
     (''uring_async_cancel_sync'', \<lambda>a. uring_async_cancel_sync_c L (a!0) (a!1) (a!2)),
     (''uring_link_read_write_sync'', \<lambda>a. uring_link_read_write_sync_c L (a!0) (a!1) (a!2) (a!3) (a!4) (a!5) (a!6)),
     (''uring_timeout_arm_remove_pair_sync'', \<lambda>a. uring_timeout_arm_remove_pair_sync_c L (a!0) (a!1) (a!2) (a!3))]"

text \<open>
  The native library as the environment of the Python side: these functions, those of
  \<open>Async_Ring\<close>, and \<open>other\<close>.  What the kernel stores in the caller's memory is \<open>outs\<close>.
\<close>

definition sync_native ::
  "'k liburing \<Rightarrow> (string \<Rightarrow> cval list \<Rightarrow> 'k \<Rightarrow> int list) \<Rightarrow> (string \<Rightarrow> cval list \<Rightarrow> 'k \<Rightarrow> reply \<times> 'k)
     \<Rightarrow> string \<Rightarrow> cval list \<Rightarrow> 'k \<Rightarrow> reply \<times> 'k" where
  "sync_native L outs other f args k =
     (case map_of (sync_functions L) f of
        Some g \<Rightarrow> (case g args k of (ret, k') \<Rightarrow> (\<lparr>rp_ret = ret, rp_out = outs f args k, rp_errno = 0\<rparr>, k'))
      | None \<Rightarrow> async_native L other f args k)"

definition native_env ::
  "'k liburing \<Rightarrow> (string \<Rightarrow> cval list \<Rightarrow> 'k \<Rightarrow> int list) \<Rightarrow> (string \<Rightarrow> cval list \<Rightarrow> 'k \<Rightarrow> reply \<times> 'k) \<Rightarrow> int
     \<Rightarrow> 'k env" where
  "native_env L outs other tid = \<lparr>native = sync_native L outs other, thread_ident = tid, ct_errno = 0\<rparr>"

end
