(* ===== verification/Sync_Props.thy ===== *)
theory Sync_Props
  imports Sync_Wrappers Async_Props Ctx_Net Ctx_Misc "HOL-Library.Sublist"
begin

text \<open>
  What a synchronous call returns: on an idle ring, the result of its own request; otherwise the
  result of whatever completes first, while its own request stays in flight with the memory it
  was given.  A completion that stays behind (after a zero-copy send, a failed link, or an
  asynchronous operation) shifts the results of all later calls.
\<close>

subsection \<open>One request\<close>

lemma one_request_runs:
  assumes "ctx \<noteq> CNull" "\<not> bad" "lu_get_sqe L k = (Some i, k1)"
    and "lu_submit L (lu_set_sqe L i q k1) = (ret, k2)" "0 \<le> ret"
    and "lu_wait_cqe L k2 = (r, c, k3)" "0 \<le> r"
  shows "one_request L ctx bad q k = (cqe_res c, lu_cqe_seen L c k3)"
  using assms by (simp add: one_request_def uring_submit_wait_one_c_def)

lemma one_request_reaps:
  assumes L: "liburing_ok L live" and get: "lu_get_sqe L k = (Some i, k1)"
    and sub: "lu_submit L (lu_set_sqe L i q k1) = (ret, k2)"
    and wait: "lu_wait_cqe L k2 = (r, c, k3)" "0 \<le> r"
  shows "reaps (add_mset q (live k)) c (live (lu_cqe_seen L c k3))"
proof -
  have "live (lu_set_sqe L i q k1) = add_mset q (live k)"
    "live (snd (lu_submit L (lu_set_sqe L i q k1))) = live (lu_set_sqe L i q k1)"
    using L get by (simp_all add: liburing_ok_def)
  then have "live k2 = add_mset q (live k)" by (simp add: sub)
  then show ?thesis using wait_law(3) [OF L wait] by simp
qed

text \<open>
  C11: A synchronous call that succeeds returns a result, and it is its own on an idle ring: the completion
  it takes carries its tag and the ring is idle again, unless the operation posts several
  completions.  When the completion it takes is another's, its own request is still in flight.
\<close>

theorem sync_call_takes_the_next_completion:
  assumes "liburing_ok L live" "ctx \<noteq> CNull" "\<not> bad" "lu_get_sqe L k = (Some i, k1)"
    and "lu_submit L (lu_set_sqe L i q k1) = (ret, k2)" "0 \<le> ret"
    and "lu_wait_cqe L k2 = (r, c, k3)" "0 \<le> r"
  shows "one_request L ctx bad q k = (cqe_res c, lu_cqe_seen L c k3)
    \<and> (live k = {#} \<longrightarrow> cqe_user_data c = sqe_ud q \<and> (live (lu_cqe_seen L c k3) = {#} \<or> multishot q))
    \<and> (cqe_user_data c \<noteq> sqe_ud q \<longrightarrow> q \<in># live (lu_cqe_seen L c k3))"
proof -
  obtain p where p: "p \<in># add_mset q (live k)" "sqe_ud p = cqe_user_data c"
    "live (lu_cqe_seen L c k3) = add_mset q (live k) - {#p#}
      \<or> (multishot p \<and> live (lu_cqe_seen L c k3) = add_mset q (live k))"
    using one_request_reaps [OF assms(1,4,5,7,8)] by (auto simp: reaps_def)
  have "q \<in># live (lu_cqe_seen L c k3)" if "cqe_user_data c \<noteq> sqe_ud q"
  proof -
    have "p \<noteq> q" using p(2) that by auto
    then have "q \<in># add_mset q (live k) - {#p#}" by (simp add: in_diff_count)
    then show ?thesis using p(3) by auto
  qed
  moreover have "cqe_user_data c = sqe_ud q \<and> (live (lu_cqe_seen L c k3) = {#} \<or> multishot q)"
    if "live k = {#}" using p that by auto
  ultimately show ?thesis using one_request_runs [OF assms(2-8)] by blast
qed

lemma sync_call_takes_the_next_completion_witness:
  "one_request fifo_ring (CInt 1) False (some_read\<lparr>sqe_ud := 1\<rparr>) [some_read] = (16, [some_read\<lparr>sqe_ud := 1\<rparr>])"
proof -
  let ?q = "some_read\<lparr>sqe_ud := 1\<rparr>"
  have ring: "lu_get_sqe fifo_ring [some_read] = (Some 1, [some_read])"
    "lu_submit fifo_ring (lu_set_sqe fifo_ring 1 ?q [some_read]) = (1, [some_read, ?q])"
    "lu_wait_cqe fifo_ring [some_read, ?q] = (0, \<lparr>cqe_user_data = 7, cqe_res = 16\<rparr>, [some_read, ?q])"
    "lu_cqe_seen fifo_ring c [some_read, ?q] = [?q]" for c
    by (simp_all add: fifo_ring_def some_read_def)
  have "CInt 1 \<noteq> CNull" "\<not> False" "(0 :: int) \<le> 1" "(0 :: int) \<le> 0" by simp_all
  from sync_call_takes_the_next_completion [OF fifo_ring_ok this(1,2) ring(1,2) this(3) ring(3) this(4)]
  show ?thesis by (simp add: ring(4))
qed

subsection \<open>Rings with a queue of completions\<close>

text \<open>
  A ring of \<open>n\<close> entries and a queue of completions; submitting a batch of requests posts the
  completions \<open>posts\<close> gives for it, behind those that are already there.
\<close>

record post_ring =
  po_sq :: "sqe list"
  po_cq :: "cqe list"

definition flushed :: "(sqe list \<Rightarrow> cqe list) \<Rightarrow> post_ring \<Rightarrow> post_ring" where
  "flushed posts k = \<lparr>po_sq = [], po_cq = po_cq k @ posts (po_sq k)\<rparr>"

definition posting_ring :: "(sqe list \<Rightarrow> cqe list) \<Rightarrow> nat \<Rightarrow> post_ring liburing" where
  "posting_ring posts n = \<lparr>
     lu_get_sqe = (\<lambda>k. (if length (po_sq k) < n then Some (length (po_sq k)) else None, k)),
     lu_set_sqe = (\<lambda>i q k. k\<lparr>po_sq := po_sq k @ [q]\<rparr>),
     lu_submit = (\<lambda>k. (int (length (po_sq k)), flushed posts k)),
     lu_submit_and_wait = (\<lambda>w k. (int (length (po_sq k)), flushed posts k)),
     lu_wait_cqe = (\<lambda>k. case po_cq k of
         [] \<Rightarrow> (- EAGAIN, \<lparr>cqe_user_data = 0, cqe_res = 0\<rparr>, k) | c # cs \<Rightarrow> (0, c, k)),
     lu_peek_cqe = (\<lambda>k. case po_cq k of [] \<Rightarrow> (- EAGAIN, None, k) | c # cs \<Rightarrow> (0, Some c, k)),
     lu_cqe_seen = (\<lambda>c k. k\<lparr>po_cq := tl (po_cq k)\<rparr>) \<rparr>"

lemma posting_sel [simp]:
  "lu_get_sqe (posting_ring posts n) k = (if length (po_sq k) < n then Some (length (po_sq k)) else None, k)"
  "lu_set_sqe (posting_ring posts n) i q k = k\<lparr>po_sq := po_sq k @ [q]\<rparr>"
  "lu_submit (posting_ring posts n) k = (int (length (po_sq k)), flushed posts k)"
  "po_cq k = e # cs \<Longrightarrow> lu_wait_cqe (posting_ring posts n) k = (0, e, k)"
  "lu_cqe_seen (posting_ring posts n) c k = k\<lparr>po_cq := tl (po_cq k)\<rparr>"
  by (simp_all add: posting_ring_def)

abbreviation idle_with :: "cqe list \<Rightarrow> post_ring" where
  "idle_with cs \<equiv> \<lparr>po_sq = [], po_cq = cs\<rparr>"

lemma one_request_posting:
  assumes "0 < n" "ctx \<noteq> CNull" "posts [q] = c # cs"
  shows "one_request (posting_ring posts n) ctx False q (idle_with stale)
    = (cqe_res (hd (stale @ [c])), idle_with (tl (stale @ [c]) @ cs))"
  using assms by (cases stale) (simp_all add: one_request_def uring_submit_wait_one_c_def flushed_def)

subsection \<open>The completion queue\<close>

text \<open>
  What liburing documents of the completion queue, for a reading \<open>cq\<close> of the ring's state as the list of
  completions that are posted and not yet marked as seen: the kernel may append to it at any moment; a wait
  returns the oldest completion, and returns it at once when there is one; \<open>io_uring_cqe_seen\<close> removes it.
\<close>

definition fifo_cq :: "'k liburing \<Rightarrow> ('k \<Rightarrow> cqe list) \<Rightarrow> bool" where
  "fifo_cq L cq \<longleftrightarrow> (\<forall>k. prefix (cq k) (cq (snd (lu_get_sqe L k)))
     \<and> (\<forall>i q. prefix (cq k) (cq (lu_set_sqe L i q k)))
     \<and> prefix (cq k) (cq (snd (lu_submit L k)))
     \<and> (\<forall>r c k'. lu_wait_cqe L k = (r, c, k') \<longrightarrow> prefix (cq k) (cq k')
          \<and> (cq k \<noteq> [] \<longrightarrow> r = 0) \<and> (0 \<le> r \<longrightarrow> (\<exists>cs. cq k' = c # cs)))
     \<and> (\<forall>c cs. cq k = c # cs \<longrightarrow> prefix cs (cq (lu_cqe_seen L c k))))"

lemma fifo_posting: "fifo_cq (posting_ring posts n) po_cq"
  by (auto simp: fifo_cq_def posting_ring_def flushed_def split: list.splits)

lemma fifo_submit:
  assumes "fifo_cq L cq" "lu_get_sqe L k = (Some i, k1)" "lu_submit L (lu_set_sqe L i q k1) = (ret, k2)"
  shows "prefix (cq k) (cq k2)"
proof -
  have "prefix (cq k) (cq k1)" "prefix (cq k1) (cq (lu_set_sqe L i q k1))" "prefix (cq (lu_set_sqe L i q k1)) (cq k2)"
    using assms unfolding fifo_cq_def by (metis snd_conv)+
  then show ?thesis by (meson prefix_order.trans)
qed

lemma fifo_wait:
  assumes "fifo_cq L cq" "lu_wait_cqe L k = (r, c, k')"
  shows "prefix (cq k) (cq k')" "cq k \<noteq> [] \<Longrightarrow> r = 0" "0 \<le> r \<Longrightarrow> \<exists>cs. cq k' = c # cs"
  using assms unfolding fifo_cq_def by blast+

lemma fifo_seen: "fifo_cq L cq \<Longrightarrow> cq k = c # cs \<Longrightarrow> prefix cs (cq (lu_cqe_seen L c k))"
  unfolding fifo_cq_def by blast

lemma fifo_request:
  assumes L: "fifo_cq L cq" and run: "ctx \<noteq> CNull" "lu_get_sqe L k = (Some i, k1)"
    "lu_submit L (lu_set_sqe L i q k1) = (ret, k2)" "0 \<le> ret" "lu_wait_cqe L k2 = (r, c, k3)" "0 \<le> r"
  obtains cs k' where "one_request L ctx False q k = (cqe_res c, k')" "prefix (cq k) (c # cs)" "prefix cs (cq k')"
proof -
  obtain cs where cs: "cq k3 = c # cs" using fifo_wait(3) [OF L run(5,6)] by blast
  have "prefix (cq k) (c # cs)"
    using fifo_submit [OF L run(2,3)] fifo_wait(1) [OF L run(5)] prefix_order.trans unfolding cs by blast
  with that [of "lu_cqe_seen L c k3" cs] one_request_runs [OF run(1) _ run(2-6), of False] fifo_seen [OF L cs]
  show thesis by simp
qed




text \<open>A kernel that lets every operation succeed with the length of its transfer, or 0.\<close>

definition plain_posts :: "sqe list \<Rightarrow> cqe list" where
  "plain_posts qs = map (\<lambda>q. \<lparr>cqe_user_data = sqe_ud q, cqe_res = sqe_len q\<rparr>) qs"


subsection \<open>Calls that leave a completion behind\<close>

lemma link_posting:
  assumes "1 < n" "ctx \<noteq> CNull" "buf \<noteq> CNull" "cint len \<noteq> 0"
  shows "uring_link_read_write_sync_c (posting_ring posts n) ctx fd_in buf len off_in fd_out off_out (idle_with stale)
    = link_wait (posting_ring posts n) 0 2
        (idle_with (stale @ posts [link_read fd_in buf len off_in, link_write fd_out buf len off_out]))"
  using assms by (simp add: uring_link_read_write_sync_c_def flushed_def Let_def)

text \<open>
  A linked read and write returns what was written; when the read fails, the cancelled write's
  completion stays in the ring, and the next synchronous call is reported as cancelled.
\<close>

theorem failed_link_cancels_the_next_call:
  assumes "1 < n" "ctx \<noteq> CNull" "buf \<noteq> CNull" "cint len \<noteq> 0"
    and "posts [link_read fd_in buf len off_in, link_write fd_out buf len off_out]
      = [\<lparr>cqe_user_data = 301, cqe_res = a\<rparr>, \<lparr>cqe_user_data = 302, cqe_res = b\<rparr>]"
    and "a < 0 \<longrightarrow> b = - ECANCELED" "posts [q] = [c]"
  defines "out \<equiv> uring_link_read_write_sync_c (posting_ring posts n) ctx fd_in buf len off_in fd_out off_out (idle_with [])"
  shows "(0 \<le> a \<longrightarrow> out = (b, idle_with []))
    \<and> (a < 0 \<longrightarrow> fst out = a
        \<and> one_request (posting_ring posts n) ctx False q (snd out) = (- ECANCELED, idle_with [c]))"
proof -
  have wait: "out = link_wait (posting_ring posts n) 0 2
      (idle_with [\<lparr>cqe_user_data = 301, cqe_res = a\<rparr>, \<lparr>cqe_user_data = 302, cqe_res = b\<rparr>])"
    unfolding out_def link_posting [OF assms(1-4)] assms(5) by simp
  then have "0 \<le> a \<longrightarrow> out = (b, idle_with [])"
    "a < 0 \<longrightarrow> out = (a, idle_with [\<lparr>cqe_user_data = 302, cqe_res = b\<rparr>])"
    by (simp_all add: numeral_2_eq_2 Let_def)
  then show ?thesis
    using one_request_posting [of n ctx posts q c "[]" "[\<lparr>cqe_user_data = 302, cqe_res = b\<rparr>]"] assms(1,2,6,7) by auto
qed

definition link_posts :: "sqe list \<Rightarrow> cqe list" where
  "link_posts qs = (if length qs = 2
     then [\<lparr>cqe_user_data = 301, cqe_res = - EIO\<rparr>, \<lparr>cqe_user_data = 302, cqe_res = - ECANCELED\<rparr>]
     else plain_posts qs)"

lemma failed_link_cancels_the_next_call_witness:
  "fst (one_request (posting_ring link_posts 8) (CInt 1) False (prep ''io_uring_prep_fsync'' [CInt 3, CInt 0] 204)
     (snd (uring_link_read_write_sync_c (posting_ring link_posts 8) (CInt 1) (CInt 3) (CInt 4096) (CInt 10) (CInt 0)
        (CInt 4) (CInt 0) (idle_with [])))) = - ECANCELED"
  using failed_link_cancels_the_next_call [of 8 "CInt 1" "CInt 4096" "CInt 10" link_posts "CInt 3" "CInt 0" "CInt 4" "CInt 0"
      "- EIO" "- ECANCELED" "prep ''io_uring_prep_fsync'' [CInt 3, CInt 0] 204" "\<lparr>cqe_user_data = 204, cqe_res = 0\<rparr>"]
  by (simp add: link_posts_def plain_posts_def prep_def)

subsection \<open>From Python\<close>

lemma sync_lookup:
  "map_of (sync_functions L) ''uring_fsync_sync'' = Some (\<lambda>a. uring_fsync_sync_c L (a!0) (a!1) (a!2))"
  "map_of (sync_functions L) ''uring_read_sync'' = Some (\<lambda>a. uring_read_sync_c L (a!0) (a!1) (a!2) (a!3) (a!4))"
  "map_of (sync_functions L) ''uring_send_zc_sync''
     = Some (\<lambda>a. uring_send_zc_sync_c L (a!0) (a!1) (a!2) (a!3) (a!4) (a!5))"
  "map_of (sync_functions L) ''uring_read_async'' = None"
  "map_of (sync_functions L) ''uring_wait_completion'' = None"
  by (simp_all add: sync_functions_def)

abbreviation post_env where
  "post_env posts outs \<equiv> native_env (posting_ring posts 8) outs no_native 1"

definition fsync_entry :: "int \<Rightarrow> sqe" where
  "fsync_entry fd = prep ''io_uring_prep_fsync'' [CInt fd, CInt 0] 204"

definition pinned_ctx :: uctx where
  "pinned_ctx = fresh_ctx\<lparr>u_async_io_keepalive := [7 \<mapsto> KObj 5]\<rparr>"

lemmas native_simps = native_env_def sync_native_def sync_lookup sync_call_info_def sync_call_eq ring_call_eq
  usable_def invoke_native_def async_simps reply_of_def reply_out_def convert_ret_def raise_for_neg_errno_def
  py_defs fresh_ctx_def pinned_ctx_def

text \<open>
  C33: A synchronous call takes the completion of an asynchronous one.  An asynchronous operation with the
  tag \<open>ud\<close> has failed with \<open>r\<close>: its completion is the oldest in the queue, its buffer is pinned.  When
  \<open>fsync_fd\<close> is called before that completion is reaped, on any ring and any file, it raises the error of the
  operation, and the completion is gone while the buffer stays pinned.  When the completion of the
  fsync is the next one, \<open>wait_completion\<close> returns the tag 204 that no caller ever used, and the buffer is still pinned.
\<close>

theorem fsync_reports_the_reads_error:
  assumes "fifo_cq L cq" "usable (native_env L outs other tid) self" "ring_arg (the (u_ctx self)) \<noteq> CNull"
    and "u_async_io_keepalive self ud = Some kp" "ud \<noteq> 204"
    and "cq k = \<lparr>cqe_user_data = ud, cqe_res = r\<rparr> # cs" "- (2 ^ 31) \<le> r" "r < 0"
    and "lu_get_sqe L k = (Some i, k1)" "lu_submit L (lu_set_sqe L i (fsync_entry (signed_take_bit 31 fd)) k1) = (ret, k2)" "0 \<le> ret"
  shows "\<exists>k'. UringCtx_fsync_fd (native_env L outs other tid) fd False (self, k)
        = (Inl (UringError (UringError_init (- r) ''uring_fsync_sync'' None None None None)), (self, k'))
    \<and> prefix cs (cq k')
    \<and> (\<forall>ds. cq k' = \<lparr>cqe_user_data = 204, cqe_res = 0\<rparr> # ds \<longrightarrow>
         (\<exists>self'' k''. UringCtx_wait_completion (native_env L outs other tid) (self, k') = (Inr (204, 0), (self'', k''))
            \<and> u_async_io_keepalive self'' ud = Some kp))"
proof -
  obtain w c k3 where wait: "lu_wait_cqe L k2 = (w, c, k3)" by (metis prod_cases3)
  have "cq k2 \<noteq> []" using fifo_submit [OF assms(1,9,10)] assms(6) by auto
  then have w: "w = 0" using fifo_wait(2) [OF assms(1) wait] by blast
  obtain cs' k' where run: "one_request L (ring_arg (the (u_ctx self))) False (fsync_entry (signed_take_bit 31 fd)) k = (cqe_res c, k')"
      "prefix (cq k) (c # cs')" "prefix cs' (cq k')"
    by (rule fifo_request [OF assms(1,3,9,10,11) wait]) (use w in auto)
  have c: "c = \<lparr>cqe_user_data = ud, cqe_res = r\<rparr>" "prefix cs cs'" using run(2) assms(6) by auto
  have "UringCtx_fsync_fd (native_env L outs other tid) fd False (self, k)
      = (Inl (UringError (UringError_init (- r) ''uring_fsync_sync'' None None None None)), (self, k'))"
    using assms(2,7,8) run(1) c(1)
    by (simp add: UringCtx_fsync_fd_def sync_none_def uring_fsync_sync_c_def fsync_entry_def
        signed_take_bit_id native_simps split: if_splits)
  moreover have "\<exists>self'' k''. UringCtx_wait_completion (native_env L outs other tid) (self, k') = (Inr (204, 0), (self'', k''))
            \<and> u_async_io_keepalive self'' ud = Some kp" if ds: "cq k' = \<lparr>cqe_user_data = 204, cqe_res = 0\<rparr> # ds" for ds
  proof -
    obtain w d k4 where wait: "lu_wait_cqe L k' = (w, d, k4)" by (metis prod_cases3)
    have w: "w = 0" using fifo_wait(2) [OF assms(1) wait] ds by simp
    have "prefix (cq k') (cq k4)" "\<exists>cs. cq k4 = d # cs" using fifo_wait(1,3) [OF assms(1) wait] w by simp_all
    then have "d = \<lparr>cqe_user_data = 204, cqe_res = 0\<rparr>" using ds by auto
    then show ?thesis using wait w assms(2-5)
      by (simp add: UringCtx_wait_completion_def uring_wait_completion_c_def completion_out_def
          UringCtx_completion_release_async_io_buffer_def signed_take_bit_id native_simps)
  qed
  ultimately show ?thesis using run(3) c(2) prefix_order.trans by blast
qed

lemma fsync_reports_the_reads_error_witness:
  "\<exists>k'. UringCtx_fsync_fd (post_env plain_posts (\<lambda>_ _ _. [])) 4 False (pinned_ctx, idle_with [\<lparr>cqe_user_data = 7, cqe_res = - EIO\<rparr>])
     = (Inl (UringError (UringError_init EIO ''uring_fsync_sync'' None None None None)), (pinned_ctx, k'))"
  using fsync_reports_the_reads_error [OF fifo_posting, of plain_posts 8 "\<lambda>_ _ _. []" no_native 1 pinned_ctx 7 "KObj 5"
      "idle_with [\<lparr>cqe_user_data = 7, cqe_res = - EIO\<rparr>]" "- EIO" "[]" 0 "idle_with [\<lparr>cqe_user_data = 7, cqe_res = - EIO\<rparr>]" 4]
  by (auto simp: usable_def native_env_def pinned_ctx_def fresh_ctx_def ring_arg_def)

definition some_bytes :: pybuf where
  "some_bytes = \<lparr>b_kind = Bytes, b_id = 9, b_len = 10, b_nbytes = 10, b_readonly = True, b_contiguous = True\<rparr>"

definition zc_entry :: "int \<Rightarrow> sqe" where
  "zc_entry fd = prep ''io_uring_prep_send_zc'' [CInt fd, CMem (Copied 9 10), CInt 10, CInt 0, CInt 0] 264"

definition sync_read_entry :: "int \<Rightarrow> nat \<Rightarrow> sqe" where
  "sync_read_entry fd n = \<lparr>sqe_kind = K_read, sqe_fd = fd, sqe_buf = CMem (Zeroed n), sqe_len = int n,
     sqe_off = 0, sqe_extra = [], sqe_ud = 1\<rparr>"

lemma posted_send_zc:
  assumes "posts [zc_entry 3] = [\<lparr>cqe_user_data = 264, cqe_res = n\<rparr>, c]" "0 \<le> n" "n < 2 ^ 31"
  shows "UringCtx_send_zc (post_env posts outs) 3 some_bytes 0 0 (fresh_ctx, idle_with [])
    = (Inr n, (fresh_ctx, idle_with [c]))"
  using assms one_request_posting [of 8 "CInt 4096" posts "zc_entry 3" _ "[c]" "[]"]
  by (simp add: UringCtx_send_zc_def with_buffer_def from_buffer_copy_def sync_int_def uring_send_zc_sync_c_def zc_entry_def some_bytes_def mask32_def
      signed_take_bit_id native_simps)

lemma posted_sync_read:
  assumes "posts [sync_read_entry 5 16] = [c]" "0 \<le> r" "r < 2 ^ 31"
  shows "UringCtx_read (post_env posts outs) 5 16 0 (fresh_ctx, idle_with [\<lparr>cqe_user_data = ud, cqe_res = r\<rparr>])
    = (Inr (take (nat r) (take 16 (outs ''uring_read_sync''
           [CInt 4096, CInt 5, CMem (Zeroed 16), CInt 16, CInt 0] (idle_with [\<lparr>cqe_user_data = ud, cqe_res = r\<rparr>]) @ replicate 16 0))),
       (fresh_ctx, idle_with [c]))"
  using assms one_request_posting [of 8 "CInt 4096" posts "sync_read_entry 5 16" c "[]" "[\<lparr>cqe_user_data = ud, cqe_res = r\<rparr>]"]
  by (simp add: UringCtx_read_def with_buffer_def zeroed_buffer_def uring_read_sync_c_def sync_read_entry_def raw_after_def
      signed_take_bit_id native_simps)

text \<open>
  After a zero-copy send the next read reports end of file.  \<open>send_zc\<close> returns the first of its two
  completions; the notice that its memory is free, with result 0, is what the next \<open>read\<close> takes
  for its own: it returns no bytes, however many were read into its buffer, and the read's own
  completion is left for the call after it.
\<close>

theorem zero_copy_send_ends_the_next_read:
  assumes "posts [zc_entry 3] = [\<lparr>cqe_user_data = 264, cqe_res = n\<rparr>, \<lparr>cqe_user_data = 264, cqe_res = 0\<rparr>]"
    and "0 \<le> n" "n < 2 ^ 31" "posts [sync_read_entry 5 16] = [c]"
  shows "\<exists>s1. UringCtx_send_zc (post_env posts outs) 3 some_bytes 0 0 (fresh_ctx, idle_with []) = (Inr n, s1)
    \<and> UringCtx_read (post_env posts outs) 5 16 0 s1 = (Inr [], (fresh_ctx, idle_with [c]))"
  using posted_send_zc [of posts n "\<lparr>cqe_user_data = 264, cqe_res = 0\<rparr>" outs] assms
    posted_sync_read [of posts c 0 outs 264] by simp

definition notifying :: "sqe list \<Rightarrow> cqe list" where
  "notifying qs = concat (map (\<lambda>q. if multishot q
     then [\<lparr>cqe_user_data = sqe_ud q, cqe_res = 10\<rparr>, \<lparr>cqe_user_data = sqe_ud q, cqe_res = 0\<rparr>]
     else [\<lparr>cqe_user_data = sqe_ud q, cqe_res = sqe_len q\<rparr>]) qs)"

lemma zero_copy_send_ends_the_next_read_witness:
  "\<exists>s1. UringCtx_send_zc (post_env notifying (\<lambda>_ _ _. [])) 3 some_bytes 0 0 (fresh_ctx, idle_with []) = (Inr 10, s1)
    \<and> fst (UringCtx_read (post_env notifying (\<lambda>_ _ _. [])) 5 16 0 s1) = Inr []"
proof -
  have "notifying [zc_entry 3] = [\<lparr>cqe_user_data = 264, cqe_res = 10\<rparr>, \<lparr>cqe_user_data = 264, cqe_res = 0\<rparr>]"
    "notifying [sync_read_entry 5 16] = [\<lparr>cqe_user_data = 1, cqe_res = 16\<rparr>]"
    by (simp_all add: notifying_def zc_entry_def sync_read_entry_def prep_def multishot_def several_cqes_def)
  from zero_copy_send_ends_the_next_read [OF this(1) _ _ this(2), of "\<lambda>_ _ _. []"] show ?thesis by auto
qed

subsection \<open>Argument checks and probing\<close>

text \<open>Without a ring no function touches one.\<close>

lemma no_ring_no_request:
  "(f, g) \<in> set (sync_functions L) \<Longrightarrow> g (CNull # args) k = (- EINVAL, k)"
  by (auto simp: sync_functions_def one_request_def uring_link_read_write_sync_c_def
      uring_timeout_arm_remove_pair_sync_c_def wrapper_defs)

text \<open>
  The mask of supported opcodes has, at the place of each opcode up to the last, the answer a single query
  gives; it needs one byte more than the last opcode, which is what \<open>probe_supported_mask\<close> hands over.
\<close>

theorem probe_mask_agrees_with_queries:
  assumes "ctx \<noteq> CNull" "out \<noteq> CNull" "0 \<le> uring_probe_last_op_c probe ctx" "\<forall>e. probe = Inl e \<longrightarrow> 0 \<le> e"
  defines "n \<equiv> uring_probe_last_op_c probe ctx + 1"
  shows "fst (uring_probe_supported_mask_c probe ctx out (CInt n)) = n
    \<and> length (snd (uring_probe_supported_mask_c probe ctx out (CInt n))) = nat n
    \<and> (\<forall>i < nat n. snd (uring_probe_supported_mask_c probe ctx out (CInt n)) ! i
        = uring_probe_opcode_supported_c probe ctx (CInt (int i)))"
proof (cases probe)
  case (Inl e)
  then have False using assms(1,3,4) by (simp add: uring_probe_last_op_c_def probe_failed_def split: if_splits)
  then show ?thesis ..
next
  case (Inr p)
  obtain last_op supported where "p = (last_op, supported)" by (cases p)
  then show ?thesis
    using assms(1,2) Inr by (simp add: n_def uring_probe_last_op_c_def uring_probe_supported_mask_c_def
        uring_probe_opcode_supported_c_def nat_add_distrib del: upt_Suc)
qed

lemma probe_mask_agrees_with_queries_witness:
  "snd (uring_probe_supported_mask_c (Inr (2, \<lambda>i. i \<noteq> 1)) (CInt 1) (CInt 2) (CInt 3)) ! 1
     = uring_probe_opcode_supported_c (Inr (2, \<lambda>i. i \<noteq> 1)) (CInt 1) (CInt 1)"
proof -
  have last: "uring_probe_last_op_c (Inr (2, \<lambda>i. i \<noteq> 1)) (CInt 1) = 2" by (simp add: uring_probe_last_op_c_def)
  have "CInt 1 \<noteq> CNull" "CInt 2 \<noteq> CNull" "0 \<le> uring_probe_last_op_c (Inr (2, \<lambda>i. i \<noteq> 1)) (CInt 1)"
    "\<forall>e. (Inr (2, \<lambda>i. i \<noteq> 1) :: probe_reply) = Inl e \<longrightarrow> 0 \<le> e" by (simp_all add: last)
  from probe_mask_agrees_with_queries [OF this] show ?thesis unfolding last by force
qed

end
