(* ===== verification/File_Kernel.thy ===== *)
theory File_Kernel
  imports Sync_Props
begin

text \<open>
  \<open>UringCtx.write\<close> and \<open>UringCtx.read\<close> down to the files: the methods, the conversions of ctypes, the
  C wrappers and the ring together behave like reading and writing a file at an offset.
\<close>

subsection \<open>A kernel with files\<close>

text \<open>A request that is alone on the ring: its result, and the state when its completion has been seen.\<close>

definition runs :: "'k liburing \<Rightarrow> sqe \<Rightarrow> 'k \<Rightarrow> int \<Rightarrow> 'k \<Rightarrow> bool" where
  "runs L q k res k' \<longleftrightarrow> (\<exists>i k1 ret k2 r c k3. lu_get_sqe L k = (Some i, k1)
     \<and> lu_submit L (lu_set_sqe L i q k1) = (ret, k2) \<and> 0 \<le> ret
     \<and> lu_wait_cqe L k2 = (r, c, k3) \<and> 0 \<le> r \<and> cqe_res c = res \<and> lu_cqe_seen L c k3 = k')"

lemma one_request_run: "runs L q k res k' \<Longrightarrow> ctx \<noteq> CNull \<Longrightarrow> one_request L ctx False q k = (res, k')"
  unfolding runs_def by (elim exE conjE) (simp add: one_request_runs)

text \<open>The contents of the files by descriptor, and of the Python objects by identity.\<close>

record 'k file_view =
  fk_ok :: "'k \<Rightarrow> bool"
  fk_file :: "'k \<Rightarrow> int \<Rightarrow> int list"
  fk_mem :: "'k \<Rightarrow> nat \<Rightarrow> int list"

text \<open>Writing past the end fills the gap with zeros.\<close>

definition overwrite :: "int list \<Rightarrow> nat \<Rightarrow> int list \<Rightarrow> int list" where
  "overwrite d off x = take off (d @ replicate (off - length d) 0) @ x @ drop (off + length x) d"

definition write_entry :: "int \<Rightarrow> nat \<Rightarrow> nat \<Rightarrow> int \<Rightarrow> sqe" where
  "write_entry fd i n off = \<lparr>sqe_kind = K_write, sqe_fd = fd, sqe_buf = CMem (Copied i n), sqe_len = int n,
     sqe_off = off, sqe_extra = [], sqe_ud = 2\<rparr>"

definition read_entry :: "int \<Rightarrow> nat \<Rightarrow> int \<Rightarrow> sqe" where
  "read_entry fd n off = \<lparr>sqe_kind = K_read, sqe_fd = fd, sqe_buf = CMem (Zeroed n), sqe_len = int n,
     sqe_off = off, sqe_extra = [], sqe_ud = 1\<rparr>"

text \<open>Regular files: requests are done in full, up to the end of the file.\<close>

definition file_kernel ::
  "'k liburing \<Rightarrow> (string \<Rightarrow> cval list \<Rightarrow> 'k \<Rightarrow> int list) \<Rightarrow> 'k file_view \<Rightarrow> bool" where
  "file_kernel L outs S \<longleftrightarrow> (\<forall>k fd off. fk_ok S k \<longrightarrow> 0 \<le> off \<longrightarrow>
     (\<forall>i n. n = length (fk_mem S k i) \<longrightarrow> n < 2 ^ 31 \<longrightarrow> (\<exists>k'. runs L (write_entry fd i n off) k (int n) k' \<and> fk_ok S k'
        \<and> fk_file S k' = (fk_file S k)(fd := overwrite (fk_file S k fd) (nat off) (fk_mem S k i)) \<and> fk_mem S k' = fk_mem S k))
   \<and> (\<forall>n < 2 ^ 31. \<exists>k'. runs L (read_entry fd n off) k (int (length (take n (drop (nat off) (fk_file S k fd))))) k' \<and> fk_ok S k'
        \<and> fk_file S k' = fk_file S k \<and> fk_mem S k' = fk_mem S k
        \<and> (\<forall>ctx. outs ''uring_read_sync'' [ctx, CInt fd, CMem (Zeroed n), CInt (int n), CInt off] k
             = take n (drop (nat off) (fk_file S k fd)))))"

subsection \<open>Overwriting\<close>

lemma take_drop_overwrite:
  "take (length x) (drop off (overwrite d off x)) = x"
  "drop (off + length x) (overwrite d off x) = drop (off + length x) d"
  "take off (overwrite d off x) = take off (d @ replicate (off - length d) 0)"
  by (simp_all add: overwrite_def)

subsection \<open>The methods\<close>

lemma sync_lookup_write:
  "map_of (sync_functions L) ''uring_write_sync'' = Some (\<lambda>a. uring_write_sync_c L (a!0) (a!1) (a!2) (a!3) (a!4))"
  by (simp add: sync_functions_def)

lemma write_run:
  assumes K: "file_kernel L outs S" and ok: "fk_ok S k" and self: "usable (native_env L outs other tid) self"
    "u_ctx self = Some h" "0 < h" "h < 2 ^ 64"
    and fd: "0 \<le> fd" "fd < 2 ^ 31" and off: "0 \<le> off" "off < 2 ^ 63"
    and data: "b_len data = length (fk_mem S k (b_id data))" "b_len data < 2 ^ 31" "b_kind data = Bytes"
  shows "\<exists>k'. UringCtx_write (native_env L outs other tid) fd data off (self, k) = (Inr (int (b_len data)), (self, k'))
    \<and> fk_ok S k' \<and> fk_file S k' = (fk_file S k)(fd := overwrite (fk_file S k fd) (nat off) (fk_mem S k (b_id data)))
    \<and> fk_mem S k' = fk_mem S k"
proof -
  obtain k' where k': "runs L (write_entry fd (b_id data) (b_len data) off) k (int (b_len data)) k'" "fk_ok S k'"
      "fk_file S k' = (fk_file S k)(fd := overwrite (fk_file S k fd) (nat off) (fk_mem S k (b_id data)))" "fk_mem S k' = fk_mem S k"
    using K ok off(1) data(1,2) unfolding file_kernel_def by metis
  have wide: "signed_take_bit 31 fd = fd" "take_bit 32 (int (b_len data)) = int (b_len data)"
    "signed_take_bit 63 off = off" "signed_take_bit 31 (int (b_len data)) = int (b_len data)" "take_bit 64 h = h"
    using fd off data(2) self(3,4) by (simp_all add: signed_take_bit_int_eq_self take_bit_int_eq_self)
  have "UringCtx_write (native_env L outs other tid) fd data off (self, k) = (Inr (int (b_len data)), (self, k'))"
    using one_request_run [OF k'(1), of "CInt h"] self wide data(3)
    by (simp add: UringCtx_write_def with_buffer_def create_string_buffer_def sync_call_info_def ring_call_eq invoke_native_def native_env_def sync_native_def
        sync_lookup_write uring_write_sync_def uring_write_sync_c_def write_entry_def convert_ret_def
        raise_for_neg_errno_def usable_def py_defs)
  then show ?thesis using k' by blast
qed

lemma read_run:
  assumes K: "file_kernel L outs S" and ok: "fk_ok S k" and self: "usable (native_env L outs other tid) self"
    "u_ctx self = Some h" "0 < h" "h < 2 ^ 64"
    and fd: "0 \<le> fd" "fd < 2 ^ 31" and off: "0 \<le> off" "off < 2 ^ 63" and n: "n < 2 ^ 31"
  shows "\<exists>k'. UringCtx_read (native_env L outs other tid) fd (int n) off (self, k)
      = (Inr (take n (drop (nat off) (fk_file S k fd))), (self, k'))
    \<and> fk_ok S k' \<and> fk_file S k' = fk_file S k \<and> fk_mem S k' = fk_mem S k"
proof -
  define d where "d = take n (drop (nat off) (fk_file S k fd))"
  obtain k' where k': "runs L (read_entry fd n off) k (int (length d)) k'" "fk_ok S k'"
      "fk_file S k' = fk_file S k" "fk_mem S k' = fk_mem S k"
      "\<forall>ctx. outs ''uring_read_sync'' [ctx, CInt fd, CMem (Zeroed n), CInt (int n), CInt off] k = d"
    using K ok off(1) n unfolding file_kernel_def d_def by blast
  have len: "length d \<le> n" by (simp add: d_def)
  have wide: "signed_take_bit 31 fd = fd" "take_bit 32 (int n) = int n"
    "signed_take_bit 63 off = off" "signed_take_bit 31 (int (length d)) = int (length d)" "take_bit 64 h = h"
    using fd off n self(3,4) len by (simp_all add: signed_take_bit_int_eq_self take_bit_int_eq_self)
  have "UringCtx_read (native_env L outs other tid) fd (int n) off (self, k) = (Inr d, (self, k'))"
    using one_request_run [OF k'(1), of "CInt h"] self wide k'(5) len
    by (simp add: UringCtx_read_def with_buffer_def zeroed_buffer_def sync_call_info_def ring_call_eq invoke_native_def
        native_env_def sync_native_def sync_lookup uring_read_sync_def uring_read_sync_c_def read_entry_def convert_ret_def
        raise_for_neg_errno_def raw_after_def usable_def py_defs)
  then show ?thesis using k' unfolding d_def by blast
qed

text \<open>
  C7: What \<open>UringCtx.write\<close> wrote \<open>UringCtx.read\<close> reads.  On a ring with nothing in flight, over a kernel
  that serves regular files, \<open>write\<close> of a \<open>bytes\<close> object returns the length of the data, and every later \<open>read\<close> of
  \<open>n\<close> bytes at any offset returns those of the file with the data laid over it: the data at its
  offset, and before and behind it what was there, with zeros in a gap beyond the old end.
\<close>

theorem written_bytes_are_read_back:
  assumes "file_kernel L outs S" "fk_ok S k" "usable (native_env L outs other tid) self" "u_ctx self = Some h" "0 < h" "h < 2 ^ 64"
    and "0 \<le> fd" "fd < 2 ^ 31" "0 \<le> off" "off < 2 ^ 63" "b_len data = length (fk_mem S k (b_id data))" "b_len data < 2 ^ 31" "b_kind data = Bytes"
  shows "\<exists>k1. UringCtx_write (native_env L outs other tid) fd data off (self, k) = (Inr (int (b_len data)), (self, k1))
    \<and> (\<exists>k2. UringCtx_read (native_env L outs other tid) fd (int (b_len data)) off (self, k1) = (Inr (fk_mem S k (b_id data)), (self, k2)))
    \<and> (\<forall>n < 2 ^ 31. \<forall>at. 0 \<le> at \<longrightarrow> at < 2 ^ 63 \<longrightarrow> (\<exists>k2. UringCtx_read (native_env L outs other tid) fd (int n) at (self, k1)
        = (Inr (take n (drop (nat at) (overwrite (fk_file S k fd) (nat off) (fk_mem S k (b_id data))))), (self, k2))))
    \<and> drop (nat off + b_len data) (fk_file S k1 fd) = drop (nat off + b_len data) (fk_file S k fd)
    \<and> take (nat off) (fk_file S k1 fd) = take (nat off) (fk_file S k fd @ replicate (nat off - length (fk_file S k fd)) 0)"
proof -
  obtain k1 where 1: "UringCtx_write (native_env L outs other tid) fd data off (self, k) = (Inr (int (b_len data)), (self, k1))"
      "fk_ok S k1" "fk_file S k1 = (fk_file S k)(fd := overwrite (fk_file S k fd) (nat off) (fk_mem S k (b_id data)))"
    using write_run [OF assms] by blast
  have reads: "\<exists>k2. UringCtx_read (native_env L outs other tid) fd (int n) at (self, k1)
      = (Inr (take n (drop (nat at) (overwrite (fk_file S k fd) (nat off) (fk_mem S k (b_id data))))), (self, k2))"
    if "n < 2 ^ 31" "0 \<le> at" "at < 2 ^ 63" for n at
    using read_run [OF assms(1) 1(2) assms(3-8) that(2,3,1)] 1(3) by auto
  show ?thesis using 1(1,3) reads reads [OF assms(12,9,10)] assms(11)
    by (intro exI [of _ k1]) (simp add: take_drop_overwrite)
qed

subsection \<open>Such a kernel\<close>

text \<open>A ring that runs its one request when it is waited for.\<close>

record file_ring =
  dr_file :: "int \<Rightarrow> int list"
  dr_mem :: "nat \<Rightarrow> int list"
  dr_request :: "sqe option"

fun copied_from :: "cval \<Rightarrow> nat" where
  "copied_from (CMem (Copied i n)) = i" | "copied_from _ = 0"

definition dr_perform :: "sqe \<Rightarrow> file_ring \<Rightarrow> int \<times> file_ring" where
  "dr_perform q k = (if sqe_kind q = K_write
     then (sqe_len q, k\<lparr>dr_request := None, dr_file := (dr_file k)(sqe_fd q :=
            overwrite (dr_file k (sqe_fd q)) (nat (sqe_off q)) (dr_mem k (copied_from (sqe_buf q))))\<rparr>)
     else (int (length (take (nat (sqe_len q)) (drop (nat (sqe_off q)) (dr_file k (sqe_fd q))))), k\<lparr>dr_request := None\<rparr>))"

definition dr_ring :: "file_ring liburing" where
  "dr_ring = \<lparr>
     lu_get_sqe = (\<lambda>k. (Some 0, k)), lu_set_sqe = (\<lambda>i q k. k\<lparr>dr_request := Some q\<rparr>), lu_submit = (\<lambda>k. (1, k)),
     lu_submit_and_wait = (\<lambda>n k. (1, k)),
     lu_wait_cqe = (\<lambda>k. case dr_request k of None \<Rightarrow> (- EAGAIN, \<lparr>cqe_user_data = 0, cqe_res = 0\<rparr>, k)
        | Some q \<Rightarrow> (case dr_perform q k of (r, k) \<Rightarrow> (0, \<lparr>cqe_user_data = sqe_ud q, cqe_res = r\<rparr>, k))),
     lu_peek_cqe = (\<lambda>k. (- EAGAIN, None, k)), lu_cqe_seen = (\<lambda>c k. k) \<rparr>"

fun dr_outs :: "string \<Rightarrow> cval list \<Rightarrow> file_ring \<Rightarrow> int list" where
  "dr_outs f [ctx, CInt fd, buf, CInt n, CInt off] k = take (nat n) (drop (nat off) (dr_file k fd))"
| "dr_outs f args k = []"

definition dr_view :: "file_ring file_view" where
  "dr_view = \<lparr>fk_ok = (\<lambda>k. True), fk_file = dr_file, fk_mem = dr_mem\<rparr>"

lemma dr_runs:
  "runs dr_ring q k (fst (dr_perform q (k\<lparr>dr_request := Some q\<rparr>))) (snd (dr_perform q (k\<lparr>dr_request := Some q\<rparr>)))"
  by (simp add: runs_def dr_ring_def split: prod.split)

lemma dr_file_kernel: "file_kernel dr_ring dr_outs dr_view"
proof -
  have "\<exists>k'. runs dr_ring (write_entry fd i n off) k (int n) k' \<and> fk_ok dr_view k'
      \<and> fk_file dr_view k' = (fk_file dr_view k)(fd := overwrite (fk_file dr_view k fd) (nat off) (fk_mem dr_view k i))
      \<and> fk_mem dr_view k' = fk_mem dr_view k" for fd i n off k
    using dr_runs [of "write_entry fd i n off" k]
    by (intro exI [of _ "snd (dr_perform (write_entry fd i n off) (k\<lparr>dr_request := Some (write_entry fd i n off)\<rparr>))"])
      (simp add: dr_perform_def write_entry_def dr_view_def)
  moreover have "\<exists>k'. runs dr_ring (read_entry fd n off) k (int (length (take n (drop (nat off) (fk_file dr_view k fd))))) k' \<and> fk_ok dr_view k'
      \<and> fk_file dr_view k' = fk_file dr_view k \<and> fk_mem dr_view k' = fk_mem dr_view k" for fd n off k
    using dr_runs [of "read_entry fd n off" k]
    by (intro exI [of _ "snd (dr_perform (read_entry fd n off) (k\<lparr>dr_request := Some (read_entry fd n off)\<rparr>))"])
      (simp add: dr_perform_def read_entry_def dr_view_def)
  ultimately show ?thesis by (simp add: file_kernel_def dr_view_def)
qed

definition dr_start :: file_ring where
  "dr_start = \<lparr>dr_file = (\<lambda>fd. [9]), dr_mem = (\<lambda>i. [1, 2, 3]), dr_request = None\<rparr>"

lemma written_bytes_are_read_back_witness:
  "\<exists>k1. UringCtx_write (native_env dr_ring dr_outs no_native 1) 5 \<lparr>b_kind = Bytes, b_id = 7, b_len = 3, b_nbytes = 3, b_readonly = True, b_contiguous = True\<rparr> 2
      (fresh_ctx, dr_start) = (Inr 3, (fresh_ctx, k1))
    \<and> (\<exists>k2. UringCtx_read (native_env dr_ring dr_outs no_native 1) 5 3 2 (fresh_ctx, k1) = (Inr [1, 2, 3], (fresh_ctx, k2)))
    \<and> (\<exists>k2. UringCtx_read (native_env dr_ring dr_outs no_native 1) 5 100 0 (fresh_ctx, k1) = (Inr [9, 0, 1, 2, 3], (fresh_ctx, k2)))"
proof -
  let ?data = "\<lparr>b_kind = Bytes, b_id = 7, b_len = 3, b_nbytes = 3, b_readonly = True, b_contiguous = True\<rparr>"
  have self: "usable (native_env dr_ring dr_outs no_native 1) fresh_ctx" "u_ctx fresh_ctx = Some 4096"
    by (simp_all add: usable_def fresh_ctx_def native_env_def)
  have mem: "b_len ?data = length (fk_mem dr_view dr_start (b_id ?data))" by (simp add: dr_view_def dr_start_def)
  have ok: "fk_ok dr_view dr_start" by (simp add: dr_view_def)
  obtain k1 where 1: "UringCtx_write (native_env dr_ring dr_outs no_native 1) 5 ?data 2 (fresh_ctx, dr_start) = (Inr 3, (fresh_ctx, k1))"
      "\<exists>k2. UringCtx_read (native_env dr_ring dr_outs no_native 1) 5 3 2 (fresh_ctx, k1) = (Inr (fk_mem dr_view dr_start 7), (fresh_ctx, k2))"
      "\<forall>n < 2 ^ 31. \<forall>at. 0 \<le> at \<longrightarrow> at < 2 ^ 63 \<longrightarrow> (\<exists>k2. UringCtx_read (native_env dr_ring dr_outs no_native 1) 5 (int n) at (fresh_ctx, k1)
        = (Inr (take n (drop (nat at) (overwrite (fk_file dr_view dr_start 5) 2 (fk_mem dr_view dr_start 7)))), (fresh_ctx, k2)))"
    using written_bytes_are_read_back [OF dr_file_kernel ok self, of 5 2 ?data] mem by auto
  have "overwrite [9] 2 [1, 2, 3] = [9, 0, 1, 2, 3 :: int]" by (simp add: overwrite_def numeral_2_eq_2)
  then show ?thesis using 1(1,2) spec [OF 1(3), of 100] by (auto simp: dr_view_def dr_start_def)
qed

end
