(* ===== verification/Loader.thy ===== *)
theory Loader
  imports Aio_Helpers Resource
begin

unbundle bit_operations_syntax

text \<open>
  The programs of \<open>src/examples\<close> and \<open>src/scripts\<close> that use the library: splitting a file into parts
  and making test files, the loaders that read many files in batches of \<open>read_async\<close>, and the
  coroutine that reads one file in blocks.  The file system, the creation of \<open>bytearray\<close> objects
  and NumPy are arguments.
\<close>

subsection \<open>Test files\<close>

text \<open>\<open>os.path.join\<close>, and \<open>{i:05d}\<close> for a number that is not negative.\<close>

definition path_join :: "string \<Rightarrow> string \<Rightarrow> string" where
  "path_join a b = (if b \<noteq> [] \<and> hd b = CHR ''/'' then b
     else if a = [] \<or> last a = CHR ''/'' then a @ b else a @ ''/'' @ b)"

definition zero_padded :: "nat \<Rightarrow> nat \<Rightarrow> string" where
  "zero_padded width n = replicate (width - length (digits_of_nat n)) (CHR ''0'') @ digits_of_nat n"

definition part_path :: "string \<Rightarrow> nat \<Rightarrow> string" where
  "part_path tmpdir i = path_join tmpdir (''part_'' @ zero_padded 5 i @ ''.bin'')"

definition shard_path :: "nat \<Rightarrow> string \<Rightarrow> nat \<Rightarrow> string" where
  "shard_path width tmpdir i = path_join tmpdir (''shard_'' @ zero_padded width i @ ''.bin'')"

text \<open>\<open>f.read(n)\<close> on what is left of the file: all of it when \<open>n\<close> is negative.\<close>

definition file_read :: "int \<Rightarrow> int list \<Rightarrow> int list" where
  "file_read n rest = (if n < 0 then rest else take (nat n) rest)"

(* examples/cached_reads/after/read_shards.py:24-27 split_cache *)
function split_blobs :: "int \<Rightarrow> int list \<Rightarrow> int list list" where
  "split_blobs chunk rest =
     (let blob = file_read chunk rest
      in if blob = [] then [] else blob # split_blobs chunk (drop (length blob) rest))"
  by pat_completeness auto
termination
  by (relation "measure (\<lambda>(chunk, rest). length rest)") (auto simp: file_read_def split: if_splits)

declare split_blobs.simps [simp del]

text \<open>A function that writes files is the list of their paths with their contents.\<close>

type_synonym files = "(string \<times> int list) list"

(* examples/cached_reads/after/read_shards.py:19-33 split_cache *)
definition split_cache :: "int list \<Rightarrow> string \<Rightarrow> int \<Rightarrow> files" where
  "split_cache src tmpdir chunk_kb =
     (let blobs = split_blobs (chunk_kb * 1024) src
      in zip (map (part_path tmpdir) [0..<length blobs]) blobs)"

(* examples/cached_reads/before/read_shards.py:17-31 split_cache *)
definition split_cache_before :: "int list \<Rightarrow> string \<Rightarrow> int \<Rightarrow> files" where
  "split_cache_before = split_cache"

definition shards :: "nat \<Rightarrow> string \<Rightarrow> int \<Rightarrow> int \<Rightarrow> files" where
  "shards width tmpdir n size_kb =
     map (\<lambda>i. (shard_path width tmpdir i, replicate (nat (size_kb * 1024)) (int i AND 255))) [0..<nat n]"

(* examples/pytorch/after/load_shards.py:24-31 create_shards *)
definition create_shards_pytorch :: "string \<Rightarrow> int \<Rightarrow> int \<Rightarrow> files" where
  "create_shards_pytorch = shards 4"

(* examples/pytorch/before/load_shards.py:16-23 create_shards *)
definition create_shards_pytorch_before :: "string \<Rightarrow> int \<Rightarrow> int \<Rightarrow> files" where
  "create_shards_pytorch_before = shards 4"

(* scripts/gen_example_graphs.py:49-56 create_shards *)
definition create_shards :: "string \<Rightarrow> int \<Rightarrow> int \<Rightarrow> files" where
  "create_shards = shards 5"

(* scripts/gen_example_graphs.py:59-67 create_shards_sqlite_names *)
definition create_shards_sqlite_names :: "string \<Rightarrow> int \<Rightarrow> int \<Rightarrow> files" where
  "create_shards_sqlite_names = shards 4"

(* scripts/gen_example_graphs.py:86-90 write_blob_and_split_parts *)
definition blob_of_parts :: "int \<Rightarrow> int \<Rightarrow> int list" where
  "blob_of_parts n_parts chunk = concat (map (\<lambda>i. replicate (nat chunk) (int i * 13 AND 255)) [0..<nat n_parts])"

(* scripts/gen_example_graphs.py:82-103 write_blob_and_split_parts *)
definition write_blob_and_split_parts :: "string \<Rightarrow> int \<Rightarrow> int \<Rightarrow> files" where
  "write_blob_and_split_parts tmpdir n_parts chunk_kb =
     (path_join tmpdir ''cached_blob.bin'', blob_of_parts n_parts (chunk_kb * 1024))
       # split_cache (blob_of_parts n_parts (chunk_kb * 1024)) tmpdir chunk_kb"

subsection \<open>What a reader uses\<close>

text \<open>
  The host: the size of a file, \<open>os.open\<close> for reading, \<open>os.close\<close>, a new \<open>bytearray(n)\<close>, what the
  \<open>bytearray\<close> holds, and opening and reading a whole file.
\<close>

record 'w host =
  ho_getsize :: "string \<Rightarrow> 'w \<Rightarrow> (exn + nat) \<times> 'w"
  ho_fstat_size :: "int \<Rightarrow> 'w \<Rightarrow> (exn + nat) \<times> 'w"
  ho_open :: "string \<Rightarrow> 'w \<Rightarrow> (exn + int) \<times> 'w"
  ho_close :: "int \<Rightarrow> 'w \<Rightarrow> (exn + unit) \<times> 'w"
  ho_bytearray :: "nat \<Rightarrow> 'w \<Rightarrow> pybuf \<times> 'w"
  ho_bytes :: "pybuf \<Rightarrow> 'w \<Rightarrow> int list"
  ho_read_file :: "string \<Rightarrow> 'w \<Rightarrow> (exn + int list) \<times> 'w"

text \<open>
  The operations a reader is built from, over its own state: those of the host, and those of a
  \<open>UringCtx\<close>, which it waits for with \<open>wait_completion\<close> of the context or of a \<open>UringAsync\<close>.
\<close>

record 's reader =
  rd_size :: "int \<Rightarrow> ('s, nat) py"
  rd_open :: "string \<Rightarrow> ('s, int) py"
  rd_close :: "int \<Rightarrow> ('s, unit) py"
  rd_bytearray :: "nat \<Rightarrow> ('s, pybuf) py"
  rd_bytes :: "pybuf \<Rightarrow> 's \<Rightarrow> int list"
  rd_read :: "int \<Rightarrow> pybuf \<Rightarrow> int \<Rightarrow> int \<Rightarrow> ('s, int) py"
  rd_submit :: "('s, int) py"
  rd_wait :: "('s, int \<times> int) py"

definition on_world :: "('w \<Rightarrow> 'a \<times> 'w) \<Rightarrow> uctx \<times> 'w \<Rightarrow> 'a \<times> uctx \<times> 'w" where
  "on_world f = (\<lambda>(self, w). case f w of (r, w) \<Rightarrow> (r, (self, w)))"

definition world_new :: "('w \<Rightarrow> 'a \<times> 'w) \<Rightarrow> ('w, 'a) meth" where
  "world_new f = (\<lambda>s. case on_world f s of (x, s) \<Rightarrow> (Inr x, s))"

definition ring_reader :: "'w env \<Rightarrow> 'w host \<Rightarrow> (uctx \<times> 'w) reader" where
  "ring_reader E H = \<lparr>
     rd_size = (\<lambda>fd. on_world (ho_fstat_size H fd)),
     rd_open = (\<lambda>p. on_world (ho_open H p)),
     rd_close = (\<lambda>fd. on_world (ho_close H fd)),
     rd_bytearray = (\<lambda>n. world_new (ho_bytearray H n)),
     rd_bytes = (\<lambda>b s. ho_bytes H b (snd s)),
     rd_read = (\<lambda>fd b off ud. UringCtx_read_async E fd (Buf b) off ud),
     rd_submit = UringCtx_submit E,
     rd_wait = UringCtx_wait_completion E \<rparr>"

text \<open>In a coroutine, \<open>awaits\<close> is \<open>await ua.wait_completion()\<close>, as in \<open>Aio_Helpers\<close>.\<close>

definition aio_reader :: "'w aio_env \<Rightarrow> 'w host \<Rightarrow> ('w, int \<times> int) aio_meth \<Rightarrow> 'w aio reader" where
  "aio_reader A H awaits = \<lparr>
     rd_size = (\<lambda>fd. on_ctx (on_world (ho_fstat_size H fd))),
     rd_open = (\<lambda>p. on_ctx (on_world (ho_open H p))),
     rd_close = (\<lambda>fd. on_ctx (on_world (ho_close H fd))),
     rd_bytearray = (\<lambda>n. on_ctx (world_new (ho_bytearray H n))),
     rd_bytes = (\<lambda>b s. ho_bytes H b (as_world s)),
     rd_read = (\<lambda>fd b off ud. on_ctx (UringCtx_read_async (ae_env A) fd (Buf b) off ud)),
     rd_submit = on_ctx (UringCtx_submit (ae_env A)),
     rd_wait = awaits \<rparr>"

subsection \<open>Batches\<close>

text \<open>A slice \<open>xs[a:b]\<close> with the clipping of negative and large bounds.\<close>

definition clip :: "nat \<Rightarrow> int \<Rightarrow> nat" where
  "clip n i = (if i < 0 then nat (i + int n) else min n (nat i))"

definition py_slice :: "'a list \<Rightarrow> int \<Rightarrow> int \<Rightarrow> 'a list" where
  "py_slice xs a b = take (clip (length xs) b - clip (length xs) a) (drop (clip (length xs) a) xs)"

text \<open>The loop that opens and submits; it returns the descriptors and the buffers.\<close>

(* examples/cached_reads/after/read_shards.py:46-53 load_pyuring_batched *)
fun submit_batch :: "'s reader \<Rightarrow> nat \<Rightarrow> nat \<Rightarrow> string list \<Rightarrow> ('s, int list \<times> pybuf list) py" where
  "submit_batch R file_size j [] = py_return ([], [])"
| "submit_batch R file_size j (path # batch) =
     py_bind (rd_open R path) (\<lambda>fd.
     py_bind (rd_bytearray R file_size) (\<lambda>b.
     py_bind (rd_read R fd b 0 (int j)) (\<lambda>_.
     py_bind (submit_batch R file_size (j + 1) batch) (\<lambda>(fds, bufs).
     py_return (fd # fds, b # bufs)))))"

text \<open>
  The loop that waits: \<open>consume\<close> is what a program does with the tag and the number of bytes of a
  completion.
\<close>

(* examples/cached_reads/after/read_shards.py:55-59 load_pyuring_batched *)
fun reap_batch :: "'s reader \<Rightarrow> string \<Rightarrow> (int \<Rightarrow> int \<Rightarrow> 'a \<Rightarrow> ('s, 'a) py) \<Rightarrow> nat \<Rightarrow> 'a \<Rightarrow> ('s, 'a) py" where
  "reap_batch R what consume 0 acc = py_return acc"
| "reap_batch R what consume (Suc k) acc =
     py_bind (rd_wait R) (\<lambda>(ud, n).
       if n < 0 then py_raise (UringError (UringError_init (- n) what None None None None))
       else py_bind (consume ud n acc) (reap_batch R what consume k))"

(* examples/cached_reads/after/read_shards.py:60-61 load_pyuring_batched *)
fun close_all :: "'s reader \<Rightarrow> int list \<Rightarrow> ('s, unit) py" where
  "close_all R [] = py_return ()"
| "close_all R (fd # fds) = py_bind (rd_close R fd) (\<lambda>_. close_all R fds)"

type_synonym ('s, 'a) consumer = "pybuf list \<Rightarrow> int \<Rightarrow> int \<Rightarrow> int \<Rightarrow> 'a \<Rightarrow> ('s, 'a) py"

definition load_batch ::
  "'s reader \<Rightarrow> string \<Rightarrow> ('s, 'a) consumer \<Rightarrow> nat \<Rightarrow> int \<Rightarrow> string list \<Rightarrow> 'a \<Rightarrow> ('s, 'a) py" where
  "load_batch R what consume file_size i batch acc =
     py_bind (submit_batch R file_size 0 batch) (\<lambda>(fds, bufs).
     py_bind (rd_submit R) (\<lambda>_.
     py_bind (reap_batch R what (consume bufs i) (length batch) acc) (\<lambda>acc.
     py_bind (close_all R fds) (\<lambda>_. py_return acc))))"

text \<open>The \<open>while\<close> loop; it need not end when \<open>batch_size\<close> is not positive.\<close>

(* examples/cached_reads/after/read_shards.py:43-62 load_pyuring_batched *)
partial_function (option) load_loop ::
  "'s reader \<Rightarrow> string \<Rightarrow> ('s, 'a) consumer \<Rightarrow> nat \<Rightarrow> string list \<Rightarrow> int \<Rightarrow> int \<Rightarrow> 'a \<Rightarrow> 's
     \<Rightarrow> ((exn + 'a) \<times> 's) option" where
  "load_loop R what consume file_size paths batch_size i acc s =
     (if i < int (length paths)
      then case load_batch R what consume file_size i (py_slice paths i (i + batch_size)) acc s of
          (Inl e, s) \<Rightarrow> Some (Inl e, s)
        | (Inr acc, s) \<Rightarrow> load_loop R what consume file_size paths batch_size (i + batch_size) acc s
      else Some (Inr acc, s))"

text \<open>\<open>with UringCtx(entries, setup_flags=0) as ctx\<close> around a body that may not return.\<close>

definition with_ctx ::
  "'w env \<Rightarrow> int \<Rightarrow> (uctx \<times> 'w \<Rightarrow> ((exn + 'a) \<times> uctx \<times> 'w) option) \<Rightarrow> 'w \<Rightarrow> ((exn + 'a) \<times> 'w) option" where
  "with_ctx E entries body w =
     (case UringCtx_init E entries 0 (- 1) 0 True w of
        (Inl e, w) \<Rightarrow> Some (Inl e, w)
      | (Inr ctx, w) \<Rightarrow>
          (case UringCtx_enter E (ctx, w) of
             (Inl e, (_, w)) \<Rightarrow> Some (Inl e, w)
           | (Inr _, s) \<Rightarrow>
               (case body s of
                  None \<Rightarrow> None
                | Some (res, s) \<Rightarrow>
                    (case UringCtx_exit E s of
                       (Inl e, (_, w)) \<Rightarrow> Some (Inl e, w)
                     | (Inr _, (_, w)) \<Rightarrow> Some (res, w)))))"

definition load_files ::
  "'w env \<Rightarrow> 'w host \<Rightarrow> string \<Rightarrow> (uctx \<times> 'w, 'a) consumer \<Rightarrow> 'a \<Rightarrow> string list \<Rightarrow> int \<Rightarrow> 'w
     \<Rightarrow> ((exn + 'a) \<times> 'w) option" where
  "load_files E H what consume acc paths batch_size w =
     (case ho_getsize H (hd paths) w of
        (Inl e, w) \<Rightarrow> Some (Inl e, w)
      | (Inr file_size, w) \<Rightarrow>
          with_ctx E (max batch_size 64)
            (load_loop (ring_reader E H) what consume file_size paths batch_size 0 acc) w)"

subsection \<open>The loaders\<close>

text \<open>\<open>xs[i]\<close>: negative indices count from the end.\<close>

definition py_index :: "nat \<Rightarrow> int \<Rightarrow> nat option" where
  "py_index n i = (let k = (if i < 0 then i + int n else i)
     in if 0 \<le> k \<and> k < int n then Some (nat k) else None)"

abbreviation "index_error \<equiv> OtherException 1"

definition get_buf :: "pybuf list \<Rightarrow> int \<Rightarrow> ('s, pybuf) py" where
  "get_buf bufs ud = (case py_index (length bufs) ud of None \<Rightarrow> py_raise index_error | Some k \<Rightarrow> py_return (bufs ! k))"

definition count_bytes :: "('s, int) consumer" where
  "count_bytes bufs i ud n acc = py_return (acc + n)"

(* examples/cached_reads/after/read_shards.py:36-64 load_pyuring_batched *)
definition load_pyuring_batched_cached ::
  "'w env \<Rightarrow> 'w host \<Rightarrow> string list \<Rightarrow> int \<Rightarrow> 'w \<Rightarrow> ((exn + int) \<times> 'w) option" where
  "load_pyuring_batched_cached E H paths batch_size w =
     (if paths = [] then Some (Inr 0, w)
      else load_files E H ''part_read'' count_bytes 0 paths batch_size w)"

(* examples/sqlite_blobs/after/read_shards.py:19-47 load_pyuring_batched *)
definition load_pyuring_batched_sqlite ::
  "'w env \<Rightarrow> 'w host \<Rightarrow> string list \<Rightarrow> int \<Rightarrow> 'w \<Rightarrow> ((exn + int) \<times> 'w) option" where
  "load_pyuring_batched_sqlite E H paths batch_size w =
     (if paths = [] then Some (Inr 0, w)
      else load_files E H ''shard_read'' count_bytes 0 paths batch_size w)"

text \<open>\<open>np_sum data n\<close> is \<open>int(np.frombuffer(data, dtype=np.uint8, count=n).sum())\<close>.\<close>

definition add_sum :: "'s reader \<Rightarrow> (int list \<Rightarrow> int \<Rightarrow> exn + int) \<Rightarrow> ('s, int list) consumer" where
  "add_sum R np_sum bufs i ud n acc = py_bind (get_buf bufs ud) (\<lambda>b s.
     (case np_sum (rd_bytes R b s) n of Inl e \<Rightarrow> (Inl e, s) | Inr x \<Rightarrow> (Inr (acc @ [x]), s)))"

(* examples/numpy_bins/after/read_shards.py:32-61 load_pyuring_batched *)
definition load_pyuring_batched_numpy ::
  "'w env \<Rightarrow> 'w host \<Rightarrow> (int list \<Rightarrow> int \<Rightarrow> exn + int) \<Rightarrow> string list \<Rightarrow> int \<Rightarrow> 'w
     \<Rightarrow> ((exn + int list) \<times> 'w) option" where
  "load_pyuring_batched_numpy E H np_sum paths batch_size w =
     (if paths = [] then Some (Inr [], w)
      else load_files E H ''shard_read'' (add_sum (ring_reader E H) np_sum) [] paths batch_size w)"

definition store_part :: "'s reader \<Rightarrow> ('s, int list option list) consumer" where
  "store_part R bufs i ud n out = py_bind (get_buf bufs ud) (\<lambda>b s.
     (case py_index (length out) (i + ud) of
        None \<Rightarrow> (Inl index_error, s)
      | Some k \<Rightarrow> (Inr (out[k := Some (take (nat n) (rd_bytes R b s))]), s)))"

(* examples/pytorch/after/load_shards.py:34-62 load_pyuring_batched *)
definition load_pyuring_batched_pytorch ::
  "'w env \<Rightarrow> 'w host \<Rightarrow> string list \<Rightarrow> int \<Rightarrow> 'w \<Rightarrow> ((exn + int list list) \<times> 'w) option" where
  "load_pyuring_batched_pytorch E H paths batch_size w =
     (if paths = [] then Some (Inr [], w)
      else case load_files E H ''shard_read'' (store_part (ring_reader E H)) (replicate (length paths) None)
             paths batch_size w of
          None \<Rightarrow> None
        | Some (Inl e, w) \<Rightarrow> Some (Inl e, w)
        | Some (Inr out, w) \<Rightarrow> Some (Inr (map the (filter (\<lambda>b. b \<noteq> None) out)), w))"

text \<open>The benchmark runs drop what they read; \<open>URING_BATCH\<close> is 32.  The clock is left out.\<close>

(* scripts/gen_example_graphs.py:126-149 bench_uring_batched *)
definition bench_uring_batched_run :: "'w env \<Rightarrow> 'w host \<Rightarrow> string list \<Rightarrow> 'w \<Rightarrow> ((exn + unit) \<times> 'w) option" where
  "bench_uring_batched_run E H paths w =
     load_files E H ''uring_batch'' (\<lambda>_ _ _ _. py_return) () paths 32 w"

(* scripts/gen_example_graphs.py:179-204 bench_numpy_uring_batched *)
definition bench_numpy_uring_batched_run ::
  "'w env \<Rightarrow> 'w host \<Rightarrow> (int list \<Rightarrow> int \<Rightarrow> exn + int) \<Rightarrow> string list \<Rightarrow> 'w \<Rightarrow> ((exn + int list) \<times> 'w) option" where
  "bench_numpy_uring_batched_run E H np_sum paths w =
     load_files E H ''numpy_uring'' (\<lambda>bufs i ud n acc. py_map (\<lambda>_. [])
       (add_sum (ring_reader E H) np_sum bufs i ud n acc)) [] paths 32 w"

subsection \<open>The loaders they replace\<close>

(* examples/pytorch/before/load_shards.py:26-28 read_one *)
definition read_one :: "'w host \<Rightarrow> string \<Rightarrow> 'w \<Rightarrow> (exn + int list) \<times> 'w" where
  "read_one H path = ho_read_file H path"

(* examples/sqlite_blobs/before/read_shards.py:15-17 read_one *)
definition read_one_sqlite :: "'w host \<Rightarrow> string \<Rightarrow> 'w \<Rightarrow> (exn + int) \<times> 'w" where
  "read_one_sqlite H path = py_map (\<lambda>b. int (length b)) (read_one H path)"

(* examples/cached_reads/before/read_shards.py:34-36 read_one *)
definition read_one_cached :: "'w host \<Rightarrow> string \<Rightarrow> 'w \<Rightarrow> (exn + int list) \<times> 'w" where
  "read_one_cached = read_one"

(* scripts/gen_example_graphs.py:106-108 read_one *)
definition read_one_bench :: "'w host \<Rightarrow> string \<Rightarrow> 'w \<Rightarrow> (exn + int list) \<times> 'w" where
  "read_one_bench = read_one"

text \<open>\<open>list(ex.map(f, xs))\<close>: the results in the order of the arguments, or the first exception.\<close>

fun executor_map :: "('a \<Rightarrow> ('w, 'b) py) \<Rightarrow> 'a list \<Rightarrow> ('w, 'b list) py" where
  "executor_map f [] = py_return []"
| "executor_map f (x # xs) = py_bind (f x) (\<lambda>y. py_map ((#) y) (executor_map f xs))"

text \<open>\<open>ThreadPoolExecutor(max_workers)\<close> refuses a number of workers that is not positive.\<close>

definition thread_pool :: "int \<Rightarrow> ('a \<Rightarrow> ('w, 'b) py) \<Rightarrow> 'a list \<Rightarrow> ('w, 'b list) py" where
  "thread_pool workers f xs =
     (if workers \<le> 0 then py_raise (ValueError ''max_workers must be greater than 0'') else executor_map f xs)"

(* examples/pytorch/before/load_shards.py:31-33 load_threadpool *)
definition load_threadpool :: "'w host \<Rightarrow> string list \<Rightarrow> int \<Rightarrow> 'w \<Rightarrow> (exn + int list list) \<times> 'w" where
  "load_threadpool H paths workers = thread_pool workers (read_one H) paths"

subsection \<open>One file in blocks\<close>

text \<open>\<open>try: m finally: f\<close>.\<close>

definition py_finally :: "('s, 'a) py \<Rightarrow> ('s, unit) py \<Rightarrow> ('s, 'a) py" where
  "py_finally m f = (\<lambda>s. case m s of (res, s) \<Rightarrow>
     (case f s of (Inl e, s) \<Rightarrow> (Inl e, s) | (Inr _, s) \<Rightarrow> (res, s)))"

text \<open>The blocks \<open>i, ..., nblocks - 1\<close>.\<close>

(* examples/asyncio/after/read_file.py:32-37 read_file_via_uring *)
fun submit_blocks :: "'s reader \<Rightarrow> int \<Rightarrow> nat \<Rightarrow> nat \<Rightarrow> nat \<Rightarrow> nat \<Rightarrow> ('s, pybuf list) py" where
  "submit_blocks R fd sz block i 0 = py_return []"
| "submit_blocks R fd sz block i (Suc k) =
     py_bind (rd_bytearray R (min block (sz - i * block))) (\<lambda>b.
     py_bind (rd_read R fd b (int (i * block)) (int i)) (\<lambda>_.
     py_map ((#) b) (submit_blocks R fd sz block (i + 1) k)))"

(* examples/asyncio/after/read_file.py:40-45 read_file_via_uring *)
fun gather_blocks :: "'s reader \<Rightarrow> string \<Rightarrow> nat \<Rightarrow> (int \<rightharpoonup> int) \<Rightarrow> ('s, int \<rightharpoonup> int) py" where
  "gather_blocks R what 0 got = py_return got"
| "gather_blocks R what (Suc k) got =
     py_bind (rd_wait R) (\<lambda>(ud, n).
       if n < 0 then py_raise (UringError (UringError_init (- n) what None None None None))
       else gather_blocks R what k (got(ud \<mapsto> n)))"

abbreviation "key_error \<equiv> OtherException 2"

text \<open>\<open>b"".join\<close> of the parts; \<open>got[i]\<close> raises for a tag that did not come.\<close>

(* examples/asyncio/after/read_file.py:47-48 read_file_via_uring *)
fun join_parts :: "'s reader \<Rightarrow> (int \<rightharpoonup> int) \<Rightarrow> nat \<Rightarrow> pybuf list \<Rightarrow> ('s, int list) py" where
  "join_parts R got i [] = py_return []"
| "join_parts R got i (b # bufs) =
     (case got (int i) of
        None \<Rightarrow> py_raise key_error
      | Some n \<Rightarrow> (\<lambda>s. py_map (\<lambda>rest. take (nat n) (rd_bytes R b s) @ rest) (join_parts R got (i + 1) bufs) s))"

definition read_blocks :: "'s reader \<Rightarrow> string \<Rightarrow> string \<Rightarrow> ('s, int list) py" where
  "read_blocks R what path =
     py_bind (rd_open R path) (\<lambda>fd.
       py_finally
         (py_bind (rd_size R fd) (\<lambda>size.
            if size = 0 then py_return []
            else let block = min size (64 * 1024); nblocks = (size + block - 1) div block
              in py_bind (submit_blocks R fd size block 0 nblocks) (\<lambda>bufs.
                 py_bind (rd_submit R) (\<lambda>_.
                 py_bind (gather_blocks R what nblocks Map.empty) (\<lambda>got.
                 join_parts R got 0 bufs)))))
         (rd_close R fd))"

(* examples/asyncio/after/read_file.py:22-50 read_file_via_uring *)
definition read_file_via_uring ::
  "'w aio_env \<Rightarrow> 'w host \<Rightarrow> ('w, int \<times> int) aio_meth \<Rightarrow> string \<Rightarrow> ('w, int list) aio_meth" where
  "read_file_via_uring A H awaits path = read_blocks (aio_reader A H awaits) ''read_file_via_uring'' path"

(* examples/fastapi/after/main.py:27-51 read_file_uring *)
definition read_file_uring ::
  "'w aio_env \<Rightarrow> 'w host \<Rightarrow> ('w, int \<times> int) aio_meth \<Rightarrow> string \<Rightarrow> ('w, int list) aio_meth" where
  "read_file_uring A H awaits path = read_blocks (aio_reader A H awaits) ''read_payload'' path"

text \<open>The endpoint: the number of bytes it reports.\<close>

(* examples/fastapi/after/main.py:76-82 read_payload *)
definition read_payload ::
  "'w aio_env \<Rightarrow> 'w host \<Rightarrow> ('w, int \<times> int) aio_meth \<Rightarrow> string \<Rightarrow> ('w, string \<times> nat) aio_meth" where
  "read_payload A H awaits payload_path =
     py_map (\<lambda>data. (''UringAsync'', length data)) (read_file_uring A H awaits payload_path)"

text \<open>The asyncio benchmark: the same batches, awaited.\<close>

(* scripts/gen_example_graphs.py:242-260 bench_asyncio_uring *)
definition bench_asyncio_uring_loop ::
  "'w aio_env \<Rightarrow> 'w host \<Rightarrow> ('w, int \<times> int) aio_meth \<Rightarrow> nat \<Rightarrow> string list \<Rightarrow> 'w aio
     \<Rightarrow> ((exn + unit) \<times> 'w aio) option" where
  "bench_asyncio_uring_loop A H awaits file_size paths =
     load_loop (aio_reader A H awaits) ''async_uring'' (\<lambda>_ _ _ _. py_return) file_size paths 32 0 ()"

end
