(* ===== verification/Programs.thy ===== *)
theory Programs
  imports Loader Resource "HOL-Library.List_Lexorder" "HOL-Library.Char_ord"
begin

unbundle bit_operations_syntax

text \<open>
  The example programs as a whole: making the files, loading them, and the numbers they print; the
  export from a database, the download, and the coroutine programs with the life of their ring.  Files,
  directories, the database and the responses of a server are arguments.
\<close>

subsection \<open>Computations that may not return\<close>

type_synonym ('w, 'a) looping = "'w \<Rightarrow> ((exn + 'a) \<times> 'w) option"

definition run_py :: "('w, 'a) py \<Rightarrow> ('w, 'a) looping" where
  "run_py m w = Some (m w)"

definition loop_bind :: "('w, 'a) looping \<Rightarrow> ('a \<Rightarrow> ('w, 'b) looping) \<Rightarrow> ('w, 'b) looping" where
  "loop_bind m k = (\<lambda>w. case m w of
     None \<Rightarrow> None | Some (Inl e, w) \<Rightarrow> Some (Inl e, w) | Some (Inr x, w) \<Rightarrow> k x w)"

definition loop_finally :: "('w, 'a) looping \<Rightarrow> ('w, unit) py \<Rightarrow> ('w, 'a) looping" where
  "loop_finally m f = (\<lambda>w. case m w of None \<Rightarrow> None | Some r \<Rightarrow> Some (py_finally (\<lambda>_. r) f w))"

subsection \<open>Files and arguments\<close>

record 'w disk =
  di_isfile :: "string \<Rightarrow> 'w \<Rightarrow> bool"
  di_write :: "string \<Rightarrow> int list \<Rightarrow> ('w, unit) py"
  di_mkdtemp :: "string \<Rightarrow> ('w, string) py"
  di_rmtree :: "string \<Rightarrow> ('w, unit) py"
  di_shards :: "string \<Rightarrow> 'w \<Rightarrow> string list"
  di_named_temp :: "int list \<Rightarrow> ('w, string) py"
  di_unlink :: "string \<Rightarrow> ('w, unit) py"

text \<open>
  \<open>di_write\<close> opens a file for writing, writes and closes it; \<open>di_shards d\<close> is \<open>glob.glob\<close> of the
  pattern \<open>shard_*.bin\<close> in \<open>d\<close>; \<open>di_named_temp\<close> makes a temporary file that stays when it is closed,
  writes and closes it.  The arguments of a program are the options that were given, with their
  values.
\<close>

type_synonym options = "string \<rightharpoonup> int"

definition option_or :: "options \<Rightarrow> string \<Rightarrow> int \<Rightarrow> int" where
  "option_or args name dflt = (case args name of None \<Rightarrow> dflt | Some x \<Rightarrow> x)"

abbreviation "system_exit \<equiv> OtherException 6"

fun write_files :: "'w disk \<Rightarrow> files \<Rightarrow> ('w, string list) py" where
  "write_files D [] = py_return []"
| "write_files D ((p, c) # fs) = py_bind (di_write D p c) (\<lambda>_. py_map ((#) p) (write_files D fs))"

definition in_tempdir :: "'w disk \<Rightarrow> string \<Rightarrow> (string \<Rightarrow> ('w, 'a) looping) \<Rightarrow> ('w, 'a) looping" where
  "in_tempdir D prefix body = loop_bind (run_py (di_mkdtemp D prefix))
     (\<lambda>d. loop_finally (body d) (di_rmtree D d))"

definition total_length :: "'a list list \<Rightarrow> int" where
  "total_length blobs = sum_list (map (\<lambda>b. int (length b)) blobs)"

subsection \<open>The programs on a split file\<close>

definition split_source :: "'w disk \<Rightarrow> 'w host \<Rightarrow> string \<Rightarrow> string \<Rightarrow> int \<Rightarrow> ('w, string list) py" where
  "split_source D H src d chunk_kb =
     py_bind (ho_read_file H src) (\<lambda>data. write_files D (split_cache data d chunk_kb))"

definition with_source :: "'w disk \<Rightarrow> string \<Rightarrow> ('w, 'a) looping \<Rightarrow> ('w, 'a) looping" where
  "with_source D src body = (\<lambda>w. if \<not> di_isfile D src w then Some (Inl system_exit, w) else body w)"

text \<open>A program returns the numbers it prints: how many files, and their total.\<close>

(* examples/cached_reads/after/read_shards.py:73-85 main *)
definition cached_main_after :: "'w disk \<Rightarrow> 'w env \<Rightarrow> 'w host \<Rightarrow> string \<Rightarrow> options \<Rightarrow> ('w, nat \<times> int) looping" where
  "cached_main_after D E H src args = with_source D src (in_tempdir D ''pyuring_cr_'' (\<lambda>d.
     loop_bind (run_py (split_source D H src d (option_or args ''--chunk-kb'' 128))) (\<lambda>paths.
     loop_bind (load_pyuring_batched_cached E H paths (option_or args ''--batch-size'' 16)) (\<lambda>n.
     run_py (py_return (length paths, n))))))"

(* examples/cached_reads/before/read_shards.py:46-60 main *)
definition cached_main_before :: "'w disk \<Rightarrow> 'w host \<Rightarrow> string \<Rightarrow> options \<Rightarrow> ('w, nat \<times> int) looping" where
  "cached_main_before D H src args = with_source D src (in_tempdir D ''pyuring_cr_'' (\<lambda>d.
     run_py (py_bind (split_source D H src d (option_or args ''--chunk-kb'' 128)) (\<lambda>paths.
       py_bind (thread_pool (option_or args ''--workers'' 8) (read_one_cached H) paths) (\<lambda>blobs.
       py_return (length paths, total_length blobs))))))"

subsection \<open>The programs on shards\<close>

(* examples/pytorch/after/load_shards.py:67-76 main *)
definition pytorch_main_after :: "'w disk \<Rightarrow> 'w env \<Rightarrow> 'w host \<Rightarrow> options \<Rightarrow> ('w, int \<times> int) looping" where
  "pytorch_main_after D E H args =
     (let n = option_or args ''--shards'' 32
      in in_tempdir D ''pyuring_pt_'' (\<lambda>d.
        loop_bind (run_py (write_files D (create_shards_pytorch d n (option_or args ''--size-kb'' 64)))) (\<lambda>paths.
        loop_bind (load_pyuring_batched_pytorch E H paths (option_or args ''--batch-size'' 16)) (\<lambda>blobs.
        run_py (py_return (n, total_length blobs))))))"

(* examples/pytorch/before/load_shards.py:38-47 main *)
definition pytorch_main_before :: "'w disk \<Rightarrow> 'w host \<Rightarrow> options \<Rightarrow> ('w, int \<times> int) looping" where
  "pytorch_main_before D H args =
     (let n = option_or args ''--shards'' 32
      in in_tempdir D ''pyuring_pt_'' (\<lambda>d.
        run_py (py_bind (write_files D (create_shards_pytorch_before d n (option_or args ''--size-kb'' 64))) (\<lambda>paths.
          py_bind (load_threadpool H paths (option_or args ''--workers'' 4)) (\<lambda>blobs.
          py_return (n, total_length blobs))))))"

text \<open>\<open>np.full(k, v, dtype=np.uint8)\<close> refuses a negative \<open>k\<close>; the files written before stay.\<close>

definition numpy_shards :: "'w disk \<Rightarrow> string \<Rightarrow> int \<Rightarrow> int \<Rightarrow> ('w, string list) py" where
  "numpy_shards D d n size_kb =
     (if 0 < n \<and> size_kb < 0 then py_raise (ValueError ''negative dimensions are not allowed'')
      else write_files D (shards 4 d n size_kb))"

(* examples/numpy_bins/after/read_shards.py:22-29 create_shards *)
definition create_shards_numpy :: "'w disk \<Rightarrow> string \<Rightarrow> int \<Rightarrow> int \<Rightarrow> ('w, string list) py" where
  "create_shards_numpy = numpy_shards"

(* examples/numpy_bins/before/read_shards.py:18-25 create_shards *)
definition create_shards_numpy_before :: "'w disk \<Rightarrow> string \<Rightarrow> int \<Rightarrow> int \<Rightarrow> ('w, string list) py" where
  "create_shards_numpy_before = numpy_shards"

(* scripts/gen_example_graphs.py:70-79 create_numpy_shards *)
definition create_numpy_shards :: "'w disk \<Rightarrow> string \<Rightarrow> int \<Rightarrow> int \<Rightarrow> ('w, string list) py" where
  "create_numpy_shards = numpy_shards"

(* examples/numpy_bins/after/read_shards.py:66-74 main *)
definition numpy_main_after ::
  "'w disk \<Rightarrow> 'w env \<Rightarrow> 'w host \<Rightarrow> (int list \<Rightarrow> int \<Rightarrow> exn + int) \<Rightarrow> options \<Rightarrow> ('w, int \<times> int) looping" where
  "numpy_main_after D E H np_sum args =
     (let n = option_or args ''--shards'' 32
      in in_tempdir D ''pyuring_np_'' (\<lambda>d.
        loop_bind (run_py (create_shards_numpy D d n (option_or args ''--size-kb'' 64))) (\<lambda>paths.
        loop_bind (load_pyuring_batched_numpy E H np_sum paths (option_or args ''--batch-size'' 16)) (\<lambda>sums.
        run_py (py_return (n, sum_list sums))))))"

text \<open>\<open>np.fromfile\<close> reads the whole file.\<close>

(* examples/numpy_bins/before/read_shards.py:28-30 read_one *)
definition read_one_numpy :: "'w host \<Rightarrow> (int list \<Rightarrow> int \<Rightarrow> exn + int) \<Rightarrow> string \<Rightarrow> ('w, int) py" where
  "read_one_numpy H np_sum path =
     py_bind (ho_read_file H path) (\<lambda>data. py_lift (np_sum data (int (length data))))"

(* examples/numpy_bins/before/read_shards.py:35-44 main *)
definition numpy_main_before ::
  "'w disk \<Rightarrow> 'w host \<Rightarrow> (int list \<Rightarrow> int \<Rightarrow> exn + int) \<Rightarrow> options \<Rightarrow> ('w, int \<times> int) looping" where
  "numpy_main_before D H np_sum args =
     (let n = option_or args ''--shards'' 32
      in in_tempdir D ''pyuring_np_'' (\<lambda>d.
        run_py (py_bind (create_shards_numpy_before D d n (option_or args ''--size-kb'' 64)) (\<lambda>paths.
          py_bind (thread_pool (option_or args ''--workers'' 4) (read_one_numpy H np_sum) paths) (\<lambda>sums.
          py_return (n, sum_list sums))))))"

subsection \<open>The programs on exported shards\<close>

text \<open>\<open>sorted\<close> compares the paths character by character; characters beyond 255 do not occur.\<close>

definition exported_shards :: "'w disk \<Rightarrow> string \<Rightarrow> ('w, string list) py" where
  "exported_shards D d = (\<lambda>w. let paths = sort (di_shards D d w)
     in if paths = [] then (Inl system_exit, w) else (Inr paths, w))"

(* examples/sqlite_blobs/after/read_shards.py:52-62 main *)
definition sqlite_main_after :: "'w disk \<Rightarrow> 'w env \<Rightarrow> 'w host \<Rightarrow> string \<Rightarrow> options \<Rightarrow> ('w, nat \<times> int) looping" where
  "sqlite_main_after D E H d args =
     loop_bind (run_py (exported_shards D d)) (\<lambda>paths.
     loop_bind (load_pyuring_batched_sqlite E H paths (option_or args ''--batch-size'' 16)) (\<lambda>n.
     run_py (py_return (length paths, n))))"

(* examples/sqlite_blobs/before/read_shards.py:22-37 main *)
definition sqlite_main_before :: "'w disk \<Rightarrow> 'w host \<Rightarrow> string \<Rightarrow> options \<Rightarrow> ('w, nat \<times> int) py" where
  "sqlite_main_before D H d args =
     py_bind (exported_shards D d) (\<lambda>paths.
     py_bind (thread_pool (option_or args ''--workers'' 8) (read_one_sqlite H) paths) (\<lambda>sizes.
     py_return (length paths, sum_list sizes)))"

subsection \<open>The coroutine programs\<close>

definition ascii_bytes :: "string \<Rightarrow> int list" where
  "ascii_bytes s = map of_char s"

text \<open>A program with \<open>UringAsync\<close> starts with no future and no registered reader.\<close>

definition new_aio :: "uasync \<Rightarrow> uctx \<Rightarrow> 'w \<Rightarrow> 'w aio" where
  "new_aio ua ctx w = \<lparr>as_self = ua, as_ctx = ctx, as_world = w, as_futs = Map.empty, as_readers = {}\<rparr>"

definition with_ring_async :: "'w aio_env \<Rightarrow> int \<Rightarrow> ('w, 'a) aio_meth \<Rightarrow> 'w \<Rightarrow> (exn + 'a) \<times> 'w" where
  "with_ring_async A entries body =
     py_bind (UringCtx_init (ae_env A) entries 0 (- 1) 0 True) (\<lambda>ctx.
     py_bind (py_lift (UringAsync_init ctx)) (\<lambda>ua w.
       case body (new_aio ua ctx w) of (r, s) \<Rightarrow> (r, as_world s)))"

definition aio_teardown :: "'w aio_env \<Rightarrow> ('w, unit) py \<Rightarrow> ('w, unit) aio_meth" where
  "aio_teardown A remove = py_bind (UringAsync_close A) (\<lambda>_.
     py_bind (on_ctx (UringCtx_close (ae_env A))) (\<lambda>_. on_ctx (on_world remove)))"

(* examples/asyncio/after/read_file.py:53-66 main *)
definition asyncio_main_after ::
  "'w disk \<Rightarrow> 'w aio_env \<Rightarrow> 'w host \<Rightarrow> ('w, int \<times> int) aio_meth \<Rightarrow> ('w, nat) py" where
  "asyncio_main_after D A H awaits =
     py_bind (di_named_temp D (concat (replicate 100 (ascii_bytes ''hello from asyncio (io_uring)'' @ [10])))) (\<lambda>path.
     with_ring_async A 64
       (py_finally (py_map length (read_file_via_uring A H awaits path)) (aio_teardown A (di_unlink D path))))"

text \<open>\<open>run_in_executor\<close> runs the function in a thread and returns or raises what it does.\<close>

(* examples/asyncio/before/read_file.py:18-25 read_file_via_executor *)
definition read_file_via_executor :: "'w host \<Rightarrow> string \<Rightarrow> ('w, int list) py" where
  "read_file_via_executor H path = ho_read_file H path"

(* examples/asyncio/before/read_file.py:28-36 main *)
definition asyncio_main_before :: "'w disk \<Rightarrow> 'w host \<Rightarrow> ('w, nat) py" where
  "asyncio_main_before D H =
     py_bind (di_named_temp D (concat (replicate 100 (ascii_bytes ''hello from asyncio (executor)'' @ [10])))) (\<lambda>path.
     py_finally (py_map length (read_file_via_executor H path)) (di_unlink D path))"

text \<open>
  The server: its start, the requests it serves, its end.  When the start raises, nothing is
  cleaned up.  \<open>di_unlink\<close> of the end ignores a missing file.
\<close>

definition payload_bytes :: nat where
  "payload_bytes = 32 * 1024 * 1024"

definition payload :: "int list" where
  "payload = map (\<lambda>i. int i mod 256) [0..<payload_bytes]"

(* examples/fastapi/after/main.py:54-70 lifespan *)
definition fastapi_after ::
  "'w disk \<Rightarrow> 'w aio_env \<Rightarrow> string \<Rightarrow> (string \<Rightarrow> ('w, 'a) aio_meth) \<Rightarrow> ('w, 'a) py" where
  "fastapi_after D A root serve =
     (let sample = path_join root ''sample_payload.bin''
      in py_bind (di_write D sample payload) (\<lambda>_.
         with_ring_async A 128
           (py_bind (serve sample) (\<lambda>x. py_map (\<lambda>_. x) (aio_teardown A (di_unlink D sample))))))"

(* examples/fastapi/before/main.py:22-29 lifespan *)
definition fastapi_before :: "'w disk \<Rightarrow> string \<Rightarrow> (string \<Rightarrow> ('w, 'a) py) \<Rightarrow> ('w, 'a) py" where
  "fastapi_before D root serve =
     (let sample = path_join root ''sample_payload.bin''
      in py_bind (di_write D sample payload) (\<lambda>_.
         py_bind (serve sample) (\<lambda>x. py_map (\<lambda>_. x) (di_unlink D sample))))"

(* examples/fastapi/before/main.py:36-44 read_payload *)
definition read_payload_before :: "'w host \<Rightarrow> string \<Rightarrow> ('w, string \<times> nat) py" where
  "read_payload_before H payload_path =
     py_map (\<lambda>data. (''run_in_executor'', length data)) (ho_read_file H payload_path)"

end
