(* ===== verification/Sources.thy ===== *)
theory Sources
  imports Programs
begin

unbundle bit_operations_syntax

text \<open>
  Where the data of the examples comes from: \<open>export_db.py\<close>, which writes the rows of a database to
  shards, and \<open>fetch_data.py\<close>, which downloads a file or makes one.  The database, the network and
  the random numbers are arguments; the progress bar is left out.
\<close>

subsection \<open>Taking things until there are none\<close>

text \<open>\<open>fetch\<close> returns the next thing, or \<open>None\<close> at the end; the loop need not end.\<close>

partial_function (option) take_all :: "('w, 'a option) py \<Rightarrow> ('a \<Rightarrow> ('w, unit) py) \<Rightarrow> 'w \<Rightarrow> ((exn + unit) \<times> 'w) option" where
  "take_all fetch use w = (case fetch w of
     (Inl e, w) \<Rightarrow> Some (Inl e, w)
   | (Inr None, w) \<Rightarrow> Some (Inr (), w)
   | (Inr (Some x), w) \<Rightarrow> (case use x w of
       (Inl e, w) \<Rightarrow> Some (Inl e, w)
     | (Inr _, w) \<Rightarrow> take_all fetch use w))"

subsection \<open>The export\<close>

text \<open>
  A connection: the four statements in their order (\<open>CREATE TABLE IF NOT EXISTS\<close>, \<open>DELETE\<close>, the
  \<open>INSERT\<close> of rows, \<open>SELECT id, data ... ORDER BY id\<close>), \<open>commit\<close>, the next row of the cursor, and
  \<open>close\<close>.
\<close>

record 'w database =
  db_connect :: "string \<Rightarrow> ('w, unit) py"
  db_create_table :: "('w, unit) py"
  db_delete :: "('w, unit) py"
  db_insert :: "(int \<times> int list) list \<Rightarrow> ('w, unit) py"
  db_commit :: "('w, unit) py"
  db_select :: "('w, unit) py"
  db_fetch :: "('w, (int \<times> int list) option) py"
  db_close :: "('w, unit) py"

text \<open>\<open>os.path.abspath\<close>, \<open>os.path.dirname\<close> and \<open>os.makedirs(..., exist_ok=True)\<close>.\<close>

record 'w places =
  pl_abspath :: "string \<Rightarrow> 'w \<Rightarrow> string"
  pl_dirname :: "string \<Rightarrow> string"
  pl_makedirs :: "string \<Rightarrow> ('w, unit) py"

text \<open>\<open>{i:04d}\<close>: a sign counts for the width.\<close>

definition padded_int :: "nat \<Rightarrow> int \<Rightarrow> string" where
  "padded_int width i = (if i < 0 then ''-'' @ zero_padded (width - 1) (nat (- i)) else zero_padded width (nat i))"

definition row_path :: "string \<Rightarrow> int \<Rightarrow> string" where
  "row_path out_dir i = path_join out_dir (''shard_'' @ padded_int 4 i @ ''.bin'')"

(* examples/sqlite_blobs/export_db.py:28-28 main *)
definition row_blob :: "int \<Rightarrow> int list" where
  "row_blob blob_kb = map (\<lambda>i. int i * 17 AND 255) [0..<nat (blob_kb * 1024)]"

(* examples/sqlite_blobs/export_db.py:30-34 main *)
definition output_dir :: "'w disk \<Rightarrow> 'w places \<Rightarrow> string \<Rightarrow> ('w, string) py" where
  "output_dir D L out_dir w =
     (if out_dir \<noteq> [] then py_map (\<lambda>_. pl_abspath L out_dir w) (pl_makedirs L (pl_abspath L out_dir w)) w
      else di_mkdtemp D ''pyuring_sqlite_'' w)"

text \<open>The body of the \<open>try\<close>.\<close>

(* examples/sqlite_blobs/export_db.py:38-51 main *)
definition export_rows :: "'w disk \<Rightarrow> 'w database \<Rightarrow> string \<Rightarrow> int \<Rightarrow> int list \<Rightarrow> ('w, unit) looping" where
  "export_rows D B out_dir rows blob =
     loop_bind (run_py
       (py_bind (db_create_table B) (\<lambda>_.
        py_bind (db_delete B) (\<lambda>_.
        py_bind (db_insert B (map (\<lambda>i. (int i, blob)) [0..<nat rows])) (\<lambda>_.
        py_bind (db_commit B) (\<lambda>_. db_select B))))))
     (\<lambda>_. take_all (db_fetch B) (\<lambda>(row_id, data). di_write D (row_path out_dir row_id) data))"

text \<open>The program returns what it prints: the database, how many rows, and where.\<close>

(* examples/sqlite_blobs/export_db.py:19-56 main *)
definition export_main ::
  "'w disk \<Rightarrow> 'w places \<Rightarrow> 'w database \<Rightarrow> string \<Rightarrow> options \<Rightarrow> ('w, string \<times> int \<times> string) looping" where
  "export_main D L B out_dir args =
     (let rows = option_or args ''--rows'' 32; blob = row_blob (option_or args ''--blob-kb'' 64)
      in loop_bind (run_py (output_dir D L out_dir)) (\<lambda>out_dir.
         let db_path = path_join out_dir ''blobs.db''
         in loop_bind (run_py (db_connect B db_path)) (\<lambda>_.
            loop_bind (loop_finally (export_rows D B out_dir rows blob) (db_close B)) (\<lambda>_.
            run_py (py_return (db_path, rows, out_dir))))))"

subsection \<open>The download\<close>

text \<open>A file open for writing.\<close>

record 'w outfile =
  of_open :: "string \<Rightarrow> ('w, unit) py"
  of_write :: "int list \<Rightarrow> ('w, unit) py"
  of_close :: "('w, unit) py"

definition with_file :: "'w outfile \<Rightarrow> string \<Rightarrow> ('w, 'a) looping \<Rightarrow> ('w, 'a) looping" where
  "with_file F path body = loop_bind (run_py (of_open F path)) (\<lambda>_. loop_finally body (of_close F))"

text \<open>\<open>range(mib)\<close> rounds; \<open>urandom n\<close> is \<open>os.urandom(n)\<close>.\<close>

fun write_random :: "'w outfile \<Rightarrow> (nat \<Rightarrow> ('w, int list) py) \<Rightarrow> nat \<Rightarrow> ('w, unit) py" where
  "write_random F urandom 0 = py_return ()"
| "write_random F urandom (Suc k) =
     py_bind (urandom (1024 * 1024)) (\<lambda>d. py_bind (of_write F d) (\<lambda>_. write_random F urandom k))"

(* examples/cached_reads/fetch_data.py:18-21 write_synthetic *)
definition write_synthetic :: "'w outfile \<Rightarrow> (nat \<Rightarrow> ('w, int list) py) \<Rightarrow> string \<Rightarrow> int \<Rightarrow> ('w, unit) looping" where
  "write_synthetic F urandom path mib = with_file F path (run_py (write_random F urandom (nat mib)))"

text \<open>
  What the two libraries give: the request, the test of the status, \<open>int(content-length or 0)\<close>
  (which may raise), the next chunk, and the end of the response.
\<close>

record 'w http =
  ht_request :: "string \<Rightarrow> ('w, unit) py"
  ht_raise_for_status :: "('w, unit) py"
  ht_status :: "'w \<Rightarrow> int"
  ht_content_length :: "('w, int) py"
  ht_iter_content :: "nat \<Rightarrow> ('w, int list option) py"
  ht_read :: "nat \<Rightarrow> ('w, int list) py"
  ht_release :: "('w, unit) py"

abbreviation "chunk_bytes \<equiv> 256 * (1024 :: nat)"

(* examples/cached_reads/fetch_data.py:24-37 download_requests *)
definition download_requests :: "'w http \<Rightarrow> 'w outfile \<Rightarrow> string \<Rightarrow> string \<Rightarrow> ('w, unit) looping" where
  "download_requests T F url path =
     loop_bind (run_py (ht_request T url)) (\<lambda>_.
     loop_finally
       (loop_bind (run_py (py_bind (ht_raise_for_status T) (\<lambda>_. ht_content_length T))) (\<lambda>_.
        with_file F path (take_all (ht_iter_content T chunk_bytes)
          (\<lambda>chunk. if chunk \<noteq> [] then of_write F chunk else py_return ()))))
       (ht_release T))"

text \<open>\<open>urllib3\<close>: an empty chunk is the end.  The status is tested before the \<open>try\<close>.\<close>

(* examples/cached_reads/fetch_data.py:40-58 download_urllib3 *)
definition download_urllib3 :: "'w http \<Rightarrow> 'w outfile \<Rightarrow> string \<Rightarrow> string \<Rightarrow> ('w, unit) looping" where
  "download_urllib3 T F url path =
     loop_bind (run_py (ht_request T url)) (\<lambda>_ w.
     if 400 \<le> ht_status T w then Some (Inl (RuntimeError (''HTTP '' @ digits_of_nat (nat (ht_status T w)))), w)
     else loop_finally
       (loop_bind (run_py (ht_content_length T)) (\<lambda>_.
        with_file F path (take_all
          (py_map (\<lambda>chunk. if chunk = [] then None else Some chunk) (ht_read T chunk_bytes)) (of_write F))))
       (ht_release T) w)"

text \<open>The program; it returns the size that it prints.  \<open>here\<close> is the directory of the script, the empty \<open>url\<close> none.\<close>

(* examples/cached_reads/fetch_data.py:63-84 main *)
definition fetch_main ::
  "'w places \<Rightarrow> 'w http \<Rightarrow> 'w outfile \<Rightarrow> (nat \<Rightarrow> ('w, int list) py) \<Rightarrow> 'w host
     \<Rightarrow> string \<Rightarrow> string option \<Rightarrow> options \<Rightarrow> string \<Rightarrow> bool \<Rightarrow> ('w, nat) looping" where
  "fetch_main L T F urandom H here out args url urllib3 = (\<lambda>w.
     let out = (case out of None \<Rightarrow> path_join here ''cached_blob.bin'' | Some p \<Rightarrow> p);
       dir = pl_dirname L (pl_abspath L out w)
     in loop_bind (run_py (pl_makedirs L (if dir = [] then ''.'' else dir))) (\<lambda>_.
        loop_bind (if url \<noteq> [] then (if urllib3 then download_urllib3 T F url out else download_requests T F url out)
                   else write_synthetic F urandom out (option_or args ''--mib'' 8)) (\<lambda>_.
        run_py (ho_getsize H out))) w)"

end
