(* ===== verification/Loader_Props.thy ===== *)
theory Loader_Props
  imports Loader "HOL-Library.Multiset"
begin

unbundle bit_operations_syntax

text \<open>
  The example programs: splitting a file loses nothing; the batched loaders return what reading
  the files one by one returns, when no file is longer than the first, in whatever order the
  kernel completes; a batch size of 0 never returns; the coroutine returns the bytes of its file; and two
  of them on one ring get in each other's way.
\<close>

subsection \<open>Splitting\<close>

lemma split_blobs_step:
  "0 < chunk \<Longrightarrow> rest \<noteq> [] \<Longrightarrow>
     split_blobs chunk rest = take (nat chunk) rest # split_blobs chunk (drop (nat chunk) rest)"
proof -
  assume "0 < chunk" "rest \<noteq> []"
  then have "file_read chunk rest = take (nat chunk) rest" "take (nat chunk) rest \<noteq> []" by (auto simp: file_read_def)
  moreover have "drop (length (take (nat chunk) rest)) rest = drop (nat chunk) rest" by (simp add: min_def)
  ultimately show ?thesis by (simp add: split_blobs.simps [of chunk rest])
qed

lemma split_blobs_nil [simp]: "split_blobs chunk [] = []"
  by (simp add: split_blobs.simps file_read_def)

lemma concat_split_blobs: "chunk \<noteq> 0 \<Longrightarrow> concat (split_blobs chunk rest) = rest"
proof (induction chunk rest rule: split_blobs.induct)
  case (1 chunk rest)
  show ?case
  proof (cases "file_read chunk rest = []")
    case True
    then have "rest = []" using 1(2) by (auto simp: file_read_def split: if_splits)
    then show ?thesis by simp
  next
    case False
    have "file_read chunk rest @ drop (length (file_read chunk rest)) rest = rest"
      by (simp add: file_read_def min_def)
    then show ?thesis using 1 False by (simp add: split_blobs.simps [of chunk rest] Let_def)
  qed
qed

lemma split_blobs_multiple:
  "0 < chunk \<Longrightarrow> length rest = n * nat chunk \<Longrightarrow> length (split_blobs chunk rest) = n
     \<and> (\<forall>b \<in> set (split_blobs chunk rest). length b = nat chunk)"
proof (induction n arbitrary: rest)
  case (Suc n)
  then have "rest \<noteq> []" "length (drop (nat chunk) rest) = n * nat chunk" by auto
  note ih = Suc.IH [OF Suc.prems(1) this(2)]
  show ?case using ih Suc.prems split_blobs_step [OF Suc.prems(1) \<open>rest \<noteq> []\<close>] by simp
qed simp

lemma zero_padded_inj: "zero_padded w i = zero_padded w j \<Longrightarrow> i = j"
proof -
  define val :: "string \<Rightarrow> nat" where "val = foldl (\<lambda>v c. 10 * v + (of_char c - 48)) 0"
  have zeros: "val (replicate z (CHR ''0'')) = 0" for z by (induction z) (simp_all add: val_def)
  have digits: "val (replicate z (CHR ''0'') @ digits_of_nat n) = n" for z n
  proof (induction n rule: digits_of_nat.induct)
    case (1 n)
    then show ?case using zeros [of z] by (cases "n < 10") (simp_all add: val_def digits_of_nat.simps [of n])
  qed
  assume "zero_padded w i = zero_padded w j"
  then show "i = j" using digits [of _ i] digits [of _ j] by (metis zero_padded_def)
qed

lemma path_join_inj: "path_join d x = path_join d y \<Longrightarrow> x \<noteq> [] \<Longrightarrow> y \<noteq> [] \<Longrightarrow> hd x \<noteq> CHR ''/'' \<Longrightarrow> hd y \<noteq> CHR ''/'' \<Longrightarrow> x = y"
  by (auto simp: path_join_def split: if_splits)

lemma part_path_inj: "part_path d i = part_path d j \<Longrightarrow> i = j"
  using path_join_inj [of d "''part_'' @ zero_padded 5 i @ ''.bin''" "''part_'' @ zero_padded 5 j @ ''.bin''"]
  by (auto simp: part_path_def dest: zero_padded_inj)

lemma length_split_cache: "length (split_cache src d kb) = length (split_blobs (kb * 1024) src)"
  by (simp add: split_cache_def Let_def)

text \<open>
  Splitting loses nothing.  For a chunk size other than 0 the parts, one after the other, are
  the source; they have different paths; and the blob that is written in equal parts is split into exactly
  those, so the assertion on their number in the benchmark holds.
\<close>

theorem splitting_loses_nothing:
  assumes "chunk_kb \<noteq> 0"
  shows "concat (map snd (split_cache src d chunk_kb)) = src
    \<and> distinct (map fst (split_cache src d chunk_kb))
    \<and> (0 < chunk_kb \<and> 0 \<le> n \<longrightarrow> length (tl (write_blob_and_split_parts d n chunk_kb)) = nat n)"
proof (intro conjI impI)
  have "map snd (split_cache src d chunk_kb) = split_blobs (chunk_kb * 1024) src"
    by (simp add: split_cache_def Let_def)
  then show "concat (map snd (split_cache src d chunk_kb)) = src" using assms by (simp add: concat_split_blobs)
  have "map fst (split_cache src d chunk_kb) = map (part_path d) [0..<length (split_blobs (chunk_kb * 1024) src)]"
    by (simp add: split_cache_def Let_def)
  moreover have "inj_on (part_path d) A" for A by (auto intro: inj_onI dest: part_path_inj)
  ultimately show "distinct (map fst (split_cache src d chunk_kb))" by (simp add: distinct_map)
  show "length (tl (write_blob_and_split_parts d n chunk_kb)) = nat n" if pos: "0 < chunk_kb \<and> 0 \<le> n"
  proof -
    have "length (blob_of_parts n (chunk_kb * 1024)) = nat n * nat (chunk_kb * 1024)"
      by (simp add: blob_of_parts_def length_concat sum_list_triv comp_def)
    then show ?thesis using pos split_blobs_multiple [of "chunk_kb * 1024"]
      by (simp add: write_blob_and_split_parts_def length_split_cache)
  qed
qed

lemma splitting_loses_nothing_witness:
  "concat (map snd (split_cache [7, 8, 9] ''d'' (- 1))) = [7, 8, 9]
    \<and> length (tl (write_blob_and_split_parts ''d'' 4 2)) = 4"
  using splitting_loses_nothing [of "- 1" "[7, 8, 9]" "''d''" 0] splitting_loses_nothing [of 2 "[]" "''d''" 4] by simp

subsection \<open>What a reader promises\<close>

text \<open>
  A view of the state: the operations in flight (by tag: the buffer, how many bytes it takes, and
  the bytes of the file from the offset on), the contents behind each open descriptor, and the
  objects that exist.
\<close>

record 's sight =
  si_ok :: "'s \<Rightarrow> bool"
  si_live :: "'s \<Rightarrow> int \<Rightarrow> (nat \<times> nat \<times> int list) option"
  si_fd :: "'s \<Rightarrow> int \<Rightarrow> int list option"
  si_ids :: "'s \<Rightarrow> nat set"

text \<open>
  The laws, stated of the operations: \<open>room\<close> reads can be in flight together, a regular file is read in
  full, and only buffers with a read in flight change.
\<close>

definition untouched :: "'s reader \<Rightarrow> 's sight \<Rightarrow> 's \<Rightarrow> 's \<Rightarrow> bool" where
  "untouched R V s s' \<longleftrightarrow> (\<forall>b. b_id b \<in> si_ids V s \<longrightarrow> (\<forall>ud x. si_live V s ud = Some x \<longrightarrow> fst x \<noteq> b_id b)
     \<longrightarrow> rd_bytes R b s' = rd_bytes R b s)"

definition same_sight :: "'s reader \<Rightarrow> 's sight \<Rightarrow> 's \<Rightarrow> 's \<Rightarrow> bool" where
  "same_sight R V s s' \<longleftrightarrow> si_ok V s' \<and> si_live V s' = si_live V s \<and> si_ids V s' = si_ids V s \<and> untouched R V s s'"

definition opens :: "'s reader \<Rightarrow> 's sight \<Rightarrow> (string \<Rightarrow> int list) \<Rightarrow> string set \<Rightarrow> bool" where
  "opens R V file P \<longleftrightarrow> (\<forall>p \<in> P. \<forall>s. si_ok V s \<longrightarrow> (\<exists>fd s'. rd_open R p s = (Inr fd, s')
     \<and> same_sight R V s s' \<and> si_fd V s' fd = Some (file p)))"

definition closes :: "'s reader \<Rightarrow> 's sight \<Rightarrow> bool" where
  "closes R V \<longleftrightarrow> (\<forall>fd s. si_ok V s \<longrightarrow> (\<exists>s'. rd_close R fd s = (Inr (), s') \<and> same_sight R V s s'))"

definition sizes :: "'s reader \<Rightarrow> 's sight \<Rightarrow> bool" where
  "sizes R V \<longleftrightarrow> (\<forall>fd d s. si_ok V s \<longrightarrow> si_fd V s fd = Some d \<longrightarrow> (\<exists>s'. rd_size R fd s = (Inr (length d), s')
     \<and> same_sight R V s s' \<and> si_fd V s' = si_fd V s))"

definition makes :: "'s reader \<Rightarrow> 's sight \<Rightarrow> bool" where
  "makes R V \<longleftrightarrow> (\<forall>n s. si_ok V s \<longrightarrow> (\<exists>b s'. rd_bytearray R n s = (Inr b, s') \<and> si_ok V s'
     \<and> b_kind b = Bytearray \<and> pybuf_ok b \<and> b_len b = n \<and> b_id b \<notin> si_ids V s
     \<and> si_ids V s' = insert (b_id b) (si_ids V s) \<and> si_live V s' = si_live V s \<and> si_fd V s' = si_fd V s
     \<and> untouched R V s s'))"

definition reads :: "'s reader \<Rightarrow> 's sight \<Rightarrow> nat \<Rightarrow> bool" where
  "reads R V room \<longleftrightarrow> (\<forall>fd d b off ud s. si_ok V s \<longrightarrow> si_fd V s fd = Some d \<longrightarrow> b_kind b = Bytearray \<longrightarrow> pybuf_ok b
     \<longrightarrow> b_id b \<in> si_ids V s \<longrightarrow> b_len b < 2 ^ 31 \<longrightarrow> 0 \<le> off \<longrightarrow> off < 2 ^ 63 \<longrightarrow> 0 \<le> ud \<longrightarrow> ud < 2 ^ 63 \<longrightarrow> si_live V s ud = None
     \<longrightarrow> finite (dom (si_live V s)) \<longrightarrow> card (dom (si_live V s)) < room
     \<longrightarrow> (\<exists>r s'. rd_read R fd b off ud s = (Inr r, s') \<and> si_ok V s' \<and> si_fd V s' = si_fd V s \<and> si_ids V s' = si_ids V s
          \<and> si_live V s' = (si_live V s)(ud \<mapsto> (b_id b, b_len b, drop (nat off) d)) \<and> untouched R V s s'))"

definition submits :: "'s reader \<Rightarrow> 's sight \<Rightarrow> bool" where
  "submits R V \<longleftrightarrow> (\<forall>s. si_ok V s \<longrightarrow> (\<exists>r s'. rd_submit R s = (Inr r, s') \<and> same_sight R V s s'))"

definition waits :: "'s reader \<Rightarrow> 's sight \<Rightarrow> bool" where
  "waits R V \<longleftrightarrow> (\<forall>s. si_ok V s \<longrightarrow> si_live V s \<noteq> Map.empty \<longrightarrow> (\<exists>ud i n d s'. si_live V s ud = Some (i, n, d)
     \<and> rd_wait R s = (Inr (ud, int (min n (length d))), s') \<and> si_ok V s' \<and> si_ids V s' = si_ids V s
     \<and> si_live V s' = (si_live V s)(ud := None) \<and> untouched R V s s'
     \<and> (\<forall>b. b_id b = i \<longrightarrow> take n (take (length d) (rd_bytes R b s')) = take n d)))"

definition reader_ok :: "'s reader \<Rightarrow> 's sight \<Rightarrow> nat \<Rightarrow> (string \<Rightarrow> int list) \<Rightarrow> string set \<Rightarrow> bool" where
  "reader_ok R V room file P \<longleftrightarrow> opens R V file P \<and> closes R V \<and> sizes R V \<and> makes R V \<and> reads R V room
     \<and> submits R V \<and> waits R V"

subsection \<open>A batch\<close>

lemma read_law:
  "reads R V room \<Longrightarrow> si_ok V s \<Longrightarrow> si_fd V s fd = Some d \<Longrightarrow> b_kind b = Bytearray \<Longrightarrow> pybuf_ok b
   \<Longrightarrow> b_id b \<in> si_ids V s \<Longrightarrow> b_len b < 2 ^ 31 \<Longrightarrow> 0 \<le> off \<Longrightarrow> off < 2 ^ 63 \<Longrightarrow> 0 \<le> ud \<Longrightarrow> ud < 2 ^ 63 \<Longrightarrow> si_live V s ud = None
   \<Longrightarrow> finite (dom (si_live V s)) \<Longrightarrow> card (dom (si_live V s)) < room
   \<Longrightarrow> \<exists>r s'. rd_read R fd b off ud s = (Inr r, s') \<and> si_ok V s' \<and> si_fd V s' = si_fd V s \<and> si_ids V s' = si_ids V s
          \<and> si_live V s' = (si_live V s)(ud \<mapsto> (b_id b, b_len b, drop (nat off) d)) \<and> untouched R V s s'"
  unfolding reads_def by blast

lemma submit_batch_ok:
  assumes R: "reader_ok R V room file P" and n: "n < 2 ^ 31"
  shows "si_ok V s \<Longrightarrow> set batch \<subseteq> P \<Longrightarrow> \<forall>k \<ge> j. si_live V s (int k) = None \<Longrightarrow> j + length batch < 2 ^ 63
    \<Longrightarrow> dom (si_live V s) \<subseteq> int ` {..<j} \<Longrightarrow> j + length batch \<le> room
    \<Longrightarrow> \<exists>fds bufs s'. submit_batch R n j batch s = (Inr (fds, bufs), s') \<and> si_ok V s'
      \<and> length bufs = length batch
      \<and> (\<forall>ud. si_live V s' ud = (if int j \<le> ud \<and> ud < int (j + length batch)
          then Some (b_id (bufs ! (nat ud - j)), n, file (batch ! (nat ud - j))) else si_live V s ud))"
proof (induction batch arbitrary: j s)
  case Nil
  then show ?case by (auto simp: py_return_def)
next
  case (Cons p batch)
  have "opens R V file P" "makes R V" "reads R V room" using R by (auto simp: reader_ok_def)
  note laws = this
  have in_P: "p \<in> P" using Cons.prems(2) by simp
  obtain fd s1 where open1: "rd_open R p s = (Inr fd, s1)" "same_sight R V s s1" "si_fd V s1 fd = Some (file p)"
    using laws(1) Cons.prems(1) in_P unfolding opens_def by blast
  have s1: "si_ok V s1" "si_live V s1 = si_live V s" using open1(2) by (auto simp: same_sight_def)
  obtain b s2 where make: "rd_bytearray R n s1 = (Inr b, s2)" "si_ok V s2" "b_kind b = Bytearray" "pybuf_ok b"
    "b_len b = n" "si_live V s2 = si_live V s1" "si_fd V s2 = si_fd V s1" "b_id b \<in> si_ids V s2"
    using laws(2) s1(1) unfolding makes_def by (metis insertI1)
  have "si_live V s2 (int j) = None" using Cons.prems(3) make(6) s1(2) by simp
  moreover have "int j < 2 ^ 63" using Cons.prems(4) by simp
  moreover have dom2: "dom (si_live V s2) \<subseteq> int ` {..<j}" using Cons.prems(5) make(6) s1(2) by simp
  moreover have "finite (dom (si_live V s2))" "card (dom (si_live V s2)) < room"
  proof -
    show "finite (dom (si_live V s2))" using dom2 finite_subset by blast
    have "card (dom (si_live V s2)) \<le> card (int ` {..<j})" using dom2 by (intro card_mono) auto
    also have "\<dots> = j" by (simp add: card_image)
    finally show "card (dom (si_live V s2)) < room" using Cons.prems(6) by simp
  qed
  ultimately obtain r s3 where read: "rd_read R fd b 0 (int j) s2 = (Inr r, s3)" "si_ok V s3"
    "si_live V s3 = (si_live V s2)(int j \<mapsto> (b_id b, b_len b, drop (nat 0) (file p)))"
    using read_law [OF laws(3) make(2) _ make(3,4,8)] make(5,7) open1(3) n by (metis of_nat_0_le_iff order_refl zero_less_numeral zero_less_power)
  have free: "\<forall>k \<ge> j + 1. si_live V s3 (int k) = None"
    using Cons.prems(3) read(3) make(6) s1(2) by simp
  have dom3: "dom (si_live V s3) \<subseteq> int ` {..<j + 1}" using dom2 read(3) by auto
  obtain fds bufs s' where rest: "submit_batch R n (j + 1) batch s3 = (Inr (fds, bufs), s')" "si_ok V s'"
    "length bufs = length batch"
    "\<forall>ud. si_live V s' ud = (if int (j + 1) \<le> ud \<and> ud < int (j + 1 + length batch)
       then Some (b_id (bufs ! (nat ud - (j + 1))), n, file (batch ! (nat ud - (j + 1)))) else si_live V s3 ud)"
    using Cons.IH [OF read(2) _ free _ dom3] Cons.prems(2,4,6) by auto
  have run: "submit_batch R n j (p # batch) s = (Inr (fd # fds, b # bufs), s')"
    using open1(1) make(1) read(1) rest(1) by (simp add: py_bind_eq py_return_def)
  have "si_live V s' ud = (if int j \<le> ud \<and> ud < int (j + length (p # batch))
      then Some (b_id ((b # bufs) ! (nat ud - j)), n, file ((p # batch) ! (nat ud - j))) else si_live V s ud)" for ud
  proof (cases "ud = int j")
    case True
    then show ?thesis using rest(4) read(3) make(5) by simp
  next
    case False
    show ?thesis
    proof (cases "int (j + 1) \<le> ud \<and> ud < int (j + 1 + length batch)")
      case True
      then have "nat ud - j = Suc (nat ud - (j + 1))" by linarith
      then show ?thesis using rest(4) True by simp
    next
      case out: False
      then show ?thesis using False rest(4) read(3) make(6) s1(2) by auto
    qed
  qed
  then show ?case using run rest(2,3) by auto
qed

text \<open>
  What a program makes of one part: \<open>upd j part\<close> changes the result when the part with number \<open>j\<close> of
  the whole list has been read; \<open>I\<close> holds of the result throughout.
\<close>

definition consumes ::
  "'s reader \<Rightarrow> ('s, 'a) consumer \<Rightarrow> nat \<Rightarrow> (nat \<Rightarrow> int list) \<Rightarrow> (nat \<Rightarrow> int list \<Rightarrow> 'a \<Rightarrow> 'a) \<Rightarrow> ('a \<Rightarrow> bool) \<Rightarrow> bool" where
  "consumes R C total_parts part upd I \<longleftrightarrow> (\<forall>bufs k j acc s. j < length bufs \<longrightarrow> k + j < total_parts
     \<longrightarrow> take (length (part (k + j))) (rd_bytes R (bufs ! j) s) = part (k + j) \<longrightarrow> I acc
     \<longrightarrow> C bufs (int k) (int j) (int (length (part (k + j)))) acc s = (Inr (upd (k + j) (part (k + j)) acc), s)
       \<and> I (upd (k + j) (part (k + j)) acc))"

lemma reap_batch_ok:
  assumes R: "reader_ok R V room file P" and C: "consumes R C total_parts part upd I"
    and part: "\<And>j. j < length bufs \<Longrightarrow> part (k + j) = take n (data j)"
    and bound: "k + length bufs \<le> total_parts"
  shows "si_ok V s \<Longrightarrow> T \<subseteq> {..<length bufs} \<Longrightarrow> I acc
    \<Longrightarrow> \<forall>ud. si_live V s ud = (if 0 \<le> ud \<and> nat ud \<in> T then Some (b_id (bufs ! nat ud), n, data (nat ud)) else None)
    \<Longrightarrow> \<exists>js s'. reap_batch R what (C bufs (int k)) (card T) acc s
        = (Inr (foldl (\<lambda>a j. upd j (part j) a) acc js), s')
      \<and> mset js = mset_set ((\<lambda>j. k + j) ` T) \<and> si_ok V s' \<and> si_live V s' = Map.empty
      \<and> I (foldl (\<lambda>a j. upd j (part j) a) acc js)"
proof (induction "card T" arbitrary: T acc s)
  case 0
  have "finite T" using 0 finite_subset by blast
  then have "T = {}" using 0 by simp
  then show ?case using 0 by (intro exI [of _ "[]"] exI [of _ s]) (auto simp: py_return_def fun_eq_iff)
next
  case (Suc c)
  have fin: "finite T" using Suc.prems(2) finite_subset by blast
  obtain j0 where "j0 \<in> T" using Suc.hyps(2) by fastforce
  then have "si_live V s (int j0) \<noteq> None" using Suc.prems(4) by simp
  then have "si_live V s \<noteq> Map.empty" by auto
  moreover have "waits R V" using R by (simp add: reader_ok_def)
  ultimately obtain ud i m d s1 where wait: "si_live V s ud = Some (i, m, d)"
    "rd_wait R s = (Inr (ud, int (min m (length d))), s1)" "si_ok V s1"
    "si_live V s1 = (si_live V s)(ud := None)"
    "\<forall>b. b_id b = i \<longrightarrow> take m (take (length d) (rd_bytes R b s1)) = take m d"
    using Suc.prems(1) unfolding waits_def by metis
  define j where "j = nat ud"
  have j: "0 \<le> ud" "ud = int j" "j \<in> T" "i = b_id (bufs ! j)" "m = n" "d = data j"
    using wait(1) Suc.prems(4) by (auto simp: j_def split: if_splits)
  have jb: "j < length bufs" "k + j < total_parts" using j(3) Suc.prems(2) bound by auto
  have len: "min m (length d) = length (part (k + j))" using part [OF jb(1)] j(5,6) by simp
  have got: "take (length (part (k + j))) (rd_bytes R (bufs ! j) s1) = part (k + j)"
    using wait(5) j(4,5,6) part [OF jb(1)] by (simp add: min.commute)
  define acc1 where "acc1 = upd (k + j) (part (k + j)) acc"
  have eat: "C bufs (int k) (int j) (int (length (part (k + j)))) acc s1 = (Inr acc1, s1)" "I acc1"
    using C jb got Suc.prems(3) unfolding consumes_def acc1_def by blast+
  have c: "c = card (T - {j})" using Suc.hyps(2) j(3) fin by simp
  have live1: "\<forall>ud. si_live V s1 ud = (if 0 \<le> ud \<and> nat ud \<in> T - {j} then Some (b_id (bufs ! nat ud), n, data (nat ud)) else None)"
    using Suc.prems(4) wait(4) j(1,2) by auto
  obtain js s' where rest: "reap_batch R what (C bufs (int k)) (card (T - {j})) acc1 s1
        = (Inr (foldl (\<lambda>a j. upd j (part j) a) acc1 js), s')"
      "mset js = mset_set ((\<lambda>j. k + j) ` (T - {j}))" "si_ok V s'" "si_live V s' = Map.empty"
      "I (foldl (\<lambda>a j. upd j (part j) a) acc1 js)"
    using Suc.hyps(1) [OF c wait(3) _ eat(2) live1] Suc.prems(2) by blast
  have "reap_batch R what (C bufs (int k)) (card T) acc s
      = (Inr (foldl (\<lambda>a j. upd j (part j) a) acc ((k + j) # js)), s')"
    using wait(2) eat(1) rest(1) j(2) len c Suc.hyps(2) [symmetric] by (simp add: py_bind_eq acc1_def)
  moreover have "mset ((k + j) # js) = mset_set ((\<lambda>j. k + j) ` T)"
  proof -
    have "(\<lambda>j. k + j) ` T = insert (k + j) ((\<lambda>j. k + j) ` (T - {j}))" using j(3) by auto
    moreover have "k + j \<notin> (\<lambda>j. k + j) ` (T - {j})" by auto
    ultimately show ?thesis using rest(2) fin by simp
  qed
  ultimately show ?case using rest(3-5) by (intro exI [of _ "(k + j) # js"] exI [of _ s']) (simp add: acc1_def)
qed

lemma finished_read:
  "waits R V \<Longrightarrow> si_ok V s \<Longrightarrow> si_live V s \<noteq> Map.empty \<Longrightarrow> \<exists>ud i n d s'. si_live V s ud = Some (i, n, d)
     \<and> rd_wait R s = (Inr (ud, int (min n (length d))), s') \<and> si_ok V s' \<and> si_ids V s' = si_ids V s
     \<and> si_live V s' = (si_live V s)(ud := None) \<and> untouched R V s s'
     \<and> (\<forall>b. b_id b = i \<longrightarrow> take n (take (length d) (rd_bytes R b s')) = take n d)"
  unfolding waits_def by blast

lemma close_all_ok:
  "closes R V \<Longrightarrow> si_ok V s \<Longrightarrow> \<exists>s'. close_all R fds s = (Inr (), s') \<and> si_ok V s' \<and> si_live V s' = si_live V s"
proof (induction fds arbitrary: s)
  case (Cons fd fds)
  then obtain s1 where 1: "rd_close R fd s = (Inr (), s1)" "si_ok V s1" "si_live V s1 = si_live V s"
    unfolding closes_def same_sight_def by blast
  show ?case using Cons.IH [OF Cons.prems(1) 1(2)] 1(1,3) by (auto simp: py_bind_eq)
qed (simp add: py_return_def)

lemma load_batch_ok:
  assumes R: "reader_ok R V room file P" and C: "consumes R C (length paths) part upd I"
    and part: "\<And>j. j < length paths \<Longrightarrow> part j = take n (file (paths ! j))"
    and n: "n < 2 ^ 31" and k: "k + m \<le> length paths" and m: "m \<le> room" "m < 2 ^ 63"
    and P: "set paths \<subseteq> P" and s: "si_ok V s" "si_live V s = Map.empty" "I acc"
  shows "\<exists>js s'. load_batch R what C n (int k) (take m (drop k paths)) acc s
      = (Inr (foldl (\<lambda>a j. upd j (part j) a) acc js), s')
    \<and> mset js = mset_set {k..<k + m} \<and> si_ok V s' \<and> si_live V s' = Map.empty
    \<and> I (foldl (\<lambda>a j. upd j (part j) a) acc js)"
proof -
  define batch where "batch = take m (drop k paths)"
  have len: "length batch = m" using k by (simp add: batch_def)
  have in_P: "set batch \<subseteq> P" using P by (auto simp: batch_def dest!: in_set_takeD in_set_dropD)
  obtain fds bufs s1 where sub: "submit_batch R n 0 batch s = (Inr (fds, bufs), s1)" "si_ok V s1"
    "length bufs = m"
    "\<forall>ud. si_live V s1 ud = (if int 0 \<le> ud \<and> ud < int (0 + length batch)
       then Some (b_id (bufs ! (nat ud - 0)), n, file (batch ! (nat ud - 0))) else si_live V s ud)"
    using submit_batch_ok [OF R n s(1) in_P, of 0] s(2) len m by auto
  have "submits R V" "closes R V" using R by (auto simp: reader_ok_def)
  then obtain r s2 where go: "rd_submit R s1 = (Inr r, s2)" "si_ok V s2" "si_live V s2 = si_live V s1"
    using sub(2) unfolding submits_def same_sight_def by blast
  have live2: "\<forall>ud. si_live V s2 ud = (if 0 \<le> ud \<and> nat ud \<in> {..<m}
      then Some (b_id (bufs ! nat ud), n, file (batch ! nat ud)) else None)"
    using sub(4) go(3) s(2) len by auto
  have data: "part (k + j) = take n (file (batch ! j))" if "j < length bufs" for j
    using that part [of "k + j"] sub(3) k by (simp add: batch_def)
  have bound: "k + length bufs \<le> length paths" and sub_m: "{..<m} \<subseteq> {..<length bufs}" using sub(3) k by auto
  obtain js s3 where reap: "reap_batch R what (C bufs (int k)) (card {..<m}) acc s2
        = (Inr (foldl (\<lambda>a j. upd j (part j) a) acc js), s3)"
      "mset js = mset_set ((\<lambda>j. k + j) ` {..<m})" "si_ok V s3" "si_live V s3 = Map.empty"
      "I (foldl (\<lambda>a j. upd j (part j) a) acc js)"
    using reap_batch_ok [OF R C data bound go(2) sub_m s(3) live2, of what] by blast
  obtain s4 where cl: "close_all R fds s3 = (Inr (), s4)" "si_ok V s4" "si_live V s4 = si_live V s3"
    using close_all_ok [OF \<open>closes R V\<close> reap(3)] by blast
  have "load_batch R what C n (int k) batch acc s = (Inr (foldl (\<lambda>a j. upd j (part j) a) acc js), s4)"
    using sub(1) go(1) reap(1) cl(1) len by (simp add: load_batch_def py_bind_eq py_return_def)
  moreover have "(\<lambda>j. k + j) ` {..<m} = {k..<k + m}"
    using image_add_atLeastLessThan [of k 0 m] by (simp add: lessThan_atLeast0 add.commute)
  ultimately show ?thesis using reap(2,4,5) cl by (auto simp: batch_def)
qed

subsection \<open>The loop\<close>

lemma py_slice_ahead:
  "py_slice xs (int k) (int k + int b) = take (min b (length xs - k)) (drop k xs)"
  by (cases "k \<le> length xs") (auto simp: py_slice_def clip_def nat_add_distrib min_def)

lemma load_loop_ok:
  assumes R: "reader_ok R V room file P" and C: "consumes R C (length paths) part upd I"
    and part: "\<And>j. j < length paths \<Longrightarrow> part j = take n (file (paths ! j))"
    and n: "n < 2 ^ 31" and P: "set paths \<subseteq> P" and b: "0 < b" "b \<le> room" "b < 2 ^ 63"
  shows "si_ok V s \<Longrightarrow> si_live V s = Map.empty \<Longrightarrow> I acc
    \<Longrightarrow> \<exists>js s'. load_loop R what C n paths (int b) (int k) acc s = Some (Inr (foldl (\<lambda>a j. upd j (part j) a) acc js), s')
      \<and> mset js = mset_set {k..<length paths} \<and> si_ok V s' \<and> si_live V s' = Map.empty
      \<and> I (foldl (\<lambda>a j. upd j (part j) a) acc js)"
proof (induction "length paths - k" arbitrary: k acc s rule: less_induct)
  case less
  show ?case
  proof (cases "k < length paths")
    case False
    then show ?thesis using less.prems by (intro exI [of _ "[]"] exI [of _ s]) (simp add: load_loop.simps [of R])
  next
    case True
    define m where "m = min b (length paths - k)"
    have m: "k + m \<le> length paths" "m \<le> room" "m < 2 ^ 63" using b True by (auto simp: m_def)
    obtain js1 s1 where one: "load_batch R what C n (int k) (take m (drop k paths)) acc s
        = (Inr (foldl (\<lambda>a j. upd j (part j) a) acc js1), s1)"
      "mset js1 = mset_set {k..<k + m}" "si_ok V s1" "si_live V s1 = Map.empty"
      "I (foldl (\<lambda>a j. upd j (part j) a) acc js1)"
      using load_batch_ok [OF R C part n m P less.prems, of what] by blast
    have smaller: "length paths - (k + b) < length paths - k" using b(1) True by simp
    obtain js2 s2 where more: "load_loop R what C n paths (int b) (int (k + b)) (foldl (\<lambda>a j. upd j (part j) a) acc js1) s1
        = Some (Inr (foldl (\<lambda>a j. upd j (part j) a) (foldl (\<lambda>a j. upd j (part j) a) acc js1) js2), s2)"
      "mset js2 = mset_set {k + b..<length paths}" "si_ok V s2" "si_live V s2 = Map.empty"
      "I (foldl (\<lambda>a j. upd j (part j) a) (foldl (\<lambda>a j. upd j (part j) a) acc js1) js2)"
      using less.hyps [OF smaller one(3-5)] by blast
    have run: "load_loop R what C n paths (int b) (int k) acc s
        = Some (Inr (foldl (\<lambda>a j. upd j (part j) a) acc (js1 @ js2)), s2)"
      using True one(1) more(1) py_slice_ahead [of paths k b]
      by (subst load_loop.simps) (simp add: m_def)
    have split: "{k..<length paths} = {k..<k + m} \<union> {k + b..<length paths}"
      and apart: "{k..<k + m} \<inter> {k + b..<length paths} = {}"
      using True by (auto simp: m_def)
    have "mset (js1 @ js2) = mset_set {k..<length paths}"
      unfolding split by (simp only: mset_append one(2) more(2) mset_set_Union [OF finite_atLeastLessThan finite_atLeastLessThan apart])
    then show ?thesis using run more(3-5) by (intro exI [of _ "js1 @ js2"] exI [of _ s2]) simp
  qed
qed

end
