(* ===== verification/Loader_Ring.thy ===== *)
theory Loader_Ring
  imports Loader_Props
begin

unbundle bit_operations_syntax

text \<open>
  The batched loaders on a \<open>UringCtx\<close>: the contract of the host and the native functions is passed on
  by the Python layer, whose table of pinned buffers always holds exactly the reads in flight; so
  the loaders return what is in the files.
\<close>

subsection \<open>The host and the native functions as a reader\<close>

text \<open>
  The raw calls as \<open>ctypes\<close> makes them, for the ring at the address \<open>h\<close>; a result that is not one of
  the documented successful ones counts as a failure.
\<close>

abbreviation "no_success \<equiv> OtherException 3"

definition kernel_open :: "'w host \<Rightarrow> string \<Rightarrow> ('w, int) py" where
  "kernel_open H p w = (case ho_open H p w of
     (Inr fd, w) \<Rightarrow> (if 0 \<le> fd \<and> fd < 2 ^ 31 then Inr fd else Inl no_success, w) | (Inl e, w) \<Rightarrow> (Inl e, w))"

definition kernel_read :: "'w env \<Rightarrow> int \<Rightarrow> int \<Rightarrow> pybuf \<Rightarrow> int \<Rightarrow> int \<Rightarrow> ('w, int) py" where
  "kernel_read E h fd b off ud w =
     (case native E ''uring_read_async'' [CInt h, CInt fd, CMem (Shared (b_id b) (b_len b)), CInt (int (b_len b)),
        CInt off, CInt ud] w of
        (r, w) \<Rightarrow> (if 0 \<le> rp_ret r \<and> rp_ret r < 2 ^ 63 then Inr (rp_ret r) else Inl no_success, w))"

definition kernel_submit :: "'w env \<Rightarrow> int \<Rightarrow> ('w, int) py" where
  "kernel_submit E h w = (case native E ''uring_submit'' [CInt h] w of
     (r, w) \<Rightarrow> (if 0 \<le> rp_ret r \<and> rp_ret r < 2 ^ 31 then Inr (rp_ret r) else Inl no_success, w))"

definition kernel_wait :: "'w env \<Rightarrow> int \<Rightarrow> ('w, int \<times> int) py" where
  "kernel_wait E h w = (case native E ''uring_wait_completion'' [CInt h, CMem U64Ref, CMem IntRef] w of
     (r, w) \<Rightarrow> (case rp_out r of
        [ud, n] \<Rightarrow> if 0 \<le> rp_ret r \<and> rp_ret r < 2 ^ 31 then Inr (ud, n) else Inl no_success
      | _ \<Rightarrow> Inl no_success, w))"

definition kernel_reader :: "'w env \<Rightarrow> 'w host \<Rightarrow> int \<Rightarrow> 'w reader" where
  "kernel_reader E H h = \<lparr>
     rd_size = ho_fstat_size H, rd_open = kernel_open H, rd_close = ho_close H,
     rd_bytearray = (\<lambda>n w. case ho_bytearray H n w of (b, w) \<Rightarrow> (Inr b, w)),
     rd_bytes = ho_bytes H, rd_read = kernel_read E h, rd_submit = kernel_submit E h,
     rd_wait = kernel_wait E h \<rparr>"

lemma kernel_reader_sel [simp]:
  "rd_size (kernel_reader E H h) = ho_fstat_size H" "rd_open (kernel_reader E H h) = kernel_open H"
  "rd_close (kernel_reader E H h) = ho_close H" "rd_read (kernel_reader E H h) = kernel_read E h"
  "rd_bytearray (kernel_reader E H h) = (\<lambda>n w. case ho_bytearray H n w of (b, w) \<Rightarrow> (Inr b, w))"
  "rd_bytes (kernel_reader E H h) = ho_bytes H" "rd_submit (kernel_reader E H h) = kernel_submit E h"
  "rd_wait (kernel_reader E H h) = kernel_wait E h"
  by (simp_all add: kernel_reader_def)

lemma ring_reader_sel [simp]:
  "rd_size (ring_reader E H) fd (self, w) = (case ho_fstat_size H fd w of (r, w) \<Rightarrow> (r, (self, w)))"
  "rd_open (ring_reader E H) p (self, w) = (case ho_open H p w of (r, w) \<Rightarrow> (r, (self, w)))"
  "rd_close (ring_reader E H) fd (self, w) = (case ho_close H fd w of (r, w) \<Rightarrow> (r, (self, w)))"
  "rd_bytearray (ring_reader E H) n (self, w) = (case ho_bytearray H n w of (b, w) \<Rightarrow> (Inr b, (self, w)))"
  "rd_bytes (ring_reader E H) b (self, w) = ho_bytes H b w"
  "rd_read (ring_reader E H) fd b off ud = UringCtx_read_async E fd (Buf b) off ud"
  "rd_submit (ring_reader E H) = UringCtx_submit E"
  "rd_wait (ring_reader E H) = UringCtx_wait_completion E"
  by (simp_all add: ring_reader_def on_world_def world_new_def split_beta)

subsection \<open>The same through \<open>UringCtx\<close>\<close>

definition tags_fit :: "(int \<Rightarrow> (nat \<times> nat \<times> int list) option) \<Rightarrow> bool" where
  "tags_fit live \<longleftrightarrow> (\<forall>ud x. live ud = Some x \<longrightarrow> 0 \<le> ud \<and> ud < 2 ^ 63 \<and> fst (snd x) < 2 ^ 31)"

definition ring_ok :: "'w env \<Rightarrow> int \<Rightarrow> 'w sight \<Rightarrow> uctx \<Rightarrow> 'w \<Rightarrow> bool" where
  "ring_ok E h V self w \<longleftrightarrow> usable E self \<and> u_ctx self = Some h \<and> 0 < h \<and> h < 2 ^ 64 \<and> si_ok V w
     \<and> dom (u_async_io_keepalive self) = dom (si_live V w) \<and> tags_fit (si_live V w)"

definition small_fds :: "(int \<Rightarrow> int list option) \<Rightarrow> int \<Rightarrow> int list option" where
  "small_fds f fd = (if 0 \<le> fd \<and> fd < 2 ^ 31 then f fd else None)"

definition ring_sight :: "'w env \<Rightarrow> int \<Rightarrow> 'w sight \<Rightarrow> (uctx \<times> 'w) sight" where
  "ring_sight E h V = \<lparr>
     si_ok = (\<lambda>(self, w). ring_ok E h V self w),
     si_live = (\<lambda>(self, w). si_live V w),
     si_fd = (\<lambda>(self, w). small_fds (si_fd V w)),
     si_ids = (\<lambda>(self, w). si_ids V w) \<rparr>"

lemma ring_sight_sel [simp]:
  "si_ok (ring_sight E h V) (self, w) = ring_ok E h V self w"
  "si_live (ring_sight E h V) (self, w) = si_live V w"
  "si_fd (ring_sight E h V) (self, w) = small_fds (si_fd V w)"
  "si_ids (ring_sight E h V) (self, w) = si_ids V w"
  by (simp_all add: ring_sight_def)

lemma untouched_ring [simp]:
  "untouched (ring_reader E H) (ring_sight E h V) (self, w) (self', w') = untouched (kernel_reader E H h) V w w'"
  by (simp add: untouched_def)

lemma same_sight_ring:
  "ring_ok E h V self w \<Longrightarrow> same_sight (kernel_reader E H h) V w w'
    \<Longrightarrow> same_sight (ring_reader E H) (ring_sight E h V) (self, w) (self, w')"
  by (simp add: same_sight_def ring_ok_def)

lemma ring_handle: "0 < h \<Longrightarrow> h < 2 ^ 64 \<Longrightarrow> from_param C_void_p (PInt h) = Some (CInt h)"
  by (simp add: take_bit_int_eq_self)

lemma ring_read_run:
  assumes ok: "ring_ok E h V self w" and b: "b_kind b = Bytearray" "pybuf_ok b" "b_len b < 2 ^ 31"
    and range: "0 \<le> fd" "fd < 2 ^ 31" "0 \<le> off" "off < 2 ^ 63" "0 \<le> ud" "ud < 2 ^ 63"
    and free: "si_live V w ud = None" and run: "kernel_read E h fd b off ud w = (Inr r, w')"
  shows "UringCtx_read_async E fd (Buf b) off ud (self, w)
    = (Inr r, (self\<lparr>u_async_io_keepalive := (u_async_io_keepalive self)(ud \<mapsto> KObj (b_id b))\<rparr>, w'))"
proof -
  have self: "usable E self" "u_ctx self = Some h" "0 < h" "h < 2 ^ 64"
    "u_async_io_keepalive self ud = None"
    using ok free by (auto simp: ring_ok_def domIff dest: eqset_imp_iff [of _ _ ud])
  obtain rep where nat: "native E ''uring_read_async'' [CInt h, CInt fd, CMem (Shared (b_id b) (b_len b)),
      CInt (int (b_len b)), CInt off, CInt ud] w = (rep, w')" "rp_ret rep = r" "0 \<le> r" "r < 2 ^ 63"
    using run by (auto simp: kernel_read_def split: prod.splits if_splits)
  have width: "signed_take_bit 31 fd = fd" "take_bit 32 (int (b_len b)) = int (b_len b)"
    "signed_take_bit 63 off = off" "take_bit 64 ud = ud" "signed_take_bit 63 r = r"
    using range b(3) nat(3,4) by (simp_all add: signed_take_bit_int_eq_self take_bit_int_eq_self)
  show ?thesis using self b nat width ring_handle [OF self(3,4)]
    by (simp add: UringCtx_read_async_def with_buffer_def from_buffer_def pybuf_ok_def submit_rw_def
        sync_call_info_def ring_call_eq invoke_native_def uring_read_async_def convert_ret_def
        raise_for_neg_errno_def UringCtx_track_async_io_buffer_def py_defs)
qed

lemma ring_submit_run:
  assumes ok: "ring_ok E h V self w" and run: "kernel_submit E h w = (Inr r, w')"
  shows "UringCtx_submit E (self, w) = (Inr r, (self, w'))"
proof -
  have self: "usable E self" "u_ctx self = Some h" "0 < h" "h < 2 ^ 64" using ok by (auto simp: ring_ok_def)
  obtain rep where nat: "native E ''uring_submit'' [CInt h] w = (rep, w')" "rp_ret rep = r" "0 \<le> r" "r < 2 ^ 31"
    using run by (auto simp: kernel_submit_def split: prod.splits if_splits)
  have "signed_take_bit 31 r = r" using nat(3,4) by (simp add: signed_take_bit_int_eq_self)
  then show ?thesis using self nat ring_handle [OF self(3,4)]
    by (simp add: UringCtx_submit_def sync_int_def sync_call_eq invoke_native_def uring_submit_def convert_ret_def
        raise_for_neg_errno_def py_defs)
qed

lemma ring_wait_run:
  assumes ok: "ring_ok E h V self w" and run: "kernel_wait E h w = (Inr (ud, n), w')"
    and range: "0 \<le> ud" "ud < 2 ^ 63" "0 \<le> n" "n < 2 ^ 31"
  shows "UringCtx_wait_completion E (self, w)
    = (Inr (ud, n), (self\<lparr>u_async_io_keepalive := (u_async_io_keepalive self)(ud := None)\<rparr>, w'))"
proof -
  have self: "usable E self" "u_ctx self = Some h" "0 < h" "h < 2 ^ 64" using ok by (auto simp: ring_ok_def)
  obtain rep where nat: "native E ''uring_wait_completion'' [CInt h, CMem U64Ref, CMem IntRef] w = (rep, w')"
    "rp_out rep = [ud, n]" "0 \<le> rp_ret rep" "rp_ret rep < 2 ^ 31"
    using run by (auto simp: kernel_wait_def split: prod.splits if_splits list.splits)
  have "signed_take_bit 31 (rp_ret rep) = rp_ret rep" "take_bit 64 ud = ud" "signed_take_bit 31 n = n"
    using nat(3,4) range by (simp_all add: signed_take_bit_int_eq_self take_bit_int_eq_self)
  then show ?thesis using self nat ring_handle [OF self(3,4)]
    by (simp add: UringCtx_wait_completion_def sync_call_eq invoke_native_def uring_wait_completion_def convert_ret_def
        raise_for_neg_errno_def completion_out_def UringCtx_completion_release_async_io_buffer_def py_defs)
qed

lemma ring_opens: "opens (kernel_reader E H h) V file P \<Longrightarrow> opens (ring_reader E H) (ring_sight E h V) file P"
  unfolding opens_def
proof (intro ballI allI impI)
  fix p :: string and s :: "uctx \<times> 'a"
  assume K: "\<forall>p \<in> P. \<forall>s. si_ok V s \<longrightarrow> (\<exists>fd s'. rd_open (kernel_reader E H h) p s = (Inr fd, s')
      \<and> same_sight (kernel_reader E H h) V s s' \<and> si_fd V s' fd = Some (file p))"
    and p: "p \<in> P" and ok: "si_ok (ring_sight E h V) s"
  obtain self w where s: "s = (self, w)" by force
  have ring: "ring_ok E h V self w" using ok s by simp
  then have "si_ok V w" by (simp add: ring_ok_def)
  then obtain fd w' where o: "kernel_open H p w = (Inr fd, w')" "same_sight (kernel_reader E H h) V w w'"
      "si_fd V w' fd = Some (file p)"
    using bspec [OF K p] by fastforce
  have "ho_open H p w = (Inr fd, w')" "0 \<le> fd" "fd < 2 ^ 31"
    using o(1) by (auto simp: kernel_open_def split: prod.splits sum.splits if_splits)
  then show "\<exists>fd s'. rd_open (ring_reader E H) p s = (Inr fd, s') \<and> same_sight (ring_reader E H) (ring_sight E h V) s s'
      \<and> si_fd (ring_sight E h V) s' fd = Some (file p)"
    using o(2,3) same_sight_ring [OF ring o(2)]
    by (intro exI [of _ fd] exI [of _ "(self, w')"]) (simp add: s small_fds_def)
qed

lemma ring_closes: "closes (kernel_reader E H h) V \<Longrightarrow> closes (ring_reader E H) (ring_sight E h V)"
  unfolding closes_def
proof (intro allI impI)
  fix fd :: int and s :: "uctx \<times> 'a"
  assume K: "\<forall>fd s. si_ok V s \<longrightarrow> (\<exists>s'. rd_close (kernel_reader E H h) fd s = (Inr (), s')
      \<and> same_sight (kernel_reader E H h) V s s')" and ok: "si_ok (ring_sight E h V) s"
  obtain self w where s: "s = (self, w)" by force
  have ring: "ring_ok E h V self w" using ok s by simp
  then have "si_ok V w" by (simp add: ring_ok_def)
  then obtain w' where "ho_close H fd w = (Inr (), w')" "same_sight (kernel_reader E H h) V w w'" using K by auto
  then show "\<exists>s'. rd_close (ring_reader E H) fd s = (Inr (), s') \<and> same_sight (ring_reader E H) (ring_sight E h V) s s'"
    using same_sight_ring [OF ring] by (intro exI [of _ "(self, w')"]) (simp add: s)
qed

lemma ring_sizes: "sizes (kernel_reader E H h) V \<Longrightarrow> sizes (ring_reader E H) (ring_sight E h V)"
  unfolding sizes_def
proof (intro allI impI)
  fix fd d and s :: "uctx \<times> 'a"
  assume K: "\<forall>fd d s. si_ok V s \<longrightarrow> si_fd V s fd = Some d \<longrightarrow> (\<exists>s'. rd_size (kernel_reader E H h) fd s = (Inr (length d), s')
      \<and> same_sight (kernel_reader E H h) V s s' \<and> si_fd V s' = si_fd V s)"
    and ok: "si_ok (ring_sight E h V) s" "si_fd (ring_sight E h V) s fd = Some d"
  obtain self w where s: "s = (self, w)" by force
  have ring: "ring_ok E h V self w" using ok s by simp
  then have "si_ok V w" "si_fd V w fd = Some d" using ok(2) by (auto simp: s ring_ok_def small_fds_def split: if_splits)
  then obtain w' where "ho_fstat_size H fd w = (Inr (length d), w')" "same_sight (kernel_reader E H h) V w w'"
      "si_fd V w' = si_fd V w" using K by fastforce
  then show "\<exists>s'. rd_size (ring_reader E H) fd s = (Inr (length d), s')
      \<and> same_sight (ring_reader E H) (ring_sight E h V) s s' \<and> si_fd (ring_sight E h V) s' = si_fd (ring_sight E h V) s"
    using same_sight_ring [OF ring] by (intro exI [of _ "(self, w')"]) (simp add: s)
qed

lemma ring_makes: "makes (kernel_reader E H h) V \<Longrightarrow> makes (ring_reader E H) (ring_sight E h V)"
  unfolding makes_def
proof (intro allI impI)
  fix n and s :: "uctx \<times> 'a"
  assume K: "\<forall>n s. si_ok V s \<longrightarrow> (\<exists>b s'. rd_bytearray (kernel_reader E H h) n s = (Inr b, s') \<and> si_ok V s'
     \<and> b_kind b = Bytearray \<and> pybuf_ok b \<and> b_len b = n \<and> b_id b \<notin> si_ids V s
     \<and> si_ids V s' = insert (b_id b) (si_ids V s) \<and> si_live V s' = si_live V s \<and> si_fd V s' = si_fd V s
     \<and> untouched (kernel_reader E H h) V s s')" and ok: "si_ok (ring_sight E h V) s"
  obtain self w where s: "s = (self, w)" by force
  have ring: "ring_ok E h V self w" using ok s by simp
  then have "si_ok V w" by (simp add: ring_ok_def)
  then obtain b w' where "rd_bytearray (kernel_reader E H h) n w = (Inr b, w')" and b: "si_ok V w'"
     "b_kind b = Bytearray \<and> pybuf_ok b \<and> b_len b = n \<and> b_id b \<notin> si_ids V w"
     "si_ids V w' = insert (b_id b) (si_ids V w)" "si_live V w' = si_live V w" "si_fd V w' = si_fd V w"
     "untouched (kernel_reader E H h) V w w'" using K by blast
  then have "ho_bytearray H n w = (b, w')" by (simp split: prod.splits)
  then show "\<exists>b s'. rd_bytearray (ring_reader E H) n s = (Inr b, s') \<and> si_ok (ring_sight E h V) s'
     \<and> b_kind b = Bytearray \<and> pybuf_ok b \<and> b_len b = n \<and> b_id b \<notin> si_ids (ring_sight E h V) s
     \<and> si_ids (ring_sight E h V) s' = insert (b_id b) (si_ids (ring_sight E h V) s)
     \<and> si_live (ring_sight E h V) s' = si_live (ring_sight E h V) s \<and> si_fd (ring_sight E h V) s' = si_fd (ring_sight E h V) s
     \<and> untouched (ring_reader E H) (ring_sight E h V) s s'"
    using b ring by (intro exI [of _ b] exI [of _ "(self, w')"]) (simp add: s ring_ok_def)
qed

lemma tags_fit_upd: "tags_fit live \<Longrightarrow> 0 \<le> ud \<Longrightarrow> ud < 2 ^ 63 \<Longrightarrow> n < 2 ^ 31 \<Longrightarrow> tags_fit (live(ud \<mapsto> (i, n, d)))"
  by (simp add: tags_fit_def)

lemma tags_fit_del: "tags_fit live \<Longrightarrow> tags_fit (live(ud := None))"
  by (simp add: tags_fit_def)

lemma ring_reads: "reads (kernel_reader E H h) V room \<Longrightarrow> reads (ring_reader E H) (ring_sight E h V) room"
  unfolding reads_def [of "ring_reader E H"]
proof (intro allI impI)
  fix fd off ud :: int and d and b :: pybuf and s :: "uctx \<times> 'a"
  assume K: "reads (kernel_reader E H h) V room" and ok: "si_ok (ring_sight E h V) s"
    and fd: "si_fd (ring_sight E h V) s fd = Some d" and b: "b_kind b = Bytearray" "pybuf_ok b"
    and id: "b_id b \<in> si_ids (ring_sight E h V) s" and len: "b_len b < 2 ^ 31"
    and range: "0 \<le> off" "off < 2 ^ 63" "0 \<le> ud" "ud < 2 ^ 63" and free: "si_live (ring_sight E h V) s ud = None"
    and few: "finite (dom (si_live (ring_sight E h V) s))" "card (dom (si_live (ring_sight E h V) s)) < room"
  obtain self w where s: "s = (self, w)" by force
  have ring: "ring_ok E h V self w" using ok s by simp
  then have w: "si_ok V w" by (simp add: ring_ok_def)
  have fd': "si_fd V w fd = Some d" "0 \<le> fd" "fd < 2 ^ 31" using fd by (auto simp: s small_fds_def split: if_splits)
  have free': "si_live V w ud = None" and few': "finite (dom (si_live V w))" "card (dom (si_live V w)) < room"
    and id': "b_id b \<in> si_ids V w"
    using free few id by (simp_all add: s)
  obtain r w' where run: "kernel_read E h fd b off ud w = (Inr r, w')" and w': "si_ok V w'" "si_fd V w' = si_fd V w"
      "si_ids V w' = si_ids V w" "si_live V w' = (si_live V w)(ud \<mapsto> (b_id b, b_len b, drop (nat off) d))"
      "untouched (kernel_reader E H h) V w w'"
    using read_law [OF K w fd'(1) b id' len range free' few'] by auto
  let ?self = "self\<lparr>u_async_io_keepalive := (u_async_io_keepalive self)(ud \<mapsto> KObj (b_id b))\<rparr>"
  have "UringCtx_read_async E fd (Buf b) off ud s = (Inr r, (?self, w'))"
    unfolding s by (rule ring_read_run [OF ring b len fd'(2,3) range free' run])
  moreover have "ring_ok E h V ?self w'"
    using ring w' tags_fit_upd [OF _ range(3,4) len] by (simp add: ring_ok_def usable_def)
  ultimately show "\<exists>r s'. rd_read (ring_reader E H) fd b off ud s = (Inr r, s') \<and> si_ok (ring_sight E h V) s'
      \<and> si_fd (ring_sight E h V) s' = si_fd (ring_sight E h V) s \<and> si_ids (ring_sight E h V) s' = si_ids (ring_sight E h V) s
      \<and> si_live (ring_sight E h V) s' = (si_live (ring_sight E h V) s)(ud \<mapsto> (b_id b, b_len b, drop (nat off) d))
      \<and> untouched (ring_reader E H) (ring_sight E h V) s s'"
    using w' by (intro exI [of _ r] exI [of _ "(?self, w')"]) (simp add: s)
qed

lemma ring_submits: "submits (kernel_reader E H h) V \<Longrightarrow> submits (ring_reader E H) (ring_sight E h V)"
  unfolding submits_def
proof (intro allI impI)
  fix s :: "uctx \<times> 'a"
  assume K: "\<forall>s. si_ok V s \<longrightarrow> (\<exists>r s'. rd_submit (kernel_reader E H h) s = (Inr r, s')
      \<and> same_sight (kernel_reader E H h) V s s')" and ok: "si_ok (ring_sight E h V) s"
  obtain self w where s: "s = (self, w)" by force
  have ring: "ring_ok E h V self w" using ok s by simp
  then have "si_ok V w" by (simp add: ring_ok_def)
  then obtain r w' where run: "kernel_submit E h w = (Inr r, w')" "same_sight (kernel_reader E H h) V w w'"
    using K by fastforce
  show "\<exists>r s'. rd_submit (ring_reader E H) s = (Inr r, s') \<and> same_sight (ring_reader E H) (ring_sight E h V) s s'"
    using same_sight_ring [OF ring run(2)] ring_submit_run [OF ring run(1)]
    by (intro exI [of _ r] exI [of _ "(self, w')"]) (simp add: s)
qed

lemma ring_waits: "waits (kernel_reader E H h) V \<Longrightarrow> waits (ring_reader E H) (ring_sight E h V)"
  unfolding waits_def [of "ring_reader E H"]
proof (intro allI impI)
  fix s :: "uctx \<times> 'a"
  assume K: "waits (kernel_reader E H h) V" and ok: "si_ok (ring_sight E h V) s" and busy: "si_live (ring_sight E h V) s \<noteq> Map.empty"
  obtain self w where s: "s = (self, w)" by force
  have ring: "ring_ok E h V self w" using ok s by simp
  then have w: "si_ok V w" "tags_fit (si_live V w)" by (simp_all add: ring_ok_def)
  have "si_live V w \<noteq> Map.empty" using busy by (simp add: s)
  then obtain ud i n d w' where run: "kernel_wait E h w = (Inr (ud, int (min n (length d))), w')" and w':
      "si_live V w ud = Some (i, n, d)" "si_ok V w'" "si_ids V w' = si_ids V w" "si_live V w' = (si_live V w)(ud := None)"
      "untouched (kernel_reader E H h) V w w'"
      "\<forall>b. b_id b = i \<longrightarrow> take n (take (length d) (ho_bytes H b w')) = take n d"
    using finished_read [OF K w(1)] by (simp only: kernel_reader_sel) blast
  have range: "0 \<le> ud" "ud < 2 ^ 63" "n < 2 ^ 31" using w(2) w'(1) by (auto simp: tags_fit_def)
  let ?self = "self\<lparr>u_async_io_keepalive := (u_async_io_keepalive self)(ud := None)\<rparr>"
  have "UringCtx_wait_completion E s = (Inr (ud, int (min n (length d))), (?self, w'))"
    unfolding s using range by (intro ring_wait_run [OF ring run]) auto
  moreover have "ring_ok E h V ?self w'" using ring w' by (auto simp: ring_ok_def usable_def tags_fit_del)
  ultimately show "\<exists>ud i n d s'. si_live (ring_sight E h V) s ud = Some (i, n, d)
     \<and> rd_wait (ring_reader E H) s = (Inr (ud, int (min n (length d))), s') \<and> si_ok (ring_sight E h V) s'
     \<and> si_ids (ring_sight E h V) s' = si_ids (ring_sight E h V) s
     \<and> si_live (ring_sight E h V) s' = (si_live (ring_sight E h V) s)(ud := None)
     \<and> untouched (ring_reader E H) (ring_sight E h V) s s'
     \<and> (\<forall>b. b_id b = i \<longrightarrow> take n (take (length d) (rd_bytes (ring_reader E H) b s')) = take n d)"
    using w' by (intro exI [of _ ud] exI [of _ i] exI [of _ n] exI [of _ d] exI [of _ "(?self, w')"]) (simp add: s)
qed

lemma ring_reader_ok:
  "reader_ok (kernel_reader E H h) V room file P \<Longrightarrow> reader_ok (ring_reader E H) (ring_sight E h V) room file P"
  by (simp add: reader_ok_def ring_opens ring_closes ring_sizes ring_makes ring_reads ring_submits ring_waits)

subsection \<open>A ring for one call\<close>

definition ring_host ::
  "'w env \<Rightarrow> 'w host \<Rightarrow> nat \<Rightarrow> int \<Rightarrow> 'w sight \<Rightarrow> (string \<Rightarrow> int list) \<Rightarrow> string set \<Rightarrow> bool" where
  "ring_host E H n h V file P \<longleftrightarrow> 0 < h \<and> h < 2 ^ 64 \<and> n < 2 ^ 32 \<and> reader_ok (kernel_reader E H h) V n file P
     \<and> (\<forall>p \<in> P. \<forall>w. si_ok V w \<longrightarrow> (\<exists>w'. ho_getsize H p w = (Inr (length (file p)), w')
          \<and> si_ok V w' \<and> si_live V w' = si_live V w))
     \<and> (\<forall>w. si_ok V w \<longrightarrow> (\<exists>rep w'. native E ''uring_create_ex'' [CInt (int n), CInt 0, CInt (- 1), CInt 0] w = (rep, w')
          \<and> rp_ret rep = h \<and> si_ok V w' \<and> si_live V w' = si_live V w))
     \<and> (\<forall>w. si_ok V w \<longrightarrow> (\<exists>rep w'. native E ''uring_destroy'' [CInt h] w = (rep, w')
          \<and> si_ok V w' \<and> si_live V w' = si_live V w))"

text \<open>Nothing is in flight.\<close>

definition idle :: "'w sight \<Rightarrow> 'w \<Rightarrow> bool" where
  "idle V w \<longleftrightarrow> si_ok V w \<and> si_live V w = Map.empty"

lemma ring_exit_run:
  assumes host: "ring_host E H n h V file P" and ok: "si_ok (ring_sight E h V) s"
  shows "\<exists>c w'. UringCtx_close E s = (Inr (), (c, w')) \<and> si_ok V w' \<and> si_live V w' = si_live (ring_sight E h V) s"
proof -
  obtain self w where s: "s = (self, w)" by force
  have ring: "u_ctx self = Some h" "0 < h" "h < 2 ^ 64" "si_ok V w" using ok by (simp_all add: s ring_ok_def)
  then obtain rep w' where "native E ''uring_destroy'' [CInt h] w = (rep, w')" "si_ok V w'" "si_live V w' = si_live V w"
    using host unfolding ring_host_def by blast
  then show ?thesis using ring
    by (simp add: s UringCtx_close_def truthy_def invoke_native_def uring_destroy_def take_bit_int_eq_self Let_def)
qed

lemma ring_init_run:
  assumes host: "ring_host E H n h V file P" and w: "idle V w"
  shows "\<exists>self w'. UringCtx_init E (int n) 0 (- 1) 0 True w = (Inr self, w') \<and> ring_ok E h V self w'
    \<and> si_live V w' = Map.empty"
proof -
  have w: "si_ok V w" "si_live V w = Map.empty" using w by (simp_all add: idle_def)
  obtain rep w1 where create: "native E ''uring_create_ex'' [CInt (int n), CInt 0, CInt (- 1), CInt 0] w = (rep, w1)"
      "rp_ret rep = h" "si_ok V w1" "si_live V w1 = si_live V w"
    using host w(1) unfolding ring_host_def by blast
  have h: "0 < h" "h < 2 ^ 64" "n < 2 ^ 32" using host by (simp_all add: ring_host_def)
  define self where "self = \<lparr>u_ctx = Some h, u_owner_thread_id = Some (thread_ident E), u_buffer_keepalive = [],
    u_async_io_keepalive = Map.empty\<rparr>"
  have init: "UringCtx_init E (int n) 0 (- 1) 0 True w = (Inr self, w1)"
    using create(1,2) h by (simp add: UringCtx_init_def invoke_native_def uring_create_ex_def convert_ret_def
        mask32_def take_bit_int_eq_self self_def)
  have usable: "usable E self" using h(1) by (simp add: usable_def self_def)
  then have "ring_ok E h V self w1" using usable h create(3,4) w(2) by (simp add: ring_ok_def self_def tags_fit_def)
  then show ?thesis using init create(4) w(2) by auto
qed

lemma with_ctx_ok:
  assumes host: "ring_host E H n h V file P" and w: "si_ok V w" "si_live V w = Map.empty"
  shows "\<exists>s. si_ok (ring_sight E h V) s \<and> si_live (ring_sight E h V) s = Map.empty
    \<and> (\<forall>x s'. body s = Some (Inr x, s') \<and> si_ok (ring_sight E h V) s' \<and> si_live (ring_sight E h V) s' = Map.empty
        \<longrightarrow> (\<exists>w'. with_ctx E (int n) body w = Some (Inr x, w') \<and> idle V w'))
    \<and> (body s = None \<longrightarrow> with_ctx E (int n) body w = None)"
proof -
  obtain self w1 where init: "UringCtx_init E (int n) 0 (- 1) 0 True w = (Inr self, w1)"
      and ok: "ring_ok E h V self w1" "si_live V w1 = Map.empty"
    using ring_init_run [OF host] w unfolding idle_def by blast
  have enter: "UringCtx_enter E (self, w1) = (Inr (), (self, w1))"
    using ok(1) by (simp add: UringCtx_enter_def ensure_open_eq ring_ok_def)
  have "\<exists>w'. with_ctx E (int n) body w = Some (Inr x, w') \<and> idle V w'"
    if run: "body (self, w1) = Some (Inr x, s')" and fin: "si_ok (ring_sight E h V) s'" "si_live (ring_sight E h V) s' = Map.empty"
    for x s'
    using ring_exit_run [OF host fin(1)] run init enter fin(2) by (auto simp: with_ctx_def UringCtx_exit_def idle_def)
  moreover have "with_ctx E (int n) body w = None" if "body (self, w1) = None"
    using that init enter by (simp add: with_ctx_def)
  ultimately show ?thesis using ok by (intro exI [of _ "(self, w1)"]) auto
qed

lemma load_files_ok:
  assumes host: "ring_host E H (max b 64) h V file P" and w: "si_ok V w" "si_live V w = Map.empty"
    and C: "consumes (ring_reader E H) C (length paths) part upd I" "I acc"
    and part: "\<And>j. j < length paths \<Longrightarrow> part j = take (length (file (hd paths))) (file (paths ! j))"
    and small: "length (file (hd paths)) < 2 ^ 31" and P: "set paths \<subseteq> P" "paths \<noteq> []" and b: "0 < b"
  shows "\<exists>js w'. load_files E H what C acc paths (int b) w = Some (Inr (foldl (\<lambda>a j. upd j (part j) a) acc js), w')
    \<and> mset js = mset_set {0..<length paths} \<and> I (foldl (\<lambda>a j. upd j (part j) a) acc js) \<and> idle V w'"
proof -
  have "hd paths \<in> P" using P by (cases paths) auto
  then obtain w1 where size: "ho_getsize H (hd paths) w = (Inr (length (file (hd paths))), w1)" "si_ok V w1"
      "si_live V w1 = Map.empty"
    using host w unfolding ring_host_def by metis
  let ?body = "load_loop (ring_reader E H) what C (length (file (hd paths))) paths (int b) 0 acc"
  obtain s where s: "si_ok (ring_sight E h V) s" "si_live (ring_sight E h V) s = Map.empty"
      "\<forall>x s'. ?body s = Some (Inr x, s') \<and> si_ok (ring_sight E h V) s' \<and> si_live (ring_sight E h V) s' = Map.empty
        \<longrightarrow> (\<exists>w'. with_ctx E (int (max b 64)) ?body w1 = Some (Inr x, w') \<and> idle V w')"
    using with_ctx_ok [OF host size(2,3), of ?body] by blast
  have ok: "reader_ok (ring_reader E H) (ring_sight E h V) (max b 64) file P"
    using host by (simp add: ring_host_def ring_reader_ok)
  have wide: "b < 2 ^ 63" using host by (simp add: ring_host_def)
  obtain js s' where run: "?body s = Some (Inr (foldl (\<lambda>a j. upd j (part j) a) acc js), s')"
      "mset js = mset_set {0..<length paths}" "I (foldl (\<lambda>a j. upd j (part j) a) acc js)"
      "si_ok (ring_sight E h V) s'" "si_live (ring_sight E h V) s' = Map.empty"
    using load_loop_ok [OF ok C(1) part small P(1) b _ wide s(1,2) C(2), of what 0] by auto
  obtain w' where "with_ctx E (int (max b 64)) ?body w1 = Some (Inr (foldl (\<lambda>a j. upd j (part j) a) acc js), w')"
      "idle V w'"
    using s(3) run(1,4,5) by blast
  then show ?thesis using run(2,3) size(1)
    by (intro exI [of _ js] exI [of _ w']) (simp add: load_files_def of_nat_max)
qed

subsection \<open>What the programs make of the parts\<close>

lemma get_buf_nth: "j < length bufs \<Longrightarrow> get_buf bufs (int j) s = (Inr (bufs ! j), s)"
  by (simp add: get_buf_def py_index_def py_return_def)

lemma consumes_count: "consumes R count_bytes m part (\<lambda>j x acc. acc + int (length x)) (\<lambda>_. True)"
  by (simp add: consumes_def count_bytes_def py_return_def)

definition np_sums :: "(int list \<Rightarrow> int \<Rightarrow> exn + int) \<Rightarrow> (int list \<Rightarrow> int) \<Rightarrow> bool" where
  "np_sums np_sum S \<longleftrightarrow> (\<forall>data n. n \<le> length data \<longrightarrow> np_sum data (int n) = Inr (S (take n data)))"

lemma taken: "take (length x) ys = x \<Longrightarrow> length x \<le> length ys"
  by (metis length_take min.cobounded1)

lemma consumes_sum:
  assumes np: "np_sums np_sum S"
  shows "consumes R (add_sum R np_sum) m part (\<lambda>j x acc. acc @ [S x]) (\<lambda>_. True)"
  unfolding consumes_def
proof (intro allI impI conjI)
  fix bufs k j acc s
  assume j: "j < length bufs" and got: "take (length (part (k + j))) (rd_bytes R (bufs ! j) s) = part (k + j)"
  have "np_sum (rd_bytes R (bufs ! j) s) (int (length (part (k + j)))) = Inr (S (part (k + j)))"
    using np taken [OF got] got by (simp add: np_sums_def)
  then show "add_sum R np_sum bufs (int k) (int j) (int (length (part (k + j)))) acc s = (Inr (acc @ [S (part (k + j))]), s)"
    by (simp add: add_sum_def py_bind_eq get_buf_nth [OF j])
qed simp

lemma consumes_store:
  "consumes R (store_part R) m part (\<lambda>j x out. out[j := Some x]) (\<lambda>out. length out = m)"
  by (auto simp: consumes_def store_part_def py_bind_eq get_buf_nth py_index_def Let_def nat_int_add)

lemma foldl_add: "foldl (\<lambda>a j. a + f j) (c :: int) js = c + sum_list (map f js)"
  by (induction js arbitrary: c) simp_all

lemma foldl_append_one: "foldl (\<lambda>a j. a @ [f j]) c js = c @ map f js"
  by (induction js arbitrary: c) simp_all

lemma foldl_store:
  "length (foldl (\<lambda>a j. a[j := Some (f j)]) c js) = length c
   \<and> (\<forall>i < length c. foldl (\<lambda>a j. a[j := Some (f j)]) c js ! i = (if i \<in> set js then Some (f i) else c ! i))"
  by (induction js arbitrary: c) (auto simp: nth_list_update)

lemma all_parts: "mset js = mset_set {0..<m} \<Longrightarrow> mset (map f js) = mset (map f [0..<m])"
  by simp

text \<open>Each part of the list is the file, cut to the length of the first.\<close>

definition cut :: "(string \<Rightarrow> int list) \<Rightarrow> string list \<Rightarrow> string \<Rightarrow> int list" where
  "cut file paths p = take (length (file (hd paths))) (file p)"

lemma map_paths: "map (\<lambda>j. f (paths ! j)) [0..<length paths] = map f paths"
  by (rule nth_equalityI) simp_all

lemma counted_run:
  assumes host: "ring_host E H (max b 64) h V file P" and w: "si_ok V w" "si_live V w = Map.empty"
    and small: "length (file (hd paths)) < 2 ^ 31" and P: "set paths \<subseteq> P" "paths \<noteq> []" and b: "0 < b"
  shows "\<exists>w'. load_files E H what count_bytes 0 paths (int b) w
    = Some (Inr (\<Sum>p\<leftarrow>paths. int (length (cut file paths p))), w') \<and> idle V w'"
proof -
  obtain js w' where run: "load_files E H what count_bytes 0 paths (int b) w
      = Some (Inr (foldl (\<lambda>a j. a + int (length (cut file paths (paths ! j)))) 0 js), w')"
      "mset js = mset_set {0..<length paths}" "idle V w'"
    using load_files_ok [OF host w consumes_count TrueI _ small P b, where part = "\<lambda>j. cut file paths (paths ! j)"]
    by (fastforce simp: cut_def)
  have "sum_list (map (\<lambda>j. int (length (cut file paths (paths ! j)))) js) = (\<Sum>p\<leftarrow>paths. int (length (cut file paths p)))"
    using all_parts [OF run(2), of "\<lambda>j. int (length (cut file paths (paths ! j)))"]
    by (metis map_paths [of "\<lambda>p. int (length (cut file paths p))"] sum_mset_sum_list)
  then show ?thesis using run(1,3) by (simp add: foldl_add)
qed

lemma cached_run:
  assumes host: "ring_host E H (max b 64) h V file P" and w: "si_ok V w" "si_live V w = Map.empty"
    and small: "length (file (hd paths)) < 2 ^ 31" and P: "set paths \<subseteq> P" and b: "0 < b"
  shows "\<exists>w'. load_pyuring_batched_cached E H paths (int b) w
      = Some (Inr (\<Sum>p\<leftarrow>paths. int (length (cut file paths p))), w') \<and> idle V w'"
    and "\<exists>w'. load_pyuring_batched_sqlite E H paths (int b) w
      = Some (Inr (\<Sum>p\<leftarrow>paths. int (length (cut file paths p))), w') \<and> idle V w'"
  using counted_run [OF host w small P _ b] w
  by (cases "paths = []"; simp add: load_pyuring_batched_cached_def load_pyuring_batched_sqlite_def idle_def)+

lemma numpy_run:
  assumes host: "ring_host E H (max b 64) h V file P" and w: "si_ok V w" "si_live V w = Map.empty"
    and small: "length (file (hd paths)) < 2 ^ 31" and P: "set paths \<subseteq> P" and b: "0 < b" and np: "np_sums np_sum S"
  shows "\<exists>sums w'. load_pyuring_batched_numpy E H np_sum paths (int b) w = Some (Inr sums, w')
    \<and> mset sums = mset (map (\<lambda>p. S (cut file paths p)) paths) \<and> idle V w'"
proof (cases "paths = []")
  case True then show ?thesis using w by (simp add: load_pyuring_batched_numpy_def idle_def)
next
  case False
  obtain js w' where run: "load_files E H ''shard_read'' (add_sum (ring_reader E H) np_sum) [] paths (int b) w
      = Some (Inr (foldl (\<lambda>a j. a @ [S (cut file paths (paths ! j))]) [] js), w')"
      "mset js = mset_set {0..<length paths}" "idle V w'"
    using load_files_ok [OF host w consumes_sum [OF np] TrueI _ small P False b, where part = "\<lambda>j. cut file paths (paths ! j)"]
    by (fastforce simp: cut_def)
  have "mset (map (\<lambda>j. S (cut file paths (paths ! j))) js) = mset (map (\<lambda>p. S (cut file paths p)) paths)"
    using all_parts [OF run(2)] by (metis map_paths [of "\<lambda>p. S (cut file paths p)"])
  then show ?thesis using run(1,3) False by (auto simp: load_pyuring_batched_numpy_def foldl_append_one)
qed

lemma pytorch_run:
  assumes host: "ring_host E H (max b 64) h V file P" and w: "si_ok V w" "si_live V w = Map.empty"
    and small: "length (file (hd paths)) < 2 ^ 31" and P: "set paths \<subseteq> P" and b: "0 < b"
  shows "\<exists>w'. load_pyuring_batched_pytorch E H paths (int b) w = Some (Inr (map (cut file paths) paths), w') \<and> idle V w'"
proof (cases "paths = []")
  case True then show ?thesis using w by (simp add: load_pyuring_batched_pytorch_def idle_def)
next
  case False
  let ?part = "\<lambda>j. cut file paths (paths ! j)"
  let ?none = "replicate (length paths) None"
  obtain js w' where run: "load_files E H ''shard_read'' (store_part (ring_reader E H)) ?none paths (int b) w
      = Some (Inr (foldl (\<lambda>a j. a[j := Some (?part j)]) ?none js), w')" "mset js = mset_set {0..<length paths}" "idle V w'"
    using load_files_ok [OF host w consumes_store _ _ small P False b, where part = ?part and acc = ?none]
    by (fastforce simp: cut_def)
  have "set js = {0..<length paths}" using run(2) by (metis finite_atLeastLessThan finite_set_mset_mset_set set_mset_mset)
  then have "foldl (\<lambda>a j. a[j := Some (?part j)]) ?none js = map Some (map (cut file paths) paths)"
    using foldl_store [of ?part ?none js] by (intro nth_equalityI) auto
  then show ?thesis using run(1,3) False by (simp add: load_pyuring_batched_pytorch_def filter_map comp_def)
qed

subsection \<open>A kernel that completes the last read first\<close>

record stack_world =
  st_live :: "(int \<times> nat \<times> nat \<times> int list) list"
  st_bytes :: "nat \<Rightarrow> int list"
  st_next :: nat

definition two_files :: "string \<Rightarrow> int list" where
  "two_files p = (if p = ''a'' then [1, 2, 3] else [4, 5])"

definition stack_contents :: "int \<Rightarrow> int list" where
  "stack_contents fd = two_files (if fd = 3 then ''a'' else ''b'')"

fun stack_read :: "cval list \<Rightarrow> stack_world \<Rightarrow> reply \<times> stack_world" where
  "stack_read [CInt h, CInt fd, CMem (Shared i n), CInt l, CInt off, CInt ud] w =
     (\<lparr>rp_ret = ud, rp_out = [], rp_errno = 0\<rparr>, w\<lparr>st_live := (ud, i, n, drop (nat off) (stack_contents fd)) # st_live w\<rparr>)"
| "stack_read _ w = (\<lparr>rp_ret = - EINVAL, rp_out = [], rp_errno = 0\<rparr>, w)"

fun stack_wait :: "stack_world \<Rightarrow> reply \<times> stack_world" where
  "stack_wait w = (case st_live w of
     [] \<Rightarrow> (\<lparr>rp_ret = - EAGAIN, rp_out = [], rp_errno = 0\<rparr>, w)
   | (ud, i, n, d) # rest \<Rightarrow> (\<lparr>rp_ret = 0, rp_out = [ud, int (min n (length d))], rp_errno = 0\<rparr>,
       w\<lparr>st_live := rest, st_bytes := (st_bytes w)(i := take n d @ drop (min n (length d)) (st_bytes w i))\<rparr>))"

definition stack_native :: "string \<Rightarrow> cval list \<Rightarrow> stack_world \<Rightarrow> reply \<times> stack_world" where
  "stack_native f args w =
     (if f = ''uring_read_async'' then stack_read args w
      else if f = ''uring_wait_completion'' then stack_wait w
      else (\<lparr>rp_ret = (if f = ''uring_create_ex'' then 4096 else 0), rp_out = [], rp_errno = 0\<rparr>, w))"

definition stack_env :: "stack_world env" where
  "stack_env = \<lparr>native = stack_native, thread_ident = 1, ct_errno = 0\<rparr>"

definition stack_host :: "stack_world host" where
  "stack_host = \<lparr>
     ho_getsize = (\<lambda>p w. (Inr (length (two_files p)), w)),
     ho_fstat_size = (\<lambda>fd w. (Inr (length (stack_contents fd)), w)),
     ho_open = (\<lambda>p w. (Inr (if p = ''a'' then 3 else 4), w)),
     ho_close = (\<lambda>fd w. (Inr (), w)),
     ho_bytearray = (\<lambda>n w. (\<lparr>b_kind = Bytearray, b_id = st_next w, b_len = n, b_nbytes = n, b_readonly = False, b_contiguous = True\<rparr>,
       w\<lparr>st_next := Suc (st_next w), st_bytes := (st_bytes w)(st_next w := replicate n 0)\<rparr>)),
     ho_bytes = (\<lambda>b w. st_bytes w (b_id b)),
     ho_read_file = (\<lambda>p w. (Inr (two_files p), w)) \<rparr>"

definition stack_sight :: "stack_world sight" where
  "stack_sight = \<lparr>
     si_ok = (\<lambda>w. distinct (map fst (st_live w)) \<and> (\<forall>x \<in> set (st_live w). fst (snd x) < st_next w)),
     si_live = (\<lambda>w. map_of (st_live w)), si_fd = (\<lambda>w fd. Some (stack_contents fd)), si_ids = (\<lambda>w. {..<st_next w}) \<rparr>"

definition empty_stack :: stack_world where
  "empty_stack = \<lparr>st_live = [], st_bytes = (\<lambda>_. []), st_next = 0\<rparr>"

lemmas stack_defs = stack_env_def stack_host_def stack_sight_def stack_native_def kernel_open_def kernel_read_def
  kernel_submit_def kernel_wait_def

lemma stack_kernel_ok: "reader_ok (kernel_reader stack_env stack_host 4096) stack_sight n two_files {''a'', ''b''}"
proof -
  let ?R = "kernel_reader stack_env stack_host 4096"
  have "opens ?R stack_sight two_files {''a'', ''b''}" "closes ?R stack_sight" "sizes ?R stack_sight" "submits ?R stack_sight"
    by (auto simp: opens_def closes_def sizes_def submits_def same_sight_def untouched_def stack_defs stack_contents_def)
  moreover have "makes ?R stack_sight"
    by (auto simp: makes_def untouched_def stack_defs pybuf_ok_def less_Suc_eq)
  moreover have "reads ?R stack_sight n"
    by (auto simp: reads_def untouched_def stack_defs map_of_eq_None_iff)
  moreover have "waits ?R stack_sight"
    unfolding waits_def
  proof (intro allI impI)
    fix w assume ok: "si_ok stack_sight w" "si_live stack_sight w \<noteq> Map.empty"
    then obtain ud i m d rest where live: "st_live w = (ud, i, m, d) # rest"
      by (cases "st_live w") (auto simp: stack_sight_def)
    let ?w = "w\<lparr>st_live := rest, st_bytes := (st_bytes w)(i := take m d @ drop (min m (length d)) (st_bytes w i))\<rparr>"
    have "map_of rest ud = None" using ok(1) live by (auto simp: stack_sight_def map_of_eq_None_iff)
    then have "map_of rest = (map_of (st_live w))(ud := None)" using live by auto
    moreover have "untouched ?R stack_sight w ?w" using live by (auto simp: untouched_def stack_defs)
    ultimately show "\<exists>ud i n d s'. si_live stack_sight w ud = Some (i, n, d)
        \<and> rd_wait ?R w = (Inr (ud, int (min n (length d))), s') \<and> si_ok stack_sight s'
        \<and> si_ids stack_sight s' = si_ids stack_sight w \<and> si_live stack_sight s' = (si_live stack_sight w)(ud := None)
        \<and> untouched ?R stack_sight w s'
        \<and> (\<forall>b. b_id b = i \<longrightarrow> take n (take (length d) (rd_bytes ?R b s')) = take n d)"
      using ok live
      by (intro exI [of _ ud] exI [of _ i] exI [of _ m] exI [of _ d] exI [of _ ?w]) (auto simp: stack_defs min_def)
  qed
  ultimately show ?thesis by (simp add: reader_ok_def)
qed

lemma stack_ring: "n < 2 ^ 32 \<Longrightarrow> ring_host stack_env stack_host n 4096 stack_sight two_files {''a'', ''b''}"
  using stack_kernel_ok [of n] by (auto simp: ring_host_def stack_env_def stack_host_def stack_native_def)

lemma empty_stack_ok: "si_ok stack_sight empty_stack" "si_live stack_sight empty_stack = Map.empty"
  by (simp_all add: stack_sight_def empty_stack_def)

subsection \<open>The loaders\<close>

text \<open>
  C20: The batched loaders return what is in the files.  Whatever the batch size and the order in which the kernel
  completes the reads, for files of which the first is as long as the longest: the totals of the first
  loader are the sum of the lengths, and the list of the PyTorch loader has every file at its
  place.  The NumPy loader returns the sums of the files in some order, that of the completions.  A longer
  file is cut to the length of the first.
\<close>

theorem loaders_return_the_files:
  assumes "ring_host E H (max b 64) h V file P" "si_ok V w" "si_live V w = Map.empty"
    and "length (file (hd paths)) < 2 ^ 31" "set paths \<subseteq> P" "0 < b" "np_sums np_sum S"
  shows "(\<exists>w'. load_pyuring_batched_cached E H paths (int b) w
        = Some (Inr (\<Sum>p\<leftarrow>paths. int (length (cut file paths p))), w'))
    \<and> (\<exists>w'. load_pyuring_batched_pytorch E H paths (int b) w = Some (Inr (map (cut file paths) paths), w'))
    \<and> (\<exists>sums w'. load_pyuring_batched_numpy E H np_sum paths (int b) w = Some (Inr sums, w')
        \<and> mset sums = mset (map (\<lambda>p. S (cut file paths p)) paths))
    \<and> ((\<forall>p \<in> set paths. length (file p) \<le> length (file (hd paths)))
        \<longleftrightarrow> map (cut file paths) paths = map file paths)"
proof (intro conjI)
  show "(\<forall>p \<in> set paths. length (file p) \<le> length (file (hd paths))) \<longleftrightarrow> map (cut file paths) paths = map file paths"
    by (simp add: cut_def)
qed (use cached_run(1) [OF assms(1-6)] pytorch_run [OF assms(1-6)] numpy_run [OF assms(1-7)] in blast)+

lemma loaders_return_the_files_witness:
  "(\<exists>w'. load_pyuring_batched_pytorch stack_env stack_host [''a'', ''b'', ''a''] 2 empty_stack
      = Some (Inr [[1, 2, 3], [4, 5], [1, 2, 3]], w'))
   \<and> (\<exists>w'. load_pyuring_batched_pytorch stack_env stack_host [''b'', ''a''] 2 empty_stack = Some (Inr [[4, 5], [1, 2]], w'))"
proof -
  let ?S = "\<lambda>d n. Inr (sum_list (take (nat n) d)) :: exn + int"
  have sums: "np_sums ?S sum_list" by (simp add: np_sums_def)
  have ring: "ring_host stack_env stack_host (max 2 64) 4096 stack_sight two_files {''a'', ''b''}" by (rule stack_ring) simp
  note claim = loaders_return_the_files [OF ring empty_stack_ok _ _ _ sums]
  have "cut two_files [''a'', ''b'', ''a''] p = two_files p \<and> cut two_files [''b'', ''a''] p = take 2 (two_files p)" for p
    by (simp add: cut_def two_files_def)
  then show ?thesis using claim [of "[''a'', ''b'', ''a'']"] claim [of "[''b'', ''a'']"] by (simp add: two_files_def)
qed

text \<open>Reading whole files, one after the other.\<close>

definition reads_whole :: "'w host \<Rightarrow> ('w \<Rightarrow> bool) \<Rightarrow> (string \<Rightarrow> int list) \<Rightarrow> string set \<Rightarrow> bool" where
  "reads_whole H ok file P \<longleftrightarrow> (\<forall>p \<in> P. \<forall>w. ok w \<longrightarrow> (\<exists>w'. ho_read_file H p w = (Inr (file p), w') \<and> ok w'))"

lemma executor_map_run:
  "\<forall>x \<in> set xs. \<forall>w. ok w \<longrightarrow> (\<exists>w'. f x w = (Inr (g x), w') \<and> ok w') \<Longrightarrow> ok w
    \<Longrightarrow> \<exists>w'. executor_map f xs w = (Inr (map g xs), w') \<and> ok w'"
proof (induction xs arbitrary: w)
  case Nil
  then show ?case by (simp add: py_return_def)
next
  case (Cons x xs)
  obtain w1 where 1: "f x w = (Inr (g x), w1)" "ok w1" using Cons.prems by auto
  obtain w2 where 2: "executor_map f xs w1 = (Inr (map g xs), w2)" "ok w2"
    using Cons.IH [OF _ 1(2)] Cons.prems(1) by auto
  show ?case using 1(1) 2 by (simp add: py_map_def py_bind_eq py_return_def)
qed

lemma thread_pool_run:
  assumes "reads_whole H ok file P" "set paths \<subseteq> P" "ok w" "0 < workers"
  shows "\<exists>w'. load_threadpool H paths workers w = (Inr (map file paths), w') \<and> ok w'"
proof -
  have "\<forall>p \<in> set paths. \<forall>w. ok w \<longrightarrow> (\<exists>w'. read_one H p w = (Inr (file p), w') \<and> ok w')"
    using assms(1,2) by (auto simp: reads_whole_def read_one_def)
  then show ?thesis using executor_map_run [of paths ok "read_one H" "file"] assms(3,4)
    by (simp add: load_threadpool_def thread_pool_def)
qed

text \<open>
  The batched loader and the thread pool it replaces return the same list, except that the batched
  one cuts every file to the length of the first.
\<close>

theorem batched_loader_agrees_with_thread_pool:
  assumes "ring_host E H (max b 64) h V file P" "si_ok V w" "si_live V w = Map.empty"
    and "length (file (hd paths)) < 2 ^ 31" "set paths \<subseteq> P" "0 < b" "reads_whole H (si_ok V) file P" "0 < workers"
  shows "\<exists>parts w1 w2. load_threadpool H paths workers w = (Inr parts, w1)
    \<and> load_pyuring_batched_pytorch E H paths (int b) w = Some (Inr (map (take (length (file (hd paths)))) parts), w2)"
proof -
  have "map (cut file paths) paths = map (take (length (file (hd paths)))) (map file paths)" by (simp add: cut_def)
  then show ?thesis
    using pytorch_run [OF assms(1-6)] thread_pool_run [OF assms(7,5,2,8)] by metis
qed

lemma batched_loader_agrees_with_thread_pool_witness:
  "\<exists>w1 w2. load_threadpool stack_host [''b'', ''a''] 4 empty_stack = (Inr [[4, 5], [1, 2, 3]], w1)
    \<and> load_pyuring_batched_pytorch stack_env stack_host [''b'', ''a''] 32 empty_stack = Some (Inr [[4, 5], [1, 2]], w2)"
proof -
  have whole: "reads_whole stack_host (si_ok stack_sight) two_files {''a'', ''b''}"
    by (simp add: reads_whole_def stack_host_def)
  have ring: "ring_host stack_env stack_host (max 32 64) 4096 stack_sight two_files {''a'', ''b''}" by (rule stack_ring) simp
  have pool: "load_threadpool stack_host [''b'', ''a''] 4 empty_stack = (Inr [[4, 5], [1, 2, 3]], empty_stack)"
    by (simp add: load_threadpool_def thread_pool_def read_one_def stack_host_def two_files_def py_map_def py_bind_eq py_return_def)
  have two: "length (two_files (hd [''b'', ''a''])) = 2" by (simp add: two_files_def)
  show ?thesis
    using batched_loader_agrees_with_thread_pool [OF ring empty_stack_ok _ _ _ whole, of "[''b'', ''a'']" 4] pool two by simp
qed

subsection \<open>A batch size of 0\<close>

lemma empty_batch_ok:
  assumes "submits R V" "si_ok V s"
  shows "\<exists>s'. load_batch R what C n i [] acc s = (Inr acc, s') \<and> si_ok V s'"
proof -
  obtain r s' where "rd_submit R s = (Inr r, s')" "si_ok V s'"
    using assms unfolding submits_def same_sight_def by blast
  then show ?thesis by (simp add: load_batch_def py_bind_eq py_return_def)
qed

lemma load_loop_stuck:
  fixes R :: "'s reader"
  assumes "load_loop R what C n paths b i acc s = Some y"
  shows "submits R V \<longrightarrow> b = 0 \<longrightarrow> i < int (length paths) \<longrightarrow> \<not> si_ok V s"
proof (rule load_loop.raw_induct
    [where P = "\<lambda>R what C n paths b i acc s y. submits R V \<longrightarrow> b = 0 \<longrightarrow> i < int (length paths) \<longrightarrow> \<not> si_ok V s",
      OF _ assms], intro impI notI)
  fix f and R :: "'s reader" and what and C :: "('s, 'a) consumer" and n paths and b i :: int and acc s y
  assume ih: "\<And>R what C n paths b i acc s y. f R what C n paths b i acc s = Some y
      \<Longrightarrow> submits R V \<longrightarrow> b = 0 \<longrightarrow> i < int (length paths) \<longrightarrow> \<not> si_ok V s"
    and body: "(if i < int (length paths)
      then case load_batch R what C n i (py_slice paths i (i + b)) acc s of
          (Inl e, s) \<Rightarrow> Some (Inl e, s) | (Inr acc, s) \<Rightarrow> f R what C n paths b (i + b) acc s
      else Some (Inr acc, s)) = Some y"
    and prems: "submits R V" "b = 0" "i < int (length paths)" "si_ok V s"
  have "py_slice paths i (i + b) = []" using prems(2) by (simp add: py_slice_def)
  then obtain s' where batch: "load_batch R what C n i (py_slice paths i (i + b)) acc s = (Inr acc, s')" "si_ok V s'"
    using empty_batch_ok [OF prems(1,4)] by metis
  then have "f R what C n paths b (i + b) acc s' = Some y" using body prems(3) by simp
  then show False using ih prems(1-3) batch(2) by (metis add.right_neutral)
qed

text \<open>
  A batch size of 0, which the command line accepts, never returns: the loop takes an empty slice
  and adds 0 to its index for ever, in all the loaders.
\<close>

theorem zero_batch_never_returns:
  assumes "ring_host E H 64 h V file P" "si_ok V w" "si_live V w = Map.empty" "paths \<noteq> []" "hd paths \<in> P"
  shows "load_pyuring_batched_cached E H paths 0 w = None \<and> load_pyuring_batched_sqlite E H paths 0 w = None
    \<and> load_pyuring_batched_numpy E H np_sum paths 0 w = None \<and> load_pyuring_batched_pytorch E H paths 0 w = None"
proof -
  obtain w1 where size: "ho_getsize H (hd paths) w = (Inr (length (file (hd paths))), w1)" "si_ok V w1"
      "si_live V w1 = Map.empty"
    using assms(1-3,5) unfolding ring_host_def by metis
  have submit: "submits (ring_reader E H) (ring_sight E h V)"
    by (rule ring_submits) (use assms(1) in \<open>simp add: ring_host_def reader_ok_def\<close>)
  have "load_files E H what C acc paths 0 w = None" for what and C :: "(uctx \<times> 'a, 'b) consumer" and acc
  proof -
    let ?body = "load_loop (ring_reader E H) what C (length (file (hd paths))) paths 0 0 acc"
    obtain s where s: "si_ok (ring_sight E h V) s" "?body s = None \<longrightarrow> with_ctx E (int 64) ?body w1 = None"
      using with_ctx_ok [OF assms(1) size(2,3), of ?body] by (elim exE conjE)
    have "?body s = None"
      using load_loop_stuck [of "ring_reader E H" what C "length (file (hd paths))" paths 0 0 acc s] submit s(1) assms(4)
      by (cases "?body s") auto
    then show ?thesis using s(2) size(1) by (simp add: load_files_def)
  qed
  note stuck = this
  show ?thesis using assms(4)
    by (simp add: load_pyuring_batched_cached_def load_pyuring_batched_sqlite_def load_pyuring_batched_numpy_def
        load_pyuring_batched_pytorch_def stuck)
qed

lemma zero_batch_never_returns_witness:
  "load_pyuring_batched_pytorch stack_env stack_host [''a''] 0 empty_stack = None"
proof -
  have ring: "ring_host stack_env stack_host 64 4096 stack_sight two_files {''a'', ''b''}" by (rule stack_ring) simp
  show ?thesis using zero_batch_never_returns [OF ring empty_stack_ok, of "[''a'']"] by simp
qed

end
