(* ===== verification/Programs_Props.thy ===== *)
theory Programs_Props
  imports Programs Loader_Ring
begin

unbundle bit_operations_syntax

text \<open>
  The example programs end to end, on a disk whose directories and files behave as documented: each
  program and the one it replaces print the same numbers, and leave the disk as they found it.
\<close>

subsection \<open>A disk\<close>

text \<open>
  \<open>V fs\<close> is the view of a world whose regular files are \<open>fs\<close>, the latest first.  A new temporary directory
  has no files under it; removing a directory removes the files under it and no others.
\<close>

definition under :: "string \<Rightarrow> string \<Rightarrow> bool" where
  "under d p \<longleftrightarrow> take (Suc (length d)) p = d @ ''/''"

definition shard_name :: "string \<Rightarrow> string \<Rightarrow> bool" where
  "shard_name d p \<longleftrightarrow> (\<exists>x. CHR ''/'' \<notin> set x \<and> p = path_join d (''shard_'' @ x @ ''.bin''))"

definition stored :: "files \<Rightarrow> string \<Rightarrow> int list" where
  "stored fs p = the (map_of fs p)"

definition fresh_dir :: "files \<Rightarrow> string \<Rightarrow> bool" where
  "fresh_dir fs d \<longleftrightarrow> d \<noteq> [] \<and> last d \<noteq> CHR ''/'' \<and> (\<forall>p \<in> fst ` set fs. \<not> under d p)"

definition outside_of :: "string \<Rightarrow> files \<Rightarrow> files" where
  "outside_of d fs = filter (\<lambda>f. \<not> under d (fst f)) fs"

definition disk_ok :: "'w disk \<Rightarrow> 'w host \<Rightarrow> (files \<Rightarrow> 'w sight) \<Rightarrow> bool" where
  "disk_ok D H V \<longleftrightarrow> (\<forall>fs w. idle (V fs) w \<longrightarrow>
     (\<forall>p. di_isfile D p w \<longleftrightarrow> p \<in> fst ` set fs)
   \<and> (\<forall>p \<in> fst ` set fs. \<exists>w'. ho_read_file H p w = (Inr (stored fs p), w') \<and> idle (V fs) w')
   \<and> (\<forall>p c. \<exists>w'. di_write D p c w = (Inr (), w') \<and> idle (V ((p, c) # fs)) w')
   \<and> (\<forall>pre. \<exists>d w'. di_mkdtemp D pre w = (Inr d, w') \<and> fresh_dir fs d \<and> idle (V fs) w')
   \<and> (\<forall>d. \<exists>w'. di_rmtree D d w = (Inr (), w') \<and> idle (V (outside_of d fs)) w'))"

definition disk_ring :: "'w env \<Rightarrow> 'w host \<Rightarrow> nat \<Rightarrow> int \<Rightarrow> (files \<Rightarrow> 'w sight) \<Rightarrow> bool" where
  "disk_ring E H n h V \<longleftrightarrow> (\<forall>fs. ring_host E H n h (V fs) (stored fs) (fst ` set fs))"

lemma disk_laws:
  assumes "disk_ok D H V" "idle (V fs) w"
  shows "di_isfile D p w \<longleftrightarrow> p \<in> fst ` set fs"
    and "p \<in> fst ` set fs \<Longrightarrow> \<exists>w'. ho_read_file H p w = (Inr (stored fs p), w') \<and> idle (V fs) w'"
    and "\<exists>w'. di_write D p c w = (Inr (), w') \<and> idle (V ((p, c) # fs)) w'"
    and "\<exists>d w'. di_mkdtemp D pre w = (Inr d, w') \<and> fresh_dir fs d \<and> idle (V fs) w'"
    and "\<exists>w'. di_rmtree D d w = (Inr (), w') \<and> idle (V (outside_of d fs)) w'"
  using assms unfolding disk_ok_def by blast+

lemma under_path_join: "d \<noteq> [] \<Longrightarrow> last d \<noteq> CHR ''/'' \<Longrightarrow> x \<noteq> [] \<Longrightarrow> hd x \<noteq> CHR ''/'' \<Longrightarrow> under d (path_join d x)"
  by (simp add: under_def path_join_def)

lemma write_files_run:
  assumes D: "disk_ok D H V"
  shows "idle (V fs) w \<Longrightarrow> \<exists>w'. write_files D ws w = (Inr (map fst ws), w') \<and> idle (V (rev ws @ fs)) w'"
proof (induction ws arbitrary: fs w)
  case Nil then show ?case by (simp add: py_return_def)
next
  case (Cons f ws)
  obtain p c where f: "f = (p, c)" by force
  obtain w1 where 1: "di_write D p c w = (Inr (), w1)" "idle (V (f # fs)) w1"
    using disk_laws(3) [OF D Cons.prems, of p c] unfolding f by blast
  obtain w2 where "write_files D ws w1 = (Inr (map fst ws), w2)" "idle (V (rev ws @ f # fs)) w2"
    using Cons.IH [OF 1(2)] by blast
  then show ?case using 1(1) by (simp add: f py_bind_eq py_map_def py_return_def)
qed

lemma in_tempdir_run:
  assumes D: "disk_ok D H V" and w: "idle (V fs) w"
    and body: "\<And>d w1. fresh_dir fs d \<Longrightarrow> idle (V fs) w1
      \<Longrightarrow> \<exists>ws w2. body d w1 = Some (Inr x, w2) \<and> idle (V (ws @ fs)) w2 \<and> (\<forall>f \<in> set ws. under d (fst f))"
  shows "\<exists>w'. in_tempdir D pre body w = Some (Inr x, w') \<and> idle (V fs) w'"
proof -
  obtain d w1 where 1: "di_mkdtemp D pre w = (Inr d, w1)" "fresh_dir fs d" "idle (V fs) w1"
    using disk_laws(4) [OF D w, of pre] by blast
  obtain ws w2 where 2: "body d w1 = Some (Inr x, w2)" "idle (V (ws @ fs)) w2" "\<forall>f \<in> set ws. under d (fst f)"
    using body [OF 1(2,3)] by blast
  have "outside_of d ws = []" "outside_of d fs = fs"
    using 2(3) 1(2) by (auto simp: outside_of_def filter_empty_conv filter_id_conv fresh_dir_def)
  then have "outside_of d (ws @ fs) = fs" by (simp add: outside_of_def)
  then obtain w3 where "di_rmtree D d w2 = (Inr (), w3)" "idle (V fs) w3"
    using disk_laws(5) [OF D 2(2), of d] by auto
  then show ?thesis using 1(1) 2(1) by (simp add: in_tempdir_def loop_bind_def run_py_def loop_finally_def py_finally_def)
qed

subsection \<open>Loading what was written\<close>

lemma stored_back: "distinct (map fst ws) \<Longrightarrow> map (stored (rev ws @ fs)) (map fst ws) = map snd ws"
proof (rule nth_equalityI)
  fix i assume d: "distinct (map fst ws)" and "i < length (map (stored (rev ws @ fs)) (map fst ws))"
  then have i: "i < length ws" by simp
  obtain p c where pc: "ws ! i = (p, c)" by force
  then have "(p, c) \<in> set (rev ws)" using i by (metis nth_mem set_rev)
  moreover have "distinct (map fst (rev ws))" using d by (simp add: rev_map [symmetric])
  ultimately have "map_of (rev ws) p = Some c" by (rule map_of_is_SomeI [rotated])
  then show "map (stored (rev ws @ fs)) (map fst ws) ! i = map snd ws ! i" using i pc by (simp add: stored_def map_add_def)
qed simp

text \<open>Files of which none is longer than the first, which is short enough for one read.\<close>

definition first_longest :: "int list list \<Rightarrow> bool" where
  "first_longest bs \<longleftrightarrow> bs = [] \<or> length (hd bs) < 2 ^ 31 \<and> (\<forall>b \<in> set bs. length b \<le> length (hd bs))"

lemma cut_longest:
  "paths \<noteq> [] \<Longrightarrow> first_longest (map f paths) \<Longrightarrow> map (cut f paths) paths = map f paths \<and> length (f (hd paths)) < 2 ^ 31"
  by (auto simp: first_longest_def cut_def hd_map)

lemma loaders_run:
  assumes ring: "disk_ring E H (max b 64) h V" and w: "idle (V (rev ws @ fs)) w" and b: "0 < b"
    and dist: "distinct (map fst ws)" and longest: "first_longest (map snd ws)" and np: "np_sums np_sum S"
  shows "\<exists>w'. load_pyuring_batched_cached E H (map fst ws) (int b) w = Some (Inr (total_length (map snd ws)), w')
      \<and> idle (V (rev ws @ fs)) w'"
    and "\<exists>w'. load_pyuring_batched_pytorch E H (map fst ws) (int b) w = Some (Inr (map snd ws), w')
      \<and> idle (V (rev ws @ fs)) w'"
    and "\<exists>sums w'. load_pyuring_batched_numpy E H np_sum (map fst ws) (int b) w = Some (Inr sums, w')
      \<and> mset sums = mset (map S (map snd ws)) \<and> idle (V (rev ws @ fs)) w'"
proof -
  let ?f = "stored (rev ws @ fs)" and ?V = "V (rev ws @ fs)" and ?ps = "map fst ws"
  have same: "map ?f ?ps = map snd ws" by (rule stored_back [OF dist])
  have host: "ring_host E H (max b 64) h ?V ?f (fst ` set (rev ws @ fs))" using ring unfolding disk_ring_def by blast
  have ok: "si_ok ?V w" "si_live ?V w = Map.empty" using w by (simp_all add: idle_def)
  have P: "set ?ps \<subseteq> fst ` set (rev ws @ fs)" by auto
  have uncut: "map (cut ?f ?ps) ?ps = map snd ws" "length (?f (hd ?ps)) < 2 ^ 31" if "ws \<noteq> []"
    using cut_longest [of ?ps ?f] that longest unfolding same by simp_all
  show "\<exists>w'. load_pyuring_batched_cached E H ?ps (int b) w = Some (Inr (total_length (map snd ws)), w') \<and> idle ?V w'"
  proof (cases "ws = []")
    case False
    have "(\<Sum>p\<leftarrow>?ps. int (length (cut ?f ?ps p))) = total_length (map (cut ?f ?ps) ?ps)" by (simp add: total_length_def comp_def)
    then show ?thesis using cached_run(1) [OF host ok uncut(2) P b] False by (simp only: uncut(1) not_False_eq_True)
  qed (use w in \<open>simp add: load_pyuring_batched_cached_def total_length_def\<close>)
  show "\<exists>w'. load_pyuring_batched_pytorch E H ?ps (int b) w = Some (Inr (map snd ws), w') \<and> idle ?V w'"
  proof (cases "ws = []")
    case False then show ?thesis using pytorch_run [OF host ok uncut(2) P b] by (simp only: uncut(1) not_False_eq_True)
  qed (use w in \<open>simp add: load_pyuring_batched_pytorch_def\<close>)
  show "\<exists>sums w'. load_pyuring_batched_numpy E H np_sum ?ps (int b) w = Some (Inr sums, w')
      \<and> mset sums = mset (map S (map snd ws)) \<and> idle ?V w'"
  proof (cases "ws = []")
    case False
    have "map (\<lambda>p. S (cut ?f ?ps p)) ?ps = map S (map (cut ?f ?ps) ?ps)" by simp
    then show ?thesis using numpy_run [OF host ok uncut(2) P b np] False by (simp only: uncut(1) not_False_eq_True)
  qed (use w in \<open>simp add: load_pyuring_batched_numpy_def\<close>)
qed

lemma thread_pool_written:
  assumes D: "disk_ok D H V" and w: "idle (V (rev ws @ fs)) w" and dist: "distinct (map fst ws)" and workers: "0 < workers"
    and f: "\<And>p d w w'. ho_read_file H p w = (Inr d, w') \<Longrightarrow> f p w = (Inr (g d), w')"
  shows "\<exists>w'. thread_pool workers f (map fst ws) w = (Inr (map g (map snd ws)), w') \<and> idle (V (rev ws @ fs)) w'"
proof -
  have "\<forall>p \<in> set (map fst ws). \<forall>w. idle (V (rev ws @ fs)) w
      \<longrightarrow> (\<exists>w'. f p w = (Inr (g (stored (rev ws @ fs) p)), w') \<and> idle (V (rev ws @ fs)) w')"
  proof (intro ballI allI impI)
    fix p w assume "p \<in> set (map fst ws)" "idle (V (rev ws @ fs)) w"
    then obtain w' where "ho_read_file H p w = (Inr (stored (rev ws @ fs) p), w')" "idle (V (rev ws @ fs)) w'"
      using disk_laws(2) [OF D, of "rev ws @ fs" w p] by auto
    then show "\<exists>w'. f p w = (Inr (g (stored (rev ws @ fs) p)), w') \<and> idle (V (rev ws @ fs)) w'" using f by blast
  qed
  from executor_map_run [OF this w] obtain w' where
    run: "executor_map f (map fst ws) w = (Inr (map (\<lambda>p. g (stored (rev ws @ fs) p)) (map fst ws)), w')" "idle (V (rev ws @ fs)) w'"
    by blast
  have "map (\<lambda>p. g (stored (rev ws @ fs) p)) (map fst ws) = map g (map (stored (rev ws @ fs)) (map fst ws))" by simp
  then show ?thesis using run workers by (simp only: stored_back [OF dist] thread_pool_def) simp
qed

subsection \<open>The parts and the shards\<close>

lemma chunks_step:
  assumes "0 < (c :: nat)" "0 < n"
  shows "(n + c - 1) div c = Suc ((n - c + c - 1) div c)"
proof (cases "n \<le> c")
  case True
  have "n + c - 1 = (n - 1) + c" using assms(2) by simp
  then have "(n + c - 1) div c = Suc ((n - 1) div c)" using assms(1) by (simp only: div_add_self2)
  then show ?thesis using True assms by simp
next
  case False
  then have "n + c - 1 = (n - c + c - 1) + c" using assms(2) by simp
  then show ?thesis using assms(1) by (simp only: div_add_self2)
qed

lemma split_blobs_bounds:
  assumes chunk: "0 < chunk"
  shows "length (split_blobs chunk rest) = (length rest + nat chunk - 1) div nat chunk"
    and "b \<in> set (split_blobs chunk rest) \<Longrightarrow> length b \<le> min (nat chunk) (length rest)"
proof (induction "length rest" arbitrary: rest rule: less_induct)
  case less
  let ?c = "nat chunk"
  show len: "length (split_blobs chunk rest) = (length rest + ?c - 1) div ?c"
  proof (cases "rest = []")
    case True then show ?thesis using chunk by simp
  next
    case False
    then have "length (drop ?c rest) < length rest" using chunk by simp
    from less.hyps(1) [OF this] show ?thesis
      using chunks_step [of ?c "length rest"] split_blobs_step [OF chunk False] chunk False by simp
  qed
  show "length b \<le> min ?c (length rest)" if b: "b \<in> set (split_blobs chunk rest)"
  proof (cases "rest = []")
    case True then show ?thesis using b by simp
  next
    case False
    then have "length (drop ?c rest) < length rest" using chunk by simp
    note ih = less.hyps(2) [OF this]
    consider "b = take ?c rest" | "b \<in> set (split_blobs chunk (drop ?c rest))"
      using b split_blobs_step [OF chunk False] by auto
    then show ?thesis
    proof cases
      case 2
      from ih [OF this] have "length b \<le> ?c" "length b \<le> length rest - ?c" by simp_all
      then show ?thesis using le_trans [OF _ diff_le_self] by (intro min.boundedI)
    qed simp
  qed
qed

lemma split_cache_facts:
  assumes "0 < kb" "kb * 1024 < 2 ^ 31"
  shows "map snd (split_cache data d kb) = split_blobs (kb * 1024) data"
    and "length (split_cache data d kb) = (length data + nat (kb * 1024) - 1) div nat (kb * 1024)"
    and "distinct (map fst (split_cache data d kb))"
    and "d \<noteq> [] \<Longrightarrow> last d \<noteq> CHR ''/'' \<Longrightarrow> f \<in> set (split_cache data d kb) \<Longrightarrow> under d (fst f)"
    and "first_longest (map snd (split_cache data d kb))"
    and "total_length (map snd (split_cache data d kb)) = int (length data)"
proof -
  let ?c = "kb * 1024"
  have c: "0 < ?c" using assms(1) by simp
  show blobs: "map snd (split_cache data d kb) = split_blobs ?c data" by (simp add: split_cache_def Let_def)
  have names: "map fst (split_cache data d kb) = map (part_path d) [0..<length (split_blobs ?c data)]"
    by (simp add: split_cache_def Let_def)
  show "length (split_cache data d kb) = (length data + nat ?c - 1) div nat ?c"
    using split_blobs_bounds(1) [OF c, of data] by (simp add: length_split_cache)
  show "distinct (map fst (split_cache data d kb))"
    unfolding names by (auto simp: distinct_map intro: inj_onI dest: part_path_inj)
  show "under d (fst f)" if "d \<noteq> []" "last d \<noteq> CHR ''/''" "f \<in> set (split_cache data d kb)"
  proof -
    have "fst f \<in> set (map fst (split_cache data d kb))" using that(3) by simp
    then show ?thesis unfolding names using that(1,2) by (auto simp: part_path_def intro!: under_path_join)
  qed
  show "first_longest (map snd (split_cache data d kb))"
  proof (cases "data = []")
    case False
    have "length (hd (split_blobs ?c data)) = min (nat ?c) (length data)" using split_blobs_step [OF c False] by simp
    moreover have "min (nat ?c) (length data) < 2 ^ 31" using assms by simp
    ultimately show ?thesis using split_blobs_bounds(2) [OF c, where rest = data] by (simp add: blobs first_longest_def)
  qed (simp add: split_cache_def first_longest_def)
  have "sum_list (map (\<lambda>b. int (length b)) bs) = int (length (concat bs))" for bs :: "int list list"
    by (induction bs) simp_all
  then show "total_length (map snd (split_cache data d kb)) = int (length data)"
    using concat_split_blobs [of ?c data] c by (simp add: blobs total_length_def)
qed

lemma shard_facts:
  assumes "0 \<le> kb" "kb * 1024 < 2 ^ 31"
  shows "map snd (shards k d n kb) = map (\<lambda>i. replicate (nat (kb * 1024)) (int i AND 255)) [0..<nat n]"
    and "distinct (map fst (shards k d n kb))"
    and "d \<noteq> [] \<Longrightarrow> last d \<noteq> CHR ''/'' \<Longrightarrow> f \<in> set (shards k d n kb) \<Longrightarrow> under d (fst f)"
    and "first_longest (map snd (shards k d n kb))"
    and "total_length (map snd (shards k d n kb)) = int (nat n) * (kb * 1024)"
proof -
  show blobs: "map snd (shards k d n kb) = map (\<lambda>i. replicate (nat (kb * 1024)) (int i AND 255)) [0..<nat n]"
    by (simp add: shards_def)
  have "shard_path k d i = shard_path k d j \<Longrightarrow> i = j" for i j
    using path_join_inj [of d "''shard_'' @ zero_padded k i @ ''.bin''" "''shard_'' @ zero_padded k j @ ''.bin''"]
    by (auto simp: shard_path_def dest: zero_padded_inj)
  then show "distinct (map fst (shards k d n kb))" by (auto simp: shards_def distinct_map comp_def intro: inj_onI)
  show "under d (fst f)" if "d \<noteq> []" "last d \<noteq> CHR ''/''" "f \<in> set (shards k d n kb)"
    using that by (auto simp: shards_def shard_path_def intro!: under_path_join)
  show "first_longest (map snd (shards k d n kb))"
    using assms(2) by (cases "nat n") (auto simp: blobs first_longest_def hd_map simp del: upt_Suc)
  show "total_length (map snd (shards k d n kb)) = int (nat n) * (kb * 1024)"
    using assms(1) by (simp add: blobs total_length_def comp_def sum_list_triv)
qed

subsection \<open>The programs\<close>

lemma split_source_run:
  assumes D: "disk_ok D H V" and w: "idle (V fs) w" and src: "map_of fs src = Some data"
  shows "\<exists>w'. split_source D H src d kb w = (Inr (map fst (split_cache data d kb)), w')
    \<and> idle (V (rev (split_cache data d kb) @ fs)) w'"
proof -
  have "src \<in> fst ` set fs" "stored fs src = data" using map_of_SomeD [OF src] src by (force simp: stored_def)+
  then obtain u where "ho_read_file H src w = (Inr data, u)" "idle (V fs) u" using disk_laws(2) [OF D w] by metis
  then show ?thesis using write_files_run [OF D, of fs u "split_cache data d kb"]
    by (simp add: split_source_def py_bind_eq)
qed

lemma run_py_bind: "run_py (py_bind m k) = loop_bind (run_py m) (\<lambda>x. run_py (k x))"
  by (auto simp: run_py_def loop_bind_def py_bind_eq split: prod.splits sum.splits)

text \<open>A program: make files in a temporary directory, then load them.\<close>

lemma program_run:
  assumes D: "disk_ok D H V" and w: "idle (V fs) w"
    and made: "\<And>d w1. idle (V fs) w1 \<Longrightarrow> \<exists>w2. mk d w1 = (Inr (map fst (ws d)), w2) \<and> idle (V (rev (ws d) @ fs)) w2"
    and below: "\<And>d f. d \<noteq> [] \<Longrightarrow> last d \<noteq> CHR ''/'' \<Longrightarrow> f \<in> set (ws d) \<Longrightarrow> under d (fst f)"
    and load: "\<And>d w2. idle (V (rev (ws d) @ fs)) w2
      \<Longrightarrow> \<exists>w3. load (map fst (ws d)) w2 = Some (Inr x, w3) \<and> idle (V (rev (ws d) @ fs)) w3"
  shows "\<exists>w'. in_tempdir D pre (\<lambda>d. loop_bind (run_py (mk d)) load) w = Some (Inr x, w') \<and> idle (V fs) w'"
proof (rule in_tempdir_run [OF D w])
  fix d w1 assume d: "fresh_dir fs d" and w1: "idle (V fs) w1"
  obtain w2 where 2: "mk d w1 = (Inr (map fst (ws d)), w2)" "idle (V (rev (ws d) @ fs)) w2" using made [OF w1] by blast
  obtain w3 where "load (map fst (ws d)) w2 = Some (Inr x, w3)" "idle (V (rev (ws d) @ fs)) w3" using load [OF 2(2)] by blast
  then show "\<exists>ws w2. loop_bind (run_py (mk d)) load w1 = Some (Inr x, w2) \<and> idle (V (ws @ fs)) w2
      \<and> (\<forall>f \<in> set ws. under d (fst f))"
    using 2(1) d below by (intro exI [of _ "rev (ws d)"] exI [of _ w3]) (simp add: loop_bind_def run_py_def fresh_dir_def)
qed

lemma no_sums: "np_sums (\<lambda>_ _. Inr 0) (\<lambda>_. 0)"
  by (simp add: np_sums_def)

lemma cached_after_run:
  assumes D: "disk_ok D H V" "disk_ring E H (max b 64) h V" and w: "idle (V fs) w" "map_of fs src = Some data"
    and kb: "0 < kb" "kb * 1024 < 2 ^ 31" and b: "0 < b"
  shows "\<exists>w'. in_tempdir D pre (\<lambda>d. loop_bind (run_py (split_source D H src d kb)) (\<lambda>paths.
     loop_bind (load_pyuring_batched_cached E H paths (int b)) (\<lambda>n. run_py (py_return (length paths, n))))) w
     = Some (Inr ((length data + nat (kb * 1024) - 1) div nat (kb * 1024), int (length data)), w') \<and> idle (V fs) w'"
proof (rule program_run [OF D(1) w(1) split_source_run [OF D(1) _ w(2)] split_cache_facts(4) [OF kb]])
  fix d w2 assume w2: "idle (V (rev (split_cache data d kb) @ fs)) w2"
  note facts = split_cache_facts [OF kb, where data = data and d = d]
  show "\<exists>w3. loop_bind (load_pyuring_batched_cached E H (map fst (split_cache data d kb)) (int b))
      (\<lambda>n. run_py (py_return (length (map fst (split_cache data d kb)), n))) w2
      = Some (Inr ((length data + nat (kb * 1024) - 1) div nat (kb * 1024), int (length data)), w3)
      \<and> idle (V (rev (split_cache data d kb) @ fs)) w3"
    using loaders_run(1) [OF D(2) w2 b facts(3,5) no_sums] facts(2,6)
    by (auto simp: loop_bind_def run_py_def py_return_def)
qed

lemma cached_before_run:
  assumes D: "disk_ok D H V" and w: "idle (V fs) w" "map_of fs src = Some data"
    and kb: "0 < kb" "kb * 1024 < 2 ^ 31" and workers: "0 < workers"
  shows "\<exists>w'. in_tempdir D pre (\<lambda>d. run_py (py_bind (split_source D H src d kb) (\<lambda>paths.
       py_bind (thread_pool workers (read_one_cached H) paths) (\<lambda>blobs.
       py_return (length paths, total_length blobs))))) w
     = Some (Inr ((length data + nat (kb * 1024) - 1) div nat (kb * 1024), int (length data)), w') \<and> idle (V fs) w'"
  unfolding run_py_bind
proof (rule program_run [OF D(1) w(1) split_source_run [OF D(1) _ w(2)] split_cache_facts(4) [OF kb]])
  fix d w2 assume w2: "idle (V (rev (split_cache data d kb) @ fs)) w2"
  note facts = split_cache_facts [OF kb, where data = data and d = d]
  show "\<exists>w3. loop_bind (run_py (thread_pool workers (read_one_cached H) (map fst (split_cache data d kb))))
      (\<lambda>blobs. run_py (py_return (length (map fst (split_cache data d kb)), total_length blobs))) w2
      = Some (Inr ((length data + nat (kb * 1024) - 1) div nat (kb * 1024), int (length data)), w3)
      \<and> idle (V (rev (split_cache data d kb) @ fs)) w3"
    using thread_pool_written [OF D w2 facts(3) workers, of "read_one_cached H" "\<lambda>d. d"] facts(2,6)
    by (auto simp: loop_bind_def run_py_def py_return_def read_one_cached_def read_one_def)
qed

subsection \<open>A disk in memory\<close>

text \<open>
  Files in a list, one descriptor, a ring that completes the last read first (what a read will
  find is taken when it is queued), and a table with a cursor.
\<close>

record disk_world =
  dw_files :: files
  dw_open :: "int list"
  dw_live :: "(int \<times> nat \<times> nat \<times> int list) list"
  dw_bytes :: "nat \<Rightarrow> int list"
  dw_next :: nat
  dw_rows :: "(int \<times> int list) list"
  dw_cursor :: "(int \<times> int list) list"

fun int_arg :: "cval \<Rightarrow> int" where
  "int_arg (CInt i) = i" | "int_arg _ = 0"

fun mem_arg :: "cval \<Rightarrow> nat \<times> nat" where
  "mem_arg (CMem (Shared i n)) = (i, n)" | "mem_arg _ = (0, 0)"

definition dw_native :: "string \<Rightarrow> cval list \<Rightarrow> disk_world \<Rightarrow> reply \<times> disk_world" where
  "dw_native f args w =
     (if f = ''uring_read_async''
      then (case mem_arg (args ! 2) of (i, n) \<Rightarrow>
        (\<lparr>rp_ret = int_arg (args ! 5), rp_out = [], rp_errno = 0\<rparr>,
         w\<lparr>dw_live := (int_arg (args ! 5), i, n, drop (nat (int_arg (args ! 4))) (dw_open w)) # dw_live w\<rparr>))
      else if f = ''uring_wait_completion''
      then (case dw_live w of
          [] \<Rightarrow> (\<lparr>rp_ret = - EAGAIN, rp_out = [], rp_errno = 0\<rparr>, w)
        | (ud, i, n, d) # rest \<Rightarrow> (\<lparr>rp_ret = 0, rp_out = [ud, int (min n (length d))], rp_errno = 0\<rparr>,
            w\<lparr>dw_live := rest, dw_bytes := (dw_bytes w)(i := take n d @ drop (min n (length d)) (dw_bytes w i))\<rparr>))
      else (\<lparr>rp_ret = (if f = ''uring_create_ex'' then 4096 else 0), rp_out = [], rp_errno = 0\<rparr>, w))"

definition dw_env :: "disk_world env" where
  "dw_env = \<lparr>native = dw_native, thread_ident = 1, ct_errno = 0\<rparr>"

definition dw_host :: "disk_world host" where
  "dw_host = \<lparr>
     ho_getsize = (\<lambda>p w. (Inr (length (stored (dw_files w) p)), w)),
     ho_fstat_size = (\<lambda>fd w. (Inr (length (dw_open w)), w)),
     ho_open = (\<lambda>p w. (Inr 3, w\<lparr>dw_open := stored (dw_files w) p\<rparr>)),
     ho_close = (\<lambda>fd w. (Inr (), w)),
     ho_bytearray = (\<lambda>n w. (\<lparr>b_kind = Bytearray, b_id = dw_next w, b_len = n, b_nbytes = n, b_readonly = False, b_contiguous = True\<rparr>,
       w\<lparr>dw_next := Suc (dw_next w), dw_bytes := (dw_bytes w)(dw_next w := replicate n 0)\<rparr>)),
     ho_bytes = (\<lambda>b w. dw_bytes w (b_id b)),
     ho_read_file = (\<lambda>p w. (Inr (stored (dw_files w) p), w)) \<rparr>"

definition new_dir :: "files \<Rightarrow> string" where
  "new_dir fs = replicate (Suc (sum_list (map (\<lambda>f. length (fst f)) fs))) (CHR ''t'')"

definition dw_disk :: "disk_world disk" where
  "dw_disk = \<lparr>
     di_isfile = (\<lambda>p w. p \<in> fst ` set (dw_files w)),
     di_write = (\<lambda>p c w. (Inr (), w\<lparr>dw_files := (p, c) # dw_files w\<rparr>)),
     di_mkdtemp = (\<lambda>pre w. (Inr (new_dir (dw_files w)), w)),
     di_rmtree = (\<lambda>d w. (Inr (), w\<lparr>dw_files := outside_of d (dw_files w)\<rparr>)),
     di_shards = (\<lambda>d w. remdups (filter (shard_name d) (map fst (dw_files w)))),
     di_named_temp = (\<lambda>c w. (Inr (new_dir (dw_files w)), w\<lparr>dw_files := (new_dir (dw_files w), c) # dw_files w\<rparr>)),
     di_unlink = (\<lambda>p w. (Inr (), w\<lparr>dw_files := filter (\<lambda>f. fst f \<noteq> p) (dw_files w)\<rparr>)) \<rparr>"

definition dw_sight :: "files \<Rightarrow> disk_world sight" where
  "dw_sight fs = \<lparr>
     si_ok = (\<lambda>w. dw_files w = fs \<and> distinct (map fst (dw_live w)) \<and> (\<forall>x \<in> set (dw_live w). fst (snd x) < dw_next w)),
     si_live = (\<lambda>w. map_of (dw_live w)), si_fd = (\<lambda>w fd. Some (dw_open w)), si_ids = (\<lambda>w. {..<dw_next w}) \<rparr>"

definition dw_start :: "files \<Rightarrow> disk_world" where
  "dw_start fs = \<lparr>dw_files = fs, dw_open = [], dw_live = [], dw_bytes = (\<lambda>_. []), dw_next = 0, dw_rows = [], dw_cursor = []\<rparr>"

lemmas dw_defs = dw_native_def dw_env_def dw_host_def dw_disk_def dw_sight_def kernel_open_def kernel_read_def kernel_submit_def kernel_wait_def

lemma dw_waits: "waits (kernel_reader dw_env dw_host 4096) (dw_sight fs)"
  unfolding waits_def
proof (intro allI impI)
  let ?R = "kernel_reader dw_env dw_host 4096"
  fix w assume ok: "si_ok (dw_sight fs) w" "si_live (dw_sight fs) w \<noteq> Map.empty"
  then obtain ud i m d rest where live: "dw_live w = (ud, i, m, d) # rest"
    by (cases "dw_live w") (auto simp: dw_sight_def)
  let ?w = "w\<lparr>dw_live := rest, dw_bytes := (dw_bytes w)(i := take m d @ drop (min m (length d)) (dw_bytes w i))\<rparr>"
  have "map_of rest ud = None" using ok(1) live by (auto simp: dw_sight_def map_of_eq_None_iff)
  then have "map_of rest = (map_of (dw_live w))(ud := None)" using live by auto
  moreover have "untouched ?R (dw_sight fs) w ?w" using live by (auto simp: untouched_def dw_defs)
  ultimately show "\<exists>ud i n d s'. si_live (dw_sight fs) w ud = Some (i, n, d)
      \<and> rd_wait ?R w = (Inr (ud, int (min n (length d))), s') \<and> si_ok (dw_sight fs) s'
      \<and> si_ids (dw_sight fs) s' = si_ids (dw_sight fs) w \<and> si_live (dw_sight fs) s' = (si_live (dw_sight fs) w)(ud := None)
      \<and> untouched ?R (dw_sight fs) w s' \<and> (\<forall>b. b_id b = i \<longrightarrow> take n (take (length d) (rd_bytes ?R b s')) = take n d)"
    using ok live
    by (intro exI [of _ ud] exI [of _ i] exI [of _ m] exI [of _ d] exI [of _ ?w]) (auto simp: dw_defs min_def)
qed

lemma dw_ring: "n < 2 ^ 32 \<Longrightarrow> disk_ring dw_env dw_host n 4096 dw_sight"
  unfolding disk_ring_def
proof (intro allI)
  fix fs assume n: "n < 2 ^ 32"
  let ?R = "kernel_reader dw_env dw_host 4096" and ?V = "dw_sight fs"
  have "opens ?R ?V (stored fs) (fst ` set fs)" "closes ?R ?V" "sizes ?R ?V" "submits ?R ?V"
    by (auto simp: opens_def closes_def sizes_def submits_def same_sight_def untouched_def dw_defs)
  moreover have "makes ?R ?V"
    by (auto simp: makes_def untouched_def dw_defs pybuf_ok_def less_Suc_eq)
  moreover have "reads ?R ?V n"
    by (auto simp: reads_def untouched_def dw_defs map_of_eq_None_iff)
  ultimately have "reader_ok ?R ?V n (stored fs) (fst ` set fs)" using dw_waits by (simp add: reader_ok_def)
  then show "ring_host dw_env dw_host n 4096 ?V (stored fs) (fst ` set fs)"
    using n by (auto simp: ring_host_def dw_defs)
qed

lemma new_dir_fresh: "fresh_dir fs (new_dir fs)"
proof -
  have "length p \<le> sum_list (map (\<lambda>f. length (fst f)) fs)" if "p \<in> fst ` set fs" for p
    using that member_le_sum_list [of "length p" "map (\<lambda>f. length (fst f)) fs"] by force
  then have short: "length p < length (new_dir fs)" if "p \<in> fst ` set fs" for p using that by (simp add: new_dir_def le_imp_less_Suc)
  have "\<not> under (new_dir fs) p" if "p \<in> fst ` set fs" for p
  proof
    assume "under (new_dir fs) p"
    then have "length (take (Suc (length (new_dir fs))) p) = Suc (length (new_dir fs))" by (simp add: under_def)
    then show False using short [OF that] by simp
  qed
  then show ?thesis by (auto simp: fresh_dir_def new_dir_def)
qed

lemma dw_disk_ok: "disk_ok dw_disk dw_host dw_sight"
  using new_dir_fresh by (auto simp: disk_ok_def idle_def dw_defs)

lemma dw_start_idle: "idle (dw_sight fs) (dw_start fs)"
  by (simp add: idle_def dw_sight_def dw_start_def)

text \<open>
  C22: The program and the one it replaces agree (cached reads).  Both split the source, read the
  parts (batched on a ring, or in a thread pool), print the number of parts, which is that of the chunks
  rounded up, and the number of bytes of the source, and leave on the disk what was there before.
\<close>

theorem cached_programs_agree:
  assumes "disk_ok D H V" "disk_ring E H (max b 64) h V" "idle (V fs) w" "map_of fs src = Some data"
    and "option_or args ''--chunk-kb'' 128 = kb" "option_or args' ''--chunk-kb'' 128 = kb" "0 < kb" "kb * 1024 < 2 ^ 31"
    and "option_or args ''--batch-size'' 16 = int b" "0 < b" "0 < option_or args' ''--workers'' 8"
  shows "\<exists>w1 w2. cached_main_after D E H src args w
        = Some (Inr ((length data + nat (kb * 1024) - 1) div nat (kb * 1024), int (length data)), w1)
    \<and> cached_main_before D H src args' w
        = Some (Inr ((length data + nat (kb * 1024) - 1) div nat (kb * 1024), int (length data)), w2)
    \<and> idle (V fs) w1 \<and> idle (V fs) w2"
proof -
  have "di_isfile D src w" using disk_laws(1) [OF assms(1,3)] map_of_SomeD [OF assms(4)] by force
  then have "\<exists>w1. cached_main_after D E H src args w
        = Some (Inr ((length data + nat (kb * 1024) - 1) div nat (kb * 1024), int (length data)), w1) \<and> idle (V fs) w1"
    "\<exists>w2. cached_main_before D H src args' w
        = Some (Inr ((length data + nat (kb * 1024) - 1) div nat (kb * 1024), int (length data)), w2) \<and> idle (V fs) w2"
    using cached_after_run [OF assms(1-4,7,8,10)] cached_before_run [OF assms(1,3,4,7,8,11)] assms(5,6,9)
    by (simp_all add: cached_main_after_def cached_main_before_def with_source_def)
  then show ?thesis by blast
qed

lemma cached_programs_agree_witness:
  "\<exists>w1 w2. cached_main_after dw_disk dw_env dw_host ''s'' [''--chunk-kb'' \<mapsto> 1] (dw_start [(''s'', replicate 2500 7)]) = Some (Inr (3, 2500), w1)
    \<and> cached_main_before dw_disk dw_host ''s'' [''--chunk-kb'' \<mapsto> 1] (dw_start [(''s'', replicate 2500 7)]) = Some (Inr (3, 2500), w2)
    \<and> idle (dw_sight [(''s'', replicate 2500 7)]) w1 \<and> idle (dw_sight [(''s'', replicate 2500 7)]) w2"
  using cached_programs_agree [OF dw_disk_ok dw_ring dw_start_idle [of "[(''s'', replicate 2500 7)]"],
      of 16 "''s''" "replicate 2500 7" "[''--chunk-kb'' \<mapsto> 1]" 1 "[''--chunk-kb'' \<mapsto> 1]"]
  by (simp add: option_or_def)

text \<open>Programs on shards.\<close>

lemma shards_after_run:
  assumes D: "disk_ok D H V" "disk_ring E H (max b 64) h V" and w: "idle (V fs) w"
    and kb: "0 \<le> kb" "kb * 1024 < 2 ^ 31" and b: "0 < b" and np: "np_sums np_sum S"
  shows "\<exists>w'. in_tempdir D pre (\<lambda>d. loop_bind (run_py (write_files D (shards k d n kb))) (\<lambda>paths.
       loop_bind (load_pyuring_batched_pytorch E H paths (int b)) (\<lambda>blobs. run_py (py_return (n, total_length blobs))))) w
     = Some (Inr (n, int (nat n) * (kb * 1024)), w') \<and> idle (V fs) w'"
    and "\<exists>w'. in_tempdir D pre (\<lambda>d. loop_bind (run_py (write_files D (shards k d n kb))) (\<lambda>paths.
       loop_bind (load_pyuring_batched_numpy E H np_sum paths (int b)) (\<lambda>sums. run_py (py_return (n, sum_list sums))))) w
     = Some (Inr (n, \<Sum>i\<leftarrow>[0..<nat n]. S (replicate (nat (kb * 1024)) (int i AND 255))), w') \<and> idle (V fs) w'"
proof -
  note facts = shard_facts [OF kb]
  note shell = program_run [OF D(1) w write_files_run [OF D(1)] facts(3)]
  show "\<exists>w'. in_tempdir D pre (\<lambda>d. loop_bind (run_py (write_files D (shards k d n kb))) (\<lambda>paths.
       loop_bind (load_pyuring_batched_pytorch E H paths (int b)) (\<lambda>blobs. run_py (py_return (n, total_length blobs))))) w
     = Some (Inr (n, int (nat n) * (kb * 1024)), w') \<and> idle (V fs) w'"
  proof (rule shell)
    fix d w2 assume "idle (V (rev (shards k d n kb) @ fs)) w2"
    then show "\<exists>w3. loop_bind (load_pyuring_batched_pytorch E H (map fst (shards k d n kb)) (int b))
        (\<lambda>blobs. run_py (py_return (n, total_length blobs))) w2 = Some (Inr (n, int (nat n) * (kb * 1024)), w3)
        \<and> idle (V (rev (shards k d n kb) @ fs)) w3"
      using loaders_run(2) [OF D(2) _ b facts(2,4) np] facts(5) by (fastforce simp: loop_bind_def run_py_def py_return_def)
  qed
  show "\<exists>w'. in_tempdir D pre (\<lambda>d. loop_bind (run_py (write_files D (shards k d n kb))) (\<lambda>paths.
       loop_bind (load_pyuring_batched_numpy E H np_sum paths (int b)) (\<lambda>sums. run_py (py_return (n, sum_list sums))))) w
     = Some (Inr (n, \<Sum>i\<leftarrow>[0..<nat n]. S (replicate (nat (kb * 1024)) (int i AND 255))), w') \<and> idle (V fs) w'"
  proof (rule shell)
    fix d w2 assume w2: "idle (V (rev (shards k d n kb) @ fs)) w2"
    obtain sums w3 where "load_pyuring_batched_numpy E H np_sum (map fst (shards k d n kb)) (int b) w2 = Some (Inr sums, w3)"
        "mset sums = mset (map S (map snd (shards k d n kb)))" "idle (V (rev (shards k d n kb) @ fs)) w3"
      using loaders_run(3) [OF D(2) w2 b facts(2,4) np] by blast
    moreover from this(2) have "sum_list sums = sum_list (map S (map snd (shards k d n kb)))" by (metis sum_mset_sum_list)
    ultimately show "\<exists>w3. loop_bind (load_pyuring_batched_numpy E H np_sum (map fst (shards k d n kb)) (int b))
        (\<lambda>sums. run_py (py_return (n, sum_list sums))) w2
        = Some (Inr (n, \<Sum>i\<leftarrow>[0..<nat n]. S (replicate (nat (kb * 1024)) (int i AND 255))), w3)
        \<and> idle (V (rev (shards k d n kb) @ fs)) w3"
      by (simp add: loop_bind_def run_py_def py_return_def facts(1) comp_def)
  qed
qed

lemma shards_before_run:
  assumes D: "disk_ok D H V" and w: "idle (V fs) w" and kb: "0 \<le> kb" "kb * 1024 < 2 ^ 31"
    and workers: "0 < workers" and f: "\<And>p d w w'. ho_read_file H p w = (Inr d, w') \<Longrightarrow> f p w = (Inr (g d), w')"
  shows "\<exists>w'. in_tempdir D pre (\<lambda>d. run_py (py_bind (write_files D (shards k d n kb)) (\<lambda>paths.
       py_bind (thread_pool workers f paths) (\<lambda>xs. py_return (n, what xs))))) w
     = Some (Inr (n, what (map g (map (\<lambda>i. replicate (nat (kb * 1024)) (int i AND 255)) [0..<nat n]))), w') \<and> idle (V fs) w'"
  unfolding run_py_bind
proof (rule program_run [OF D w write_files_run [OF D] shard_facts(3) [OF kb]])
  fix d w2 assume w2: "idle (V (rev (shards k d n kb) @ fs)) w2"
  show "\<exists>w3. loop_bind (run_py (thread_pool workers f (map fst (shards k d n kb)))) (\<lambda>xs. run_py (py_return (n, what xs))) w2
      = Some (Inr (n, what (map g (map (\<lambda>i. replicate (nat (kb * 1024)) (int i AND 255)) [0..<nat n]))), w3)
      \<and> idle (V (rev (shards k d n kb) @ fs)) w3"
    using thread_pool_written [where f = f and g = g, OF D w2 shard_facts(2) [OF kb] workers] f
    unfolding shard_facts(1) [OF kb] by (fastforce simp: loop_bind_def run_py_def py_return_def)
qed

text \<open>
  The programs and those they replace agree (shards).  The PyTorch programs print the number of
  shards and of their bytes, the NumPy programs the number and the sum of all bytes, although the batched one adds the
  sums in the order of completion; all leave on the disk what was there before.
\<close>

theorem shard_programs_agree:
  assumes "disk_ok D H V" "disk_ring E H (max b 64) h V" "idle (V fs) w" "np_sums np_sum sum_list"
    and "option_or args ''--shards'' 32 = n" "option_or args ''--size-kb'' 64 = kb" "0 \<le> kb" "kb * 1024 < 2 ^ 31"
    and "option_or args ''--batch-size'' 16 = int b" "0 < b" "0 < option_or args ''--workers'' 4"
  shows "(\<exists>w1 w2. pytorch_main_after D E H args w = Some (Inr (n, int (nat n) * (kb * 1024)), w1)
      \<and> pytorch_main_before D H args w = Some (Inr (n, int (nat n) * (kb * 1024)), w2) \<and> idle (V fs) w1 \<and> idle (V fs) w2)
    \<and> (\<exists>w1 w2. numpy_main_after D E H np_sum args w = Some (Inr (n, \<Sum>i\<leftarrow>[0..<nat n]. kb * 1024 * (int i AND 255)), w1)
      \<and> numpy_main_before D H np_sum args w = Some (Inr (n, \<Sum>i\<leftarrow>[0..<nat n]. kb * 1024 * (int i AND 255)), w2)
      \<and> idle (V fs) w1 \<and> idle (V fs) w2)"
proof -
  have sums: "sum_list (replicate (nat (kb * 1024)) x) = kb * 1024 * x" for x :: int using assms(7) by (simp add: sum_list_replicate)
  have one: "read_one_numpy H np_sum p w = (Inr (sum_list d), w')" if "ho_read_file H p w = (Inr d, w')" for p d w w'
    using that assms(4) by (simp add: read_one_numpy_def py_bind_eq np_sums_def py_return_def)
  have whole: "read_one H p w = (Inr (id d), w')" if "ho_read_file H p w = (Inr d, w')" for p d w w'
    using that by (simp add: read_one_def)
  note after = shards_after_run [OF assms(1-3,7,8,10,4)]
  note before = shards_before_run [OF assms(1,3,7,8,11)]
  have total: "total_length (map id (map (\<lambda>i. replicate (nat (kb * 1024)) (int i AND 255)) [0..<nat n])) = int (nat n) * (kb * 1024)"
    using assms(7) by (simp add: total_length_def comp_def sum_list_triv)
  have "\<exists>w1. pytorch_main_after D E H args w = Some (Inr (n, int (nat n) * (kb * 1024)), w1) \<and> idle (V fs) w1"
    using after(1) assms(5,6,9) by (simp add: pytorch_main_after_def create_shards_pytorch_def)
  moreover have "\<exists>w2. pytorch_main_before D H args w = Some (Inr (n, int (nat n) * (kb * 1024)), w2) \<and> idle (V fs) w2"
    using before [where f = "read_one H" and g = id and what = total_length and n = n, OF whole] assms(5,6) unfolding total
    by (simp add: pytorch_main_before_def create_shards_pytorch_before_def load_threadpool_def)
  moreover have "\<exists>w1. numpy_main_after D E H np_sum args w = Some (Inr (n, \<Sum>i\<leftarrow>[0..<nat n]. kb * 1024 * (int i AND 255)), w1) \<and> idle (V fs) w1"
    using after(2) assms(5-7,9) by (simp add: numpy_main_after_def create_shards_numpy_def numpy_shards_def sums)
  moreover have "\<exists>w2. numpy_main_before D H np_sum args w = Some (Inr (n, \<Sum>i\<leftarrow>[0..<nat n]. kb * 1024 * (int i AND 255)), w2) \<and> idle (V fs) w2"
    using before [where f = "read_one_numpy H np_sum" and g = sum_list and what = sum_list and n = n, OF one] assms(5-7)
    by (simp add: numpy_main_before_def create_shards_numpy_before_def numpy_shards_def sums comp_def)
  ultimately show ?thesis by blast
qed

lemma shard_programs_agree_witness:
  "(\<exists>w1. pytorch_main_after dw_disk dw_env dw_host [''--shards'' \<mapsto> 3] (dw_start []) = Some (Inr (3, 196608), w1) \<and> idle (dw_sight []) w1)
    \<and> (\<exists>w1. numpy_main_after dw_disk dw_env dw_host (\<lambda>d n. Inr (sum_list (take (nat n) d))) [''--shards'' \<mapsto> 3] (dw_start [])
        = Some (Inr (3, 196608), w1) \<and> idle (dw_sight []) w1)"
proof -
  have np: "np_sums (\<lambda>d n. Inr (sum_list (take (nat n) d))) sum_list" by (simp add: np_sums_def)
  show ?thesis
    using shard_programs_agree [OF dw_disk_ok dw_ring dw_start_idle [of "[]"] np, of 16 "[''--shards'' \<mapsto> 3]" 3 64]
    by (auto simp: option_or_def numeral_3_eq_3)
qed

end
