(* ===== verification/Sources_Props.thy ===== *)
theory Sources_Props
  imports Sources Programs_Props
begin

unbundle bit_operations_syntax

text \<open>
  The export and the download, on a database and a server that behave as documented: the rows of the
  database become shards, which both programs read, and both downloads write the body of the response.
\<close>

subsection \<open>Taking everything\<close>

text \<open>\<open>I xs ys w\<close>: \<open>xs\<close> is still to come, \<open>ys\<close> has been used.\<close>

lemma take_all_run:
  assumes step: "\<And>x xs ys w. I (x # xs) ys w
      \<Longrightarrow> \<exists>w1 w2. fetch w = (Inr (Some x), w1) \<and> use x w1 = (Inr (), w2) \<and> I xs (ys @ [x]) w2"
    and stop: "\<And>ys w. I [] ys w \<Longrightarrow> \<exists>w'. fetch w = (Inr None, w') \<and> I [] ys w'"
  shows "I xs ys w \<Longrightarrow> \<exists>w'. take_all fetch use w = Some (Inr (), w') \<and> I [] (ys @ xs) w'"
proof (induction xs arbitrary: ys w)
  case Nil
  then obtain w' where "fetch w = (Inr None, w')" "I [] ys w'" using stop by blast
  then show ?case by (simp add: take_all.simps [of fetch])
next
  case (Cons x xs)
  obtain w1 w2 where one: "fetch w = (Inr (Some x), w1)" "use x w1 = (Inr (), w2)" "I xs (ys @ [x]) w2"
    using step [OF Cons.prems] by blast
  obtain w3 where "take_all fetch use w2 = Some (Inr (), w3)" "I [] ((ys @ [x]) @ xs) w3" using Cons.IH [OF one(3)] by blast
  then show ?case using one(1,2) by (simp add: take_all.simps [of fetch use w])
qed

subsection \<open>The export\<close>

text \<open>
  \<open>Q fs rows cur w\<close>: a connection is open, the files other than the database are \<open>fs\<close>, the table has \<open>rows\<close>, and
  the cursor has \<open>cur\<close> still to return.
\<close>

definition database_ok ::
  "'w disk \<Rightarrow> 'w database \<Rightarrow> (files \<Rightarrow> 'w sight)
     \<Rightarrow> (files \<Rightarrow> (int \<times> int list) list \<Rightarrow> (int \<times> int list) list \<Rightarrow> 'w \<Rightarrow> bool) \<Rightarrow> bool" where
  "database_ok D B V Q \<longleftrightarrow>
     (\<forall>fs p w. idle (V fs) w \<longrightarrow> (\<exists>rows w'. db_connect B p w = (Inr (), w') \<and> Q fs rows [] w'))
   \<and> (\<forall>fs rows cur w. Q fs rows cur w \<longrightarrow>
        (\<exists>w'. db_create_table B w = (Inr (), w') \<and> Q fs rows cur w')
      \<and> (\<exists>w'. db_delete B w = (Inr (), w') \<and> Q fs [] cur w')
      \<and> (\<forall>new. distinct (map fst (rows @ new)) \<longrightarrow> (\<exists>w'. db_insert B new w = (Inr (), w') \<and> Q fs (rows @ new) cur w'))
      \<and> (\<exists>w'. db_commit B w = (Inr (), w') \<and> Q fs rows cur w')
      \<and> (\<exists>w'. db_select B w = (Inr (), w') \<and> Q fs rows (sort_key fst rows) w')
      \<and> (\<exists>w'. db_fetch B w = (Inr (if cur = [] then None else Some (hd cur)), w') \<and> Q fs rows (tl cur) w')
      \<and> (\<forall>p c. \<exists>w'. di_write D p c w = (Inr (), w') \<and> Q ((p, c) # fs) rows cur w')
      \<and> (\<exists>w'. db_close B w = (Inr (), w') \<and> idle (V fs) w'))"

lemma database_laws:
  assumes "database_ok D B V Q"
  shows "idle (V fs) w \<Longrightarrow> \<exists>rows w'. db_connect B p w = (Inr (), w') \<and> Q fs rows [] w'"
    and "Q fs rows cur w \<Longrightarrow> \<exists>w'. db_create_table B w = (Inr (), w') \<and> Q fs rows cur w'"
    and "Q fs rows cur w \<Longrightarrow> \<exists>w'. db_delete B w = (Inr (), w') \<and> Q fs [] cur w'"
    and "Q fs [] cur w \<Longrightarrow> distinct (map fst new) \<Longrightarrow> \<exists>w'. db_insert B new w = (Inr (), w') \<and> Q fs new cur w'"
    and "Q fs rows cur w \<Longrightarrow> \<exists>w'. db_commit B w = (Inr (), w') \<and> Q fs rows cur w'"
    and "Q fs rows cur w \<Longrightarrow> \<exists>w'. db_select B w = (Inr (), w') \<and> Q fs rows (sort_key fst rows) w'"
    and "Q fs rows cur w \<Longrightarrow> \<exists>w'. db_fetch B w = (Inr (if cur = [] then None else Some (hd cur)), w') \<and> Q fs rows (tl cur) w'"
    and "Q fs rows cur w \<Longrightarrow> \<exists>w'. di_write D p c w = (Inr (), w') \<and> Q ((p, c) # fs) rows cur w'"
    and "Q fs rows cur w \<Longrightarrow> \<exists>w'. db_close B w = (Inr (), w') \<and> idle (V fs) w'"
  using assms unfolding database_ok_def by (blast, blast, blast, metis append_Nil, blast, blast, blast, blast, blast)

definition row_files :: "string \<Rightarrow> (int \<times> int list) list \<Rightarrow> files" where
  "row_files d rows = map (\<lambda>(i, data). (row_path d i, data)) rows"

lemma fetch_rows_run:
  assumes B: "database_ok D B V Q" and w: "Q fs rows cur w"
  shows "\<exists>w'. take_all (db_fetch B) (\<lambda>(row_id, data). di_write D (row_path d row_id) data) w = Some (Inr (), w')
    \<and> Q (rev (row_files d cur) @ fs) rows [] w'"
proof -
  let ?I = "\<lambda>xs ys. Q (rev (row_files d ys) @ fs) rows xs"
  have step: "\<exists>w1 w2. db_fetch B w = (Inr (Some x), w1) \<and> (case x of (i, data) \<Rightarrow> di_write D (row_path d i) data) w1 = (Inr (), w2)
      \<and> ?I xs (ys @ [x]) w2" if at: "?I (x # xs) ys w" for x xs ys w
  proof -
    obtain i data where x: "x = (i, data)" by force
    obtain w1 where 1: "db_fetch B w = (Inr (Some x), w1)" "?I xs ys w1" using database_laws(7) [OF B at] by auto
    show ?thesis using database_laws(8) [OF B 1(2), of "row_path d i" data] 1(1) by (auto simp: x row_files_def)
  qed
  have stop: "\<exists>w'. db_fetch B w = (Inr None, w') \<and> ?I [] ys w'" if "?I [] ys w" for ys w
    using database_laws(7) [OF B that] by simp
  show ?thesis using take_all_run [where I = ?I and xs = cur and ys = "[]" and w = w, OF step stop] w by (simp add: row_files_def)
qed

definition new_rows :: "int \<Rightarrow> int list \<Rightarrow> (int \<times> int list) list" where
  "new_rows n blob = map (\<lambda>i. (int i, blob)) [0..<nat n]"

lemma new_rows_sorted: "sort_key fst (new_rows n blob) = new_rows n blob" "distinct (map fst (new_rows n blob))"
  by (simp_all add: new_rows_def sort_key_id_if_sorted sorted_wrt_map comp_def distinct_map inj_on_def
      sorted_iff_nth_mono)

lemma export_rows_run:
  assumes B: "database_ok D B V Q" and w: "Q fs rows [] w"
  shows "\<exists>w'. export_rows D B d n blob w = Some (Inr (), w') \<and> Q (rev (row_files d (new_rows n blob)) @ fs) (new_rows n blob) [] w'"
proof -
  obtain w1 where 1: "db_create_table B w = (Inr (), w1)" "Q fs rows [] w1" using database_laws(2) [OF B w] by blast
  obtain w2 where 2: "db_delete B w1 = (Inr (), w2)" "Q fs [] [] w2" using database_laws(3) [OF B 1(2)] by blast
  obtain w3 where 3: "db_insert B (new_rows n blob) w2 = (Inr (), w3)" "Q fs (new_rows n blob) [] w3"
    using database_laws(4) [OF B 2(2) new_rows_sorted(2)] by blast
  obtain w4 where 4: "db_commit B w3 = (Inr (), w4)" "Q fs (new_rows n blob) [] w4" using database_laws(5) [OF B 3(2)] by blast
  obtain w5 where 5: "db_select B w4 = (Inr (), w5)" "Q fs (new_rows n blob) (new_rows n blob) w5"
    using database_laws(6) [OF B 4(2)] new_rows_sorted(1) by metis
  show ?thesis using 1(1) 2(1) 3(1) 4(1) 5(1) fetch_rows_run [OF B 5(2), of d]
    by (simp add: export_rows_def loop_bind_def run_py_def py_bind_eq new_rows_def)
qed

subsection \<open>Reading what was exported\<close>

text \<open>\<open>glob\<close> lists each matching file once, in any order.\<close>

definition globs :: "'w disk \<Rightarrow> (files \<Rightarrow> 'w sight) \<Rightarrow> bool" where
  "globs D V \<longleftrightarrow> (\<forall>fs w d. idle (V fs) w \<longrightarrow> distinct (di_shards D d w)
     \<and> set (di_shards D d w) = {p \<in> fst ` set fs. shard_name d p})"

lemma no_slash: "CHR ''/'' \<notin> set (digits_of_nat n)"
proof (induction n rule: digits_of_nat.induct)
  case (1 n)
  have "char_of (48 + n mod 10) \<noteq> CHR ''/''"
  proof
    assume "char_of (48 + n mod 10) = CHR ''/''"
    then have "of_char (char_of (48 + n mod 10) :: char) = (of_char (CHR ''/'') :: nat)" by simp
    then show False by (simp add: take_bit_nat_def)
  qed
  then show ?case using 1 by (cases "n < 10") (auto simp: digits_of_nat.simps [of n])
qed

lemma row_path_shard: "row_path d (int i) = shard_path 4 d i"
  by (simp add: row_path_def shard_path_def padded_int_def)

lemma row_path_name: "shard_name d (row_path d (int i))"
  unfolding row_path_shard shard_name_def shard_path_def
  by (intro exI [of _ "zero_padded 4 i"]) (auto simp: zero_padded_def no_slash)

lemma row_path_inj: "row_path d (int i) = row_path d (int j) \<Longrightarrow> i = j"
  unfolding row_path_shard shard_path_def
  by (drule path_join_inj) (auto dest: zero_padded_inj)

lemma sqlite_mains_run:
  assumes D: "disk_ok D H V" "disk_ring E H (max b 64) h V" and w: "idle (V fs) w"
    and listed: "set (di_shards D d w) \<subseteq> fst ` set fs" "di_shards D d w \<noteq> []"
    and size: "\<forall>p \<in> set (di_shards D d w). length (stored fs p) = m" "m < 2 ^ 31"
    and args: "option_or args ''--batch-size'' 16 = int b" "0 < b" "0 < option_or args ''--workers'' 8"
  shows "\<exists>w2. sqlite_main_after D E H d args w = Some (Inr (length (di_shards D d w), int (length (di_shards D d w) * m)), w2)"
    and "\<exists>w3. sqlite_main_before D H d args w = (Inr (length (di_shards D d w), int (length (di_shards D d w) * m)), w3)"
proof -
  define paths where "paths = sort (di_shards D d w)"
  have paths: "paths \<noteq> []" "set paths \<subseteq> fst ` set fs" "\<forall>p \<in> set paths. length (stored fs p) = m" "length paths = length (di_shards D d w)"
    using listed size(1) by (auto simp: paths_def dest: arg_cong [where f = set])
  have found: "exported_shards D d w = (Inr paths, w)" using paths(1) by (simp add: exported_shards_def paths_def Let_def)
  have "hd paths \<in> set paths" using paths(1) by simp
  then have small: "length (stored fs (hd paths)) < 2 ^ 31" and each: "map (\<lambda>p. int (length (cut (stored fs) paths p))) paths = map (\<lambda>_. int m) paths"
    using paths(3) size(2) by (auto simp: cut_def)
  have total: "(\<Sum>p\<leftarrow>paths. int (length (cut (stored fs) paths p))) = int (length paths * m)"
    unfolding each by (simp add: sum_list_triv)
  have host: "ring_host E H (max b 64) h (V fs) (stored fs) (fst ` set fs)" using D(2) by (simp add: disk_ring_def)
  have ok: "si_ok (V fs) w" "si_live (V fs) w = Map.empty" using w by (simp_all add: idle_def)
  show "\<exists>w2. sqlite_main_after D E H d args w = Some (Inr (length (di_shards D d w), int (length (di_shards D d w) * m)), w2)"
    using cached_run(2) [OF host ok small paths(2) args(2)] found paths(4) args(1) unfolding total
    by (auto simp: sqlite_main_after_def loop_bind_def run_py_def py_return_def)
  have "\<forall>p \<in> set paths. \<forall>w. idle (V fs) w \<longrightarrow> (\<exists>w'. read_one_sqlite H p w = (Inr (int (length (stored fs p))), w') \<and> idle (V fs) w')"
  proof (intro ballI allI impI)
    fix p u assume p: "p \<in> set paths" and u: "idle (V fs) u"
    obtain w' where "ho_read_file H p u = (Inr (stored fs p), w')" "idle (V fs) w'"
      using disk_laws(2) [OF D(1) u, of p] paths(2) p by blast
    then show "\<exists>w'. read_one_sqlite H p u = (Inr (int (length (stored fs p))), w') \<and> idle (V fs) w'"
      by (simp add: read_one_sqlite_def read_one_def py_map_def py_bind_eq py_return_def)
  qed
  from executor_map_run [OF this w] obtain w' where
    "executor_map (read_one_sqlite H) paths w = (Inr (map (\<lambda>p. int (length (stored fs p))) paths), w')" by blast
  moreover have "sum_list (map (\<lambda>p. int (length (stored fs p))) paths) = int (length paths * m)"
    using paths(3) by (simp add: sum_list_triv cong: map_cong)
  ultimately show "\<exists>w3. sqlite_main_before D H d args w = (Inr (length (di_shards D d w), int (length (di_shards D d w) * m)), w3)"
    using found paths(4) args(3) by (simp add: sqlite_main_before_def thread_pool_def py_bind_eq py_return_def)
qed

definition places_ok :: "'w places \<Rightarrow> (files \<Rightarrow> 'w sight) \<Rightarrow> string \<Rightarrow> string \<Rightarrow> bool" where
  "places_ok L V out dir \<longleftrightarrow> (\<forall>fs w. idle (V fs) w \<longrightarrow> pl_abspath L out w = dir
     \<and> (\<exists>w'. pl_makedirs L dir w = (Inr (), w') \<and> idle (V fs) w'))"

lemma export_main_run:
  assumes L: "places_ok L V out dir" "out \<noteq> []" and B: "database_ok D B V Q" and w: "idle (V fs) w"
    and args: "option_or args ''--rows'' 32 = n" "option_or args ''--blob-kb'' 64 = kb"
  shows "\<exists>w'. export_main D L B out args w = Some (Inr (path_join dir ''blobs.db'', n, dir), w')
    \<and> idle (V (rev (row_files dir (new_rows n (row_blob kb))) @ fs)) w'"
proof -
  obtain w1 where "pl_abspath L out w = dir" "pl_makedirs L dir w = (Inr (), w1)" "idle (V fs) w1"
    using L(1) w unfolding places_ok_def by blast
  then have 1: "output_dir D L out w = (Inr dir, w1)" "idle (V fs) w1"
    using L(2) by (simp_all add: output_dir_def py_map_def py_bind_eq py_return_def)
  obtain rows w2 where 2: "db_connect B (path_join dir ''blobs.db'') w1 = (Inr (), w2)" "Q fs rows [] w2"
    using database_laws(1) [OF B 1(2)] by blast
  obtain w3 where 3: "export_rows D B dir n (row_blob kb) w2 = Some (Inr (), w3)"
      "Q (rev (row_files dir (new_rows n (row_blob kb))) @ fs) (new_rows n (row_blob kb)) [] w3"
    using export_rows_run [OF B 2(2)] by blast
  obtain w4 where 4: "db_close B w3 = (Inr (), w4)" "idle (V (rev (row_files dir (new_rows n (row_blob kb))) @ fs)) w4"
    using database_laws(9) [OF B 3(2)] by blast
  show ?thesis using 1(1) 2(1) 3(1) 4 args
    by (simp add: export_main_def Let_def loop_bind_def run_py_def loop_finally_def py_finally_def py_return_def)
qed

lemma stored_rows:
  assumes "p \<in> fst ` set (row_files d (new_rows n blob))"
  shows "stored (rev (row_files d (new_rows n blob)) @ fs) p = blob"
proof -
  let ?ws = "row_files d (new_rows n blob)"
  have "p \<in> dom (map_of (rev ?ws))" using assms by (simp add: dom_map_of_conv_image_fst)
  then obtain c where c: "map_of (rev ?ws) p = Some c" by blast
  then have "(p, c) \<in> set ?ws" by (auto dest: map_of_SomeD)
  then have "c = blob" by (auto simp: row_files_def new_rows_def)
  then show ?thesis using c by (simp add: stored_def map_add_def)
qed

lemma row_names: "map fst (row_files d (new_rows n blob)) = map (\<lambda>i. row_path d (int i)) [0..<nat n]"
  by (simp add: row_files_def new_rows_def comp_def)

text \<open>
  C23: What is exported is read.  The export of a database into a directory without shards writes one
  shard per row and closes the connection; then both programs find them, whatever the order \<open>glob\<close>
  lists them in, and print the number of rows and of all bytes.
\<close>

theorem exported_rows_are_read:
  assumes "disk_ok D H V" "disk_ring E H (max b 64) h V" "globs D V" "database_ok D B V Q" "places_ok L V out dir"
    and "out \<noteq> []" "idle (V fs) w" "\<forall>p \<in> fst ` set fs. \<not> shard_name dir p"
    and "option_or args ''--rows'' 32 = n" "0 < n" "option_or args ''--blob-kb'' 64 = kb" "0 \<le> kb" "kb * 1024 < 2 ^ 31"
    and "option_or args' ''--batch-size'' 16 = int b" "0 < b" "0 < option_or args' ''--workers'' 8"
  shows "\<exists>w1 w2 w3. export_main D L B out args w = Some (Inr (path_join dir ''blobs.db'', n, dir), w1)
    \<and> idle (V (rev (row_files dir (new_rows n (row_blob kb))) @ fs)) w1
    \<and> sqlite_main_after D E H dir args' w1 = Some (Inr (nat n, n * (kb * 1024)), w2)
    \<and> sqlite_main_before D H dir args' w1 = (Inr (nat n, n * (kb * 1024)), w3)"
proof -
  let ?ws = "row_files dir (new_rows n (row_blob kb))"
  obtain w1 where 1: "export_main D L B out args w = Some (Inr (path_join dir ''blobs.db'', n, dir), w1)" "idle (V (rev ?ws @ fs)) w1"
    using export_main_run [OF assms(5,6,4,7,9,11)] by blast
  have "\<forall>p \<in> set (map fst ?ws). shard_name dir p" unfolding row_names by (auto simp: row_path_name)
  then have listed: "distinct (di_shards D dir w1)" "set (di_shards D dir w1) = set (map fst ?ws)"
    using assms(3,8) 1(2) unfolding globs_def by auto
  have "distinct (map fst ?ws)" unfolding row_names by (auto simp: distinct_map intro: inj_onI dest: row_path_inj)
  then have count: "length (di_shards D dir w1) = nat n"
    using listed distinct_card [of "map fst ?ws"] distinct_card [of "di_shards D dir w1"]
    by (simp add: row_files_def new_rows_def)
  have stored: "\<forall>p \<in> set (di_shards D dir w1). length (stored (rev ?ws @ fs) p) = nat (kb * 1024)"
    unfolding listed(2) by (auto simp: stored_rows row_blob_def)
  have here: "set (di_shards D dir w1) \<subseteq> fst ` set (rev ?ws @ fs)" "di_shards D dir w1 \<noteq> []"
    using listed(2) count assms(10) by auto
  have small: "nat (kb * 1024) < 2 ^ 31" using assms(13) by simp
  have bytes: "int (nat n * nat (kb * 1024)) = n * (kb * 1024)" using assms(10,12) by simp
  note programs = sqlite_mains_run [OF assms(1,2) 1(2) here stored small assms(14-16)]
  show ?thesis using 1 programs unfolding count bytes by blast
qed

definition dw_database :: "disk_world database" where
  "dw_database = \<lparr>
     db_connect = (\<lambda>p w. (Inr (), w\<lparr>dw_cursor := []\<rparr>)), db_create_table = py_return (),
     db_delete = (\<lambda>w. (Inr (), w\<lparr>dw_rows := []\<rparr>)), db_insert = (\<lambda>new w. (Inr (), w\<lparr>dw_rows := dw_rows w @ new\<rparr>)),
     db_commit = py_return (), db_select = (\<lambda>w. (Inr (), w\<lparr>dw_cursor := sort_key fst (dw_rows w)\<rparr>)),
     db_fetch = (\<lambda>w. (Inr (if dw_cursor w = [] then None else Some (hd (dw_cursor w))), w\<lparr>dw_cursor := tl (dw_cursor w)\<rparr>)),
     db_close = py_return () \<rparr>"

definition dw_places :: "disk_world places" where
  "dw_places = \<lparr>pl_abspath = (\<lambda>p w. ''/'' @ p), pl_dirname = (\<lambda>p. ''/''), pl_makedirs = (\<lambda>p. py_return ())\<rparr>"

lemma dw_database_ok:
  "database_ok dw_disk dw_database dw_sight
     (\<lambda>fs rows cur w. idle (dw_sight fs) w \<and> dw_rows w = rows \<and> dw_cursor w = cur)"
  by (auto simp: database_ok_def dw_database_def dw_disk_def dw_sight_def idle_def py_return_def)

lemma dw_globs: "globs dw_disk dw_sight"
  by (auto simp: globs_def dw_disk_def dw_sight_def idle_def)

lemma dw_places_ok: "places_ok dw_places dw_sight out (''/'' @ out)"
  by (simp add: places_ok_def dw_places_def py_return_def)

lemma exported_rows_are_read_witness:
  "\<exists>w1 w2 w3. export_main dw_disk dw_places dw_database ''d'' [''--rows'' \<mapsto> 3, ''--blob-kb'' \<mapsto> 2] (dw_start [])
      = Some (Inr (''/d/blobs.db'', 3, ''/d''), w1)
    \<and> sqlite_main_after dw_disk dw_env dw_host ''/d'' Map.empty w1 = Some (Inr (3, 6144), w2)
    \<and> sqlite_main_before dw_disk dw_host ''/d'' Map.empty w1 = (Inr (3, 6144), w3)"
  using exported_rows_are_read [OF dw_disk_ok dw_ring dw_globs dw_database_ok dw_places_ok _ dw_start_idle [of "[]"],
      of 16 "''d''" "[''--rows'' \<mapsto> 3, ''--blob-kb'' \<mapsto> 2]" 3 2 Map.empty]
  by (auto simp: option_or_def path_join_def)

subsection \<open>The download\<close>

text \<open>
  What is still to come of the body, how many more chunks the iterator yields, and what has been
  written to the open file.
\<close>

record 'w fetch_view =
  fv_ok :: "'w \<Rightarrow> bool"
  fv_rest :: "'w \<Rightarrow> int list"
  fv_left :: "'w \<Rightarrow> nat"
  fv_out :: "'w \<Rightarrow> int list"

text \<open>
  \<open>read\<close> returns some of what is to come, and nothing only at the end; the iterator yields
  finitely many chunks, which may be empty.
\<close>

definition server_ok :: "'w http \<Rightarrow> 'w outfile \<Rightarrow> 'w fetch_view \<Rightarrow> string \<Rightarrow> int list \<Rightarrow> bool" where
  "server_ok T F S url body \<longleftrightarrow> (\<forall>w. fv_ok S w \<longrightarrow>
     (\<exists>w'. ht_request T url w = (Inr (), w') \<and> fv_ok S w' \<and> fv_rest S w' = body \<and> ht_status T w' < 400)
   \<and> (ht_status T w < 400 \<longrightarrow> (\<exists>w'. ht_raise_for_status T w = (Inr (), w') \<and> fv_ok S w' \<and> fv_rest S w' = fv_rest S w))
   \<and> (\<exists>n w'. ht_content_length T w = (Inr n, w') \<and> fv_ok S w' \<and> fv_rest S w' = fv_rest S w)
   \<and> (\<forall>n > 0. \<exists>c w'. ht_read T n w = (Inr c, w') \<and> fv_ok S w' \<and> fv_rest S w = c @ fv_rest S w' \<and> fv_out S w' = fv_out S w
        \<and> (c = [] \<longrightarrow> fv_rest S w = []))
   \<and> (\<forall>n > 0. \<exists>c w'. ht_iter_content T n w = (Inr c, w') \<and> fv_ok S w' \<and> fv_out S w' = fv_out S w
        \<and> (case c of None \<Rightarrow> fv_rest S w = [] \<and> fv_rest S w' = []
           | Some c \<Rightarrow> fv_rest S w = c @ fv_rest S w' \<and> fv_left S w' < fv_left S w))
   \<and> (\<exists>w'. ht_release T w = (Inr (), w') \<and> fv_ok S w' \<and> fv_out S w' = fv_out S w)
   \<and> (\<forall>p. \<exists>w'. of_open F p w = (Inr (), w') \<and> fv_ok S w' \<and> fv_rest S w' = fv_rest S w \<and> fv_out S w' = [])
   \<and> (\<forall>c. \<exists>w'. of_write F c w = (Inr (), w') \<and> fv_ok S w' \<and> fv_rest S w' = fv_rest S w \<and> fv_left S w' = fv_left S w
        \<and> fv_out S w' = fv_out S w @ c)
   \<and> (\<exists>w'. of_close F w = (Inr (), w') \<and> fv_ok S w' \<and> fv_out S w' = fv_out S w))"

lemma server_laws:
  assumes "server_ok T F S url body" "fv_ok S w"
  shows "\<exists>w'. ht_request T url w = (Inr (), w') \<and> fv_ok S w' \<and> fv_rest S w' = body \<and> ht_status T w' < 400"
    and "ht_status T w < 400 \<Longrightarrow> \<exists>w'. ht_raise_for_status T w = (Inr (), w') \<and> fv_ok S w' \<and> fv_rest S w' = fv_rest S w"
    and "\<exists>n w'. ht_content_length T w = (Inr n, w') \<and> fv_ok S w' \<and> fv_rest S w' = fv_rest S w"
    and "0 < n \<Longrightarrow> \<exists>c w'. ht_read T n w = (Inr c, w') \<and> fv_ok S w' \<and> fv_rest S w = c @ fv_rest S w' \<and> fv_out S w' = fv_out S w
        \<and> (c = [] \<longrightarrow> fv_rest S w = [])"
    and "0 < n \<Longrightarrow> \<exists>c w'. ht_iter_content T n w = (Inr c, w') \<and> fv_ok S w' \<and> fv_out S w' = fv_out S w
        \<and> (case c of None \<Rightarrow> fv_rest S w = [] \<and> fv_rest S w' = []
           | Some c \<Rightarrow> fv_rest S w = c @ fv_rest S w' \<and> fv_left S w' < fv_left S w)"
    and "\<exists>w'. ht_release T w = (Inr (), w') \<and> fv_ok S w' \<and> fv_out S w' = fv_out S w"
    and "\<exists>w'. of_open F p w = (Inr (), w') \<and> fv_ok S w' \<and> fv_rest S w' = fv_rest S w \<and> fv_out S w' = []"
    and "\<exists>w'. of_write F c w = (Inr (), w') \<and> fv_ok S w' \<and> fv_rest S w' = fv_rest S w \<and> fv_left S w' = fv_left S w
        \<and> fv_out S w' = fv_out S w @ c"
    and "\<exists>w'. of_close F w = (Inr (), w') \<and> fv_ok S w' \<and> fv_out S w' = fv_out S w"
  using assms unfolding server_ok_def by blast+

lemma read_all:
  assumes T: "server_ok T F S url body"
  shows "fv_ok S w \<Longrightarrow> \<exists>w'. take_all (py_map (\<lambda>chunk. if chunk = [] then None else Some chunk) (ht_read T chunk_bytes)) (of_write F) w
    = Some (Inr (), w') \<and> fv_ok S w' \<and> fv_out S w' = fv_out S w @ fv_rest S w"
proof (induction "length (fv_rest S w)" arbitrary: w rule: less_induct)
  case less
  obtain c w1 where c: "ht_read T chunk_bytes w = (Inr c, w1)" "fv_ok S w1" "fv_rest S w = c @ fv_rest S w1" "fv_out S w1 = fv_out S w"
      "c = [] \<longrightarrow> fv_rest S w = []" using server_laws(4) [OF T less.prems, of chunk_bytes] by auto
  show ?case
  proof (cases "c = []")
    case True
    then show ?thesis using c by (subst take_all.simps) (simp add: py_map_def py_bind_eq py_return_def)
  next
    case False
    obtain w2 where d: "of_write F c w1 = (Inr (), w2)" "fv_ok S w2" "fv_rest S w2 = fv_rest S w1" "fv_out S w2 = fv_out S w1 @ c"
      using server_laws(8) [OF T c(2), of c] by blast
    have "length (fv_rest S w2) < length (fv_rest S w)" using c(3) d(3) False by simp
    from less.hyps [OF this d(2)] show ?thesis
      using c d False by (subst take_all.simps) (simp add: py_map_def py_bind_eq py_return_def)
  qed
qed

lemma iter_all:
  assumes T: "server_ok T F S url body"
  shows "fv_ok S w \<Longrightarrow> \<exists>w'. take_all (ht_iter_content T chunk_bytes) (\<lambda>chunk. if chunk \<noteq> [] then of_write F chunk else py_return ()) w
    = Some (Inr (), w') \<and> fv_ok S w' \<and> fv_out S w' = fv_out S w @ fv_rest S w"
proof (induction "fv_left S w" arbitrary: w rule: less_induct)
  case less
  obtain r w1 where r: "ht_iter_content T chunk_bytes w = (Inr r, w1)" "fv_ok S w1" "fv_out S w1 = fv_out S w"
      "case r of None \<Rightarrow> fv_rest S w = [] \<and> fv_rest S w1 = []
       | Some c \<Rightarrow> fv_rest S w = c @ fv_rest S w1 \<and> fv_left S w1 < fv_left S w"
    using server_laws(5) [OF T less.prems, of chunk_bytes] by auto
  show ?case
  proof (cases r)
    case None
    then show ?thesis using r by (subst take_all.simps) simp
  next
    case (Some c)
    obtain w2 where d: "(if c \<noteq> [] then of_write F c else py_return ()) w1 = (Inr (), w2)" "fv_ok S w2"
        "fv_rest S w2 = fv_rest S w1" "fv_left S w2 = fv_left S w1" "fv_out S w2 = fv_out S w1 @ c"
      using server_laws(8) [OF T r(2), of c] r(2) by (cases "c = []") (auto simp: py_return_def)
    have "fv_left S w2 < fv_left S w" using r(4) d(4) Some by simp
    from less.hyps [OF this d(2)] show ?thesis
      using r d Some by (subst take_all.simps) simp
  qed
qed

lemma with_file_run:
  assumes T: "server_ok T F S url body" and w: "fv_ok S w"
    and body: "\<And>w. fv_ok S w \<Longrightarrow> fv_out S w = [] \<Longrightarrow> fv_rest S w = rest
      \<Longrightarrow> \<exists>w'. m w = Some (Inr (), w') \<and> fv_ok S w' \<and> P (fv_out S w')"
    and rest: "fv_rest S w = rest"
  shows "\<exists>w'. with_file F path m w = Some (Inr (), w') \<and> fv_ok S w' \<and> P (fv_out S w')"
proof -
  obtain w1 where 1: "of_open F path w = (Inr (), w1)" "fv_ok S w1" "fv_rest S w1 = fv_rest S w" "fv_out S w1 = []"
    using server_laws(7) [OF T w] by blast
  obtain w2 where 2: "m w1 = Some (Inr (), w2)" "fv_ok S w2" "P (fv_out S w2)" using body [OF 1(2,4)] 1(3) rest by auto
  obtain w3 where "of_close F w2 = (Inr (), w3)" "fv_ok S w3" "fv_out S w3 = fv_out S w2" using server_laws(9) [OF T 2(2)] by blast
  then show ?thesis using 1(1) 2(1,3) by (simp add: with_file_def loop_bind_def run_py_def loop_finally_def py_finally_def)
qed

lemma requests_run:
  assumes T: "server_ok T F S url body" and w: "fv_ok S w"
  shows "\<exists>w'. download_requests T F url path w = Some (Inr (), w') \<and> fv_ok S w' \<and> fv_out S w' = body"
proof -
  obtain w1 where 1: "ht_request T url w = (Inr (), w1)" "fv_ok S w1" "fv_rest S w1 = body" "ht_status T w1 < 400"
    using server_laws(1) [OF T w] by blast
  obtain w2 where 2: "ht_raise_for_status T w1 = (Inr (), w2)" "fv_ok S w2" "fv_rest S w2 = body"
    using server_laws(2) [OF T 1(2,4)] 1(3) by auto
  obtain n w3 where 3: "ht_content_length T w2 = (Inr n, w3)" "fv_ok S w3" "fv_rest S w3 = body"
    using server_laws(3) [OF T 2(2)] 2(3) by auto
  have copy: "\<exists>w'. take_all (ht_iter_content T chunk_bytes) (\<lambda>chunk. if chunk \<noteq> [] then of_write F chunk else py_return ()) w
      = Some (Inr (), w') \<and> fv_ok S w' \<and> fv_out S w' = body" if "fv_ok S w" "fv_out S w = []" "fv_rest S w = body" for w
    using iter_all [OF T that(1)] that(2,3) by simp
  obtain w4 where 4: "with_file F path (take_all (ht_iter_content T chunk_bytes)
      (\<lambda>chunk. if chunk \<noteq> [] then of_write F chunk else py_return ())) w3 = Some (Inr (), w4)" "fv_ok S w4" "fv_out S w4 = body"
    using with_file_run [where P = "\<lambda>x. x = body" and path = path
      and m = "take_all (ht_iter_content T chunk_bytes) (\<lambda>chunk. if chunk \<noteq> [] then of_write F chunk else py_return ())",
      OF T 3(2) copy 3(3)] by blast
  obtain w5 where "ht_release T w4 = (Inr (), w5)" "fv_ok S w5" "fv_out S w5 = fv_out S w4" using server_laws(6) [OF T 4(2)] by blast
  then show ?thesis using 1(1) 2(1) 3(1) 4(1,3)
    by (simp add: download_requests_def loop_bind_def run_py_def loop_finally_def py_finally_def py_bind_eq)
qed

lemma urllib3_run:
  assumes T: "server_ok T F S url body" and w: "fv_ok S w"
  shows "\<exists>w'. download_urllib3 T F url path w = Some (Inr (), w') \<and> fv_ok S w' \<and> fv_out S w' = body"
proof -
  obtain w1 where 1: "ht_request T url w = (Inr (), w1)" "fv_ok S w1" "fv_rest S w1 = body" "ht_status T w1 < 400"
    using server_laws(1) [OF T w] by blast
  obtain n w3 where 3: "ht_content_length T w1 = (Inr n, w3)" "fv_ok S w3" "fv_rest S w3 = body"
    using server_laws(3) [OF T 1(2)] 1(3) by auto
  have copy: "\<exists>w'. take_all (py_map (\<lambda>chunk. if chunk = [] then None else Some chunk) (ht_read T chunk_bytes)) (of_write F) w
      = Some (Inr (), w') \<and> fv_ok S w' \<and> fv_out S w' = body" if "fv_ok S w" "fv_out S w = []" "fv_rest S w = body" for w
    using read_all [OF T that(1)] that(2,3) by simp
  obtain w4 where 4: "with_file F path (take_all (py_map (\<lambda>chunk. if chunk = [] then None else Some chunk)
      (ht_read T chunk_bytes)) (of_write F)) w3 = Some (Inr (), w4)" "fv_ok S w4" "fv_out S w4 = body"
    using with_file_run [where P = "\<lambda>x. x = body" and path = path
      and m = "take_all (py_map (\<lambda>chunk. if chunk = [] then None else Some chunk) (ht_read T chunk_bytes)) (of_write F)",
      OF T 3(2) copy 3(3)] by blast
  obtain w5 where "ht_release T w4 = (Inr (), w5)" "fv_ok S w5" "fv_out S w5 = fv_out S w4" using server_laws(6) [OF T 4(2)] by blast
  then show ?thesis using 1(1,4) 3(1) 4(1,3)
    by (simp add: download_urllib3_def loop_bind_def run_py_def loop_finally_def py_finally_def)
qed

text \<open>
  Both downloads write the body.  From a server that answers, the loops end and the file
  has exactly the bytes of the body, however they are cut into chunks; \<open>requests\<close> may
  yield empty chunks, \<open>urllib3\<close> ends at the first one.  When the status is an error, the
  \<open>urllib3\<close> download raises without having touched the file.
\<close>

theorem downloads_write_the_body:
  assumes "server_ok T F S url body" "fv_ok S w"
  shows "(\<exists>w1. download_requests T F url path w = Some (Inr (), w1) \<and> fv_ok S w1 \<and> fv_out S w1 = body)
    \<and> (\<exists>w2. download_urllib3 T F url path w = Some (Inr (), w2) \<and> fv_ok S w2 \<and> fv_out S w2 = body)
    \<and> (\<forall>T' w'. ht_request T' url w = (Inr (), w') \<longrightarrow> 400 \<le> ht_status T' w'
        \<longrightarrow> (\<exists>e. download_urllib3 T' F url path w = Some (Inl (RuntimeError e), w')))"
  using requests_run [OF assms] urllib3_run [OF assms]
  by (auto simp: download_urllib3_def loop_bind_def run_py_def)

text \<open>A server that sends two bytes at a time to the one, and an empty chunk first to the other.\<close>

record net_world =
  nw_rest :: "int list"
  nw_empty :: nat
  nw_out :: "int list"

definition nw_http :: "net_world http" where
  "nw_http = \<lparr>
     ht_request = (\<lambda>url w. (Inr (), w\<lparr>nw_rest := [1, 2, 3, 4, 5], nw_empty := 1\<rparr>)), ht_raise_for_status = py_return (),
     ht_status = (\<lambda>w. 200), ht_content_length = py_return 5,
     ht_iter_content = (\<lambda>n w. if nw_rest w = [] then (Inr None, w)
        else if 0 < nw_empty w then (Inr (Some []), w\<lparr>nw_empty := nw_empty w - 1\<rparr>)
        else (Inr (Some (take n (nw_rest w))), w\<lparr>nw_rest := drop n (nw_rest w)\<rparr>)),
     ht_read = (\<lambda>n w. (Inr (take (min n 2) (nw_rest w)), w\<lparr>nw_rest := drop (min n 2) (nw_rest w)\<rparr>)),
     ht_release = py_return () \<rparr>"

definition nw_file :: "net_world outfile" where
  "nw_file = \<lparr>of_open = (\<lambda>p w. (Inr (), w\<lparr>nw_out := []\<rparr>)), of_write = (\<lambda>c w. (Inr (), w\<lparr>nw_out := nw_out w @ c\<rparr>)),
     of_close = py_return ()\<rparr>"

definition nw_view :: "net_world fetch_view" where
  "nw_view = \<lparr>fv_ok = (\<lambda>w. True), fv_rest = nw_rest, fv_left = (\<lambda>w. nw_empty w + length (nw_rest w)), fv_out = nw_out\<rparr>"

lemma nw_server_ok: "server_ok nw_http nw_file nw_view ''u'' [1, 2, 3, 4, 5]"
  by (auto simp: server_ok_def nw_http_def nw_file_def nw_view_def py_return_def)

lemma downloads_write_the_body_witness:
  "(\<exists>w1. download_requests nw_http nw_file ''u'' ''f'' \<lparr>nw_rest = [], nw_empty = 0, nw_out = [9]\<rparr> = Some (Inr (), w1)
      \<and> nw_out w1 = [1, 2, 3, 4, 5])
    \<and> (\<exists>w2. download_urllib3 nw_http nw_file ''u'' ''f'' \<lparr>nw_rest = [], nw_empty = 0, nw_out = [9]\<rparr> = Some (Inr (), w2)
      \<and> nw_out w2 = [1, 2, 3, 4, 5])"
  using downloads_write_the_body [OF nw_server_ok, of "\<lparr>nw_rest = [], nw_empty = 0, nw_out = [9]\<rparr>" "''f''"]
  by (simp add: nw_view_def)

end
