(* ===== verification/Block_Read.thy ===== *)
theory Block_Read
  imports Loader_Ring
begin

unbundle bit_operations_syntax

text \<open>
  The coroutines of the asyncio and the FastAPI example, which read one file in blocks of 64 KiB: they
  return the bytes of the file in whatever order the blocks complete; and two of them on one
  ring get in each other's way.
\<close>

subsection \<open>Submitting the blocks\<close>

definition block_len :: "nat \<Rightarrow> nat \<Rightarrow> nat \<Rightarrow> nat" where
  "block_len sz block j = min block (sz - j * block)"

lemma submit_blocks_ok:
  assumes R: "reader_ok R V room file P" and block: "block < 2 ^ 31" and sz: "length d < 2 ^ 63"
  shows "si_ok V s \<Longrightarrow> si_fd V s fd = Some d \<Longrightarrow> dom (si_live V s) \<subseteq> int ` {..<i} \<Longrightarrow> i + k \<le> room
    \<Longrightarrow> i + k < 2 ^ 63 \<Longrightarrow> \<forall>j < i + k. j * block < length d
    \<Longrightarrow> \<exists>bufs s'. submit_blocks R fd (length d) block i k s = (Inr bufs, s') \<and> si_ok V s' \<and> length bufs = k
      \<and> distinct (map b_id bufs) \<and> (\<forall>b \<in> set bufs. b_id b \<notin> si_ids V s) \<and> b_id ` set bufs \<subseteq> si_ids V s'
      \<and> si_ids V s \<subseteq> si_ids V s'
      \<and> (\<forall>ud. si_live V s' ud = (if int i \<le> ud \<and> ud < int (i + k)
          then Some (b_id (bufs ! (nat ud - i)), block_len (length d) block (nat ud), drop (nat ud * block) d)
          else si_live V s ud))"
proof (induction k arbitrary: i s)
  case 0
  then show ?case by (auto simp: py_return_def)
next
  case (Suc k)
  have laws: "makes R V" "reads R V room" using R by (auto simp: reader_ok_def)
  define n where "n = block_len (length d) block i"
  obtain b s1 where make: "rd_bytearray R n s = (Inr b, s1)" "si_ok V s1" "b_kind b = Bytearray" "pybuf_ok b"
    "b_len b = n" "b_id b \<notin> si_ids V s" "si_ids V s1 = insert (b_id b) (si_ids V s)"
    "si_live V s1 = si_live V s" "si_fd V s1 = si_fd V s"
    using laws(1) Suc.prems(1) unfolding makes_def by metis
  have n: "b_len b < 2 ^ 31" using make(5) block by (simp add: n_def block_len_def)
  have fd: "si_fd V s1 fd = Some d" and id: "b_id b \<in> si_ids V s1" using make Suc.prems(2) by auto
  have dom: "dom (si_live V s1) \<subseteq> int ` {..<i}" using Suc.prems(3) make(8) by simp
  have few: "finite (dom (si_live V s1))" "card (dom (si_live V s1)) < room"
  proof -
    show "finite (dom (si_live V s1))" using dom finite_subset by blast
    have "card (dom (si_live V s1)) \<le> card (int ` {..<i})" using dom by (intro card_mono) auto
    also have "\<dots> = i" by (simp add: card_image)
    finally show "card (dom (si_live V s1)) < room" using Suc.prems(4) by simp
  qed
  have "int i \<notin> int ` {..<i}" by auto
  then have free: "si_live V s1 (int i) = None" using dom by (meson domIff subsetD)
  have "i * block < length d" using Suc.prems(6) by simp
  then have "i * block < 2 ^ 63" using sz by linarith
  then have "int (i * block) < int (2 ^ 63)" by (simp only: of_nat_less_iff)
  then have off: "0 \<le> int (i * block)" "int (i * block) < 2 ^ 63" by simp_all
  have tag: "0 \<le> int i" "int i < 2 ^ 63" using Suc.prems(5) by simp_all
  obtain r s2 where read: "rd_read R fd b (int (i * block)) (int i) s1 = (Inr r, s2)" "si_ok V s2"
    "si_fd V s2 = si_fd V s1" "si_ids V s2 = si_ids V s1"
    "si_live V s2 = (si_live V s1)(int i \<mapsto> (b_id b, b_len b, drop (i * block) d))"
    using read_law [OF laws(2) make(2) fd make(3,4) id n off tag free few] unfolding nat_int by blast
  have dom2: "dom (si_live V s2) \<subseteq> int ` {..<Suc i}" using dom read(5) by auto
  have fd2: "si_fd V s2 fd = Some d" using fd read(3) by simp
  have bounds: "Suc i + k \<le> room" "Suc i + k < 2 ^ 63" "\<forall>j < Suc i + k. j * block < length d" using Suc.prems(4-6) by simp_all
  obtain bufs s' where rest: "submit_blocks R fd (length d) block (Suc i) k s2 = (Inr bufs, s')" "si_ok V s'" "length bufs = k"
      "distinct (map b_id bufs)" "\<forall>b \<in> set bufs. b_id b \<notin> si_ids V s2" "b_id ` set bufs \<subseteq> si_ids V s'"
      "si_ids V s2 \<subseteq> si_ids V s'"
      "\<forall>ud. si_live V s' ud = (if int (Suc i) \<le> ud \<and> ud < int (Suc i + k)
          then Some (b_id (bufs ! (nat ud - Suc i)), block_len (length d) block (nat ud), drop (nat ud * block) d)
          else si_live V s2 ud)"
    using Suc.IH [OF read(2) fd2 dom2 bounds] by blast
  have run: "submit_blocks R fd (length d) block i (Suc k) s = (Inr (b # bufs), s')"
    using make(1) read(1) rest(1) by (simp add: py_map_def py_bind_eq py_return_def n_def block_len_def)
  have live: "si_live V s' ud = (if int i \<le> ud \<and> ud < int (i + Suc k)
      then Some (b_id ((b # bufs) ! (nat ud - i)), block_len (length d) block (nat ud), drop (nat ud * block) d)
      else si_live V s ud)" for ud
  proof (cases "ud = int i")
    case True
    then show ?thesis using rest(8) read(5) make(5) by (simp add: n_def)
  next
    case False
    show ?thesis
    proof (cases "int (Suc i) \<le> ud \<and> ud < int (Suc i + k)")
      case True
      then have "nat ud - i = Suc (nat ud - Suc i)" by linarith
      then show ?thesis using rest(8) True by simp
    next
      case out: False
      then show ?thesis using False rest(8) read(5) make(8) by auto
    qed
  qed
  have "b_id b \<notin> b_id ` set bufs" using rest(5) read(4) make(7) by auto
  moreover have "b_id b \<in> si_ids V s'" "si_ids V s \<subseteq> si_ids V s'" using rest(7) read(4) make(7) by auto
  moreover have "\<forall>x \<in> set bufs. b_id x \<notin> si_ids V s" using rest(5) read(4) make(7) by auto
  ultimately show ?case using run rest(2-4,6) live make(6) by (intro exI [of _ "b # bufs"] exI [of _ s']) simp
qed

subsection \<open>Waiting for them\<close>

text \<open>The blocks \<open>j\<close> outside \<open>T\<close> have been read: their buffers hold the parts.\<close>

definition gathered ::
  "'s reader \<Rightarrow> pybuf list \<Rightarrow> (nat \<Rightarrow> int list) \<Rightarrow> nat set \<Rightarrow> (int \<rightharpoonup> int) \<Rightarrow> 's \<Rightarrow> bool" where
  "gathered R bufs part T got s \<longleftrightarrow> (\<forall>j < length bufs. j \<notin> T \<longrightarrow> got (int j) = Some (int (length (part j)))
     \<and> take (length (part j)) (rd_bytes R (bufs ! j) s) = part j)"

lemma gather_blocks_ok:
  assumes R: "reader_ok R V room file P" and part: "\<And>j. j < length bufs \<Longrightarrow> part j = take (n j) (data j)"
    and ids: "distinct (map b_id bufs)"
  shows "si_ok V s \<Longrightarrow> T \<subseteq> {..<length bufs} \<Longrightarrow> b_id ` set bufs \<subseteq> si_ids V s \<Longrightarrow> gathered R bufs part T got s
    \<Longrightarrow> \<forall>ud. si_live V s ud = (if 0 \<le> ud \<and> nat ud \<in> T then Some (b_id (bufs ! nat ud), n (nat ud), data (nat ud)) else None)
    \<Longrightarrow> \<exists>got' s'. gather_blocks R what (card T) got s = (Inr got', s') \<and> gathered R bufs part {} got' s'
      \<and> si_ok V s' \<and> si_live V s' = Map.empty"
proof (induction "card T" arbitrary: T got s)
  case 0
  have "finite T" using 0 finite_subset by blast
  then have "T = {}" using 0 by simp
  then show ?case using 0 by (intro exI [of _ got] exI [of _ s]) (auto simp: py_return_def fun_eq_iff)
next
  case (Suc c)
  have fin: "finite T" using Suc.prems(2) finite_subset by blast
  obtain j0 where "j0 \<in> T" using Suc.hyps(2) by fastforce
  then have "si_live V s (int j0) \<noteq> None" using Suc.prems(5) by simp
  then have "si_live V s \<noteq> Map.empty" by auto
  moreover have "waits R V" using R by (simp add: reader_ok_def)
  ultimately obtain ud i m d s1 where wait: "si_live V s ud = Some (i, m, d)"
    "rd_wait R s = (Inr (ud, int (min m (length d))), s1)" "si_ok V s1" "si_ids V s1 = si_ids V s"
    "si_live V s1 = (si_live V s)(ud := None)" "untouched R V s s1"
    "\<forall>b. b_id b = i \<longrightarrow> take m (take (length d) (rd_bytes R b s1)) = take m d"
    using finished_read [of R V s] Suc.prems(1) by auto
  define j where "j = nat ud"
  have j: "0 \<le> ud" "ud = int j" "j \<in> T" "i = b_id (bufs ! j)" "m = n j" "d = data j"
    using wait(1) Suc.prems(5) by (auto simp: j_def split: if_splits)
  have jb: "j < length bufs" using j(3) Suc.prems(2) by auto
  have len: "min m (length d) = length (part j)" using part [OF jb] j(5,6) by simp
  have mine: "take (length (part j)) (rd_bytes R (bufs ! j) s1) = part j"
    using wait(7) j(4,5,6) part [OF jb] by (simp add: min.commute)
  have keep: "rd_bytes R (bufs ! l) s1 = rd_bytes R (bufs ! l) s" if l: "l < length bufs" "l \<notin> T" for l
  proof -
    have "fst x \<noteq> b_id (bufs ! l)" if live: "si_live V s ud' = Some x" for ud' x
    proof
      assume same: "fst x = b_id (bufs ! l)"
      have "nat ud' \<in> T" "fst x = b_id (bufs ! nat ud')" using live Suc.prems(5) by (auto split: if_splits)
      moreover have "nat ud' < length bufs" using calculation(1) Suc.prems(2) by auto
      ultimately have "nat ud' = l" using ids l(1) same by (metis length_map nth_eq_iff_index_eq nth_map)
      then show False using l(2) \<open>nat ud' \<in> T\<close> by simp
    qed
    moreover have "b_id (bufs ! l) \<in> si_ids V s" using Suc.prems(3) l(1) by auto
    ultimately show ?thesis using wait(6) unfolding untouched_def by blast
  qed
  define got1 where "got1 = got(ud \<mapsto> int (length (part j)))"
  have gath: "gathered R bufs part (T - {j}) got1 s1"
    using Suc.prems(4) keep mine j(2) by (auto simp: gathered_def got1_def)
  have c: "c = card (T - {j})" using Suc.hyps(2) j(3) fin by simp
  have live1: "\<forall>ud. si_live V s1 ud = (if 0 \<le> ud \<and> nat ud \<in> T - {j} then Some (b_id (bufs ! nat ud), n (nat ud), data (nat ud)) else None)"
    using Suc.prems(5) wait(5) j(1,2) by auto
  have sub: "T - {j} \<subseteq> {..<length bufs}" "b_id ` set bufs \<subseteq> si_ids V s1" using Suc.prems(2,3) wait(4) by auto
  obtain got' s' where rest: "gather_blocks R what (card (T - {j})) got1 s1 = (Inr got', s')"
      "gathered R bufs part {} got' s'" "si_ok V s'" "si_live V s' = Map.empty"
    using Suc.hyps(1) [OF c wait(3) sub gath live1] by blast
  have "gather_blocks R what (card T) got s = (Inr got', s')"
    using wait(2) rest(1) len c Suc.hyps(2) [symmetric] by (simp add: py_bind_eq got1_def)
  then show ?case using rest(2-4) by blast
qed

lemma join_parts_ok:
  assumes "\<forall>j < length bufs. got (int (i + j)) = Some (int (length (part (i + j))))
    \<and> take (length (part (i + j))) (rd_bytes R (bufs ! j) s) = part (i + j)"
  shows "join_parts R got i bufs s = (Inr (concat (map part [i..<i + length bufs])), s)"
  using assms
proof (induction bufs arbitrary: i)
  case (Cons b bufs)
  have "got (int i) = Some (int (length (part i)))" "take (length (part i)) (rd_bytes R b s) = part i"
    using Cons.prems [rule_format, of 0] by simp_all
  moreover have "join_parts R got (i + 1) bufs s = (Inr (concat (map part [i + 1..<i + 1 + length bufs])), s)"
    by (rule Cons.IH) (use Cons.prems [rule_format, of "Suc _"] in simp)
  moreover have "[i..<i + length (b # bufs)] = i # [i + 1..<i + 1 + length bufs]" by (simp add: upt_conv_Cons del: upt_Suc)
  ultimately show ?case by (simp add: py_map_def py_bind_eq py_return_def)
qed (simp add: py_return_def)

subsection \<open>The file\<close>

lemma blocks_are_the_file:
  "length d \<le> m * block \<Longrightarrow> concat (map (\<lambda>j. take (block_len (length d) block j) (drop (j * block) d)) [0..<m]) = d"
proof -
  have step: "concat (map (\<lambda>j. take (block_len (length d) block j) (drop (j * block) d)) [0..<m]) = take (m * block) d" for m
  proof (induction m)
    case (Suc m)
    have "take (block_len (length d) block m) (drop (m * block) d) = take block (drop (m * block) d)"
      by (simp add: block_len_def take_all min_def)
    then show ?case using Suc by (simp add: take_add [symmetric] add.commute)
  qed simp
  show "length d \<le> m * block \<Longrightarrow> ?thesis" by (simp add: step)
qed

lemma enough_blocks:
  fixes sz block m :: nat
  assumes "0 < sz" "block = min sz (64 * 1024)" "m = (sz + block - 1) div block"
  shows "sz \<le> m * block" "\<forall>j < m. j * block < sz" "m = (sz + 65535) div 65536"
proof -
  have pos: "0 < block" using assms(1,2) by simp
  have "sz + block - 1 = m * block + (sz + block - 1) mod block" using assms(3) by (simp add: mod_mult_div_eq [symmetric])
  moreover have "(sz + block - 1) mod block < block" using pos by simp
  ultimately have both: "sz \<le> m * block" "m * block \<le> sz + block - 1" using pos by linarith+
  show "sz \<le> m * block" by (rule both)
  show "\<forall>j < m. j * block < sz"
  proof (intro allI impI)
    fix j assume "j < m"
    then have "Suc j * block \<le> m * block" by (intro mult_le_mono1) simp
    then show "j * block < sz" using both(2) pos by simp
  qed
  show "m = (sz + 65535) div 65536"
  proof (cases "sz < 65536")
    case True
    then have "block = sz" using assms(2) by simp
    then have "m = 1" using assms(1,3) by (simp add: div_nat_eqI)
    moreover have "(sz + 65535) div 65536 = 1" using True assms(1) by (intro div_nat_eqI) auto
    ultimately show ?thesis by simp
  next
    case False
    then show ?thesis using assms(2,3) by simp
  qed
qed

theorem read_blocks_ok:
  assumes R: "reader_ok R V room file P" and p: "p \<in> P" and s: "si_ok V s" "si_live V s = Map.empty"
    and small: "length (file p) < 2 ^ 62" and fits: "(length (file p) + 65535) div 65536 \<le> room"
  shows "\<exists>s'. read_blocks R what p s = (Inr (file p), s') \<and> si_ok V s' \<and> si_live V s' = Map.empty"
proof -
  have laws: "opens R V file P" "closes R V" "sizes R V" "submits R V" using R by (auto simp: reader_ok_def)
  define d where "d = file p"
  obtain fd s1 where o: "rd_open R p s = (Inr fd, s1)" "same_sight R V s s1" "si_fd V s1 fd = Some d"
    using laws(1) p s(1) unfolding opens_def d_def by blast
  have s1: "si_ok V s1" "si_live V s1 = Map.empty" using o(2) s(2) by (auto simp: same_sight_def)
  obtain s2 where z: "rd_size R fd s1 = (Inr (length d), s2)" "same_sight R V s1 s2" "si_fd V s2 = si_fd V s1"
    using laws(3) s1(1) o(3) unfolding sizes_def by blast
  have s2: "si_ok V s2" "si_live V s2 = Map.empty" "si_fd V s2 fd = Some d" using z(2,3) s1(2) o(3) by (auto simp: same_sight_def)
  have closing: "\<exists>s'. rd_close R fd t = (Inr (), s') \<and> si_ok V s' \<and> si_live V s' = si_live V t" if "si_ok V t" for t
    using laws(2) that unfolding closes_def same_sight_def by blast
  show ?thesis
  proof (cases "d = []")
    case True
    obtain s3 where "rd_close R fd s2 = (Inr (), s3)" "si_ok V s3" "si_live V s3 = Map.empty" using closing [OF s2(1)] s2(2) by auto
    then show ?thesis using o(1) z(1) True by (simp add: read_blocks_def py_finally_def py_bind_eq py_return_def d_def)
  next
    case False
    define block where "block = min (length d) (64 * 1024)"
    define m where "m = (length d + block - 1) div block"
    have nonempty: "0 < length d" using False by simp
    note blocks = enough_blocks [OF nonempty block_def m_def]
    define part where "part j = take (block_len (length d) block j) (drop (j * block) d)" for j
    have m: "0 + m \<le> room" "0 + m < 2 ^ 63" "\<forall>j < 0 + m. j * block < length d"
      using blocks(2,3) fits small by (simp_all add: d_def)
    have wide: "block < 2 ^ 31" "length d < 2 ^ 63" using small by (simp_all add: block_def d_def)
    have "dom (si_live V s2) \<subseteq> int ` {..<0}" using s2(2) by simp
    from submit_blocks_ok [OF R wide s2(1,3) this m]
    obtain bufs s3 where sub: "submit_blocks R fd (length d) block 0 m s2 = (Inr bufs, s3)" "si_ok V s3" "length bufs = m"
        "distinct (map b_id bufs)" "b_id ` set bufs \<subseteq> si_ids V s3"
        "\<forall>ud. si_live V s3 ud = (if int 0 \<le> ud \<and> ud < int (0 + m)
          then Some (b_id (bufs ! (nat ud - 0)), block_len (length d) block (nat ud), drop (nat ud * block) d)
          else si_live V s2 ud)" by blast
    obtain r s4 where go: "rd_submit R s3 = (Inr r, s4)" "si_ok V s4" "si_live V s4 = si_live V s3" "si_ids V s4 = si_ids V s3"
      using laws(4) sub(2) unfolding submits_def same_sight_def by blast
    have live: "\<forall>ud. si_live V s4 ud = (if 0 \<le> ud \<and> nat ud \<in> {..<m}
        then Some (b_id (bufs ! nat ud), block_len (length d) block (nat ud), drop (nat ud * block) d) else None)"
      using sub(6) go(3) s2(2) by auto
    have start: "gathered R bufs part {..<m} Map.empty s4" "{..<m} \<subseteq> {..<length bufs}" "b_id ` set bufs \<subseteq> si_ids V s4"
      using sub(3,5) go(4) by (simp_all add: gathered_def)
    obtain got s5 where got: "gather_blocks R what m Map.empty s4 = (Inr got, s5)" "gathered R bufs part {} got s5"
        "si_ok V s5" "si_live V s5 = Map.empty"
      using gather_blocks_ok [OF R part_def sub(4) go(2) start(2,3,1) live, of what] by auto
    have "join_parts R got 0 bufs s5 = (Inr (concat (map part [0..<0 + length bufs])), s5)"
      by (rule join_parts_ok) (use got(2) in \<open>simp add: gathered_def\<close>)
    then have join: "join_parts R got 0 bufs s5 = (Inr d, s5)"
      using blocks_are_the_file [OF blocks(1)] sub(3) by (simp add: part_def [abs_def])
    obtain s6 where cl: "rd_close R fd s5 = (Inr (), s6)" "si_ok V s6" "si_live V s6 = Map.empty" using closing [OF got(3)] got(4) by auto
    show ?thesis using o(1) z(1) nonempty sub(1) go(1) got(1) join cl unfolding m_def block_def d_def [symmetric]
      by (simp add: read_blocks_def py_finally_def py_bind_eq Let_def)
  qed
qed

subsection \<open>In a coroutine\<close>

definition aio_pair :: "'w aio \<Rightarrow> uctx \<times> 'w" where
  "aio_pair s = (as_ctx s, as_world s)"

definition aio_sight :: "(uctx \<times> 'w) sight \<Rightarrow> 'w aio sight" where
  "aio_sight V = \<lparr>si_ok = si_ok V \<circ> aio_pair, si_live = si_live V \<circ> aio_pair, si_fd = si_fd V \<circ> aio_pair,
     si_ids = si_ids V \<circ> aio_pair\<rparr>"

lemma aio_sight_sel [simp]:
  "si_ok (aio_sight V) s = si_ok V (aio_pair s)" "si_live (aio_sight V) s = si_live V (aio_pair s)"
  "si_fd (aio_sight V) s = si_fd V (aio_pair s)" "si_ids (aio_sight V) s = si_ids V (aio_pair s)"
  by (simp_all add: aio_sight_def)

lemma aio_reader_sel [simp]:
  "rd_size (aio_reader A H aw) fd = on_ctx (rd_size (ring_reader (ae_env A) H) fd)"
  "rd_open (aio_reader A H aw) p = on_ctx (rd_open (ring_reader (ae_env A) H) p)"
  "rd_close (aio_reader A H aw) fd = on_ctx (rd_close (ring_reader (ae_env A) H) fd)"
  "rd_bytearray (aio_reader A H aw) n = on_ctx (rd_bytearray (ring_reader (ae_env A) H) n)"
  "rd_bytes (aio_reader A H aw) b s = rd_bytes (ring_reader (ae_env A) H) b (aio_pair s)"
  "rd_read (aio_reader A H aw) fd b off ud = on_ctx (rd_read (ring_reader (ae_env A) H) fd b off ud)"
  "rd_submit (aio_reader A H aw) = on_ctx (rd_submit (ring_reader (ae_env A) H))"
  "rd_wait (aio_reader A H aw) = aw"
  by (simp_all add: aio_reader_def ring_reader_def aio_pair_def)

lemma on_ctx_run: "m (aio_pair s) = (r, t) \<Longrightarrow> \<exists>s'. on_ctx m s = (r, s') \<and> aio_pair s' = t"
  by (cases t) (simp add: on_ctx_def aio_pair_def)

lemma untouched_aio [simp]:
  "untouched (aio_reader A H aw) (aio_sight V) s s' = untouched (ring_reader (ae_env A) H) V (aio_pair s) (aio_pair s')"
  by (simp add: untouched_def)

lemma same_sight_aio [simp]:
  "same_sight (aio_reader A H aw) (aio_sight V) s s' = same_sight (ring_reader (ae_env A) H) V (aio_pair s) (aio_pair s')"
  by (simp add: same_sight_def)

lemma aio_opens: "opens (ring_reader (ae_env A) H) V file P \<Longrightarrow> opens (aio_reader A H aw) (aio_sight V) file P"
  unfolding opens_def aio_reader_sel aio_sight_sel same_sight_aio by (metis on_ctx_run)

lemma aio_closes: "closes (ring_reader (ae_env A) H) V \<Longrightarrow> closes (aio_reader A H aw) (aio_sight V)"
  unfolding closes_def aio_reader_sel aio_sight_sel same_sight_aio by (metis on_ctx_run)

lemma aio_sizes: "sizes (ring_reader (ae_env A) H) V \<Longrightarrow> sizes (aio_reader A H aw) (aio_sight V)"
  unfolding sizes_def aio_reader_sel aio_sight_sel same_sight_aio by (metis on_ctx_run)

lemma aio_submits: "submits (ring_reader (ae_env A) H) V \<Longrightarrow> submits (aio_reader A H aw) (aio_sight V)"
  unfolding submits_def aio_reader_sel aio_sight_sel same_sight_aio by (metis on_ctx_run)

lemma aio_makes:
  assumes "makes (ring_reader (ae_env A) H) V"
  shows "makes (aio_reader A H aw) (aio_sight V)"
  unfolding makes_def aio_reader_sel aio_sight_sel untouched_aio
proof (intro allI impI)
  fix n and s :: "'a aio"
  assume ok: "si_ok V (aio_pair s)"
  obtain b t where run: "rd_bytearray (ring_reader (ae_env A) H) n (aio_pair s) = (Inr b, t)" and t: "si_ok V t"
     "b_kind b = Bytearray" "pybuf_ok b" "b_len b = n" "b_id b \<notin> si_ids V (aio_pair s)"
     "si_ids V t = insert (b_id b) (si_ids V (aio_pair s))" "si_live V t = si_live V (aio_pair s)"
     "si_fd V t = si_fd V (aio_pair s)" "untouched (ring_reader (ae_env A) H) V (aio_pair s) t"
    using assms [unfolded makes_def, rule_format, OF ok, of n] by blast
  obtain s' where "on_ctx (rd_bytearray (ring_reader (ae_env A) H) n) s = (Inr b, s')" "aio_pair s' = t"
    using on_ctx_run [where m = "rd_bytearray (ring_reader (ae_env A) H) n", OF run] by blast
  then show "\<exists>b s'. on_ctx (rd_bytearray (ring_reader (ae_env A) H) n) s = (Inr b, s') \<and> si_ok V (aio_pair s')
     \<and> b_kind b = Bytearray \<and> pybuf_ok b \<and> b_len b = n \<and> b_id b \<notin> si_ids V (aio_pair s)
     \<and> si_ids V (aio_pair s') = insert (b_id b) (si_ids V (aio_pair s))
     \<and> si_live V (aio_pair s') = si_live V (aio_pair s) \<and> si_fd V (aio_pair s') = si_fd V (aio_pair s)
     \<and> untouched (ring_reader (ae_env A) H) V (aio_pair s) (aio_pair s')"
    using t by (intro exI [of _ b] exI [of _ s']) simp
qed

lemma aio_reads:
  assumes "reads (ring_reader (ae_env A) H) V room"
  shows "reads (aio_reader A H aw) (aio_sight V) room"
  unfolding reads_def aio_reader_sel aio_sight_sel untouched_aio
proof (intro allI impI)
  fix fd off ud :: int and d and b :: pybuf and s :: "'a aio"
  assume "si_ok V (aio_pair s)" "si_fd V (aio_pair s) fd = Some d" "b_kind b = Bytearray" "pybuf_ok b"
    "b_id b \<in> si_ids V (aio_pair s)" "b_len b < 2 ^ 31" "0 \<le> off" "off < 2 ^ 63" "0 \<le> ud" "ud < 2 ^ 63"
    "si_live V (aio_pair s) ud = None" "finite (dom (si_live V (aio_pair s)))" "card (dom (si_live V (aio_pair s))) < room"
  from read_law [OF assms this] obtain r t where
      run: "rd_read (ring_reader (ae_env A) H) fd b off ud (aio_pair s) = (Inr r, t)" and t: "si_ok V t"
      "si_fd V t = si_fd V (aio_pair s)" "si_ids V t = si_ids V (aio_pair s)"
      "si_live V t = (si_live V (aio_pair s))(ud \<mapsto> (b_id b, b_len b, drop (nat off) d))"
      "untouched (ring_reader (ae_env A) H) V (aio_pair s) t" by blast
  obtain s' where "on_ctx (rd_read (ring_reader (ae_env A) H) fd b off ud) s = (Inr r, s')" "aio_pair s' = t"
    using on_ctx_run [where m = "rd_read (ring_reader (ae_env A) H) fd b off ud", OF run] by blast
  then show "\<exists>r s'. on_ctx (rd_read (ring_reader (ae_env A) H) fd b off ud) s = (Inr r, s') \<and> si_ok V (aio_pair s')
      \<and> si_fd V (aio_pair s') = si_fd V (aio_pair s) \<and> si_ids V (aio_pair s') = si_ids V (aio_pair s)
      \<and> si_live V (aio_pair s') = (si_live V (aio_pair s))(ud \<mapsto> (b_id b, b_len b, drop (nat off) d))
      \<and> untouched (ring_reader (ae_env A) H) V (aio_pair s) (aio_pair s')"
    using t by (intro exI [of _ r] exI [of _ s']) simp
qed

lemma aio_waits:
  assumes "waits (ring_reader (ae_env A) H) V"
  shows "waits (aio_reader A H (on_ctx (UringCtx_wait_completion (ae_env A)))) (aio_sight V)"
  unfolding waits_def aio_reader_sel aio_sight_sel untouched_aio
proof (intro allI impI)
  fix s :: "'a aio"
  assume "si_ok V (aio_pair s)" "si_live V (aio_pair s) \<noteq> Map.empty"
  from finished_read [OF assms this] obtain ud i n d t where live: "si_live V (aio_pair s) ud = Some (i, n, d)"
     and run: "UringCtx_wait_completion (ae_env A) (aio_pair s) = (Inr (ud, int (min n (length d))), t)"
     and t: "si_ok V t" "si_ids V t = si_ids V (aio_pair s)" "si_live V t = (si_live V (aio_pair s))(ud := None)"
     "untouched (ring_reader (ae_env A) H) V (aio_pair s) t"
     "\<forall>b. b_id b = i \<longrightarrow> take n (take (length d) (rd_bytes (ring_reader (ae_env A) H) b t)) = take n d"
    unfolding ring_reader_sel by blast
  obtain s' where "on_ctx (UringCtx_wait_completion (ae_env A)) s = (Inr (ud, int (min n (length d))), s')" "aio_pair s' = t"
    using on_ctx_run [where m = "UringCtx_wait_completion (ae_env A)", OF run] by blast
  then show "\<exists>ud i n d s'. si_live V (aio_pair s) ud = Some (i, n, d)
     \<and> on_ctx (UringCtx_wait_completion (ae_env A)) s = (Inr (ud, int (min n (length d))), s') \<and> si_ok V (aio_pair s')
     \<and> si_ids V (aio_pair s') = si_ids V (aio_pair s) \<and> si_live V (aio_pair s') = (si_live V (aio_pair s))(ud := None)
     \<and> untouched (ring_reader (ae_env A) H) V (aio_pair s) (aio_pair s')
     \<and> (\<forall>b. b_id b = i \<longrightarrow> take n (take (length d) (rd_bytes (ring_reader (ae_env A) H) b (aio_pair s'))) = take n d)"
    using live t by (intro exI [of _ ud] exI [of _ i] exI [of _ n] exI [of _ d] exI [of _ s']) simp
qed

lemma aio_reader_ok:
  "reader_ok (kernel_reader (ae_env A) H h) V room file P \<Longrightarrow> waits (aio_reader A H aw) (aio_sight (ring_sight (ae_env A) h V))
    \<Longrightarrow> reader_ok (aio_reader A H aw) (aio_sight (ring_sight (ae_env A) h V)) room file P"
  unfolding reader_ok_def
  by (intro conjI aio_opens aio_closes aio_sizes aio_makes aio_reads aio_submits ring_opens ring_closes ring_sizes
      ring_makes ring_reads ring_submits) simp_all

text \<open>
  C21: The coroutines return the file.  The asyncio coroutine and the FastAPI endpoint's read every block of
  a file and return its bytes in order, in whatever order the blocks complete; the endpoint reports their number.
\<close>

theorem coroutines_return_the_file:
  assumes "reader_ok (kernel_reader (ae_env A) H h) V room file P"
    and "waits (aio_reader A H awaits) (aio_sight (ring_sight (ae_env A) h V))"
    and "p \<in> P" "length (file p) < 2 ^ 62" "(length (file p) + 65535) div 65536 \<le> room"
    and "si_ok (ring_sight (ae_env A) h V) (as_ctx s, as_world s)"
    and "si_live (ring_sight (ae_env A) h V) (as_ctx s, as_world s) = Map.empty"
  shows "(\<exists>s'. read_file_via_uring A H awaits p s = (Inr (file p), s') \<and> u_async_io_keepalive (as_ctx s') = Map.empty)
    \<and> (\<exists>s'. read_payload A H awaits p s = (Inr (''UringAsync'', length (file p)), s')
        \<and> u_async_io_keepalive (as_ctx s') = Map.empty)"
proof -
  let ?V = "aio_sight (ring_sight (ae_env A) h V)"
  have ok: "reader_ok (aio_reader A H awaits) ?V room file P" by (rule aio_reader_ok [OF assms(1,2)])
  have "si_ok ?V s" "si_live ?V s = Map.empty" using assms(6,7) by (simp_all add: aio_pair_def)
  note run = read_blocks_ok [OF ok assms(3) this assms(4,5)]
  have pinned: "u_async_io_keepalive (as_ctx s') = Map.empty" if "si_ok ?V s'" "si_live ?V s' = Map.empty" for s'
    using that by (simp add: aio_pair_def ring_ok_def dom_eq_empty_conv)
  then show ?thesis using run [of "''read_file_via_uring''"] run [of "''read_payload''"]
    by (auto simp: read_file_via_uring_def read_payload_def read_file_uring_def py_map_def py_bind_eq py_return_def)
qed

definition stack_aio :: "stack_world aio_env" where
  "stack_aio = \<lparr>ae_env = stack_env, ae_add_reader = (\<lambda>_. None)\<rparr>"

definition aio_start :: "(int \<rightharpoonup> keep) \<Rightarrow> stack_world aio" where
  "aio_start pinned = \<lparr>as_self = \<lparr>a_waiters = [], a_reader_active = False, a_loop = None, a_closed = False\<rparr>,
     as_ctx = \<lparr>u_ctx = Some 4096, u_owner_thread_id = Some 1, u_buffer_keepalive = [], u_async_io_keepalive = pinned\<rparr>,
     as_world = empty_stack, as_futs = Map.empty, as_readers = {}\<rparr>"

abbreviation "stack_awaits \<equiv> on_ctx (UringCtx_wait_completion stack_env)"

lemma coroutines_return_the_file_witness:
  "\<exists>s'. read_file_via_uring stack_aio stack_host stack_awaits ''a'' (aio_start Map.empty) = (Inr [1, 2, 3], s')"
proof -
  have env: "ae_env stack_aio = stack_env" by (simp add: stack_aio_def)
  have kernel: "reader_ok (kernel_reader (ae_env stack_aio) stack_host 4096) stack_sight 1 two_files {''a'', ''b''}"
    unfolding env by (rule stack_kernel_ok)
  then have wait: "waits (aio_reader stack_aio stack_host stack_awaits) (aio_sight (ring_sight (ae_env stack_aio) 4096 stack_sight))"
    using aio_waits [of stack_aio stack_host "ring_sight stack_env 4096 stack_sight"]
    by (simp add: env reader_ok_def ring_waits)
  have start: "si_ok (ring_sight (ae_env stack_aio) 4096 stack_sight) (as_ctx (aio_start Map.empty), as_world (aio_start Map.empty))"
    "si_live (ring_sight (ae_env stack_aio) 4096 stack_sight) (as_ctx (aio_start Map.empty), as_world (aio_start Map.empty)) = Map.empty"
    using empty_stack_ok by (simp_all add: aio_start_def ring_ok_def usable_def tags_fit_def env stack_env_def)
  from coroutines_return_the_file [OF kernel wait _ _ _ start, of "''a''"] show ?thesis by (auto simp: two_files_def)
qed

subsection \<open>Two requests at a time\<close>

text \<open>
  C34: A second request on the endpoint's ring fails while a first is waiting.  Both number their blocks from
  0, so the first \<open>read_async\<close> of the second finds its tag in use and raises \<open>ValueError\<close>; the
  file is closed with this read in flight, and the buffer of the read is not kept.
\<close>

theorem second_request_fails:
  assumes "usable (ae_env A) (as_ctx s)" "u_ctx (as_ctx s) = Some h" "0 < h" "h < 2 ^ 64"
    and "u_async_io_keepalive (as_ctx s) 0 = Some first"
    and "kernel_open H p (as_world s) = (Inr fd, w1)" "ho_fstat_size H fd w1 = (Inr n, w2)" "0 < n"
    and "ho_bytearray H (min n (64 * 1024)) w2 = (b, w3)" "b_kind b = Bytearray" "pybuf_ok b" "b_len b < 2 ^ 31"
    and "kernel_read (ae_env A) h fd b 0 0 w3 = (Inr r, w4)" "ho_close H fd w4 = (Inr (), w5)"
  shows "read_file_uring A H awaits p s = (Inl (ValueError (tag_in_use 0)), s\<lparr>as_world := w5\<rparr>)"
proof -
  let ?self = "as_ctx s"
  have fd: "ho_open H p (as_world s) = (Inr fd, w1)" "0 \<le> fd" "fd < 2 ^ 31"
    using assms(6) by (auto simp: kernel_open_def split: prod.splits sum.splits if_splits)
  obtain rep where nat: "native (ae_env A) ''uring_read_async'' [CInt h, CInt fd, CMem (Shared (b_id b) (b_len b)),
      CInt (int (b_len b)), CInt 0, CInt 0] w3 = (rep, w4)" "0 \<le> rp_ret rep" "rp_ret rep < 2 ^ 63"
    using assms(13) by (auto simp: kernel_read_def split: prod.splits if_splits)
  have width: "signed_take_bit 31 fd = fd" "take_bit 32 (int (b_len b)) = int (b_len b)"
    "signed_take_bit 63 (rp_ret rep) = rp_ret rep"
    using fd(2,3) assms(12) nat(2,3) by (simp_all add: signed_take_bit_int_eq_self take_bit_int_eq_self)
  have read: "UringCtx_read_async (ae_env A) fd (Buf b) 0 0 (?self, w3) = (Inl (ValueError (tag_in_use 0)), (?self, w4))"
    using assms(1,2,5,10,11) nat width ring_handle [OF assms(3,4)]
    by (simp add: UringCtx_read_async_def with_buffer_def from_buffer_def pybuf_ok_def submit_rw_def
        sync_call_info_def ring_call_eq invoke_native_def uring_read_async_def convert_ret_def
        raise_for_neg_errno_def UringCtx_track_async_io_buffer_def py_defs)
  define m where "m = (n + min n (64 * 1024) - 1) div min n (64 * 1024)"
  obtain k where m: "m = Suc k"
  proof -
    have "0 < min n (64 * 1024)" "min n (64 * 1024) \<le> n + min n (64 * 1024) - 1" using assms(8) by simp_all
    then have "0 < m" unfolding m_def by (simp add: div_greater_zero_iff)
    then show ?thesis using that by (cases m) auto
  qed
  let ?R = "aio_reader A H awaits"
  have "submit_blocks ?R fd n (min n (64 * 1024)) 0 m (s\<lparr>as_world := w2\<rparr>)
      = (Inl (ValueError (tag_in_use 0)), s\<lparr>as_world := w4\<rparr>)"
    using read assms(9) by (simp add: m aio_reader_def py_bind_eq on_ctx_def world_new_def on_world_def)
  then show ?thesis
    using fd(1) assms(7,8,14) unfolding m_def
    by (simp add: read_file_uring_def read_blocks_def aio_reader_def py_finally_def py_bind_eq on_ctx_def on_world_def
        Let_def)
qed

lemma second_request_fails_witness:
  "\<exists>s'. read_file_uring stack_aio stack_host stack_awaits ''a'' (aio_start [0 \<mapsto> KObj 9])
      = (Inl (ValueError (tag_in_use 0)), s')
    \<and> st_live (as_world s') = [(0, 0, 3, [1, 2, 3])] \<and> u_async_io_keepalive (as_ctx s') = [0 \<mapsto> KObj 9]"
proof -
  let ?s = "aio_start [0 \<mapsto> KObj 9]"
  let ?b = "\<lparr>b_kind = Bytearray, b_id = 0, b_len = 3, b_nbytes = 3, b_readonly = False, b_contiguous = True\<rparr>"
  let ?w3 = "\<lparr>st_live = [], st_bytes = (\<lambda>_. [])(0 := [0, 0, 0]), st_next = 1\<rparr>"
  let ?w4 = "?w3\<lparr>st_live := [(0, 0, 3, [1, 2, 3])]\<rparr>"
  have run: "kernel_open stack_host ''a'' (as_world ?s) = (Inr 3, empty_stack)"
    "ho_fstat_size stack_host 3 empty_stack = (Inr 3, empty_stack)"
    "ho_bytearray stack_host (min 3 (64 * 1024)) empty_stack = (?b, ?w3)"
    "kernel_read (ae_env stack_aio) 4096 3 ?b 0 0 ?w3 = (Inr 0, ?w4)" "ho_close stack_host 3 ?w4 = (Inr (), ?w4)"
    by (simp_all add: stack_defs stack_aio_def aio_start_def empty_stack_def stack_contents_def two_files_def
        numeral_3_eq_3)
  have self: "usable (ae_env stack_aio) (as_ctx ?s)" "u_ctx (as_ctx ?s) = Some 4096"
    "u_async_io_keepalive (as_ctx ?s) 0 = Some (KObj 9)"
    by (simp_all add: stack_aio_def stack_env_def aio_start_def usable_def)
  have b: "b_kind ?b = Bytearray" "pybuf_ok ?b" "b_len ?b < 2 ^ 31" by (simp_all add: pybuf_ok_def)
  have pos: "(0 :: int) < 4096" "(4096 :: int) < 2 ^ 64" "(0 :: nat) < 3" by simp_all
  from second_request_fails [OF self(1,2) pos(1,2) self(3) run(1,2) pos(3) run(3) b run(4,5), of stack_awaits]
  show ?thesis by (simp add: aio_start_def)
qed

end
