(* ===== verification/Coroutine_Props.thy ===== *)
theory Coroutine_Props
  imports Programs_Props Block_Read
begin

text \<open>
  The asyncio programs end to end: the temporary file, the ring and the \<open>UringAsync\<close> of the batched
  program live exactly as long as it runs.
\<close>

text \<open>
  A temporary file is new; its removal leaves the other files.  Asking a ring for its descriptor changes
  nothing.
\<close>

definition temps_ok :: "'w disk \<Rightarrow> (files \<Rightarrow> 'w sight) \<Rightarrow> bool" where
  "temps_ok D V \<longleftrightarrow> (\<forall>fs w. idle (V fs) w \<longrightarrow>
     (\<forall>c. \<exists>p w'. di_named_temp D c w = (Inr p, w') \<and> p \<notin> fst ` set fs \<and> idle (V ((p, c) # fs)) w')
   \<and> (\<forall>p. \<exists>w'. di_unlink D p w = (Inr (), w') \<and> idle (V (filter (\<lambda>f. fst f \<noteq> p) fs)) w'))"

definition ring_fd_harmless :: "'w env \<Rightarrow> int \<Rightarrow> 'w sight \<Rightarrow> bool" where
  "ring_fd_harmless E h V \<longleftrightarrow> (\<forall>w. si_ok V w \<longrightarrow> (\<exists>rep w'. native E ''uring_ring_fd'' [CInt h] w = (rep, w')
     \<and> si_ok V w' \<and> si_live V w' = si_live V w))"

lemma temp_laws:
  assumes "temps_ok D V" "idle (V fs) w"
  shows "\<exists>p w'. di_named_temp D c w = (Inr p, w') \<and> p \<notin> fst ` set fs \<and> idle (V ((p, c) # fs)) w'"
    and "\<exists>w'. di_unlink D p w = (Inr (), w') \<and> idle (V (filter (\<lambda>f. fst f \<noteq> p) fs)) w'"
  using assms unfolding temps_ok_def by blast+

lemma ring_fd_run:
  assumes fd: "ring_fd_harmless (ae_env A) h V" and ok: "ring_ok (ae_env A) h V (as_ctx s) (as_world s)"
  shows "\<exists>r w'. UringAsync_ring_fd A s = (r, s\<lparr>as_world := w'\<rparr>) \<and> (\<forall>e. r = Inl e \<longrightarrow> remove_reader_catches e)
    \<and> si_ok V w' \<and> si_live V w' = si_live V (as_world s)"
proof -
  have h: "usable (ae_env A) (as_ctx s)" "u_ctx (as_ctx s) = Some h" "0 < h" "h < 2 ^ 64" "si_ok V (as_world s)"
    using ok by (simp_all add: ring_ok_def)
  obtain rep w' where nat: "native (ae_env A) ''uring_ring_fd'' [CInt h] (as_world s) = (rep, w')" "si_ok V w'"
      "si_live V w' = si_live V (as_world s)" using fd h(5) unfolding ring_fd_harmless_def by blast
  then show ?thesis using h
    by (auto simp: UringAsync_ring_fd_def on_ctx_def UringCtx_ring_fd_def sync_int_def sync_call_eq invoke_native_def
        uring_ring_fd_def take_bit_int_eq_self raise_for_neg_errno_def py_defs split: sum.splits if_splits)
qed

lemma aio_close_run:
  assumes fd: "ring_fd_harmless (ae_env A) h V" and ok: "ring_ok (ae_env A) h V (as_ctx s) (as_world s)"
  shows "\<exists>s'. UringAsync_close A s = (Inr (), s') \<and> as_ctx s' = as_ctx s \<and> si_ok V (as_world s')
    \<and> si_live V (as_world s') = si_live V (as_world s)"
proof -
  let ?s = "s\<lparr>as_self := (as_self s)\<lparr>a_closed := True\<rparr>\<rparr>"
  have "ring_ok (ae_env A) h V (as_ctx ?s) (as_world ?s)" using ok by simp
  from ring_fd_run [OF fd this] obtain r w' where
    run: "UringAsync_ring_fd A ?s = (r, ?s\<lparr>as_world := w'\<rparr>)" "\<forall>e. r = Inl e \<longrightarrow> remove_reader_catches e" "si_ok V w'"
      "si_live V w' = si_live V (as_world s)" by auto
  have "si_ok V (as_world s)" using ok by (simp add: ring_ok_def)
  then show ?thesis using run
    by (auto simp: UringAsync_close_def UringAsync_remove_reader_def py_bind_eq split: option.splits sum.splits)
qed

lemma teardown_run:
  assumes host: "ring_host (ae_env A) H n h (V fs) f P" and fd: "ring_fd_harmless (ae_env A) h (V fs)" and D: "temps_ok D V"
    and ok: "ring_ok (ae_env A) h (V fs) (as_ctx s) (as_world s)" "si_live (V fs) (as_world s) = Map.empty"
  shows "\<exists>s'. aio_teardown A (di_unlink D p) s = (Inr (), s') \<and> idle (V (filter (\<lambda>f. fst f \<noteq> p) fs)) (as_world s')"
proof -
  obtain s1 where 1: "UringAsync_close A s = (Inr (), s1)" "as_ctx s1 = as_ctx s" "si_ok (V fs) (as_world s1)"
      "si_live (V fs) (as_world s1) = Map.empty"
    using aio_close_run [OF fd ok(1)] ok(2) by auto
  have "si_ok (ring_sight (ae_env A) h (V fs)) (as_ctx s1, as_world s1)" using ok 1 by (simp add: ring_ok_def)
  from ring_exit_run [OF host this] obtain c w2 where
    2: "UringCtx_close (ae_env A) (as_ctx s1, as_world s1) = (Inr (), (c, w2))" "idle (V fs) w2"
    using 1(4) by (auto simp: idle_def)
  obtain w3 where "di_unlink D p w2 = (Inr (), w3)" "idle (V (filter (\<lambda>f. fst f \<noteq> p) fs)) w3" using temp_laws(2) [OF D 2(2)] by blast
  then show ?thesis using 1(1) 2(1) by (simp add: aio_teardown_def py_bind_eq on_ctx_def on_world_def)
qed

text \<open>A body that returns and leaves nothing in flight, between the start and the end of its ring.\<close>

lemma with_ring_async_run:
  assumes host: "ring_host (ae_env A) H n h (V fs) f P" and fd: "ring_fd_harmless (ae_env A) h (V fs)" and D: "temps_ok D V"
    and w: "idle (V fs) w"
    and body: "\<And>s. ring_ok (ae_env A) h (V fs) (as_ctx s) (as_world s) \<Longrightarrow> si_live (V fs) (as_world s) = Map.empty
      \<Longrightarrow> \<exists>s'. body s = (Inr x, s') \<and> ring_ok (ae_env A) h (V fs) (as_ctx s') (as_world s') \<and> si_live (V fs) (as_world s') = Map.empty"
  shows "\<exists>w'. with_ring_async A (int n) (py_finally body (aio_teardown A (di_unlink D p))) w = (Inr x, w')
    \<and> idle (V (filter (\<lambda>f. fst f \<noteq> p) fs)) w'"
proof -
  obtain self w1 where 1: "UringCtx_init (ae_env A) (int n) 0 (- 1) 0 True w = (Inr self, w1)" "ring_ok (ae_env A) h (V fs) self w1"
      "si_live (V fs) w1 = Map.empty"
    using ring_init_run [OF host w] by blast
  then have "truthy (u_ctx self)" by (auto simp: ring_ok_def truthy_def)
  then obtain ua where ua: "UringAsync_init self = Inr ua" by (simp add: UringAsync_init_def)
  obtain s2 where 2: "body (new_aio ua self w1) = (Inr x, s2)" "ring_ok (ae_env A) h (V fs) (as_ctx s2) (as_world s2)"
      "si_live (V fs) (as_world s2) = Map.empty"
    using body [of "new_aio ua self w1"] 1(2,3) by (auto simp: new_aio_def)
  obtain s3 where "aio_teardown A (di_unlink D p) s2 = (Inr (), s3)" "idle (V (filter (\<lambda>f. fst f \<noteq> p) fs)) (as_world s3)"
    using teardown_run [OF host fd D 2(2,3)] by blast
  then show ?thesis using 1(1) ua 2(1) by (simp add: with_ring_async_def py_bind_eq py_finally_def py_return_def)
qed

text \<open>
  C24: The asyncio program and the one it replaces agree.  Both write a temporary file, read it (in
  blocks through \<open>UringAsync\<close>, or in a thread) and report its 3000 bytes; the batched one then ends its
  \<open>UringAsync\<close>, destroys its ring and removes the file, and the disk is as it was.
\<close>

theorem asyncio_programs_agree:
  assumes "disk_ok D H V" "disk_ring (ae_env A) H 64 h V" "temps_ok D V" "\<forall>fs. ring_fd_harmless (ae_env A) h (V fs)"
    and "\<forall>fs. waits (aio_reader A H awaits) (aio_sight (ring_sight (ae_env A) h (V fs)))" "idle (V fs) w"
  shows "(\<exists>w1. asyncio_main_after D A H awaits w = (Inr 3000, w1) \<and> idle (V fs) w1)
    \<and> (\<exists>w2. asyncio_main_before D H w = (Inr 3000, w2) \<and> idle (V fs) w2)"
proof
  have kept: "filter (\<lambda>f. fst f \<noteq> p) ((p, c) # fs) = fs" if "p \<notin> fst ` set fs" for p c
    using that by (force simp: filter_id_conv)
  let ?text = "concat (replicate 100 (ascii_bytes ''hello from asyncio (io_uring)'' @ [10]))"
  obtain p w1 where 1: "di_named_temp D ?text w = (Inr p, w1)" "p \<notin> fst ` set fs" "idle (V ((p, ?text) # fs)) w1"
    using temp_laws(1) [OF assms(3,6)] by blast
  let ?fs = "(p, ?text) # fs"
  have host: "ring_host (ae_env A) H 64 h (V ?fs) (stored ?fs) (fst ` set ?fs)" using assms(2) unfolding disk_ring_def by blast
  then have "reader_ok (kernel_reader (ae_env A) H h) (V ?fs) 64 (stored ?fs) (fst ` set ?fs)" by (simp add: ring_host_def)
  from aio_reader_ok [OF this] assms(5)
  have ok: "reader_ok (aio_reader A H awaits) (aio_sight (ring_sight (ae_env A) h (V ?fs))) 64 (stored ?fs) (fst ` set ?fs)" by blast
  have bytes: "stored ?fs p = ?text" "length ?text = 3000"
    by (simp_all add: stored_def ascii_bytes_def length_concat sum_list_replicate)
  have body: "\<exists>s'. py_map length (read_file_via_uring A H awaits p) s = (Inr 3000, s')
      \<and> ring_ok (ae_env A) h (V ?fs) (as_ctx s') (as_world s') \<and> si_live (V ?fs) (as_world s') = Map.empty"
    if "ring_ok (ae_env A) h (V ?fs) (as_ctx s) (as_world s)" "si_live (V ?fs) (as_world s) = Map.empty" for s
    using read_blocks_ok [OF ok, of p s "''read_file_via_uring''"] that bytes
    by (auto simp: read_file_via_uring_def py_map_def py_bind_eq py_return_def aio_pair_def)
  have harmless: "ring_fd_harmless (ae_env A) h (V ?fs)" using assms(4) by blast
  obtain w2 where "with_ring_async A 64 (py_finally (py_map length (read_file_via_uring A H awaits p)) (aio_teardown A (di_unlink D p))) w1
      = (Inr 3000, w2)" "idle (V (filter (\<lambda>f. fst f \<noteq> p) ?fs)) w2"
    using with_ring_async_run [where p = p and body = "py_map length (read_file_via_uring A H awaits p)",
      OF host harmless assms(3) 1(3) body] by auto
  then show "\<exists>w1. asyncio_main_after D A H awaits w = (Inr 3000, w1) \<and> idle (V fs) w1"
    using 1(1) kept [OF 1(2)] unfolding asyncio_main_after_def by (simp only: py_bind_eq) simp
next
  let ?text = "concat (replicate 100 (ascii_bytes ''hello from asyncio (executor)'' @ [10]))"
  obtain p w1 where 1: "di_named_temp D ?text w = (Inr p, w1)" "p \<notin> fst ` set fs" "idle (V ((p, ?text) # fs)) w1"
    using temp_laws(1) [OF assms(3,6)] by blast
  obtain w2 where 2: "ho_read_file H p w1 = (Inr ?text, w2)" "idle (V ((p, ?text) # fs)) w2"
    using disk_laws(2) [OF assms(1) 1(3), of p] by (auto simp: stored_def)
  obtain w3 where "di_unlink D p w2 = (Inr (), w3)" "idle (V (filter (\<lambda>f. fst f \<noteq> p) ((p, ?text) # fs))) w3"
    using temp_laws(2) [OF assms(3) 2(2)] by blast
  moreover have "filter (\<lambda>f. fst f \<noteq> p) ((p, ?text) # fs) = fs" using 1(2) by (force simp: filter_id_conv)
  moreover have "length ?text = 3000" by (simp add: ascii_bytes_def length_concat sum_list_replicate)
  ultimately show "\<exists>w2. asyncio_main_before D H w = (Inr 3000, w2) \<and> idle (V fs) w2" using 1(1) 2(1)
    by (simp only: asyncio_main_before_def read_file_via_executor_def py_finally_def py_map_def py_bind_eq py_return_def) simp
qed

definition dw_aio :: "disk_world aio_env" where
  "dw_aio = \<lparr>ae_env = dw_env, ae_add_reader = (\<lambda>_. None)\<rparr>"

lemma dw_temps_ok: "temps_ok dw_disk dw_sight"
proof -
  have "new_dir fs \<notin> fst ` set fs" for fs
  proof
    assume "new_dir fs \<in> fst ` set fs"
    then have "length (new_dir fs) \<le> sum_list (map (\<lambda>f. length (fst f)) fs)"
      using member_le_sum_list [of "length (new_dir fs)" "map (\<lambda>f. length (fst f)) fs"] by force
    then show False by (simp add: new_dir_def)
  qed
  then show ?thesis by (auto simp: temps_ok_def idle_def dw_disk_def dw_sight_def)
qed

lemma dw_ring_fd: "ring_fd_harmless dw_env 4096 (dw_sight fs)"
  by (simp add: ring_fd_harmless_def dw_env_def dw_native_def)

lemma asyncio_programs_agree_witness:
  "(\<exists>w1. asyncio_main_after dw_disk dw_aio dw_host (on_ctx (UringCtx_wait_completion dw_env)) (dw_start [(''a'', [1])]) = (Inr 3000, w1)
      \<and> dw_files w1 = [(''a'', [1])])
    \<and> (\<exists>w2. asyncio_main_before dw_disk dw_host (dw_start [(''a'', [1])]) = (Inr 3000, w2) \<and> dw_files w2 = [(''a'', [1])])"
proof -
  have waits: "\<forall>fs. waits (aio_reader dw_aio dw_host (on_ctx (UringCtx_wait_completion dw_env)))
      (aio_sight (ring_sight (ae_env dw_aio) 4096 (dw_sight fs)))"
    using aio_waits [where A = dw_aio and H = dw_host] ring_waits [OF dw_waits] by (simp add: dw_aio_def)
  have ring: "disk_ring (ae_env dw_aio) dw_host 64 4096 dw_sight" "\<forall>fs. ring_fd_harmless (ae_env dw_aio) 4096 (dw_sight fs)"
    using dw_ring [of 64] dw_ring_fd by (simp_all add: dw_aio_def)
  show ?thesis
    using asyncio_programs_agree [OF dw_disk_ok ring(1) dw_temps_ok ring(2) waits dw_start_idle [of "[(''a'', [1])]"]]
    by (auto simp: idle_def dw_sight_def)
qed

end
