(* ===== verification/Build.thy ===== *)
theory Build
  imports Capabilities
begin

text \<open>
  \<open>src/setup.py\<close>: building the native library and putting it where \<open>native/library.py\<close> looks for
  it.  The state is what the files hold; running \<open>make\<close> is an argument that gives its exit status, or the
  exception of \<open>subprocess.run\<close> when it cannot be started, and the files afterwards.
\<close>

subsection \<open>The build commands\<close>

type_synonym tree = "string \<rightharpoonup> int list"

record builder =
  bu_make :: "tree \<Rightarrow> (exn + int) \<times> tree"
  bu_mkdir :: "string \<Rightarrow> tree \<Rightarrow> (exn + unit) \<times> tree"
  bu_super_build_ext :: "(tree, unit) py"
  bu_super_build_py :: "(tree, unit) py"

text \<open>
  \<open>subprocess.run(["make"], check=True)\<close> raises \<open>CalledProcessError\<close> for a non-zero status, which
  is turned into a \<open>RuntimeError\<close>; \<open>make\<close> may have changed files in either case.  When there is no
  \<open>make\<close> to run, its \<open>FileNotFoundError\<close> is not caught.
\<close>

definition build_failed :: string where
  "build_failed = ''Failed to build native library.'' @ newline
     @ ''Install system liburing headers (liburing-dev/liburing-devel), ''
     @ ''or initialize vendored liburing with:'' @ newline
     @ ''  git submodule update --init --recursive''"

(* setup.py:31-50 BuildNative.build_native_lib *)
definition build_native_lib :: "builder \<Rightarrow> string \<Rightarrow> (tree, unit) py" where
  "build_native_lib B project_root =
     py_bind (bu_mkdir B (project_root @ ''/build'')) (\<lambda>_ w.
       case bu_make B w of
         (Inl e, w) \<Rightarrow> (Inl e, w)
       | (Inr status, w) \<Rightarrow> (if status \<noteq> 0 then Inl (RuntimeError build_failed) else Inr (), w))"

text \<open>\<open>shutil.copy2\<close> of a file that exists.\<close>

definition copy2 :: "string \<Rightarrow> string \<Rightarrow> (tree, unit) py" where
  "copy2 src dst = (\<lambda>w. (Inr (), w(dst := w src)))"

(* setup.py:52-64 BuildNative.copy_library *)
definition copy_library :: "builder \<Rightarrow> string \<Rightarrow> (tree, unit) py" where
  "copy_library B project_root = (\<lambda>w.
     let src_lib = project_root @ ''/build/liburingwrap.so''
     in if w src_lib = None then (Inl (RuntimeError (''Library not found: '' @ src_lib)), w)
        else py_bind (bu_mkdir B (project_root @ ''/pyuring/lib''))
          (\<lambda>_. copy2 src_lib (project_root @ ''/pyuring/lib/liburingwrap.so'')) w)"

(* setup.py:24-29 BuildNative.run *)
definition BuildNative_run :: "builder \<Rightarrow> string \<Rightarrow> (tree, unit) py" where
  "BuildNative_run B project_root =
     py_bind (build_native_lib B project_root) (\<lambda>_.
     py_bind (copy_library B project_root) (\<lambda>_.
     bu_super_build_ext B))"

(* setup.py:70-75 BuildPyWithNative.run *)
definition BuildPyWithNative_run :: "builder \<Rightarrow> bool \<Rightarrow> string \<Rightarrow> (tree, unit) py" where
  "BuildPyWithNative_run B dry_run project_root =
     (if dry_run then bu_super_build_py B
      else py_bind (BuildNative_run B project_root) (\<lambda>_. bu_super_build_py B))"

text \<open>A wheel with a shared library in it is not pure.\<close>

(* setup.py:17-18 BinaryDistribution.has_ext_modules *)
definition has_ext_modules :: bool where
  "has_ext_modules = True"

(* setup.py:98-100 setup *)
definition packaged :: "(string \<times> string list) list" where
  "packaged = [(''pyuring'', [''lib/liburingwrap.so'', ''py.typed'', ''__init__.pyi''])]"

subsection \<open>The library is where it is looked for\<close>

text \<open>\<open>mkdir(exist_ok=True)\<close> succeeds and changes no file; so does what setuptools adds for no extension modules.\<close>

definition builder_ok :: "builder \<Rightarrow> bool" where
  "builder_ok B \<longleftrightarrow> (\<forall>d w. bu_mkdir B d w = (Inr (), w)) \<and> (\<forall>w. bu_super_build_ext B w = (Inr (), w))"

lemma build_outcome:
  assumes "builder_ok B" "bu_make B w = (run, made)"
  shows "BuildNative_run B project w =
    (if isl run then (Inl (projl run), made)
     else if projr run \<noteq> 0 then (Inl (RuntimeError build_failed), made)
     else if made (project @ ''/build/liburingwrap.so'') = None
       then (Inl (RuntimeError (''Library not found: '' @ project @ ''/build/liburingwrap.so'')), made)
     else (Inr (), made(project @ ''/pyuring/lib/liburingwrap.so'' := made (project @ ''/build/liburingwrap.so''))))"
  using assms by (simp add: BuildNative_run_def build_native_lib_def copy_library_def copy2_def builder_ok_def
      py_bind_eq Let_def split: sum.split)

text \<open>
  C39: A build puts the library where it is looked for.  When building succeeds, \<open>make\<close> has, and the library it
  built is what the search of \<open>native/library.py\<close> finds first, in the package; when \<open>make\<close> fails or
  leaves no library, building raises \<open>RuntimeError\<close>, and when \<open>make\<close> cannot be started the exception
  that says so; in all these cases nothing is put into the package.
\<close>

theorem built_library_is_found:
  assumes "builder_ok B" "bu_make B w = (run, made)"
  shows "(fst (BuildNative_run B project w) = Inr () \<longleftrightarrow> run = Inr 0 \<and> made (project @ ''/build/liburingwrap.so'') \<noteq> None)
    \<and> (fst (BuildNative_run B project w) = Inr () \<longrightarrow> (\<exists>p.
        find_library (\<lambda>p. snd (BuildNative_run B project w) p \<noteq> None) loads (project @ ''/pyuring'') project = Inr p
        \<and> snd (BuildNative_run B project w) p = made (project @ ''/build/liburingwrap.so'')))
    \<and> (\<forall>e. run = Inl e \<longrightarrow> fst (BuildNative_run B project w) = Inl e)
    \<and> (\<forall>status. run = Inr status \<longrightarrow> fst (BuildNative_run B project w) \<noteq> Inr ()
        \<longrightarrow> (\<exists>msg. fst (BuildNative_run B project w) = Inl (RuntimeError msg)))
    \<and> (fst (BuildNative_run B project w) \<noteq> Inr () \<longrightarrow> snd (BuildNative_run B project w) = made)"
  unfolding build_outcome [OF assms] by (cases run) (auto simp: find_library_def Let_def)

text \<open>A \<open>make\<close> that ends with a status, and one that is not installed.\<close>

definition simple_make :: "exn + int \<Rightarrow> builder" where
  "simple_make run = \<lparr>
     bu_make = (\<lambda>w. (run, if run = Inr 0 then w(''/src/build/liburingwrap.so'' \<mapsto> [1, 2]) else w)),
     bu_mkdir = (\<lambda>d w. (Inr (), w)), bu_super_build_ext = (\<lambda>w. (Inr (), w)), bu_super_build_py = (\<lambda>w. (Inr (), w)) \<rparr>"

lemma built_library_is_found_witness:
  "(\<exists>p. find_library (\<lambda>p. snd (BuildNative_run (simple_make (Inr 0)) ''/src'' Map.empty) p \<noteq> None) (\<lambda>_. False) ''/src/pyuring'' ''/src'' = Inr p
      \<and> snd (BuildNative_run (simple_make (Inr 0)) ''/src'' Map.empty) p = Some [1, 2])
   \<and> snd (BuildNative_run (simple_make (Inr 2)) ''/src'' Map.empty) = Map.empty
   \<and> fst (BuildNative_run (simple_make (Inl (OSError ENOENT))) ''/src'' Map.empty) = Inl (OSError ENOENT)"
proof -
  have ok: "builder_ok (simple_make run)" for run by (simp add: builder_ok_def simple_make_def)
  have made: "bu_make (simple_make (Inr 0)) Map.empty = (Inr 0, [''/src/build/liburingwrap.so'' \<mapsto> [1, 2]])"
    "bu_make (simple_make (Inr 2)) Map.empty = (Inr 2, Map.empty)"
    "bu_make (simple_make (Inl (OSError ENOENT))) Map.empty = (Inl (OSError ENOENT), Map.empty)"
    by (simp_all add: simple_make_def)
  from built_library_is_found [OF ok made(1), of "''/src''" "\<lambda>_. False"] built_library_is_found [OF ok made(2), of "''/src''"]
    built_library_is_found [OF ok made(3), of "''/src''"]
  show ?thesis by auto
qed

end
