(* ===== verification/Exports.thy ===== *)
theory Exports
  imports Uapi_Constants
begin

text \<open>
  The name spaces of the package: what \<open>pyuring/native/__init__.py\<close>, \<open>pyuring/_native.py\<close> and
  \<open>pyuring/__init__.py\<close> bind, statement by statement.  An object is known by the module and the name it
  was defined under.
\<close>

subsection \<open>Imports\<close>

datatype pyobj = Attr string string | Module string | Grouped "(string \<times> pyobj option) list" | Text string

type_synonym namespace = "string \<rightharpoonup> pyobj"

definition module_of :: "string \<Rightarrow> string list \<Rightarrow> namespace" where
  "module_of m names n = (if n \<in> set names then Some (Attr m n) else None)"

text \<open>
  \<open>from m import n1, n2, ...\<close>, where \<open>content\<close> is the name space of \<open>m\<close>; a name it lacks is an
  \<open>ImportError\<close>.  \<open>from m import *\<close>, where \<open>m\<close> has no \<open>__all__\<close>, binds every name that does not start with an
  underscore.  Importing a submodule also binds its name in the package, when it is loaded and not
  again.
\<close>

abbreviation "import_error \<equiv> OtherException 4"

fun from_import :: "namespace \<Rightarrow> string list \<Rightarrow> namespace \<Rightarrow> exn + namespace" where
  "from_import content [] ns = Inr ns"
| "from_import content (n # names) ns =
     (case content n of None \<Rightarrow> Inl import_error | Some x \<Rightarrow> from_import content names (ns(n \<mapsto> x)))"

definition is_public :: "string \<Rightarrow> bool" where
  "is_public n \<longleftrightarrow> (n = [] \<or> hd n \<noteq> CHR ''_'')"

definition import_star :: "namespace \<Rightarrow> namespace \<Rightarrow> namespace" where
  "import_star content ns n = (if is_public n \<and> content n \<noteq> None then content n else ns n)"

definition loaded :: "string \<Rightarrow> namespace \<Rightarrow> namespace" where
  "loaded m ns = ns(m \<mapsto> Module m)"

subsection \<open>The modules\<close>

text \<open>\<open>from ctypes import ...\<close> and \<open>from __future__ import annotations\<close> leave names in a module too.\<close>

definition constants_content :: namespace where
  "constants_content = (module_of ''constants'' (''UAPI_CONSTANT_NAMES'' # map fst module_constants))
     (''annotations'' \<mapsto> Attr ''__future__'' ''annotations'')"

definition structs_content :: namespace where
  "structs_content = (module_of ''structs'' [''KernelTimespec'', ''OpenHow'', ''EpollEvent'', ''FutexWaitv'', ''_IOVec''])
     (''annotations'' \<mapsto> Attr ''__future__'' ''annotations'', ''ctypes'' \<mapsto> Module ''ctypes'',
      ''c_void_p'' \<mapsto> Attr ''ctypes'' ''c_void_p'', ''c_size_t'' \<mapsto> Attr ''ctypes'' ''c_size_t'')"

definition c_api_content :: namespace where
  "c_api_content = module_of ''c_api'' [''copy_path'', ''BufferSizeCallback'', ''ProgressCallback'', ''copy_path_dynamic'',
     ''write_newfile'', ''write_newfile_dynamic'', ''write_manyfiles'']"

(* pyuring/native/__init__.py:11-26 pyuring.native *)
definition native_namespace :: "exn + namespace" where
  "native_namespace =
     (let start = [''annotations'' \<mapsto> Attr ''__future__'' ''annotations'']
      in sum_bind (from_import (module_of ''buffer_pool'' [''BufferPool'']) [''BufferPool'']
           (loaded ''buffer_pool'' (loaded ''library'' (loaded ''errors'' start)))) (\<lambda>ns.
         sum_bind (from_import c_api_content
           [''BufferSizeCallback'', ''copy_path'', ''copy_path_dynamic'', ''write_manyfiles'', ''write_newfile'',
            ''write_newfile_dynamic''] (loaded ''c_api'' ns)) (\<lambda>ns.
         sum_bind (from_import (module_of ''errors'' [''UringError'', ''_raise_for_neg_errno''])
           [''UringError'', ''_raise_for_neg_errno''] (import_star constants_content (loaded ''constants'' ns))) (\<lambda>ns.
         sum_bind (from_import structs_content [''_IOVec''] (import_star structs_content (loaded ''structs'' ns))) (\<lambda>ns.
         from_import (module_of ''uring_ctx'' [''UringCtx'']) [''UringCtx''] (loaded ''uring_ctx'' ns))))))"

(* pyuring/_native.py:8-10 pyuring._native *)
definition shim_namespace :: "exn + namespace" where
  "shim_namespace = sum_bind native_namespace (\<lambda>native.
     Inr (import_star native [''annotations'' \<mapsto> Attr ''__future__'' ''annotations'']))"

subsection \<open>The package\<close>

(* pyuring/__init__.py:8-22 pyuring *)
definition native_names :: "string list" where
  "native_names = [''BufferPool'', ''EpollEvent'', ''FutexWaitv'', ''OpenHow'', ''SIGINFO_T_SIZE'',
     ''UAPI_CONSTANT_NAMES'', ''UringCtx'', ''UringError'', ''copy_path'', ''copy_path_dynamic'',
     ''write_manyfiles'', ''write_newfile'', ''write_newfile_dynamic'']"

(* pyuring/__init__.py:23-42 pyuring *)
definition other_imports :: "(string \<times> namespace \<times> string list) list" where
  "other_imports = [
     (''_easy'', module_of ''_easy'' [''CopySyncPolicy'', ''WriteSyncPolicy'', ''ProgressFn'', ''copy'', ''write'', ''write_many''],
       [''CopySyncPolicy'', ''ProgressFn'', ''WriteSyncPolicy'', ''copy'', ''write'', ''write_many'']),
     (''aio'', module_of ''aio'' [''UringAsync'', ''sendfile_splice'', ''iter_multishot_accept'', ''wait_completion_in_executor''],
       [''UringAsync'', ''iter_multishot_accept'', ''sendfile_splice'', ''wait_completion_in_executor'']),
     (''async_file'', (module_of ''async_file'' [''AsyncFile'', ''open''])(''async_open'' \<mapsto> Attr ''async_file'' ''open''),
       [''AsyncFile'', ''async_open'', ''open'']),
     (''buffer_ring'', module_of ''buffer_ring'' [''BufferRing''], [''BufferRing'']),
     (''pool'', module_of ''pool'' [''UringPool''], [''UringPool'']),
     (''capabilities'', module_of ''capabilities'' [''IO_URING_KERNEL_DOC'', ''LIBURING_PROJECT'', ''IoUringProbeInfo'',
         ''get_probe_info'', ''opcode_supported'', ''require_opcode_supported''],
       [''IO_URING_KERNEL_DOC'', ''LIBURING_PROJECT'', ''IoUringProbeInfo'', ''get_probe_info'', ''opcode_supported'',
        ''require_opcode_supported'']),
     (''ring_presets'', Map.empty, [])]"

fun import_all :: "(string \<times> namespace \<times> string list) list \<Rightarrow> namespace \<Rightarrow> exn + namespace" where
  "import_all [] ns = Inr ns"
| "import_all ((m, content, names) # imports) ns =
     sum_bind (from_import content names (loaded m ns)) (import_all imports)"

text \<open>The loop that copies the constants; \<open>getattr\<close> raises for a name the module lacks.\<close>

(* pyuring/__init__.py:48-49 pyuring *)
fun copy_constants :: "namespace \<Rightarrow> string list \<Rightarrow> namespace \<Rightarrow> exn + namespace" where
  "copy_constants native [] ns = Inr ns"
| "copy_constants native (name # names) ns =
     (case native name of
        None \<Rightarrow> Inl (OtherException 5)
      | Some x \<Rightarrow> copy_constants native names ((ns(''_name'' \<mapsto> Text name))(name \<mapsto> x)))"

(* pyuring/__init__.py:59-68 direct *)
definition direct_attributes :: "string list" where
  "direct_attributes = [''UringError'', ''UringCtx'', ''BufferPool'', ''copy_path'', ''copy_path_dynamic'', ''write_newfile'',
     ''write_newfile_dynamic'', ''write_manyfiles'', ''UringAsync'']"

definition direct_object :: "namespace \<Rightarrow> pyobj" where
  "direct_object ns = Grouped (map (\<lambda>n. (n, ns n)) direct_attributes)"

(* pyuring/__init__.py:74-112 __all__ *)
definition listed_names :: "string list" where
  "listed_names = [
     ''copy'', ''write'', ''write_many'', ''CopySyncPolicy'', ''WriteSyncPolicy'', ''ProgressFn'',
     ''direct'', ''raw'', ''UAPI_CONSTANT_NAMES'', ''EpollEvent'', ''FutexWaitv'', ''OpenHow'',
     ''SIGINFO_T_SIZE'', ''UringError'', ''UringCtx'', ''BufferPool'', ''copy_path'',
     ''copy_path_dynamic'', ''write_newfile'', ''write_newfile_dynamic'', ''write_manyfiles'',
     ''UringAsync'', ''sendfile_splice'', ''iter_multishot_accept'', ''wait_completion_in_executor'',
     ''BufferRing'', ''UringPool'', ''ring_presets'', ''IO_URING_KERNEL_DOC'', ''LIBURING_PROJECT'',
     ''IoUringProbeInfo'', ''get_probe_info'', ''opcode_supported'', ''require_opcode_supported'',
     ''AsyncFile'', ''open'', ''async_open'']"

(* pyuring/__init__.py:73-114 __all__ *)
definition dunder_all :: "string list" where
  "dunder_all = listed_names @ UAPI_CONSTANT_NAMES"

(* pyuring/__init__.py:44-71 pyuring *)
definition load_package :: "exn + namespace" where
  "load_package =
     sum_bind shim_namespace (\<lambda>native.
     sum_bind (from_import native native_names (loaded ''_native'' (loaded ''native'' Map.empty))) (\<lambda>ns.
     sum_bind (import_all other_imports ns) (\<lambda>ns.
     sum_bind (copy_constants native UAPI_CONSTANT_NAMES (ns(''_native'' \<mapsto> Module ''_native''))) (\<lambda>ns.
     let ns = ns(''_name'' := None, ''_native'' := None);
         ns = ns(''__version__'' \<mapsto> Text ''0.3.3'', ''_DirectBindings'' \<mapsto> Attr ''pyuring'' ''_DirectBindings'');
         ns = ns(''direct'' \<mapsto> direct_object ns);
         ns = ns(''raw'' := ns ''direct'')
     in Inr ns))))"

subsection \<open>What is exported\<close>

lemma UAPI_names: "set UAPI_CONSTANT_NAMES = {n \<in> fst ` set module_constants. list_ex (startswith n) UAPI_PREFIXES}"
  by (auto simp: UAPI_CONSTANT_NAMES_def)

lemmas prefix_simps = UAPI_names UAPI_PREFIXES_def startswith_def

lemma plain_names:
  "set native_names \<inter> set UAPI_CONSTANT_NAMES = {}"
  "set (concat (map (\<lambda>(m, c, ns). m # ns) other_imports)) \<inter> set UAPI_CONSTANT_NAMES = {}"
  "set [''_name'', ''_native'', ''native'', ''__version__'', ''_DirectBindings'', ''direct'', ''raw''] \<inter> set UAPI_CONSTANT_NAMES = {}"
  "set [''uring_ctx'', ''UringCtx'', ''_IOVec'', ''structs'', ''KernelTimespec'', ''OpenHow'', ''EpollEvent'', ''FutexWaitv'',
     ''annotations'', ''ctypes'', ''c_void_p'', ''c_size_t'', ''UringError'', ''_raise_for_neg_errno''] \<inter> set UAPI_CONSTANT_NAMES = {}"
  by (simp_all add: prefix_simps native_names_def other_imports_def)

lemma copy_constants_ok:
  "\<forall>n \<in> set names. native n \<noteq> None \<Longrightarrow> ''_name'' \<notin> set names
    \<Longrightarrow> \<exists>ns'. copy_constants native names ns = Inr ns' \<and> (\<forall>n. n \<noteq> ''_name'' \<longrightarrow> ns' n = (if n \<in> set names then native n else ns n))"
proof (induction names arbitrary: ns)
  case (Cons name names)
  then obtain x where x: "native name = Some x" by auto
  have "\<forall>n \<in> set names. native n \<noteq> None" "''_name'' \<notin> set names" using Cons.prems by simp_all
  from Cons.IH [OF this] obtain ns' where ns': "copy_constants native names ((ns(''_name'' \<mapsto> Text name))(name \<mapsto> x)) = Inr ns'"
    "\<forall>n. n \<noteq> ''_name'' \<longrightarrow> ns' n = (if n \<in> set names then native n else ((ns(''_name'' \<mapsto> Text name))(name \<mapsto> x)) n)"
    by blast
  show ?case
  proof (intro exI conjI allI impI)
    show "copy_constants native (name # names) ns = Inr ns'" using x ns'(1) by simp
    show "ns' n = (if n \<in> set (name # names) then native n else ns n)" if "n \<noteq> ''_name''" for n
      using ns'(2) that x by simp
  qed
qed simp

lemma startswith_hd: "startswith n p \<Longrightarrow> p \<noteq> [] \<Longrightarrow> hd n = hd p"
  by (metis startswith_def hd_take length_greater_0_conv)

lemma UAPI_public: "n \<in> set UAPI_CONSTANT_NAMES \<Longrightarrow> is_public n"
  unfolding UAPI_names UAPI_PREFIXES_def by (auto simp: is_public_def dest!: startswith_hd)

lemma from_import_upd: "content n = Some x \<Longrightarrow> from_import content (n # names) ns = from_import content names (ns(n \<mapsto> x))"
  by simp

lemma SIGINFO_in: "''SIGINFO_T_SIZE'' \<in> fst ` set module_constants"
  using imported_constants(7) by (metis domI dom_map_of_conv_image_fst)

lemma initials: "list_all (\<lambda>(n, v). hd n \<noteq> CHR ''B'' \<and> hd n \<noteq> CHR ''c'' \<and> hd n \<noteq> CHR ''w'') module_constants"
  by code_simp

lemma not_constants:
  "''BufferPool'' \<notin> fst ` set module_constants"
  "''copy_path'' \<notin> fst ` set module_constants"
  "''copy_path_dynamic'' \<notin> fst ` set module_constants"
  "''write_newfile'' \<notin> fst ` set module_constants"
  "''write_newfile_dynamic'' \<notin> fst ` set module_constants"
  "''write_manyfiles'' \<notin> fst ` set module_constants"
  using initials by (fastforce simp: list_all_iff)+

lemma native_ok:
  "\<exists>sh. native_namespace = Inr sh \<and> (\<forall>n \<in> set UAPI_CONSTANT_NAMES. sh n = Some (Attr ''constants'' n))
    \<and> map sh native_names = map Some [Attr ''buffer_pool'' ''BufferPool'', Attr ''structs'' ''EpollEvent'',
        Attr ''structs'' ''FutexWaitv'', Attr ''structs'' ''OpenHow'', Attr ''constants'' ''SIGINFO_T_SIZE'',
        Attr ''constants'' ''UAPI_CONSTANT_NAMES'', Attr ''uring_ctx'' ''UringCtx'', Attr ''errors'' ''UringError'',
        Attr ''c_api'' ''copy_path'', Attr ''c_api'' ''copy_path_dynamic'', Attr ''c_api'' ''write_manyfiles'',
        Attr ''c_api'' ''write_newfile'', Attr ''c_api'' ''write_newfile_dynamic'']"
proof -
  obtain sh where sh: "native_namespace = Inr sh" "sh = (let start = [''annotations'' \<mapsto> Attr ''__future__'' ''annotations''];
     ns = (loaded ''buffer_pool'' (loaded ''library'' (loaded ''errors'' start)))(''BufferPool'' \<mapsto> Attr ''buffer_pool'' ''BufferPool'');
     ns = (loaded ''c_api'' ns)(''BufferSizeCallback'' \<mapsto> Attr ''c_api'' ''BufferSizeCallback'',
       ''copy_path'' \<mapsto> Attr ''c_api'' ''copy_path'', ''copy_path_dynamic'' \<mapsto> Attr ''c_api'' ''copy_path_dynamic'',
       ''write_manyfiles'' \<mapsto> Attr ''c_api'' ''write_manyfiles'', ''write_newfile'' \<mapsto> Attr ''c_api'' ''write_newfile'',
       ''write_newfile_dynamic'' \<mapsto> Attr ''c_api'' ''write_newfile_dynamic'');
     ns = (import_star constants_content (loaded ''constants'' ns))(''UringError'' \<mapsto> Attr ''errors'' ''UringError'',
       ''_raise_for_neg_errno'' \<mapsto> Attr ''errors'' ''_raise_for_neg_errno'');
     ns = (import_star structs_content (loaded ''structs'' ns))(''_IOVec'' \<mapsto> Attr ''structs'' ''_IOVec'')
     in (loaded ''uring_ctx'' ns)(''UringCtx'' \<mapsto> Attr ''uring_ctx'' ''UringCtx''))"
    by (simp add: native_namespace_def module_of_def c_api_content_def structs_content_def Let_def)
  have "sh n = Some (Attr ''constants'' n)" if n: "n \<in> set UAPI_CONSTANT_NAMES" for n
  proof -
    have "n \<notin> set [''uring_ctx'', ''UringCtx'', ''_IOVec'', ''structs'', ''KernelTimespec'', ''OpenHow'', ''EpollEvent'', ''FutexWaitv'',
     ''annotations'', ''ctypes'', ''c_void_p'', ''c_size_t'', ''UringError'', ''_raise_for_neg_errno'']"
      using plain_names(4) n by blast
    moreover have "n \<in> fst ` set module_constants" using n by (simp add: UAPI_names)
    ultimately show ?thesis using UAPI_public [OF n]
      by (simp add: sh(2) Let_def loaded_def import_star_def structs_content_def constants_content_def module_of_def)
  qed
  moreover have "map sh native_names = map Some [Attr ''buffer_pool'' ''BufferPool'', Attr ''structs'' ''EpollEvent'',
        Attr ''structs'' ''FutexWaitv'', Attr ''structs'' ''OpenHow'', Attr ''constants'' ''SIGINFO_T_SIZE'',
        Attr ''constants'' ''UAPI_CONSTANT_NAMES'', Attr ''uring_ctx'' ''UringCtx'', Attr ''errors'' ''UringError'',
        Attr ''c_api'' ''copy_path'', Attr ''c_api'' ''copy_path_dynamic'', Attr ''c_api'' ''write_manyfiles'',
        Attr ''c_api'' ''write_newfile'', Attr ''c_api'' ''write_newfile_dynamic'']"
    by (simp add: native_names_def sh(2) Let_def loaded_def import_star_def structs_content_def constants_content_def
        module_of_def is_public_def not_constants SIGINFO_in)
  ultimately show ?thesis using sh(1) by blast
qed

lemma shim_ok:
  "\<exists>sh. shim_namespace = Inr sh \<and> (\<forall>n \<in> set UAPI_CONSTANT_NAMES. sh n = Some (Attr ''constants'' n))
    \<and> map sh native_names = map Some [Attr ''buffer_pool'' ''BufferPool'', Attr ''structs'' ''EpollEvent'',
        Attr ''structs'' ''FutexWaitv'', Attr ''structs'' ''OpenHow'', Attr ''constants'' ''SIGINFO_T_SIZE'',
        Attr ''constants'' ''UAPI_CONSTANT_NAMES'', Attr ''uring_ctx'' ''UringCtx'', Attr ''errors'' ''UringError'',
        Attr ''c_api'' ''copy_path'', Attr ''c_api'' ''copy_path_dynamic'', Attr ''c_api'' ''write_manyfiles'',
        Attr ''c_api'' ''write_newfile'', Attr ''c_api'' ''write_newfile_dynamic'']"
proof -
  obtain native where native: "native_namespace = Inr native"
      "\<forall>n \<in> set UAPI_CONSTANT_NAMES. native n = Some (Attr ''constants'' n)"
      "map native native_names = map Some [Attr ''buffer_pool'' ''BufferPool'', Attr ''structs'' ''EpollEvent'',
        Attr ''structs'' ''FutexWaitv'', Attr ''structs'' ''OpenHow'', Attr ''constants'' ''SIGINFO_T_SIZE'',
        Attr ''constants'' ''UAPI_CONSTANT_NAMES'', Attr ''uring_ctx'' ''UringCtx'', Attr ''errors'' ''UringError'',
        Attr ''c_api'' ''copy_path'', Attr ''c_api'' ''copy_path_dynamic'', Attr ''c_api'' ''write_manyfiles'',
        Attr ''c_api'' ''write_newfile'', Attr ''c_api'' ''write_newfile_dynamic'']"
    using native_ok by blast
  let ?sh = "import_star native [''annotations'' \<mapsto> Attr ''__future__'' ''annotations'']"
  have "map ?sh native_names = map native native_names"
    using native(3) by (simp add: native_names_def import_star_def is_public_def)
  moreover have "shim_namespace = Inr ?sh" unfolding shim_namespace_def native(1) by simp
  moreover have "\<forall>n \<in> set UAPI_CONSTANT_NAMES. ?sh n = Some (Attr ''constants'' n)"
    using native(2) UAPI_public by (simp add: import_star_def)
  ultimately show ?thesis using native(3) by metis
qed

lemma from_import_ok:
  "set names \<subseteq> dom content \<Longrightarrow> \<exists>ns'. from_import content names ns = Inr ns' \<and> dom ns' = dom ns \<union> set names"
proof (induction names arbitrary: ns)
  case (Cons n names)
  then obtain x where x: "content n = Some x" by auto
  have "set names \<subseteq> dom content" using Cons.prems by simp
  then obtain ns' where "from_import content names (ns(n \<mapsto> x)) = Inr ns'" "dom ns' = dom (ns(n \<mapsto> x)) \<union> set names"
    using Cons.IH by blast
  then show ?case using x by simp
qed simp

lemma import_all_ok:
  "list_all (\<lambda>(m, c, names). set names \<subseteq> dom c) todo \<Longrightarrow> \<exists>ns'. import_all todo ns = Inr ns'
     \<and> dom ns' = dom ns \<union> set (concat (map (\<lambda>(m, c, names). m # names) todo))"
proof (induction todo arbitrary: ns)
  case (Cons i todo)
  obtain m c names where i: "i = (m, c, names)" by (cases i)
  then obtain ns1 where one: "from_import c names (loaded m ns) = Inr ns1" "dom ns1 = dom (loaded m ns) \<union> set names"
    using from_import_ok [of names c "loaded m ns"] Cons.prems by (simp add: i) blast
  obtain ns2 where "import_all todo ns1 = Inr ns2" "dom ns2 = dom ns1 \<union> set (concat (map (\<lambda>(m, c, names). m # names) todo))"
    using Cons.IH [of ns1] Cons.prems by (simp only: list.pred_inject) blast
  then show ?case using one by (auto simp: i loaded_def)
qed simp

lemma other_imports_found: "list_all (\<lambda>(m, c, names). set names \<subseteq> dom c) other_imports"
  by (simp add: other_imports_def module_of_def dom_def)

lemma list_memberE: "x \<in> set (y # ys) \<Longrightarrow> (x = y \<Longrightarrow> P) \<Longrightarrow> (x \<in> set ys \<Longrightarrow> P) \<Longrightarrow> P"
  by auto

lemma listed_names_bound:
  "n \<in> set listed_names \<Longrightarrow> n = ''direct'' \<or> n = ''raw''
     \<or> (n \<in> set native_names \<union> set (concat (map (\<lambda>(m, c, ns). m # ns) other_imports)) \<and> n \<noteq> ''_name'' \<and> n \<noteq> ''_native'')"
  unfolding listed_names_def by (elim list_memberE) (simp_all add: native_names_def other_imports_def)

text \<open>
  The package exports what it lists.  Loading it raises nothing; every name of \<open>__all__\<close> is bound; \<open>raw\<close> is
  \<open>direct\<close>, whose attributes are the objects the package binds under the same names; the
  constants are those of the constants module.  But the attribute \<open>_native\<close> is gone afterwards.
\<close>

theorem package_exports_what_it_lists:
  "\<exists>ns. load_package = Inr ns \<and> set dunder_all \<subseteq> dom ns \<and> set direct_attributes \<subseteq> dom ns
    \<and> ns ''raw'' = ns ''direct'' \<and> ns ''direct'' = Some (Grouped (map (\<lambda>n. (n, ns n)) direct_attributes))
    \<and> map ns UAPI_CONSTANT_NAMES = map (\<lambda>n. Some (Attr ''constants'' n)) UAPI_CONSTANT_NAMES
    \<and> ns ''_native'' = None"
proof -
  obtain sh where sh: "shim_namespace = Inr sh" "\<forall>n \<in> set UAPI_CONSTANT_NAMES. sh n = Some (Attr ''constants'' n)"
      "map sh native_names = map Some [Attr ''buffer_pool'' ''BufferPool'', Attr ''structs'' ''EpollEvent'',
        Attr ''structs'' ''FutexWaitv'', Attr ''structs'' ''OpenHow'', Attr ''constants'' ''SIGINFO_T_SIZE'',
        Attr ''constants'' ''UAPI_CONSTANT_NAMES'', Attr ''uring_ctx'' ''UringCtx'', Attr ''errors'' ''UringError'',
        Attr ''c_api'' ''copy_path'', Attr ''c_api'' ''copy_path_dynamic'', Attr ''c_api'' ''write_manyfiles'',
        Attr ''c_api'' ''write_newfile'', Attr ''c_api'' ''write_newfile_dynamic'']"
    using shim_ok by blast
  have "set native_names \<subseteq> dom sh" using sh(3) by (simp add: native_names_def domIff)
  then obtain ns1 where ns1: "from_import sh native_names (loaded ''_native'' (loaded ''native'' Map.empty)) = Inr ns1"
      "set native_names \<subseteq> dom ns1"
    using from_import_ok by (metis Un_upper2)
  obtain ns2 where ns2': "import_all other_imports ns1 = Inr ns2"
      "dom ns2 = dom ns1 \<union> set (concat (map (\<lambda>(m, c, ns). m # ns) other_imports))"
    using import_all_ok [OF other_imports_found] by blast
  have ns2: "import_all other_imports ns1 = Inr ns2"
      "set native_names \<union> set (concat (map (\<lambda>(m, c, ns). m # ns) other_imports)) \<subseteq> dom ns2"
    unfolding ns2'(2) using ns1(2) ns2'(1) by blast+
  have noname: "''_name'' \<notin> set UAPI_CONSTANT_NAMES" using plain_names(3) by auto
  have found: "\<forall>n \<in> set UAPI_CONSTANT_NAMES. sh n \<noteq> None" using sh(2) by simp
  obtain ns3 where ns3: "copy_constants sh UAPI_CONSTANT_NAMES (ns2(''_native'' \<mapsto> Module ''_native'')) = Inr ns3"
      "\<forall>n. n \<noteq> ''_name'' \<longrightarrow> ns3 n = (if n \<in> set UAPI_CONSTANT_NAMES then sh n else (ns2(''_native'' \<mapsto> Module ''_native'')) n)"
    using copy_constants_ok [OF found noname] by blast
  define ns4 where "ns4 = (ns3(''_name'' := None, ''_native'' := None))
    (''__version__'' \<mapsto> Text ''0.3.3'', ''_DirectBindings'' \<mapsto> Attr ''pyuring'' ''_DirectBindings'')"
  define ns where "ns = (ns4(''direct'' \<mapsto> direct_object ns4))(''raw'' \<mapsto> direct_object ns4)"
  have load: "load_package = Inr ns"
    unfolding load_package_def sh(1) sum_bind_simps ns1(1) ns2(1) ns3(1) Let_def
    by (simp only: ns4_def [symmetric]) (simp add: ns_def)
  have const: "ns n = Some (Attr ''constants'' n)" if "n \<in> set UAPI_CONSTANT_NAMES" for n
  proof -
    have "n \<notin> set [''_name'', ''_native'', ''native'', ''__version__'', ''_DirectBindings'', ''direct'', ''raw'']"
      using plain_names(3) that by blast
    then show ?thesis using ns3(2) sh(2) that by (simp add: ns_def ns4_def)
  qed
  have kept: "n \<in> dom ns4" if "n \<in> set native_names \<union> set (concat (map (\<lambda>(m, c, ns). m # ns) other_imports))"
      "n \<noteq> ''_name''" "n \<noteq> ''_native''" for n
  proof -
    have "n \<in> dom ns2" "n \<notin> set UAPI_CONSTANT_NAMES" using that(1) ns2(2) plain_names(1,2) by blast+
    then show ?thesis using ns3(2) that(2,3) by (auto simp: ns4_def domIff)
  qed
  have direct: "set direct_attributes \<subseteq> dom ns4"
  proof -
    have "set direct_attributes \<subseteq> set native_names \<union> set (concat (map (\<lambda>(m, c, ns). m # ns) other_imports)) - {''_name'', ''_native''}"
      by (simp add: direct_attributes_def native_names_def other_imports_def)
    then show ?thesis using kept by blast
  qed
  have "ns n = ns4 n" if "n \<in> set direct_attributes" for n using that by (auto simp: ns_def direct_attributes_def)
  then have same: "map (\<lambda>n. (n, ns n)) direct_attributes = map (\<lambda>n. (n, ns4 n)) direct_attributes" by simp
  have "set dunder_all \<subseteq> dom ns"
  proof -
    have "set listed_names \<subseteq> dom ns"
    proof
      fix n assume n: "n \<in> set listed_names"
      then have "n = ''direct'' \<or> n = ''raw'' \<or> n \<in> dom ns4" using listed_names_bound kept by blast
      then show "n \<in> dom ns" by (auto simp: ns_def)
    qed
    then show ?thesis using const by (auto simp: dunder_all_def)
  qed
  moreover have "set direct_attributes \<subseteq> dom ns" using direct by (auto simp: ns_def)
  moreover have "ns ''_native'' = None" by (simp add: ns_def ns4_def)
  ultimately show ?thesis using load const same by (intro exI [of _ ns]) (simp add: ns_def direct_object_def)
qed

end
