(* ===== verification/Spec2Isabelle.thy ===== *)
theory Spec2Isabelle
  imports Async_Props Ctx_Props Pool_Props Easy_Props Aio_Props Async_File_Props Ring_Props Copy_Short Batch_Props
    Write_Props Many_Props File_Kernel Sources_Props Coroutine_Props Build Exports
begin

text \<open>
  A model of pyuring, the Python binding of io_uring: the package \<open>src/pyuring/\<close>, which calls the
  C library \<open>src/csrc/uring_wrap.c\<close> through ctypes, which calls liburing.

  \<^bold>\<open>The program.\<close>  \<open>UringCtx\<close> owns one ring.  Its methods check that the object is open and used by
  its own thread, convert the arguments as ctypes does, call one C function and raise
  \<open>UringError\<close> for a negative result.  The synchronous methods wait for their own completion;
  the asynchronous ones submit under a tag (\<open>user_data\<close>), pin the buffer, and release it when
  \<open>wait_completion\<close> or \<open>peek_completion\<close> returns the tag.  \<open>UringAsync\<close> lets asyncio tasks wait for
  completions; \<open>AsyncFile\<close> is a file over both.  \<open>UringPool\<close> is a list of rings, \<open>BufferRing\<close> a slab of
  receive buffers, \<open>BufferPool\<close> a set of buffers in C memory.  \<open>copy\<close>, \<open>write\<close> and \<open>write_many\<close>
  choose a queue depth, a block size and a sync policy and run a pipeline written in C.

  \<^bold>\<open>Conventions.\<close>  A method is a function from a state to an exception or a result, and the
  state after it (type \<open>py\<close> of \<open>Py_Prelude\<close>): the state is that of the object and a world of
  any type that native calls change.  Native functions, the event loop, the operating system
  and liburing are arguments (\<open>env\<close>, \<open>aio_env\<close>, \<open>file_env\<close>, \<open>heap\<close>, \<open>liburing\<close>,
  \<open>pipelines\<close>), and what a theorem needs of them is one of its hypotheses.  Python integers
  are \<open>int\<close>, converted to their C width where ctypes converts them; exceptions are values.

  \<^bold>\<open>Theories, bottom up\<close> (modelled file first):
  \<^item> \<open>Py_Prelude\<close>: exceptions, the combinators of methods, conversions to C integers.
    \<open>Uring_Errors\<close>: \<open>native/errors.py\<close>.  \<open>Uapi_Constants\<close>: \<open>native/constants.py\<close> and
    \<open>ring_presets.py\<close>.
  \<^item> \<open>Native_Abi\<close>: ctypes types, the conversion of arguments and results, the structures of
    \<open>native/structs.py\<close>, and for every native function its declared \<open>argtypes\<close> and
    \<open>restype\<close> beside its C signature.
  \<^item> \<open>Ctx_Core\<close>, \<open>Ctx_Sync\<close>, \<open>Ctx_Net\<close>, \<open>Ctx_Misc\<close>, \<open>Ctx_Async\<close>: \<open>native/uring_ctx.py\<close>,
    one definition per method.  \<open>Ctx_Contract\<close> has a contract on methods (guard first; calls
    within bounds; arguments convert; no call after a failed one, which is raised) with one rule per
    combinator; \<open>Ctx_Api\<close> collects all public methods but \<open>close\<close> and \<open>__exit__\<close> in the relation
    \<open>ring_method\<close> and proves it for each; \<open>Ctx_Props\<close> draws the consequences, and treats \<open>close\<close> and
    \<open>__exit__\<close> beside them.
  \<^item> \<open>Async_Ring\<close>: the C functions behind the asynchronous methods over a liburing that is
    an argument, the states these methods can reach with tags not in use, whatever of them raises, and their invariant
    (tags unique, memory pinned); \<open>Async_Props\<close>.
  \<^item> \<open>Pool_C\<close>: the buffer pool in C over an allocator; \<open>Buffer_Pool\<close>: the class over it;
    \<open>Pool_Props\<close>: the life of a pool from create to close, with its allocations.
  \<^item> \<open>Resource\<close>: the locale \<open>closable\<close> (guard, enter, close) and the \<open>with\<close> statement.
  \<^item> \<open>Aio\<close>, \<open>Aio_Helpers\<close>: \<open>aio.py\<close>.  \<open>wait_completion\<close> is cut at its \<open>await\<close>; the tasks, the
    callback of the loop and cancellation interleave in \<open>aio_step\<close>.  \<open>Aio_Props\<close>.
  \<^item> \<open>Async_File\<close>: \<open>async_file.py\<close>, with the parts under the lock as one step each, over the
    answers of \<open>await\<close>.  \<open>Async_File_Props\<close>.
  \<^item> \<open>Capabilities\<close>: \<open>capabilities.py\<close> and \<open>native/library.py\<close>.  \<open>Ring_Pool\<close>: \<open>pool.py\<close> and
    \<open>buffer_ring.py\<close>, over a heap of contexts.  \<open>Ring_Props\<close>.
  \<^item> \<open>Easy_Api\<close>: \<open>_easy.py\<close> and \<open>native/c_api.py\<close>, with the C pipelines as arguments.  \<open>Easy_Props\<close>.
  \<^item> \<open>Pipeline_Size\<close>, \<open>Copy_Pipeline\<close>: \<open>uring_copy_path_dynamic\<close> in C: sizing of the buffers, tags,
    priming, the handler of a completion, the end; \<open>copy_step\<close> lets the kernel complete any
    request in flight.  \<open>Copy_Props\<close>; \<open>Copy_Short\<close> for transfers that are not full.
  \<^item> \<open>Write_Pipeline\<close>: \<open>uring_write_newfile_dynamic\<close>; \<open>Many_Files\<close>: \<open>uring_write_manyfiles\<close>, in rounds
    of queueing, submitting and reaping a batch that the kernel chooses.  \<open>Write_Props\<close>, \<open>Many_Props\<close>.
  \<^item> \<open>Batch_Read\<close>: \<open>uring_read_batch_sync\<close> and \<open>uring_read_offsets_sync\<close>, over a ring whose batches are
    an argument.  \<open>Batch_Props\<close>.
  \<^item> \<open>Sync_Wrappers\<close>: the creation and registration functions, the probe, and the synchronous
    wrappers of \<open>csrc/uring_wrap.c\<close>, each as its argument check and the entry it prepares, over
    \<open>one_request\<close>.  \<open>Sync_Props\<close>: which completion a synchronous call returns; \<open>File_Kernel\<close>: \<open>write\<close> and
    \<open>read\<close> from the method down to the file.
  \<^item> \<open>Loader\<close>: \<open>src/examples\<close> and the benchmark readers of \<open>src/scripts/gen_example_graphs.py\<close>, over a
    record \<open>reader\<close> of the operations they use; \<open>ring_reader\<close> and \<open>aio_reader\<close> take them from \<open>UringCtx\<close>
    and from a coroutine.  \<open>Loader_Props\<close> states what a reader promises and proves the loop;
    \<open>Loader_Ring\<close> shows that \<open>UringCtx\<close> passes the promise of the native functions on, and \<open>Block_Read\<close>
    the same in a coroutine.
  \<^item> \<open>Programs\<close>: the \<open>main\<close> functions of the examples and the life of the FastAPI application; \<open>Sources\<close>:
    \<open>export_db.py\<close> and \<open>fetch_data.py\<close>.  A program returns the numbers it prints, over a record \<open>disk\<close> (files and
    temporary directories), a \<open>database\<close> or a server.  \<open>Programs_Props\<close>, \<open>Sources_Props\<close> and
    \<open>Coroutine_Props\<close>: the programs before and after agree, and leave the disk as they found it.
  \<^item> \<open>Build\<close>: \<open>setup.py\<close>, with \<open>make\<close> as an argument.
  \<^item> \<open>Exports\<close>: \<open>__init__.py\<close>, \<open>_native.py\<close> and \<open>native/__init__.py\<close> as name spaces.

  \<^bold>\<open>Interfaces.\<close>  \<open>closable\<close> is interpreted by \<open>UringCtx\<close> and \<open>BufferPool\<close>; \<open>completion_source\<close> (what
  \<open>UringAsync\<close> needs of a context to keep its tasks watched) and \<open>completion_queue\<close> (to hand
  completions on in order) by \<open>UringCtx\<close> over a native library that serves its descriptor;
  \<open>mode_tuning\<close> by the presets of copying and of writing.

  \<^bold>\<open>What the theorems show.\<close>  Safety of memory: no native call reads or writes past the memory a wrapper hands over,
  buffers of asynchronous operations in flight are kept, the pool frees what it allocates, transfers fit
  their slots.  Function: reading a file returns its bytes, a copy is exact in any order of
  completions, new files get all their blocks, \<open>sendfile_splice\<close> sends its range into a pipe, completions reach
  their waiters in order, a synchronous call on an idle ring returns its own result, what was
  written is read back, the batched
  loaders return what is in the files, and the example programs print what those they replace print.  Ends: closing releases once and for all, the
  loops terminate.  Errors: the first failed native call is raised; and the paths where the code does
  not do what it means to: tags in use, completions of others, cancelled reads, short transfers, a second
  request, a splice into a socket.

  \<^bold>\<open>Bounds and loops.\<close>  The loops of \<open>sendfile_splice\<close>, of the multishot iterator and of \<open>read(-1)\<close>
  depend on the kernel and may not end: they are \<open>partial_function (option)\<close>, and the theorems
  show that a result exists.  \<open>probe_max\<close> and the slices of \<open>read(n)\<close> terminate by a measure; the
  copy loop is a step relation, bounded by twice the size of the file.  Offsets and sizes
  of the C pipeline are naturals: they stay below the file size plus one block; the sums that may wrap (the
  letters of a slot, the size of many files, the results of a batch) wrap.

  The loops of the other pipelines are step relations too, bounded by the bytes to write.  The
  \<open>while\<close> loop of the loaders is a \<open>partial_function (option)\<close>: it returns for every positive
  batch size and does not for 0.

  A size callback of the C pipelines is a function of the offset, the total and the default size it is given: one
  that answers differently the second time it is asked the same is outside.  Progress callbacks may
  cancel at any number of bytes.

  \<^bold>\<open>Not modelled.\<close>  The shell scripts, and the charts and clocks of \<open>gen_example_graphs.py\<close>: they run other
  programs, measure and draw.  Of the programs, the parsing of arguments, which are a map from
  the options given to their values, the text around the numbers printed and the progress bar of
  the downloads.  In C, opening the files of the copy and new-file pipelines and setting up their ring come
  before the models start.
\<close>

end
